(* ===== verification/Prelude.thy ===== *)
theory Prelude
  imports Complex_Main "HOL-Library.Sublist" "HOL-Library.List_Lexorder" "HOL-Library.Char_ord"
begin

text \<open>
  Shared vocabulary of the development: Rust's \<open>Result\<close> as a sum type with the propagation
  the \<open>?\<close> operator performs, Rust's \<open>str\<close> as the list of its UTF-8 bytes, \<open>BTreeMap\<close> and
  \<open>BTreeSet\<close> as strictly sorted lists behind one interface (a locale), the saturating and
  checked integer conversions of the standard library, and the row updates by which every
  SQL \<open>UPDATE\<close> of the store is expressed.
\<close>

named_theorems result_simps \<open>evaluation of Result pipelines\<close>
named_theorems table_simps \<open>row selection and row update\<close>

section \<open>Results\<close>

type_synonym ('e, 'a) result = "'e + 'a"

abbreviation Ok :: "'a \<Rightarrow> ('e, 'a) result" where
  "Ok \<equiv> Inr"

abbreviation Err :: "'e \<Rightarrow> ('e, 'a) result" where
  "Err \<equiv> Inl"

fun and_then :: "('e, 'a) result \<Rightarrow> ('a \<Rightarrow> ('e, 'b) result) \<Rightarrow> ('e, 'b) result" where
  "and_then (Inl e) f = Inl e"
| "and_then (Inr a) f = f a"

definition ensure :: "bool \<Rightarrow> 'e \<Rightarrow> ('e, unit) result" where
  "ensure c e = (if c then Ok () else Err e)"

fun ok_or :: "'e \<Rightarrow> 'a option \<Rightarrow> ('e, 'a) result" where
  "ok_or e None = Err e"
| "ok_or e (Some a) = Ok a"

fun map_err :: "('e \<Rightarrow> 'f) \<Rightarrow> ('e, 'a) result \<Rightarrow> ('f, 'a) result" where
  "map_err f (Inl e) = Inl (f e)"
| "map_err f (Inr a) = Inr a"

fun is_ok :: "('e, 'a) result \<Rightarrow> bool" where
  "is_ok (Inl e) = False"
| "is_ok (Inr a) = True"

text \<open>\<open>iter().map(f).collect::<Result<Vec<_>, _>>()\<close>: the first error ends the traversal.\<close>

fun traverse :: "('a \<Rightarrow> ('e, 'b) result) \<Rightarrow> 'a list \<Rightarrow> ('e, 'b list) result" where
  "traverse f [] = Ok []"
| "traverse f (x # xs) = and_then (f x) (\<lambda>y. and_then (traverse f xs) (\<lambda>ys. Ok (y # ys)))"

lemma and_then_Ok [simp, result_simps]:
  "and_then r f = Inr b \<longleftrightarrow> (\<exists>a. r = Inr a \<and> f a = Inr b)"
  by (cases r) auto

lemma and_thenE:
  assumes "and_then r f = Inr b"
  obtains a where "r = Inr a" "f a = Inr b"
  using assms by (cases r) auto

lemma and_then_Err [result_simps]:
  "and_then r f = Inl e \<longleftrightarrow> r = Inl e \<or> (\<exists>a. r = Inr a \<and> f a = Inl e)"
  by (cases r) auto

lemma ensure_Ok [simp, result_simps]: "ensure c e = Inr u \<longleftrightarrow> c"
  by (simp add: ensure_def)

lemma ensure_Err [simp, result_simps]: "ensure c e = Inl e' \<longleftrightarrow> \<not> c \<and> e' = e"
  by (auto simp: ensure_def)

lemma ok_or_Ok [simp, result_simps]: "ok_or e r = Inr a \<longleftrightarrow> r = Some a"
  by (cases r) auto

lemma ok_or_Err [simp, result_simps]: "ok_or e r = Inl e' \<longleftrightarrow> r = None \<and> e' = e"
  by (cases r) auto

lemma map_err_Ok [simp, result_simps]: "map_err f r = Inr a \<longleftrightarrow> r = Inr a"
  by (cases r) auto

lemma is_ok_iff: "is_ok r \<longleftrightarrow> (\<exists>a. r = Inr a)"
  by (cases r) auto

lemma result_unit_cases: "(\<forall>e. r \<noteq> Inl e) \<Longrightarrow> r = Inr ()"
  by (cases r) auto

lemma traverse_Ok_iff:
  "traverse f xs = Inr ys \<longleftrightarrow> length xs = length ys \<and> (\<forall>i < length xs. f (xs ! i) = Inr (ys ! i))"
proof (induction xs arbitrary: ys)
  case (Cons x xs)
  show ?case
    by (cases ys) (auto simp: Cons.IH nth_Cons split: nat.splits)
qed auto

lemma traverse_length: "traverse f xs = Inr ys \<Longrightarrow> length ys = length xs"
  by (simp add: traverse_Ok_iff)

lemma traverse_Ok_set:
  "traverse f xs = Inr ys \<Longrightarrow> y \<in> set ys \<Longrightarrow> \<exists>x \<in> set xs. f x = Inr y"
  by (metis in_set_conv_nth traverse_Ok_iff)

lemma traverse_total: "(\<And>x. x \<in> set xs \<Longrightarrow> f x = Inr (g x)) \<Longrightarrow> traverse f xs = Inr (map g xs)"
  by (induction xs) auto

lemma traverse_Err: "traverse f xs = Inl e \<Longrightarrow> \<exists>x \<in> set xs. f x = Inl e"
  by (induction xs) (auto simp: and_then_Err)

lemma find_append: "find p (xs @ ys) = (case find p xs of Some x \<Rightarrow> Some x | None \<Rightarrow> find p ys)"
  by (induction xs) auto

lemma find_Some_in: "find p rs = Some r \<Longrightarrow> r \<in> set rs \<and> p r"
  by (auto simp: find_Some_iff)

section \<open>Text as UTF-8 bytes\<close>

type_synonym bytes = string

definition byte :: "char \<Rightarrow> nat" where
  "byte c = of_char c"

definition is_continuation :: "char \<Rightarrow> bool" where
  "is_continuation c \<longleftrightarrow> 128 \<le> byte c \<and> byte c < 192"

definition is_ascii_lowercase :: "char \<Rightarrow> bool" where
  "is_ascii_lowercase c \<longleftrightarrow> 97 \<le> byte c \<and> byte c \<le> 122"

definition is_ascii_digit :: "char \<Rightarrow> bool" where
  "is_ascii_digit c \<longleftrightarrow> 48 \<le> byte c \<and> byte c \<le> 57"

text \<open>The text of a number in decimal, as Rust's \<open>Display\<close> and the JSON encoder print it.\<close>

fun decimal :: "nat \<Rightarrow> bytes" where
  "decimal n = (if n < 10 then [char_of (48 + n)] else decimal (n div 10) @ [char_of (48 + n mod 10)])"

declare decimal.simps [simp del]

text \<open>The value of a text of decimal digits.\<close>

definition digits_value :: "bytes \<Rightarrow> nat" where
  "digits_value t = foldl (\<lambda>a c. 10 * a + (byte c - 48)) 0 t"

lemma decimal_one: "n < 10 \<Longrightarrow> decimal n = [char_of (48 + n)]"
  by (subst decimal.simps) simp

lemma decimal_digits: "\<forall>c \<in> set (decimal n). is_ascii_digit c"
  by (induction n rule: decimal.induct) (subst decimal.simps, auto simp: is_ascii_digit_def byte_def of_char_of)

lemma decimal_not_Nil [simp]: "decimal n \<noteq> []"
  by (subst decimal.simps) simp

lemma byte_digit: "i < 10 \<Longrightarrow> byte (char_of (48 + i)) = 48 + i"
  by (simp add: byte_def of_char_of)

lemma digits_value_decimal: "digits_value (decimal n) = n"
proof (induction n rule: decimal.induct)
  case (1 n)
  show ?case
  proof (cases "n < 10")
    case False
    then have "decimal n = decimal (n div 10) @ [char_of (48 + n mod 10)]" by (subst decimal.simps) simp
    then have "digits_value (decimal n) = 10 * (n div 10) + (byte (char_of (48 + n mod 10)) - 48)"
      using 1 [OF False] by (simp add: digits_value_def)
    then show ?thesis using byte_digit [of "n mod 10"] by simp
  qed (simp add: digits_value_def decimal_one byte_digit)
qed

text \<open>\<open>str::chars().count()\<close>: every character has exactly one byte that is no continuation.\<close>

definition char_count :: "bytes \<Rightarrow> nat" where
  "char_count s = length (filter (\<lambda>c. \<not> is_continuation c) s)"

text \<open>The encoding of the first character of a non-empty text.\<close>

fun first_char :: "bytes \<Rightarrow> bytes" where
  "first_char [] = []"
| "first_char (c # cs) = c # takeWhile is_continuation cs"

text \<open>\<open>str::split_once\<close> at an ASCII separator.\<close>

fun split_once :: "char \<Rightarrow> bytes \<Rightarrow> (bytes \<times> bytes) option" where
  "split_once sep [] = None"
| "split_once sep (c # cs) =
     (if c = sep then Some ([], cs) else map_option (\<lambda>(k, v). (c # k, v)) (split_once sep cs))"

lemma split_once_prefix: "c \<notin> set a \<Longrightarrow> split_once c (a @ c # b) = Some (a, b)"
  by (induction a) auto

lemma split_onceD: "split_once c v = Some (a, b) \<Longrightarrow> v = a @ c # b \<and> c \<notin> set a"
  by (induction v arbitrary: a) (auto split: if_splits)

text \<open>\<open>str::is_char_boundary\<close>.\<close>

definition is_char_boundary :: "bytes \<Rightarrow> nat \<Rightarrow> bool" where
  "is_char_boundary s i \<longleftrightarrow> i = 0 \<or> i = length s \<or> (i < length s \<and> \<not> is_continuation (s ! i))"

text \<open>
  The UTF-8 encodings of the Unicode \<open>White_Space\<close> class, which \<open>str::trim\<close> removes at both
  ends of a text.
\<close>

definition white_space :: "bytes list" where
  "white_space = [
     [CHR 0x20], [CHR 0x09], [CHR 0x0A], [CHR 0x0B], [CHR 0x0C], [CHR 0x0D],
     [CHR 0xC2, CHR 0x85], [CHR 0xC2, CHR 0xA0], [CHR 0xE1, CHR 0x9A, CHR 0x80],
     [CHR 0xE2, CHR 0x80, CHR 0x80], [CHR 0xE2, CHR 0x80, CHR 0x81],
     [CHR 0xE2, CHR 0x80, CHR 0x82], [CHR 0xE2, CHR 0x80, CHR 0x83],
     [CHR 0xE2, CHR 0x80, CHR 0x84], [CHR 0xE2, CHR 0x80, CHR 0x85],
     [CHR 0xE2, CHR 0x80, CHR 0x86], [CHR 0xE2, CHR 0x80, CHR 0x87],
     [CHR 0xE2, CHR 0x80, CHR 0x88], [CHR 0xE2, CHR 0x80, CHR 0x89],
     [CHR 0xE2, CHR 0x80, CHR 0x8A], [CHR 0xE2, CHR 0x80, CHR 0xA8],
     [CHR 0xE2, CHR 0x80, CHR 0xA9], [CHR 0xE2, CHR 0x80, CHR 0xAF],
     [CHR 0xE2, CHR 0x81, CHR 0x9F], [CHR 0xE3, CHR 0x80, CHR 0x80]]"

function strip_front :: "bytes list \<Rightarrow> bytes \<Rightarrow> bytes" where
  "strip_front encodings s =
     (case find (\<lambda>e. e \<noteq> [] \<and> prefix e s) encodings of
        None \<Rightarrow> s
      | Some e \<Rightarrow> strip_front encodings (drop (length e) s))"
  by pat_completeness auto
termination
  by (relation "measure (length \<circ> snd)") (auto simp: find_Some_iff prefix_def)

declare strip_front.simps [simp del]

definition trim :: "bytes \<Rightarrow> bytes" where
  "trim s = rev (strip_front (map rev white_space) (rev (strip_front white_space s)))"

lemma strip_front_suffix: "\<exists>p. s = p @ strip_front es s"
proof (induction es s rule: strip_front.induct)
  case (1 es s)
  show ?case
  proof (cases "find (\<lambda>e. e \<noteq> [] \<and> prefix e s) es")
    case None
    then show ?thesis by (simp add: strip_front.simps)
  next
    case (Some e)
    then have "prefix e s" by (auto simp: find_Some_iff)
    then obtain t where t: "s = e @ t" by (auto simp: prefix_def)
    from 1 [OF Some] obtain p where "drop (length e) s = p @ strip_front es (drop (length e) s)"
      by blast
    moreover have "strip_front es s = strip_front es (drop (length e) s)"
      using Some by (subst strip_front.simps) simp
    ultimately have "s = (e @ p) @ strip_front es s" using t by simp
    then show ?thesis by blast
  qed
qed

lemma strip_front_id: "(\<And>e. e \<in> set es \<Longrightarrow> e = [] \<or> \<not> prefix e s) \<Longrightarrow> strip_front es s = s"
  by (subst strip_front.simps) (auto split: option.splits dest: find_Some_in)

lemma trim_subset: "set (trim s) \<subseteq> set s"
proof -
  obtain p where p: "s = p @ strip_front white_space s" using strip_front_suffix by blast
  obtain q where q: "rev (strip_front white_space s) =
      q @ strip_front (map rev white_space) (rev (strip_front white_space s))"
    using strip_front_suffix by blast
  have "set (trim s) \<subseteq> set (strip_front white_space s)"
    unfolding trim_def using q by (metis set_append set_rev sup.cobounded2)
  also have "\<dots> \<subseteq> set s" using p by (metis set_append sup.cobounded2)
  finally show ?thesis .
qed

lemma trim_Nil [simp]: "trim [] = []"
  by (metis set_empty2 subset_empty trim_subset empty_set)

lemma trim_length: "length (trim s) \<le> length s"
proof -
  have *: "length (strip_front es t) \<le> length t" for es t
    by (metis strip_front_suffix length_append le_add2)
  show ?thesis
    unfolding trim_def by (metis * length_rev le_trans)
qed

section \<open>Ordered maps and sets\<close>

text \<open>
  \<open>BTreeMap\<close> and \<open>serde_json::Map\<close> (built without \<open>preserve_order\<close>) iterate in key order.  They
  are the strictly sorted association lists below; the components reach them through the laws
  of the locale \<open>ordered_map\<close>.
\<close>

type_synonym ('k, 'v) btree = "('k \<times> 'v) list"

fun bt_get :: "('k, 'v) btree \<Rightarrow> 'k \<Rightarrow> 'v option" where
  "bt_get [] k = None"
| "bt_get ((k', v) # m) k = (if k' = k then Some v else bt_get m k)"

fun bt_insert :: "'k::linorder \<Rightarrow> 'v \<Rightarrow> ('k, 'v) btree \<Rightarrow> ('k, 'v) btree" where
  "bt_insert k v [] = [(k, v)]"
| "bt_insert k v ((k', v') # m) =
     (if k < k' then (k, v) # (k', v') # m
      else if k = k' then (k, v) # m
      else (k', v') # bt_insert k v m)"

text \<open>Assignment through \<open>get_mut\<close>: replaces the value of a present key.\<close>

fun bt_set :: "'k \<Rightarrow> 'v \<Rightarrow> ('k, 'v) btree \<Rightarrow> ('k, 'v) btree" where
  "bt_set k v [] = []"
| "bt_set k v ((k', v') # m) = (if k' = k then (k, v) # m else (k', v') # bt_set k v m)"

definition bt_sorted :: "('k::linorder, 'v) btree \<Rightarrow> bool" where
  "bt_sorted m \<longleftrightarrow> sorted_wrt (<) (map fst m)"

locale ordered_map =
  fixes get :: "'m \<Rightarrow> 'k::linorder \<Rightarrow> 'v option"
    and ins :: "'k \<Rightarrow> 'v \<Rightarrow> 'm \<Rightarrow> 'm"
    and entries :: "'m \<Rightarrow> ('k \<times> 'v) list"
    and invar :: "'m \<Rightarrow> bool"
  assumes get_ins: "get (ins k v m) k' = (if k' = k then Some v else get m k')"
    and inv_ins: "invar m \<Longrightarrow> invar (ins k v m)"
    and get_entries: "invar m \<Longrightarrow> get m k = Some v \<longleftrightarrow> (k, v) \<in> set (entries m)"
    and inv_sorted: "invar m \<Longrightarrow> sorted_wrt (<) (map fst (entries m))"
begin

lemma get_ins_same [simp]: "get (ins k v m) k = Some v"
  by (simp add: get_ins)

lemma get_ins_other: "k' \<noteq> k \<Longrightarrow> get (ins k v m) k' = get m k'"
  by (simp add: get_ins)

lemma get_dom: "invar m \<Longrightarrow> get m k \<noteq> None \<longleftrightarrow> k \<in> fst ` set (entries m)"
  by (force simp: get_entries)

lemma distinct_keys: "invar m \<Longrightarrow> distinct (map fst (entries m))"
  using inv_sorted strict_sorted_iff by blast

lemma entries_ext:
  assumes "invar m" "invar m'" "\<And>k. get m k = get m' k"
  shows "entries m = entries m'"
proof -
  have eq: "set (entries m) = set (entries m')"
    using assms by (auto simp flip: get_entries)
  have "inj_on fst (set (entries m) \<union> set (entries m'))"
    using distinct_keys [OF assms(1)] eq by (simp add: distinct_map)
  then show ?thesis
    using inv_sorted [OF assms(1)] inv_sorted [OF assms(2)] eq
    by (intro map_sorted_distinct_set_unique) (auto simp: strict_sorted_iff)
qed

end

lemma bt_get_insert: "bt_get (bt_insert k v m) k' = (if k' = k then Some v else bt_get m k')"
  by (induction m) auto

lemma bt_get_set:
  "bt_get (bt_set k v m) k' = (if k' = k \<and> bt_get m k \<noteq> None then Some v else bt_get m k')"
  by (induction m) (auto split: if_splits)

lemma bt_set_keys [simp]: "map fst (bt_set k v m) = map fst m"
  by (induction m) auto

lemma bt_sorted_set [simp]: "bt_sorted (bt_set k v m) = bt_sorted m"
  by (simp add: bt_sorted_def)

lemma bt_insert_keys: "fst ` set (bt_insert k v m) = insert k (fst ` set m)"
  by (induction k v m rule: bt_insert.induct) (simp_all add: insert_commute)

lemma bt_get_NoneI: "k \<notin> fst ` set m \<Longrightarrow> bt_get m k = None"
  by (induction m) auto

lemma bt_sorted_Nil [simp]: "bt_sorted []"
  by (simp add: bt_sorted_def)

lemma bt_sorted_Cons [simp]:
  "bt_sorted ((k, v) # m) \<longleftrightarrow> (\<forall>k' \<in> fst ` set m. k < k') \<and> bt_sorted m"
  by (auto simp: bt_sorted_def)

lemma bt_sorted_insert: "bt_sorted m \<Longrightarrow> bt_sorted (bt_insert k v m)"
proof (induction k v m rule: bt_insert.induct)
  case (2 k v k' v' m)
  then have "bt_sorted m" "\<forall>x \<in> fst ` set m. k' < x" by simp_all
  moreover have "k < k' \<Longrightarrow> \<forall>x \<in> fst ` set m. k < x" using calculation by fastforce
  ultimately show ?case using 2 
    by (auto simp: bt_insert_keys simp del: ball_simps)
qed simp

lemma bt_get_in: "bt_get m k = Some v \<Longrightarrow> (k, v) \<in> set m"
  by (induction m) (auto split: if_splits)

lemma bt_get_iff: "bt_sorted m \<Longrightarrow> bt_get m k = Some v \<longleftrightarrow> (k, v) \<in> set m"
  by (induction m) (force dest: bt_get_in)+

interpretation bt: ordered_map bt_get bt_insert "\<lambda>m. m" bt_sorted
  by unfold_locales (auto simp: bt_get_insert bt_sorted_insert bt_get_iff, simp add: bt_sorted_def)

text \<open>\<open>BTreeSet\<close> insertion and \<open>from_iter\<close>: a strictly sorted list of the members.\<close>

definition bset_insert :: "'a::linorder \<Rightarrow> 'a list \<Rightarrow> 'a list" where
  "bset_insert x s = (if x \<in> set s then s else insort x s)"

definition bset_of :: "'a::linorder list \<Rightarrow> 'a list" where
  "bset_of xs = foldr bset_insert xs []"

lemma set_bset_insert [simp]: "set (bset_insert x s) = insert x (set s)"
  by (auto simp: bset_insert_def set_insort_key)

lemma sorted_bset_insert: "sorted_wrt (<) s \<Longrightarrow> sorted_wrt (<) (bset_insert x s)"
  by (auto simp: bset_insert_def strict_sorted_iff sorted_insort distinct_insort)

lemma set_bset_of [simp]: "set (bset_of xs) = set xs"
  unfolding bset_of_def by (induction xs) auto

lemma sorted_bset_of: "sorted_wrt (<) (bset_of xs)"
  unfolding bset_of_def by (induction xs) (auto intro: sorted_bset_insert)

lemma bset_of_ext: "set xs = set ys \<Longrightarrow> bset_of xs = bset_of ys"
  by (metis set_bset_of sorted_bset_of strict_sorted_equal)

lemma bset_of_eq_iff [simp]: "bset_of xs = bset_of ys \<longleftrightarrow> set xs = set ys"
  by (metis bset_of_ext set_bset_of)

lemma length_bset_of: "length (bset_of xs) = card (set xs)"
  by (metis distinct_card set_bset_of sorted_bset_of strict_sorted_iff)

section \<open>Bounded integers\<close>

definition u16_max :: int where "u16_max = 65535"
definition u32_max :: int where "u32_max = 4294967295"
definition u64_max :: int where "u64_max = 18446744073709551615"
definition i64_max :: int where "i64_max = 9223372036854775807"
definition i32_max :: int where "i32_max = 2147483647"

lemmas int_bounds = u16_max_def u32_max_def u64_max_def i64_max_def i32_max_def

text \<open>\<open>T::try_from(x).unwrap_or(T::MAX)\<close> and \<open>saturating_*\<close> at the unsigned type with maximum \<open>m\<close>.\<close>

definition saturate :: "int \<Rightarrow> int \<Rightarrow> int" where
  "saturate m x = max 0 (min m x)"

lemma saturate_bounds [simp]: "0 \<le> m \<Longrightarrow> 0 \<le> saturate m x \<and> saturate m x \<le> m"
  by (auto simp: saturate_def)

section \<open>Tables\<close>

text \<open>\<open>UPDATE t SET f WHERE p\<close> on a table kept as the list of its rows.\<close>

definition update_where :: "('r \<Rightarrow> bool) \<Rightarrow> ('r \<Rightarrow> 'r) \<Rightarrow> 'r list \<Rightarrow> 'r list" where
  "update_where p f rows = map (\<lambda>r. if p r then f r else r) rows"

lemma update_where_length [simp, table_simps]: "length (update_where p f rs) = length rs"
  by (simp add: update_where_def)

lemma update_where_Nil [simp, table_simps]: "update_where p f [] = []"
  by (simp add: update_where_def)

lemma update_where_Cons [simp, table_simps]:
  "update_where p f (r # rs) = (if p r then f r else r) # update_where p f rs"
  by (simp add: update_where_def)

lemma update_where_none: "(\<And>r. r \<in> set rs \<Longrightarrow> \<not> p r) \<Longrightarrow> update_where p f rs = rs"
  unfolding update_where_def by (rule map_idI) auto

lemma update_where_map_key:
  "(\<And>r. p r \<Longrightarrow> key (f r) = key r) \<Longrightarrow> map key (update_where p f rs) = map key rs"
  by (auto simp: update_where_def)

lemma set_update_where: "set (update_where p f rs) = (\<lambda>r. if p r then f r else r) ` set rs"
  by (simp add: update_where_def)

lemma find_update_where:
  assumes "\<And>r. p r \<Longrightarrow> key (f r) = key r"
  shows "find (\<lambda>r. key r = k) (update_where p f rs) =
    map_option (\<lambda>r. if p r then f r else r) (find (\<lambda>r. key r = k) rs)"
  using assms by (induction rs) auto

lemma find_key_unique:
  "distinct (map key rs) \<Longrightarrow> r \<in> set rs \<Longrightarrow> find (\<lambda>r'. key r' = key r) rs = Some r"
  by (induction rs) (auto simp: image_iff)

end
