(* ===== verification/Names.thy ===== *)
theory Names
  imports Prelude
begin

text \<open>
  Canonical names and the Namespace-scoped entities built from them: the shared DNS-1123 label
  validation (\<open>crates/api/src/lib.rs\<close>), the validated name types (\<open>domain/name.rs\<close>), qualified
  names (\<open>domain/namespace.rs\<close>) and Queues (\<open>domain/queue.rs\<close>).
  Identifiers are UUIDs, kept as the natural number of their 128 bits.
\<close>

type_synonym uuid = nat
type_synonym timestamp = int

section \<open>Label validation\<close>

definition RESOURCE_NAME_MAX_LENGTH :: nat where
  "RESOURCE_NAME_MAX_LENGTH = 63"

text \<open>The rejected character is given by its UTF-8 encoding.\<close>

datatype ResourceNameError =
    NameEmpty
  | InvalidBoundary
  | InvalidCharacter (position: nat) (character: bytes)
  | NameTooLong

definition is_name_boundary :: "char \<Rightarrow> bool" where
  "is_name_boundary c \<longleftrightarrow> is_ascii_lowercase c \<or> is_ascii_digit c"

definition is_name_character :: "char \<Rightarrow> bool" where
  "is_name_character c \<longleftrightarrow> is_name_boundary c \<or> c = CHR ''-''"

text \<open>The loop over the remaining characters: \<open>position\<close> is a byte offset, \<open>prev\<close> is \<open>last\<close>.\<close>

fun scan_name :: "nat \<Rightarrow> char \<Rightarrow> bytes \<Rightarrow> (ResourceNameError, unit) result" where
  "scan_name pos prev [] = ensure (is_name_boundary prev) InvalidBoundary"
| "scan_name pos prev (c # cs) =
     (if is_name_character c then scan_name (pos + 1) c cs
      else Err (InvalidCharacter pos (first_char (c # cs))))"

definition validate_resource_name :: "bytes \<Rightarrow> (ResourceNameError, unit) result" where
  "validate_resource_name value =
     (if length value > RESOURCE_NAME_MAX_LENGTH then Err NameTooLong
      else (case value of
              [] \<Rightarrow> Err NameEmpty
            | first # rest \<Rightarrow>
                if is_name_boundary first then scan_name 1 first rest else Err InvalidBoundary))"

section \<open>Name types\<close>

datatype NamespaceName = NamespaceName (namespace_str: bytes)
datatype ResourceName = ResourceName (resource_str: bytes)
datatype QueueName = QueueName (queue_str: bytes)

definition NamespaceName_parse :: "bytes \<Rightarrow> (ResourceNameError, NamespaceName) result" where
  "NamespaceName_parse value = and_then (validate_resource_name value) (\<lambda>_. Ok (NamespaceName value))"

definition ResourceName_parse :: "bytes \<Rightarrow> (ResourceNameError, ResourceName) result" where
  "ResourceName_parse value = and_then (validate_resource_name value) (\<lambda>_. Ok (ResourceName value))"

definition QueueName_parse :: "bytes \<Rightarrow> (ResourceNameError, QueueName) result" where
  "QueueName_parse value = and_then (validate_resource_name value) (\<lambda>_. Ok (QueueName value))"

definition QueueName_SYSTEM :: bytes where
  "QueueName_SYSTEM = ''default''"

definition QueueName_is_system :: "QueueName \<Rightarrow> bool" where
  "QueueName_is_system q \<longleftrightarrow> queue_str q = QueueName_SYSTEM"

section \<open>Namespaces, Queues and qualified names\<close>

record Namespace =
  ns_id :: uuid
  ns_name :: NamespaceName
  ns_created_at :: timestamp

record Queue =
  queue_id :: uuid
  queue_name :: QueueName
  queue_description :: "bytes option"
  queue_enabled :: bool
  queue_system :: bool
  queue_created_at :: timestamp
  queue_updated_at :: timestamp

record QualifiedName =
  qn_namespace :: NamespaceName
  qn_resource :: ResourceName

record NamespaceMismatch =
  mismatch_expected :: uuid
  mismatch_actual :: uuid

definition qualify :: "Namespace \<Rightarrow> uuid \<Rightarrow> ResourceName \<Rightarrow> (NamespaceMismatch, QualifiedName) result" where
  "qualify ns resource_namespace_id resource_name =
     (if ns_id ns = resource_namespace_id
      then Ok \<lparr> qn_namespace = ns_name ns, qn_resource = resource_name \<rparr>
      else Err \<lparr> mismatch_expected = ns_id ns, mismatch_actual = resource_namespace_id \<rparr>)"

definition QualifiedName_fmt :: "QualifiedName \<Rightarrow> bytes" where
  "QualifiedName_fmt q = namespace_str (qn_namespace q) @ ''/'' @ resource_str (qn_resource q)"

lemma is_name_character_not_slash [simp]: "\<not> is_name_character CHR ''/''"
  by (simp add: is_name_character_def is_name_boundary_def is_ascii_lowercase_def
      is_ascii_digit_def byte_def)

lemma scan_name_Ok:
  "scan_name pos prev cs = Inr () \<longleftrightarrow>
     (\<forall>c \<in> set cs. is_name_character c) \<and> is_name_boundary (last (prev # cs))"
  by (induction pos prev cs rule: scan_name.induct) auto

lemma validate_resource_name_Ok:
  "validate_resource_name v = Inr () \<longleftrightarrow>
     v \<noteq> [] \<and> length v \<le> 63 \<and> (\<forall>c \<in> set v. is_name_character c) \<and>
     is_name_boundary (hd v) \<and> is_name_boundary (last v)"
  by (cases v)
    (auto simp: validate_resource_name_def RESOURCE_NAME_MAX_LENGTH_def scan_name_Ok is_name_character_def)

lemma parse_Ok [simp]:
  "NamespaceName_parse v = Inr n \<longleftrightarrow> validate_resource_name v = Inr () \<and> n = NamespaceName v"
  "ResourceName_parse v = Inr r \<longleftrightarrow> validate_resource_name v = Inr () \<and> r = ResourceName v"
  "QueueName_parse v = Inr q \<longleftrightarrow> validate_resource_name v = Inr () \<and> q = QueueName v"
  by (auto simp: NamespaceName_parse_def ResourceName_parse_def QueueName_parse_def)

lemma append_sep_unique:
  "x \<notin> set as \<Longrightarrow> x \<notin> set bs \<Longrightarrow> as @ x # cs = bs @ x # ds \<longleftrightarrow> as = bs \<and> cs = ds"
proof (induction as arbitrary: bs)
  case Nil
  then show ?case by (cases bs) auto
next
  case (Cons a as)
  then show ?case by (cases bs) auto
qed

text \<open>
  A name is accepted exactly when it is a DNS-1123 label: 1 to 63 bytes, all of them
  lowercase ASCII letters, digits or hyphens, and neither the first nor the last a hyphen.
\<close>

theorem validate_resource_name_exact:
  "validate_resource_name v = Inr () \<longleftrightarrow>
     0 < length v \<and> length v \<le> 63 \<and>
     list_all (\<lambda>c. is_ascii_lowercase c \<or> is_ascii_digit c \<or> c = CHR ''-'') v \<and>
     hd v \<noteq> CHR ''-'' \<and> last v \<noteq> CHR ''-''"
proof -
  have boundary: "is_name_boundary c \<longleftrightarrow> is_name_character c \<and> c \<noteq> CHR ''-''" for c
    by (auto simp: is_name_character_def is_name_boundary_def is_ascii_lowercase_def
        is_ascii_digit_def byte_def)
  have char: "(is_ascii_lowercase c \<or> is_ascii_digit c \<or> c = CHR ''-'') \<longleftrightarrow> is_name_character c" for c
    by (auto simp: is_name_character_def is_name_boundary_def)
  show ?thesis
    unfolding validate_resource_name_Ok list_all_iff boundary char by auto
qed

text \<open>
  Qualified names identify their resource: two qualified names built from validated
  segments print to the same text only when Namespace and resource agree, because the
  separator is no name character.
\<close>

theorem qualified_name_injective:
  assumes "NamespaceName_parse a = Inr (qn_namespace p)" "ResourceName_parse b = Inr (qn_resource p)"
    and "NamespaceName_parse c = Inr (qn_namespace q)" "ResourceName_parse d = Inr (qn_resource q)"
    and "QualifiedName_fmt p = QualifiedName_fmt q"
  shows "qn_namespace p = qn_namespace q \<and> qn_resource p = qn_resource q"
proof -
  have names: "qn_namespace p = NamespaceName a" "qn_resource p = ResourceName b"
      "qn_namespace q = NamespaceName c" "qn_resource q = ResourceName d"
    using assms(1-4) by simp_all
  have "CHR ''/'' \<notin> set a" "CHR ''/'' \<notin> set c"
    using assms(1,3) by (auto simp: validate_resource_name_Ok)
  moreover have "a @ CHR ''/'' # b = c @ CHR ''/'' # d"
    using assms(5) by (simp add: QualifiedName_fmt_def names)
  ultimately show ?thesis
    by (simp add: names append_sep_unique)
qed

theorem qualified_name_injective_witness:
  "QualifiedName_fmt \<lparr> qn_namespace = NamespaceName ''mariadb'', qn_resource = ResourceName ''backup'' \<rparr>
     = ''mariadb/backup'' \<and>
   qn_namespace \<lparr> qn_namespace = NamespaceName ''mariadb'', qn_resource = ResourceName ''backup'' \<rparr>
     = NamespaceName ''mariadb''"
  using qualified_name_injective [of "''mariadb''"
      "\<lparr> qn_namespace = NamespaceName ''mariadb'', qn_resource = ResourceName ''backup'' \<rparr>" "''backup''"
      "''mariadb''"
      "\<lparr> qn_namespace = NamespaceName ''mariadb'', qn_resource = ResourceName ''backup'' \<rparr>" "''backup''"]
  by (simp add: validate_resource_name_def RESOURCE_NAME_MAX_LENGTH_def is_name_character_def
      is_name_boundary_def is_ascii_lowercase_def is_ascii_digit_def byte_def QualifiedName_fmt_def)

end
