(* ===== verification/Inputs.thy ===== *)
theory Inputs
  imports Prelude
begin

text \<open>
  Execution inputs (\<open>crates/execution/src/lib.rs\<close>): JSON values, the validation of input
  objects, the recursive merge of input layers, and the argument templates that read scalar
  leaves through dotted paths.  An object is a \<open>BTreeMap\<close> of its members and a number is the
  text its \<open>Display\<close> prints.  The JSON encoder is a parameter: \<open>encode v\<close> is the encoded text,
  or \<open>None\<close> when encoding fails.
\<close>

datatype json =
    JNull
  | JBool bool
  | JNumber bytes
  | JString bytes
  | JArray "json list"
  | JObject "(bytes \<times> json) list"

datatype template_message = TemplateNotClosed | TemplatePath bytes | InputsNotEncodable

text \<open>The text carried by \<open>InvalidTemplate\<close> is kept as the datum it is formatted from.\<close>

datatype InputError =
    NotObject
  | TooLarge
  | InvalidKey bytes
  | NulCharacter
  | InvalidTemplate template_message
  | MissingVariable bytes
  | NonScalarVariable bytes

definition MAX_INPUT_BYTES :: nat where
  "MAX_INPUT_BYTES = 65536"

fun is_object :: "json \<Rightarrow> bool" where
  "is_object (JObject m) = True"
| "is_object _ = False"

section \<open>Validation\<close>

definition segment_character :: "char \<Rightarrow> bool" where
  "segment_character c \<longleftrightarrow>
     is_ascii_lowercase c \<or> is_ascii_digit c \<or> c = CHR ''_'' \<or> c = CHR ''-''"

fun valid_segment :: "bytes \<Rightarrow> bool" where
  "valid_segment [] = False"
| "valid_segment (first # rest) =
     ((is_ascii_lowercase first \<or> first = CHR ''_'') \<and> list_all segment_character rest)"

definition NUL :: char where
  "NUL = CHR 0x00"

fun validate_entries :: "json \<Rightarrow> (InputError, unit) result"
and validate_members :: "(bytes \<times> json) list \<Rightarrow> (InputError, unit) result"
and validate_elements :: "json list \<Rightarrow> (InputError, unit) result" where
  "validate_entries (JObject values) = validate_members values"
| "validate_entries (JArray values) = validate_elements values"
| "validate_entries (JString text) = (if NUL \<in> set text then Err NulCharacter else Ok ())"
| "validate_entries JNull = Ok ()"
| "validate_entries (JBool b) = Ok ()"
| "validate_entries (JNumber n) = Ok ()"
| "validate_members [] = Ok ()"
| "validate_members ((key, nested) # rest) =
     (if valid_segment key
      then and_then (validate_entries nested) (\<lambda>_. validate_members rest)
      else Err (InvalidKey key))"
| "validate_elements [] = Ok ()"
| "validate_elements (nested # rest) =
     and_then (validate_entries nested) (\<lambda>_. validate_elements rest)"

definition validate_inputs :: "(json \<Rightarrow> bytes option) \<Rightarrow> json \<Rightarrow> (InputError, unit) result" where
  "validate_inputs encode value =
     (if \<not> is_object value then Err NotObject
      else and_then (validate_entries value) (\<lambda>_.
           and_then (ok_or (InvalidTemplate InputsNotEncodable) (encode value)) (\<lambda>encoded.
           if length encoded > MAX_INPUT_BYTES then Err TooLarge else Ok ())))"

section \<open>Merging\<close>

fun merge_value :: "json \<Rightarrow> json \<Rightarrow> json"
and merge_members :: "(bytes \<times> json) list \<Rightarrow> (bytes \<times> json) list \<Rightarrow> (bytes \<times> json) list" where
  "merge_value base overlay =
     (case overlay of
        JObject overlay_values \<Rightarrow>
          (case base of
             JObject base_values \<Rightarrow> JObject (merge_members base_values overlay_values)
           | _ \<Rightarrow> overlay)
      | _ \<Rightarrow> overlay)"
| "merge_members base_values [] = base_values"
| "merge_members base_values ((key, value) # rest) =
     (case bt_get base_values key of
        Some existing \<Rightarrow> merge_members (bt_insert key (merge_value existing value) base_values) rest
      | None \<Rightarrow> merge_members (bt_insert key value base_values) rest)"

fun merge_layers :: "(json \<Rightarrow> bytes option) \<Rightarrow> json \<Rightarrow> json list \<Rightarrow> (InputError, json) result" where
  "merge_layers encode merged [] = Ok merged"
| "merge_layers encode merged (layer # layers) =
     and_then (validate_inputs encode layer) (\<lambda>_. merge_layers encode (merge_value merged layer) layers)"

definition merge_inputs :: "(json \<Rightarrow> bytes option) \<Rightarrow> json list \<Rightarrow> (InputError, json) result" where
  "merge_inputs encode layers =
     and_then (merge_layers encode (JObject []) layers) (\<lambda>merged.
     and_then (validate_inputs encode merged) (\<lambda>_. Ok merged))"

section \<open>Paths and templates\<close>

text \<open>\<open>str::split\<close> at a character and \<open>str::find\<close> of a pattern.\<close>

fun split_on :: "char \<Rightarrow> bytes \<Rightarrow> bytes list" where
  "split_on c [] = [[]]"
| "split_on c (x # xs) =
     (if x = c then [] # split_on c xs
      else (case split_on c xs of [] \<Rightarrow> [[x]] | s # ss \<Rightarrow> (x # s) # ss))"

fun find_sub :: "bytes \<Rightarrow> bytes \<Rightarrow> nat option" where
  "find_sub pat [] = (if pat = [] then Some 0 else None)"
| "find_sub pat (c # cs) = (if prefix pat (c # cs) then Some 0 else map_option Suc (find_sub pat cs))"

definition validate_path :: "bytes \<Rightarrow> (InputError, unit) result" where
  "validate_path path =
     (if path = [] \<or> \<not> list_all valid_segment (split_on CHR ''.'' path)
      then Err (InvalidTemplate (TemplatePath path)) else Ok ())"

fun walk_path :: "bytes \<Rightarrow> json \<Rightarrow> bytes list \<Rightarrow> (InputError, json) result" where
  "walk_path path value [] = Ok value"
| "walk_path path value (segment # rest) =
     (case value of
        JObject members \<Rightarrow>
          (case bt_get members segment of
             Some nested \<Rightarrow> walk_path path nested rest
           | None \<Rightarrow> Err (MissingVariable path))
      | _ \<Rightarrow> Err (MissingVariable path))"

definition render_path :: "json \<Rightarrow> bytes \<Rightarrow> (InputError, bytes) result" where
  "render_path inputs path =
     and_then (walk_path path inputs (split_on CHR ''.'' path)) (\<lambda>value.
       case value of
         JString text \<Rightarrow> Ok text
       | JNumber text \<Rightarrow> Ok text
       | JBool b \<Rightarrow> Ok (if b then ''true'' else ''false'')
       | _ \<Rightarrow> Err (NonScalarVariable path))"

lemma find_sub_bound: "find_sub pat s = Some i \<Longrightarrow> i + length pat \<le> length s"
  by (induction pat s arbitrary: i rule: find_sub.induct)
    (auto split: if_splits dest: prefix_length_le)

definition ends_with_backslash :: "bytes \<Rightarrow> bool" where
  "ends_with_backslash s \<longleftrightarrow> s \<noteq> [] \<and> last s = CHR 0x5C"

text \<open>
  The loop of \<open>parse_template\<close>.  The delimiters are ASCII, so the byte offsets \<open>find\<close> returns
  are character boundaries and the \<open>get\<close> calls on them succeed.
\<close>

function template_loop :: "json option \<Rightarrow> bytes \<Rightarrow> bytes \<Rightarrow> (InputError, bytes) result" where
  "template_loop inputs output remaining =
     (case find_sub ''{{'' remaining of
        None \<Rightarrow> Ok (output @ remaining)
      | Some open_at \<Rightarrow>
          let before = take open_at remaining; after_open = drop (open_at + 2) remaining in
          if ends_with_backslash before
          then template_loop inputs (output @ butlast before @ ''{{'') after_open
          else (case find_sub ''}}'' after_open of
                  None \<Rightarrow> Err (InvalidTemplate TemplateNotClosed)
                | Some close \<Rightarrow>
                    let path = trim (take close after_open) in
                    and_then (validate_path path) (\<lambda>_.
                    and_then (case inputs of
                                Some values \<Rightarrow> render_path values path
                              | None \<Rightarrow> Ok (''{{'' @ path @ ''}}'')) (\<lambda>text.
                    template_loop inputs (output @ before @ text) (drop (close + 2) after_open)))))"
  by pat_completeness auto
termination
  by (relation "measure (\<lambda>(i, out, rest). length rest)") (auto dest!: find_sub_bound)

declare template_loop.simps [simp del]

definition parse_template :: "bytes \<Rightarrow> json option \<Rightarrow> (InputError, bytes) result" where
  "parse_template template inputs = template_loop inputs [] template"

definition validate_argument_templates :: "bytes list \<Rightarrow> (InputError, unit) result" where
  "validate_argument_templates arguments =
     and_then (traverse (\<lambda>argument. parse_template argument None) arguments) (\<lambda>_. Ok ())"

definition render_arguments ::
  "(json \<Rightarrow> bytes option) \<Rightarrow> bytes list \<Rightarrow> json \<Rightarrow> (InputError, bytes list) result" where
  "render_arguments encode arguments inputs =
     and_then (validate_inputs encode inputs) (\<lambda>_.
     traverse (\<lambda>argument. parse_template argument (Some inputs)) arguments)"

fun is_scalar :: "json \<Rightarrow> bool" where
  "is_scalar (JString t) = True"
| "is_scalar (JNumber t) = True"
| "is_scalar (JBool b) = True"
| "is_scalar _ = False"

fun collect_scalar_paths :: "json \<Rightarrow> bytes \<Rightarrow> bytes list"
and collect_member_paths :: "(bytes \<times> json) list \<Rightarrow> bytes \<Rightarrow> bytes list" where
  "collect_scalar_paths value pre =
     (case value of JObject values \<Rightarrow> collect_member_paths values pre | _ \<Rightarrow> [])"
| "collect_member_paths [] pre = []"
| "collect_member_paths ((key, nested) # rest) pre =
     (let path = (if pre = [] then key else pre @ ''.'' @ key) in
      (if is_scalar nested then [path] else collect_scalar_paths nested path) @
      collect_member_paths rest pre)"

definition scalar_paths :: "json \<Rightarrow> bytes list" where
  "scalar_paths inputs = collect_scalar_paths inputs []"

section \<open>Merge laws\<close>

declare merge_value.simps [simp del]
declare collect_scalar_paths.simps [simp del]

lemma merge_value_objects [simp]:
  "merge_value (JObject b) (JObject ov) = JObject (merge_members b ov)"
  by (simp add: merge_value.simps)

lemma merge_value_replace: "\<not> (is_object b \<and> is_object ov) \<Longrightarrow> merge_value b ov = ov"
  by (cases b; cases ov) (simp_all add: merge_value.simps)

text \<open>Values whose objects are strictly sorted by key at every level.\<close>

fun wf_json :: "json \<Rightarrow> bool"
and wf_members :: "(bytes \<times> json) list \<Rightarrow> bool"
and wf_elements :: "json list \<Rightarrow> bool" where
  "wf_json (JObject m) = (bt_sorted m \<and> wf_members m)"
| "wf_json (JArray vs) = wf_elements vs"
| "wf_json (JString t) = True"
| "wf_json JNull = True"
| "wf_json (JBool b) = True"
| "wf_json (JNumber n) = True"
| "wf_members [] = True"
| "wf_members ((k, v) # m) = (wf_json v \<and> wf_members m)"
| "wf_elements [] = True"
| "wf_elements (v # vs) = (wf_json v \<and> wf_elements vs)"

lemma wf_members_iff: "wf_members m \<longleftrightarrow> (\<forall>(k, v) \<in> set m. wf_json v)"
  by (induction m) auto

lemma wf_members_get: "wf_members m \<Longrightarrow> bt_get m k = Some v \<Longrightarrow> wf_json v"
  by (auto simp: wf_members_iff dest: bt_get_in)

lemma wf_members_insert: "wf_members m \<Longrightarrow> wf_json v \<Longrightarrow> wf_members (bt_insert k v m)"
  by (induction m) auto

lemma merge_wf:
  "wf_json b \<Longrightarrow> wf_json ov \<Longrightarrow> wf_json (merge_value b ov)"
  "bt_sorted bs \<Longrightarrow> wf_members bs \<Longrightarrow> wf_members ovs \<Longrightarrow>
     bt_sorted (merge_members bs ovs) \<and> wf_members (merge_members bs ovs)"
proof (induction b ov and bs ovs rule: merge_value_merge_members.induct)
  case (1 b ov)
  then show ?case by (cases b; cases ov) (auto simp: merge_value.simps)
next
  case (3 bs k v ovs)
  then show ?case
    by (auto split: option.split simp: bt_sorted_insert wf_members_insert wf_members_get)
qed simp

text \<open>The merge of two objects, key by key.\<close>

definition merge_option :: "json option \<Rightarrow> json option \<Rightarrow> json option" where
  "merge_option b ov =
     (case ov of None \<Rightarrow> b | Some v \<Rightarrow> (case b of None \<Rightarrow> Some v | Some e \<Rightarrow> Some (merge_value e v)))"

lemma merge_members_get:
  "distinct (map fst ov) \<Longrightarrow> bt_get (merge_members b ov) k = merge_option (bt_get b k) (bt_get ov k)"
proof (induction ov arbitrary: b)
  case Nil
  then show ?case by (simp add: merge_option_def)
next
  case (Cons e ov)
  obtain k' v where e: "e = (k', v)" by (cases e)
  have "k' = k \<Longrightarrow> bt_get ov k = None"
    using Cons.prems e by (auto intro!: bt_get_NoneI)
  then show ?case
    using Cons.IH Cons.prems
    by (auto simp: e bt.get_ins merge_option_def split: option.splits)
qed

text \<open>The value at a path, and whether a value defines anything on the way to it.\<close>

fun path_get :: "json \<Rightarrow> bytes list \<Rightarrow> json option" where
  "path_get v [] = Some v"
| "path_get v (k # ks) =
     (case v of JObject m \<Rightarrow> (case bt_get m k of Some x \<Rightarrow> path_get x ks | None \<Rightarrow> None) | _ \<Rightarrow> None)"

fun touches :: "json \<Rightarrow> bytes list \<Rightarrow> bool" where
  "touches v [] = True"
| "touches v (k # ks) =
     (case v of JObject m \<Rightarrow> (case bt_get m k of Some x \<Rightarrow> touches x ks | None \<Rightarrow> False) | _ \<Rightarrow> True)"

definition scalar_at :: "json \<Rightarrow> bytes list \<Rightarrow> json option" where
  "scalar_at v p = (case path_get v p of Some s \<Rightarrow> (if is_scalar s then Some s else None) | None \<Rightarrow> None)"

lemma scalar_at_Nil: "scalar_at v [] = (if is_scalar v then Some v else None)"
  by (simp add: scalar_at_def)

lemma scalar_at_Cons:
  "scalar_at v (k # ks) =
     (case v of JObject m \<Rightarrow> (case bt_get m k of Some x \<Rightarrow> scalar_at x ks | None \<Rightarrow> None) | _ \<Rightarrow> None)"
  by (auto simp: scalar_at_def split: json.splits option.splits)

lemma scalar_not_object [simp]: "is_object v \<Longrightarrow> \<not> is_scalar v"
  by (cases v) auto

lemma merge_value_object: "is_object ov \<Longrightarrow> is_object (merge_value b ov)"
  by (cases "is_object b") (auto simp: merge_value_replace elim!: is_object.elims)

lemma wf_distinct: "wf_json (JObject m) \<Longrightarrow> distinct (map fst m)"
  using bt.distinct_keys by auto

lemma scalar_at_untouched [simp]: "\<not> touches v p \<Longrightarrow> scalar_at v p = None"
  by (induction v p rule: touches.induct)
    (auto simp: scalar_at_Cons split: json.splits option.splits)

lemma scalar_at_merge:
  assumes "wf_json ov"
  shows "scalar_at (merge_value b ov) p = (if touches ov p then scalar_at ov p else scalar_at b p)"
  using assms
proof (induction p arbitrary: b ov)
  case Nil
  then show ?case
    by (cases "is_object b \<and> is_object ov")
      (auto simp: scalar_at_Nil merge_value_replace merge_value_object)
next
  case (Cons k ks)
  show ?case
  proof (cases "is_object b \<and> is_object ov")
    case False
    then show ?thesis
      by (cases ov; cases b) (auto simp: merge_value_replace scalar_at_Cons split: option.splits)
  next
    case True
    then obtain m n where mn: "b = JObject m" "ov = JObject n" by (auto elim!: is_object.elims)
    have "distinct (map fst n)" using wf_distinct Cons.prems mn by blast
    then show ?thesis
      using Cons.prems Cons.IH
      by (auto simp: mn scalar_at_Cons merge_members_get merge_option_def wf_members_get
          split: option.splits)
  qed
qed

lemma touches_empty [simp]: "p \<noteq> [] \<Longrightarrow> \<not> touches (JObject []) p"
  by (cases p) auto

lemma scalar_at_empty [simp]: "scalar_at (JObject []) p = None"
  by (cases p) (auto simp: scalar_at_Nil scalar_at_Cons)

lemma merge_layers_scalar:
  assumes "merge_layers encode b layers = Inr merged" "\<forall>l \<in> set layers. wf_json l"
  shows "scalar_at merged p =
    (case find (\<lambda>l. touches l p) (rev layers) of Some l \<Rightarrow> scalar_at l p | None \<Rightarrow> scalar_at b p)"
  using assms
proof (induction layers arbitrary: b)
  case (Cons l ls)
  have "find P (xs @ [y]) = (case find P xs of None \<Rightarrow> (if P y then Some y else None) | Some x \<Rightarrow> Some x)"
    for P and xs :: "json list" and y
    by (induction xs) auto
  then show ?case
    using Cons by (auto simp: scalar_at_merge split: option.splits)
qed simp

lemma merge_layers_wf:
  "merge_layers encode b layers = Inr merged \<Longrightarrow> wf_json b \<Longrightarrow> \<forall>l \<in> set layers. wf_json l \<Longrightarrow> wf_json merged"
  by (induction layers arbitrary: b) (auto simp: merge_wf)

section \<open>Scalar paths\<close>

lemma validate_members_iff:
  "validate_members m = Inr () \<longleftrightarrow> (\<forall>(k, v) \<in> set m. valid_segment k \<and> validate_entries v = Inr ())"
  by (induction m) (auto split: if_splits)

lemma path_get_valid:
  "validate_entries v = Inr () \<Longrightarrow> path_get v p = Some x \<Longrightarrow>
     (\<forall>k \<in> set p. valid_segment k) \<and> validate_entries x = Inr ()"
  by (induction v p rule: path_get.induct)
    (fastforce split: json.splits option.splits simp: validate_members_iff dest: bt_get_in)+

lemma walk_path_eq:
  "walk_path path v ks = (case path_get v ks of Some x \<Rightarrow> Ok x | None \<Rightarrow> Err (MissingVariable path))"
  by (induction path v ks rule: walk_path.induct) (auto split: json.splits option.splits)

fun scalar_text :: "json \<Rightarrow> bytes" where
  "scalar_text (JString t) = t"
| "scalar_text (JNumber t) = t"
| "scalar_text (JBool b) = (if b then ''true'' else ''false'')"
| "scalar_text _ = []"

lemma render_path_Ok:
  "render_path v path = Inr t \<longleftrightarrow>
     (\<exists>x. scalar_at v (split_on CHR ''.'' path) = Some x \<and> t = scalar_text x)"
  by (auto simp: render_path_def walk_path_eq scalar_at_def split: option.splits json.splits if_splits
      elim!: is_scalar.elims)

lemma render_path_Err:
  "render_path v path = Inl e \<Longrightarrow> e = MissingVariable path \<or> e = NonScalarVariable path"
  by (auto simp: render_path_def walk_path_eq and_then_Err split: option.splits json.splits)

fun join_path :: "bytes \<Rightarrow> bytes list \<Rightarrow> bytes" where
  "join_path pre [] = pre"
| "join_path pre (k # ks) = join_path (if pre = [] then k else pre @ ''.'' @ k) ks"

lemma collect_paths_exact:
  "wf_json v \<Longrightarrow> set (collect_scalar_paths v pre) = join_path pre ` {p. p \<noteq> [] \<and> scalar_at v p \<noteq> None}"
  "bt_sorted m \<Longrightarrow> wf_members m \<Longrightarrow>
     set (collect_member_paths m pre) = join_path pre ` {p. p \<noteq> [] \<and> scalar_at (JObject m) p \<noteq> None}"
proof (induction v pre and m pre rule: collect_scalar_paths_collect_member_paths.induct)
  case (1 v pre)
  have leaf: "p \<noteq> [] \<Longrightarrow> \<not> is_object v \<Longrightarrow> scalar_at v p = None" for p
    by (cases p; cases v) (auto simp: scalar_at_Cons)
  show ?case
  proof (cases "is_object v")
    case True
    then obtain m where v: "v = JObject m" by (auto elim: is_object.elims)
    from 1(1) [OF v] 1(2) have "set (collect_member_paths m pre) =
        join_path pre ` {p. p \<noteq> [] \<and> scalar_at v p \<noteq> None}" unfolding v by simp
    then show ?thesis unfolding collect_scalar_paths.simps [of v] unfolding v by simp
  next
    case False
    then have "\<not> (p \<noteq> [] \<and> scalar_at v p \<noteq> None)" for p using leaf [of p] by (cases "p = []") auto
    then have "{p. p \<noteq> [] \<and> scalar_at v p \<noteq> None} = {}" by auto
    then show ?thesis using False by (cases v) (simp_all add: collect_scalar_paths.simps)
  qed
next
  case (2 pre)
  then show ?case by simp
next
  case (3 k v m pre)
  let ?path = "if pre = [] then k else pre @ ''.'' @ k"
  have fresh: "bt_get m k = None" using "3.prems" by (force intro!: bt_get_NoneI)
  have hd: "{p. p \<noteq> [] \<and> scalar_at (JObject ((k, v) # m)) p \<noteq> None} =
      (#) k ` {p. scalar_at v p \<noteq> None} \<union> {p. p \<noteq> [] \<and> scalar_at (JObject m) p \<noteq> None}"
    (is "?L = ?R")
  proof (rule set_eqI)
    fix p
    show "p \<in> ?L \<longleftrightarrow> p \<in> ?R"
      using fresh by (cases p) (auto simp: scalar_at_Cons scalar_at_Nil image_iff)
  qed
  have sub: "is_scalar v \<Longrightarrow> {p. scalar_at v p \<noteq> None} = {[]}"
  proof -
    assume "is_scalar v"
    then have "scalar_at v p \<noteq> None \<longleftrightarrow> p = []" for p
      by (cases p; cases v) (auto simp: scalar_at_Cons scalar_at_Nil)
    then show ?thesis by auto
  qed
  have nested: "\<not> is_scalar v \<Longrightarrow> {p. scalar_at v p \<noteq> None} = {p. p \<noteq> [] \<and> scalar_at v p \<noteq> None}"
    by (auto simp: scalar_at_Nil)
  have ih: "set (collect_member_paths m pre) = join_path pre ` {p. p \<noteq> [] \<and> scalar_at (JObject m) p \<noteq> None}"
    using 3 by auto
  have "set (if is_scalar v then [?path] else collect_scalar_paths v ?path) =
      join_path ?path ` {p. scalar_at v p \<noteq> None}"
    using 3 sub nested by auto
  also have "\<dots> = join_path pre ` (#) k ` {p. scalar_at v p \<noteq> None}"
    by (simp add: image_image)
  finally show ?case
    by (simp only: hd image_Un collect_member_paths.simps Let_def set_append ih)
qed

lemma split_on_no [simp]: "c \<notin> set s \<Longrightarrow> split_on c s = [s]"
  by (induction s) auto

lemma split_on_append: "c \<notin> set a \<Longrightarrow> split_on c (a @ c # b) = a # split_on c b"
  by (induction a) auto

lemma split_on_not_Nil [simp]: "split_on c s \<noteq> []"
  by (induction s) (auto split: list.splits)

lemma segment_no_dot: "valid_segment k \<Longrightarrow> k \<noteq> [] \<and> CHR ''.'' \<notin> set k"
  by (cases k) (auto simp: list_all_iff segment_character_def is_ascii_lowercase_def
      is_ascii_digit_def byte_def)

text \<open>Dotted text and segment lists determine each other.\<close>

fun dotted :: "bytes list \<Rightarrow> bytes" where
  "dotted [] = []"
| "dotted [k] = k"
| "dotted (k # ks) = k @ ''.'' @ dotted ks"

lemma dotted_Cons: "ks \<noteq> [] \<Longrightarrow> dotted (k # ks) = k @ ''.'' @ dotted ks"
  by (cases ks) auto

lemma join_path_dotted:
  "pre \<noteq> [] \<Longrightarrow> ks \<noteq> [] \<Longrightarrow> join_path pre ks = pre @ ''.'' @ dotted ks"
proof (induction ks arbitrary: pre)
  case (Cons k ks)
  then show ?case by (cases "ks = []") (auto simp: dotted_Cons)
qed simp

lemma join_path_root: "\<forall>k \<in> set ks. k \<noteq> [] \<Longrightarrow> join_path [] ks = dotted ks"
proof (cases ks)
  case (Cons k ks')
  assume "\<forall>k \<in> set ks. k \<noteq> []"
  then show ?thesis using Cons by (cases "ks' = []") (auto simp: join_path_dotted dotted_Cons)
qed simp

lemma dotted_split [simp]: "dotted (split_on CHR ''.'' s) = s"
proof (induction s)
  case (Cons x s)
  obtain a as where "split_on CHR ''.'' s = a # as" by (cases "split_on CHR ''.'' s") auto
  then show ?case using Cons by (cases "x = CHR ''.''"; cases as) (auto simp: dotted_Cons)
qed simp

lemma split_dotted: "ks \<noteq> [] \<Longrightarrow> \<forall>k \<in> set ks. CHR ''.'' \<notin> set k \<Longrightarrow> split_on CHR ''.'' (dotted ks) = ks"
proof (induction ks)
  case (Cons k ks)
  then show ?case by (cases "ks = []") (auto simp: dotted_Cons split_on_append)
qed simp

lemma scalar_paths_renderable:
  assumes "wf_json v" "validate_entries v = Inr ()" "is_object v"
  shows "p \<in> set (scalar_paths v) \<longleftrightarrow> (\<exists>t. render_path v p = Inr t)"
proof -
  have keys: "\<forall>k \<in> set ks. valid_segment k" if "scalar_at v ks \<noteq> None" for ks
    using that path_get_valid [OF assms(2), of ks]
    by (auto simp: scalar_at_def split: option.splits)
  have root: "scalar_at v [] = None" using assms(3) by (simp add: scalar_at_Nil)
  have "p \<in> set (scalar_paths v) \<longleftrightarrow> (\<exists>ks. ks \<noteq> [] \<and> scalar_at v ks \<noteq> None \<and> p = dotted ks)"
    using keys segment_no_dot join_path_root
    unfolding scalar_paths_def collect_paths_exact(1) [OF assms(1)] by (auto simp: image_iff)
      (metis option.distinct(1))+
  also have "\<dots> \<longleftrightarrow> scalar_at v (split_on CHR ''.'' p) \<noteq> None"
    using keys segment_no_dot split_dotted by (metis dotted_split split_on_not_Nil)
  also have "\<dots> \<longleftrightarrow> (\<exists>t. render_path v p = Inr t)"
    by (auto simp: render_path_Ok)
  finally show ?thesis .
qed

section \<open>Rendering as substitution\<close>

text \<open>
  What a template means: a sequence of literal texts and variables, and the error at which the
  syntax breaks off, if it does.
\<close>

datatype token = Lit bytes | Var bytes

function tokens :: "bytes \<Rightarrow> token list \<times> InputError option" where
  "tokens r =
     (case find_sub ''{{'' r of
        None \<Rightarrow> ([Lit r], None)
      | Some open_at \<Rightarrow>
          let before = take open_at r; after_open = drop (open_at + 2) r in
          if ends_with_backslash before
          then map_prod ((#) (Lit (butlast before @ ''{{''))) id (tokens after_open)
          else (case find_sub ''}}'' after_open of
                  None \<Rightarrow> ([Lit before], Some (InvalidTemplate TemplateNotClosed))
                | Some close \<Rightarrow>
                    let path = trim (take close after_open) in
                    (case validate_path path of
                       Inl e \<Rightarrow> ([Lit before], Some e)
                     | Inr _ \<Rightarrow> map_prod (\<lambda>ts. Lit before # Var path # ts) id
                                 (tokens (drop (close + 2) after_open)))))"
  by pat_completeness auto
termination
  by (relation "measure length") (auto dest!: find_sub_bound)

declare tokens.simps [simp del]

definition substitute :: "json option \<Rightarrow> bytes \<Rightarrow> (InputError, bytes) result" where
  "substitute inputs path =
     (case inputs of Some values \<Rightarrow> render_path values path | None \<Rightarrow> Ok (''{{'' @ path @ ''}}''))"

lemma substitute_Some [simp]: "substitute (Some v) p = render_path v p"
  by (simp add: substitute_def)

fun expand :: "json option \<Rightarrow> token list \<Rightarrow> InputError option \<Rightarrow> (InputError, bytes) result" where
  "expand i [] None = Ok []"
| "expand i [] (Some e) = Err e"
| "expand i (Lit s # ts) e = and_then (expand i ts e) (\<lambda>t. Ok (s @ t))"
| "expand i (Var p # ts) e =
     and_then (substitute i p) (\<lambda>s. and_then (expand i ts e) (\<lambda>t. Ok (s @ t)))"

lemma and_then_assoc: "and_then (and_then r f) g = and_then r (\<lambda>x. and_then (f x) g)"
  by (cases r) auto

lemma template_loop_expand:
  "template_loop i out r = and_then (case tokens r of (ts, e) \<Rightarrow> expand i ts e) (\<lambda>t. Ok (out @ t))"
proof (induction i out r rule: template_loop.induct)
  case (1 i out r)
  show ?case
  proof (cases "find_sub ''{{'' r")
    case None
    then show ?thesis by (simp add: template_loop.simps tokens.simps)
  next
    case (Some a)
    let ?before = "take a r" and ?after = "drop (a + 2) r"
    show ?thesis
    proof (cases "ends_with_backslash ?before")
      case True
      with 1(1) [OF Some refl refl True] show ?thesis
        by (subst template_loop.simps, subst tokens.simps)
          (simp add: Some Let_def True and_then_assoc case_prod_unfold)
    next
      case esc: False
      show ?thesis
      proof (cases "find_sub ''}}'' ?after")
        case None
        then show ?thesis
          by (subst template_loop.simps, subst tokens.simps) (simp add: Some Let_def esc)
      next
        case close: (Some c)
        let ?path = "trim (take c ?after)"
        show ?thesis
        proof (cases "validate_path ?path")
          case (Inl e)
          then show ?thesis
            using Some esc close
            by (subst template_loop.simps, subst tokens.simps) (simp add: Let_def)
        next
          case (Inr u)
          have ih: "template_loop i (out @ ?before @ t) (drop (c + 2) ?after) =
              and_then (case tokens (drop (c + 2) ?after) of (ts, e) \<Rightarrow> expand i ts e)
                (\<lambda>x. Ok ((out @ ?before @ t) @ x))" if "substitute i ?path = Inr t" for t
            using 1(2) [OF Some refl refl esc close refl] that by (simp add: substitute_def)
          show ?thesis
            using ih Some esc close Inr
            by (subst template_loop.simps, subst tokens.simps, cases "substitute i ?path")
              (simp_all add: Let_def substitute_def [symmetric] and_then_assoc case_prod_unfold)
        qed
      qed
    qed
  qed
qed

lemma parse_template_expand:
  "parse_template t i = (case tokens t of (ts, e) \<Rightarrow> expand i ts e)"
proof -
  have "and_then x (\<lambda>t. Ok ([] @ t)) = x" for x :: "(InputError, bytes) result" by (cases x) auto
  then show ?thesis unfolding parse_template_def template_loop_expand by simp
qed

lemma expand_Ok:
  "expand i ts e = Inr t \<longleftrightarrow>
     e = None \<and>
     (\<exists>us. traverse (\<lambda>k. case k of Lit s \<Rightarrow> Ok s | Var p \<Rightarrow> substitute i p) ts = Inr us \<and> t = concat us)"
  by (induction i ts e arbitrary: t rule: expand.induct) auto

lemma expand_validated_errors:
  "expand None ts e = Inr x \<Longrightarrow> expand (Some v) ts e = Inl err \<Longrightarrow>
     \<exists>p. (err = MissingVariable p \<or> err = NonScalarVariable p) \<and> (\<forall>t. render_path v p \<noteq> Inr t)"
  by (induction "Some v" ts e arbitrary: x rule: expand.induct)
    (auto simp: and_then_Err substitute_def dest: render_path_Err)

lemma expand_none: "expand None ts None = Inr x \<or> (\<exists>x. expand None ts None = Inr x)"
proof (induction ts arbitrary: x)
  case (Cons k ts)
  then show ?case by (cases k) (auto simp: substitute_def)
qed simp

lemma parse_template_Ok:
  "parse_template t i = Inr s \<longleftrightarrow>
     snd (tokens t) = None \<and>
     (\<exists>us. traverse (\<lambda>k. case k of Lit l \<Rightarrow> Ok l | Var p \<Rightarrow> substitute i p) (fst (tokens t)) = Inr us \<and>
           s = concat us)"
  by (simp add: parse_template_expand expand_Ok case_prod_unfold)

lemma parse_template_validated: "(\<exists>x. parse_template t None = Inr x) \<longleftrightarrow> snd (tokens t) = None"
  using expand_none by (auto simp: parse_template_expand expand_Ok case_prod_unfold)

lemma set_parts:
  "set r \<subseteq> C \<Longrightarrow> set (take n r) \<subseteq> C" "set r \<subseteq> C \<Longrightarrow> set (drop n r) \<subseteq> C"
  "set r \<subseteq> C \<Longrightarrow> set (butlast r) \<subseteq> C" for C :: "char set"
  by (meson in_set_takeD in_set_dropD in_set_butlastD subset_iff)+

lemma tokens_lits:
  "set r \<subseteq> C \<Longrightarrow> CHR ''{'' \<in> C \<Longrightarrow> Lit s \<in> set (fst (tokens r)) \<Longrightarrow> set s \<subseteq> C"
proof (induction r rule: tokens.induct)
  case (1 r)
  show ?case
  proof (cases "find_sub ''{{'' r")
    case None
    then show ?thesis using 1(3,5) by (simp add: tokens.simps)
  next
    case (Some a)
    let ?before = "take a r" and ?after = "drop (a + 2) r"
    have parts: "set ?before \<subseteq> C" "set ?after \<subseteq> C" using 1(3) set_parts by blast+
    show ?thesis
    proof (cases "ends_with_backslash ?before")
      case True
      then have "s = butlast ?before @ ''{{'' \<or> Lit s \<in> set (fst (tokens ?after))"
        using 1(5) Some by (subst (asm) tokens.simps) (auto simp: Let_def)
      then show ?thesis
        using 1(1) [OF Some refl refl True parts(2) 1(4)] set_parts(3) [OF parts(1)] 1(4) by auto
    next
      case esc: False
      show ?thesis
      proof (cases "s = ?before")
        case False
        with Some esc 1(5) obtain c where c: "find_sub ''}}'' ?after = Some c"
            "validate_path (trim (take c ?after)) = Inr ()"
            "Lit s \<in> set (fst (tokens (drop (c + 2) ?after)))"
          by (subst (asm) (2) tokens.simps) (auto simp: Let_def split: option.splits sum.splits)
        then show ?thesis
          using 1(2) [OF Some refl refl esc c(1) refl c(2)] set_parts(2) [OF parts(2)] 1(4) by blast
      qed (use parts in simp)
    qed
  qed
qed

section \<open>Properties\<close>

lemmas input_eval_simps = validate_inputs_def MAX_INPUT_BYTES_def is_ascii_lowercase_def
  is_ascii_digit_def byte_def segment_character_def NUL_def

text \<open>
  C35. The value a template reads comes from the most specific layer: after a merge, the scalar
  at a path is the scalar of the last layer that defines anything on the way to that path
  (and there is none when that layer holds no scalar there, or when no layer defines it).
\<close>

theorem merge_inputs_most_specific:
  assumes "merge_inputs encode layers = Inr merged"
    and "\<forall>l \<in> set layers. wf_json l" and "p \<noteq> []"
  shows "scalar_at merged p =
    (case find (\<lambda>l. touches l p) (rev layers) of Some l \<Rightarrow> scalar_at l p | None \<Rightarrow> None)"
  using assms merge_layers_scalar [of encode "JObject []" layers merged p]
  by (auto simp: merge_inputs_def split: option.splits)

theorem merge_inputs_most_specific_witness:
  "scalar_at (JObject [(''region'', JString ''us'')]) [''region''] = Some (JString ''us'')"
  using merge_inputs_most_specific [of "\<lambda>v. Some []"
      "[JObject [(''region'', JString ''eu'')], JObject [(''region'', JString ''us'')]]"
      "JObject [(''region'', JString ''us'')]" "[''region'']"]
  by (simp add: merge_inputs_def validate_inputs_def MAX_INPUT_BYTES_def is_ascii_lowercase_def
      is_ascii_digit_def byte_def segment_character_def NUL_def merge_value.simps scalar_at_def)

text \<open>
  A successful merge returns a well-formed object that itself passes input validation, so
  it can be rendered, and every layer it was built from is valid.
\<close>

theorem merge_inputs_valid:
  assumes "merge_inputs encode layers = Inr merged" and "\<forall>l \<in> set layers. wf_json l"
  shows "validate_inputs encode merged = Inr () \<and> wf_json merged \<and>
    (\<forall>l \<in> set layers. validate_inputs encode l = Inr ())"
proof -
  have "merge_layers encode b ls = Inr m \<Longrightarrow> \<forall>l \<in> set ls. validate_inputs encode l = Inr ()" for b ls m
    by (induction ls arbitrary: b) auto
  then show ?thesis
    using assms merge_layers_wf [of encode "JObject []" layers merged] by (auto simp: merge_inputs_def)
qed

theorem merge_inputs_valid_witness:
  "validate_inputs (\<lambda>v. Some []) (JObject [(''a'', JBool True)]) = Inr ()"
  using merge_inputs_valid [of "\<lambda>v. Some []" "[JObject [(''a'', JBool True)]]" "JObject [(''a'', JBool True)]"]
  by (simp add: merge_inputs_def validate_inputs_def MAX_INPUT_BYTES_def is_ascii_lowercase_def
      is_ascii_digit_def byte_def segment_character_def merge_value.simps)

text \<open>
  C40. The paths offered for autocompletion are exactly the paths that render: on valid inputs a
  text is listed by \<open>scalar_paths\<close> if and only if \<open>render_path\<close> succeeds on it.
\<close>

theorem scalar_paths_exact:
  assumes "wf_json v" and "validate_inputs encode v = Inr ()"
  shows "p \<in> set (scalar_paths v) \<longleftrightarrow> (\<exists>t. render_path v p = Inr t)"
  using assms scalar_paths_renderable [of v p]
  by (auto simp: validate_inputs_def split: if_splits)

theorem scalar_paths_exact_witness:
  "''a.b'' \<in> set (scalar_paths (JObject [(''a'', JObject [(''b'', JNumber ''3'')])])) \<longleftrightarrow>
     (\<exists>t. render_path (JObject [(''a'', JObject [(''b'', JNumber ''3'')])]) ''a.b'' = Inr t)"
  using scalar_paths_exact [of "JObject [(''a'', JObject [(''b'', JNumber ''3'')])]" "\<lambda>v. Some []" "''a.b''"]
  by (simp add: validate_inputs_def MAX_INPUT_BYTES_def is_ascii_lowercase_def
      is_ascii_digit_def byte_def segment_character_def)

text \<open>
  Rendering is a single-pass substitution: a template renders exactly when its syntax is
  valid and each of its variables resolves to a scalar, and the result is the concatenation of
  its literal texts and of the resolved values, which are never parsed again.
\<close>

theorem parse_template_substitutes:
  "parse_template t (Some v) = Inr s \<longleftrightarrow>
     (\<exists>x. parse_template t None = Inr x) \<and>
     (\<exists>us. traverse (\<lambda>k. case k of Lit l \<Rightarrow> Ok l | Var p \<Rightarrow> render_path v p) (fst (tokens t)) = Inr us \<and>
           s = concat us)"
  unfolding parse_template_validated unfolding parse_template_Ok substitute_Some ..

text \<open>
  A template that passed validation can only fail later because of its inputs: if the
  templates are valid, rendering them against valid inputs either succeeds with one argument
  per template or names a path of the templates that the inputs do not resolve to a scalar.
\<close>

theorem render_arguments_total:
  assumes "validate_argument_templates args = Inr ()" and "validate_inputs encode v = Inr ()"
  shows "(\<exists>out. render_arguments encode args v = Inr out \<and> length out = length args) \<or>
    (\<exists>p. (render_arguments encode args v = Inl (MissingVariable p) \<or>
           render_arguments encode args v = Inl (NonScalarVariable p)) \<and>
          (\<forall>t. render_path v p \<noteq> Inr t))"
proof (cases "render_arguments encode args v")
  case (Inr out)
  then show ?thesis using assms by (auto simp: render_arguments_def traverse_length)
next
  case (Inl e)
  then obtain a where a: "a \<in> set args" "parse_template a (Some v) = Inl e"
    using assms(2) by (auto simp: render_arguments_def dest: traverse_Err)
  obtain x where "parse_template a None = Inr x"
    using assms(1) a(1) by (auto simp: validate_argument_templates_def traverse_Ok_iff in_set_conv_nth)
  then show ?thesis
    using a(2) Inl expand_validated_errors by (force simp: parse_template_expand case_prod_unfold)
qed

theorem render_arguments_total_witness:
  "(\<exists>out. render_arguments (\<lambda>v. Some []) [''-l'', ''{{n}}''] (JObject [(''n'', JNumber ''3'')]) = Inr out \<and>
      length out = length [''-l'', ''{{n}}'']) \<or>
   (\<exists>p. (render_arguments (\<lambda>v. Some []) [''-l'', ''{{n}}''] (JObject [(''n'', JNumber ''3'')])
            = Inl (MissingVariable p) \<or>
          render_arguments (\<lambda>v. Some []) [''-l'', ''{{n}}''] (JObject [(''n'', JNumber ''3'')])
            = Inl (NonScalarVariable p)) \<and>
         (\<forall>t. render_path (JObject [(''n'', JNumber ''3'')]) p \<noteq> Inr t))"
  by (rule render_arguments_total)
    (simp_all add: validate_argument_templates_def parse_template_def template_loop.simps
      ends_with_backslash_def validate_path_def trim_def strip_front.simps white_space_def
      input_eval_simps)

text \<open>
  Rendered arguments are safe to pass as process arguments: when neither the templates nor
  the number texts contain NUL, no rendered argument contains NUL.
\<close>

theorem render_arguments_no_nul:
  assumes "render_arguments encode args v = Inr out"
    and "\<forall>a \<in> set args. NUL \<notin> set a"
    and "\<And>p n. path_get v p = Some (JNumber n) \<Longrightarrow> NUL \<notin> set n"
  shows "\<forall>a \<in> set out. NUL \<notin> set a"
proof
  fix s assume "s \<in> set out"
  then obtain a where a: "a \<in> set args" "parse_template a (Some v) = Inr s"
    using assms(1) by (auto simp: render_arguments_def dest: traverse_Ok_set)
  then obtain us where us: "s = concat us"
      "traverse (\<lambda>k. case k of Lit l \<Rightarrow> Ok l | Var p \<Rightarrow> substitute (Some v) p) (fst (tokens a)) = Inr us"
    by (auto simp: parse_template_Ok)
  have lit: "NUL \<notin> set l" if "Lit l \<in> set (fst (tokens a))" for l
  proof -
    have "set a \<subseteq> UNIV - {NUL}" "CHR ''{'' \<in> UNIV - {NUL}" using assms(2) a(1) by (auto simp: NUL_def)
    from tokens_lits [OF this that] show ?thesis by auto
  qed
  have rendered: "NUL \<notin> set t" if ok: "render_path v p = Inr t" for p t
  proof -
    obtain x where x: "path_get v (split_on CHR ''.'' p) = Some x" "is_scalar x" "t = scalar_text x"
      using ok by (auto simp: render_path_Ok scalar_at_def split: option.splits if_splits)
    have "validate_entries x = Inr ()"
      using assms(1) path_get_valid x(1)
      by (auto simp: render_arguments_def validate_inputs_def split: if_splits)
    then show ?thesis
      using x assms(3) by (cases x) (auto simp: NUL_def split: if_splits)
  qed
  have "NUL \<notin> set u" if "u \<in> set us" for u
    using traverse_Ok_set [OF us(2) that] lit rendered
    by (auto split: token.splits) (metis token.exhaust)
  then show "NUL \<notin> set s" using us(1) by auto
qed

theorem render_arguments_no_nul_witness: "NUL \<notin> set ''plain''"
proof -
  have "\<forall>a \<in> set [''plain'']. NUL \<notin> set a"
    by (rule render_arguments_no_nul [of "\<lambda>v. Some []" "[''plain'']" "JObject []"])
      (auto simp: render_arguments_def validate_inputs_def MAX_INPUT_BYTES_def parse_template_def
        template_loop.simps NUL_def elim: path_get.elims)
  then show ?thesis by (rule bspec) (rule list.set_intros)
qed

end
