(* ===== verification/Domain.thy ===== *)
theory Domain
  imports Names Inputs
begin

text \<open>
  The durable entities of the control plane (\<open>services/server/src/domain\<close>) and the text forms
  the store keeps of their enumerations (\<open>infrastructure/postgres.rs\<close>): Run states, executors,
  Schedule policies, Targets, Target Sets, Jobs, Schedules and Runs.  Timestamps are nanoseconds
  since the Unix epoch.  A double is kept as its exact rational value, or as NaN or an infinity.
\<close>

section \<open>Store errors\<close>

datatype StoreError =
    StoreNotFound
  | StoreConflict
  | StoreInUse
  | StoreIdempotencyConflict
  | StoreStaleRevision
  | StoreQueueDisabled
  | StoreInvalidData
  | StoreWorkflowLaunchTooLarge
  | StoreUnavailable
  | StoreInternal

section \<open>Run states\<close>

datatype RunStatus =
    PendingDispatch | Queued | Running | RetryWait | Succeeded | Failed | Dead | Skipped
  | Cancelled | Unknown

definition run_is_terminal :: "RunStatus \<Rightarrow> bool" where
  "run_is_terminal s \<longleftrightarrow>
     (case s of Succeeded \<Rightarrow> True | Failed \<Rightarrow> True | Dead \<Rightarrow> True | Skipped \<Rightarrow> True
              | Cancelled \<Rightarrow> True | Unknown \<Rightarrow> True | _ \<Rightarrow> False)"

definition run_is_repeatable :: "RunStatus \<Rightarrow> bool" where
  "run_is_repeatable s \<longleftrightarrow> run_is_terminal s \<and> s \<noteq> Unknown"

definition run_status_name :: "RunStatus \<Rightarrow> bytes" where
  "run_status_name s =
     (case s of
        PendingDispatch \<Rightarrow> ''pending_dispatch'' | Queued \<Rightarrow> ''queued'' | Running \<Rightarrow> ''running''
      | RetryWait \<Rightarrow> ''retry_wait'' | Succeeded \<Rightarrow> ''succeeded'' | Failed \<Rightarrow> ''failed''
      | Dead \<Rightarrow> ''dead'' | Skipped \<Rightarrow> ''skipped'' | Cancelled \<Rightarrow> ''cancelled''
      | Unknown \<Rightarrow> ''unknown'')"

definition parse_run_status :: "bytes \<Rightarrow> (StoreError, RunStatus) result" where
  "parse_run_status v =
     (if v = ''pending_dispatch'' then Ok PendingDispatch
      else if v = ''queued'' then Ok Queued
      else if v = ''running'' then Ok Running
      else if v = ''retry_wait'' then Ok RetryWait
      else if v = ''succeeded'' then Ok Succeeded
      else if v = ''failed'' then Ok Failed
      else if v = ''dead'' then Ok Dead
      else if v = ''skipped'' then Ok Skipped
      else if v = ''cancelled'' then Ok Cancelled
      else if v = ''unknown'' then Ok Unknown
      else Err StoreInternal)"

section \<open>Executors and Schedule policies\<close>

datatype ExecutorKind = Noop | Process | Shell

definition executor_name :: "ExecutorKind \<Rightarrow> bytes" where
  "executor_name e = (case e of Noop \<Rightarrow> ''noop'' | Process \<Rightarrow> ''process'' | Shell \<Rightarrow> ''shell'')"

definition parse_executor :: "bytes \<Rightarrow> (StoreError, ExecutorKind) result" where
  "parse_executor v =
     (if v = ''noop'' then Ok Noop else if v = ''process'' then Ok Process
      else if v = ''shell'' then Ok Shell else Err StoreInternal)"

datatype MisfirePolicy = RunLate | MisfireSkip | GracePeriod

definition misfire_name :: "MisfirePolicy \<Rightarrow> bytes" where
  "misfire_name p =
     (case p of RunLate \<Rightarrow> ''run_late'' | MisfireSkip \<Rightarrow> ''skip'' | GracePeriod \<Rightarrow> ''grace_period'')"

definition parse_misfire :: "bytes \<Rightarrow> (StoreError, MisfirePolicy) result" where
  "parse_misfire v =
     (if v = ''run_late'' then Ok RunLate else if v = ''skip'' then Ok MisfireSkip
      else if v = ''grace_period'' then Ok GracePeriod else Err StoreInternal)"

datatype CatchupPolicy = CatchupSkip | RunOnce | CatchUp

definition catchup_name :: "CatchupPolicy \<Rightarrow> bytes" where
  "catchup_name p =
     (case p of CatchupSkip \<Rightarrow> ''skip'' | RunOnce \<Rightarrow> ''run_once'' | CatchUp \<Rightarrow> ''catch_up'')"

definition parse_catchup :: "bytes \<Rightarrow> (StoreError, CatchupPolicy) result" where
  "parse_catchup v =
     (if v = ''skip'' then Ok CatchupSkip else if v = ''run_once'' then Ok RunOnce
      else if v = ''catch_up'' then Ok CatchUp else Err StoreInternal)"

datatype ScheduleTiming =
    Cron (cron_expression: bytes) (cron_timezone: bytes)
  | Once (execute_at: timestamp)

datatype TargetSelection = SelectTarget uuid | SelectTargetSet uuid

section \<open>Entities\<close>

datatype f64 = F64 rat | F64_nan | F64_inf bool

record Target =
  target_id :: uuid
  target_namespace_id :: uuid
  target_name :: ResourceName
  target_arguments :: "bytes list"
  target_inputs :: json
  target_created_at :: timestamp
  target_updated_at :: timestamp

record TargetSet =
  set_id :: uuid
  set_namespace_id :: uuid
  set_name :: ResourceName
  set_members :: "uuid list"
  set_inputs :: json
  set_created_at :: timestamp
  set_updated_at :: timestamp

definition TargetSet_new ::
  "uuid \<Rightarrow> uuid \<Rightarrow> ResourceName \<Rightarrow> json \<Rightarrow> timestamp \<Rightarrow> timestamp \<Rightarrow> TargetSet" where
  "TargetSet_new i n name inputs created updated =
     \<lparr> set_id = i, set_namespace_id = n, set_name = name, set_members = [], set_inputs = inputs,
       set_created_at = created, set_updated_at = updated \<rparr>"

text \<open>\<open>TargetSet::add_target\<close>: the result and the set after the call.\<close>

definition add_target :: "TargetSet \<Rightarrow> Target \<Rightarrow> (NamespaceMismatch, bool) result \<times> TargetSet" where
  "add_target s t =
     (if set_namespace_id s \<noteq> target_namespace_id t
      then (Err \<lparr> mismatch_expected = set_namespace_id s, mismatch_actual = target_namespace_id t \<rparr>, s)
      else (Ok (target_id t \<notin> set (set_members s)),
            s\<lparr> set_members := bset_insert (target_id t) (set_members s) \<rparr>))"

record Job =
  job_id :: uuid
  job_namespace_id :: uuid
  job_name :: ResourceName
  job_executor :: ExecutorKind
  job_queue_id :: uuid
  job_executable :: "bytes option"
  job_shell_command :: "bytes option"
  job_arguments :: "bytes list"
  job_inputs :: json
  job_idempotent :: bool
  job_dry_run :: bool
  job_max_attempts :: int
  job_retry_initial_seconds :: int
  job_retry_max_seconds :: int
  job_retry_multiplier :: f64
  job_retry_jitter :: f64
  job_created_at :: timestamp
  job_updated_at :: timestamp

record Schedule =
  sched_id :: uuid
  sched_namespace_id :: uuid
  sched_name :: ResourceName
  sched_job_id :: uuid
  sched_target :: TargetSelection
  sched_inputs :: json
  sched_timing :: ScheduleTiming
  sched_enabled :: bool
  sched_next_run_at :: "timestamp option"
  sched_last_run_at :: "timestamp option"
  sched_misfire_policy :: MisfirePolicy
  sched_misfire_grace_seconds :: "int option"
  sched_catchup_policy :: CatchupPolicy
  sched_max_catchup_runs :: nat
  sched_max_catchup_age_seconds :: int
  sched_revision :: int
  sched_created_at :: timestamp
  sched_updated_at :: timestamp

section \<open>Bounded text and pages\<close>

text \<open>The tail of at most 65536 bytes, cut forward to a character boundary.\<close>

function tail_start :: "bytes \<Rightarrow> nat \<Rightarrow> nat" where
  "tail_start v start =
     (if start < length v \<and> \<not> is_char_boundary v start then tail_start v (start + 1) else start)"
  by pat_completeness auto
termination
  by (relation "measure (\<lambda>(v, start). length v - start)") auto

declare tail_start.simps [simp del]

definition bounded_tail :: "bytes \<Rightarrow> bytes" where
  "bounded_tail v =
     (if length v \<le> 65536 then v else drop (tail_start v (length v - 65536)) v)"

fun take_chars :: "nat \<Rightarrow> bytes \<Rightarrow> bytes" where
  "take_chars n [] = []"
| "take_chars n (c # cs) =
     (if is_continuation c then c # take_chars n cs
      else (case n of 0 \<Rightarrow> [] | Suc m \<Rightarrow> c # take_chars m cs))"

definition bounded_error :: "bytes \<Rightarrow> bytes" where
  "bounded_error v = take_chars 1024 v"

record 'a Page =
  items :: "'a list"
  next_cursor :: "bytes option"

text \<open>A query fetches \<open>limit + 1\<close> rows; \<open>page\<close> keeps \<open>limit\<close> of them and derives the cursor.\<close>

definition page ::
  "'r list \<Rightarrow> nat \<Rightarrow> ('r \<Rightarrow> (StoreError, 't) result) \<Rightarrow> ('t \<Rightarrow> bytes) \<Rightarrow> (StoreError, 't Page) result" where
  "page rows limit mapper cursor =
     (let has_more = length rows > limit;
          rows' = (if has_more then butlast rows else rows) in
      and_then (traverse mapper rows') (\<lambda>its.
      Ok \<lparr> items = its,
           next_cursor = (if has_more then (if its = [] then None else Some (cursor (last its))) else None) \<rparr>))"

definition empty_page :: "'t Page" where
  "empty_page = \<lparr> items = [], next_cursor = None \<rparr>"

section \<open>Failure classification\<close>

definition classify_sqlstate :: "bytes option \<Rightarrow> StoreError option" where
  "classify_sqlstate code =
     (case code of
        None \<Rightarrow> None
      | Some c \<Rightarrow>
          if c = ''23505'' then Some StoreConflict
          else if c = ''23001'' \<or> c = ''23503'' then Some StoreInUse
          else if c = ''22021'' \<or> c = ''22P05'' then Some StoreInvalidData
          else None)"

definition stored_revision :: "int \<Rightarrow> (StoreError, int) result" where
  "stored_revision revision = (if revision \<le> i64_max then Ok revision else Err StoreStaleRevision)"

definition row_count :: "int \<Rightarrow> (StoreError, int) result" where
  "row_count v = (if 0 \<le> v then Ok v else Err StoreInternal)"

definition duration_seconds :: "int \<Rightarrow> (StoreError, int) result" where
  "duration_seconds secs = (if secs \<le> i32_max then Ok secs else Err StoreInternal)"

section \<open>Properties\<close>

text \<open>
  Every persisted enumeration reads back as it was written, and a Run state is read from no
  other text than the one it is written as.
\<close>

theorem status_roundtrip:
  "parse_run_status (run_status_name s) = Inr s \<and> parse_executor (executor_name x) = Inr x \<and>
   parse_misfire (misfire_name m) = Inr m \<and> parse_catchup (catchup_name c) = Inr c \<and>
   (parse_run_status v = Inr s \<longleftrightarrow> v = run_status_name s)"
proof -
  have "parse_run_status (run_status_name s) = Inr s"
    by (cases s) (simp_all add: parse_run_status_def run_status_name_def)
  moreover have "parse_run_status v = Inr s \<Longrightarrow> v = run_status_name s"
    by (cases s) (simp_all add: parse_run_status_def run_status_name_def split: if_splits)
  moreover have "parse_executor (executor_name x) = Inr x"
    by (cases x) (simp_all add: parse_executor_def executor_name_def)
  moreover have "parse_misfire (misfire_name m) = Inr m"
    by (cases m) (simp_all add: parse_misfire_def misfire_name_def)
  moreover have "parse_catchup (catchup_name c) = Inr c"
    by (cases c) (simp_all add: parse_catchup_def catchup_name_def)
  ultimately show ?thesis by blast
qed

lemma tail_start_props:
  "start \<le> length v \<Longrightarrow>
     start \<le> tail_start v start \<and> tail_start v start \<le> length v \<and> is_char_boundary v (tail_start v start) \<and>
     (\<forall>i. start \<le> i \<and> i < tail_start v start \<longrightarrow> \<not> is_char_boundary v i)"
proof (induction v start rule: tail_start.induct)
  case (1 v start)
  show ?case
  proof (cases "start < length v \<and> \<not> is_char_boundary v start")
    case True
    then have "tail_start v start = tail_start v (start + 1)" by (subst tail_start.simps) simp
    then show ?thesis
      using 1(1) [OF True] True by (auto simp: Suc_le_eq) (metis le_neq_implies_less)
  next
    case False
    then have "tail_start v start = start" by (subst tail_start.simps) auto
    then show ?thesis using False 1(2) by (auto simp: is_char_boundary_def)
  qed
qed

text \<open>
  Captured output is bounded: \<open>bounded_tail\<close> returns a suffix of at most 65536 bytes that
  starts at a character boundary, and it is the longest such suffix.
\<close>

theorem bounded_tail_longest:
  "\<exists>k. bounded_tail v = drop k v \<and> k \<le> length v \<and> length (bounded_tail v) \<le> 65536 \<and>
       is_char_boundary v k \<and>
       \<not> (\<exists>i < k. is_char_boundary v i \<and> length (drop i v) \<le> 65536)"
proof (cases "length v \<le> 65536")
  case True
  then show ?thesis by (intro exI [of _ 0]) (simp add: bounded_tail_def is_char_boundary_def)
next
  case False
  let ?s = "length v - 65536"
  have "?s \<le> length v" by simp
  from tail_start_props [OF this] False show ?thesis
    by (intro exI [of _ "tail_start v ?s"]) (auto simp: bounded_tail_def)
qed

lemma add_target_sorted:
  "sorted_wrt (<) (set_members s) \<Longrightarrow> sorted_wrt (<) (set_members (snd (add_target s t)))"
  by (simp add: add_target_def sorted_bset_insert)

text \<open>
  Target Set membership stays inside one Namespace: adding a Target of another Namespace
  fails and changes nothing; adding one of the same Namespace reports whether it was new, makes
  it a member, and keeps the members in strict order without duplicates.
\<close>

theorem add_target_membership:
  assumes "sorted_wrt (<) (set_members s)"
  shows "(if target_namespace_id t = set_namespace_id s
     then fst (add_target s t) = Inr (target_id t \<notin> set (set_members s)) \<and>
          set (set_members (snd (add_target s t))) = insert (target_id t) (set (set_members s))
     else is_ok (fst (add_target s t)) = False \<and> snd (add_target s t) = s) \<and>
   sorted_wrt (<) (set_members (snd (add_target s t)))"
  using assms add_target_sorted [OF assms] by (auto simp: add_target_def)

theorem add_target_membership_witness:
  "sorted_wrt (<) (set_members (snd (add_target
     (TargetSet_new 31 1 (ResourceName ''mariadb-prod'') (JObject []) 0 0)
     \<lparr> target_id = 24, target_namespace_id = 1, target_name = ResourceName ''host-124'',
       target_arguments = [], target_inputs = JObject [], target_created_at = 0, target_updated_at = 0 \<rparr>)))"
  using add_target_membership [of "TargetSet_new 31 1 (ResourceName ''mariadb-prod'') (JObject []) 0 0"
     "\<lparr> target_id = 24, target_namespace_id = 1, target_name = ResourceName ''host-124'',
       target_arguments = [], target_inputs = JObject [], target_created_at = 0, target_updated_at = 0 \<rparr>"]
  by (simp add: TargetSet_new_def)

text \<open>
  Paging loses no row: on a query that fetched at most one row more than the limit, the
  page holds the mapped first \<open>limit\<close> rows, and it has a continuation cursor, that of its last
  item, exactly when another row is waiting.
\<close>

theorem page_complete:
  assumes "length rows \<le> limit + 1" "0 < limit" "page rows limit mapper cursor = Inr p"
  shows "traverse mapper (take limit rows) = Inr (items p) \<and>
    (next_cursor p = (if length rows = limit + 1 then Some (cursor (last (items p))) else None))"
proof -
  have "(if length rows > limit then butlast rows else rows) = take limit rows"
    using assms(1) by (auto simp: butlast_conv_take intro: arg_cong2 [of _ _ _ _ take])
  then show ?thesis
    using assms by (auto simp: page_def Let_def dest: traverse_length)
qed

theorem page_complete_witness:
  "next_cursor \<lparr> items = [1, 2], next_cursor = Some ''c'' \<rparr> = Some ''c'' \<and>
   traverse (\<lambda>x. Inr x :: (StoreError, nat) result) (take 2 [1, 2, 3]) =
     Inr (items \<lparr> items = [1, 2], next_cursor = Some ''c'' \<rparr>)"
  using page_complete [of "[1, 2, 3 :: nat]" 2 "\<lambda>x. Inr x" "\<lambda>x. ''c''" "\<lparr> items = [1, 2], next_cursor = Some ''c'' \<rparr>"]
  by (simp add: page_def)

end
