(* ===== verification/Scheduling.thy ===== *)
theory Scheduling
  imports Domain
begin

text \<open>
  The scheduler (\<open>services/server/src/scheduler\<close>): the misfire decision, the recurrence
  calculation and the planner that turns a due Schedule into occurrences and a new cursor.
  The cron field parser, the cron iterator, the timezone database and the representable range of
  their timestamps are third-party code and enter as the record \<open>cron_library\<close>.
\<close>

abbreviation second :: timestamp where "second \<equiv> 1000000000"

text \<open>\<open>time::Duration::whole_seconds\<close> truncates towards zero.\<close>

definition whole_seconds :: "int \<Rightarrow> int" where
  "whole_seconds d = (if 0 \<le> d then d div second else - ((- d) div second))"

section \<open>Misfire decision\<close>

datatype MisfireDecision =
    MisfireExecute (lateness_seconds: int)
  | MisfireSkipped (lateness_seconds: int)

definition lateness :: "timestamp \<Rightarrow> timestamp \<Rightarrow> int" where
  "lateness scheduled_at now = saturate u64_max (max (whole_seconds (now - scheduled_at)) 0)"

definition decide_misfire ::
  "MisfirePolicy \<Rightarrow> int option \<Rightarrow> timestamp \<Rightarrow> timestamp \<Rightarrow> MisfireDecision" where
  "decide_misfire policy grace_seconds scheduled_at now =
     (let late = lateness scheduled_at now;
          execute = (case policy of
                       RunLate \<Rightarrow> True
                     | MisfireSkip \<Rightarrow> late \<le> 30
                     | GracePeriod \<Rightarrow> (case grace_seconds of None \<Rightarrow> False | Some grace \<Rightarrow> late \<le> grace)) in
      if execute then MisfireExecute late else MisfireSkipped late)"

section \<open>Recurrence\<close>

datatype RecurrenceError = InvalidExpression | InvalidTimezone | OutOfRange

record local_time =
  lt_minute :: nat
  lt_hour :: nat
  lt_day :: nat
  lt_month :: nat
  lt_weekday :: nat

record 'tz cron_library =
  lib_parse_field :: "bytes \<Rightarrow> nat \<Rightarrow> nat \<Rightarrow> nat list option"
  lib_parse_tz :: "bytes \<Rightarrow> 'tz option"
  lib_parse_cron :: "bytes \<Rightarrow> 'tz \<Rightarrow> timestamp \<Rightarrow> timestamp option"
  lib_local :: "'tz \<Rightarrow> timestamp \<Rightarrow> local_time"
  lib_chrono_range :: "timestamp \<Rightarrow> bool"
  lib_time_range :: "timestamp \<Rightarrow> bool"

record CronFields =
  cf_minutes :: "nat list"
  cf_hours :: "nat list"
  cf_days_of_month :: "nat list"
  cf_months :: "nat list"
  cf_days_of_week :: "nat list"

definition cron_matches :: "CronFields \<Rightarrow> local_time \<Rightarrow> bool" where
  "cron_matches f c \<longleftrightarrow>
     lt_minute c \<in> set (cf_minutes f) \<and> lt_hour c \<in> set (cf_hours f) \<and>
     lt_day c \<in> set (cf_days_of_month f) \<and> lt_month c \<in> set (cf_months f) \<and>
     lt_weekday c \<in> set (cf_days_of_week f)"

text \<open>\<open>str::split_whitespace\<close>: the maximal runs of characters that are not white space.\<close>

function split_white :: "bytes \<Rightarrow> bytes \<Rightarrow> bytes list" where
  "split_white word [] = (if word = [] then [] else [word])"
| "split_white word (c # cs) =
     (case find (\<lambda>e. e \<noteq> [] \<and> prefix e (c # cs)) white_space of
        Some e \<Rightarrow> (if word = [] then [] else [word]) @ split_white [] (drop (length e) (c # cs))
      | None \<Rightarrow> split_white (word @ [c]) cs)"
  by pat_completeness auto
termination
  by (relation "measure (length \<circ> snd)") (auto dest!: find_Some_in simp: neq_Nil_conv)

definition split_whitespace :: "bytes \<Rightarrow> bytes list" where
  "split_whitespace s = split_white [] s"

definition parsed_fields :: "'tz cron_library \<Rightarrow> bytes \<Rightarrow> (RecurrenceError, CronFields) result" where
  "parsed_fields lib expression =
     (case split_whitespace expression of
        [minutes, hours, days_of_month, months, days_of_week] \<Rightarrow>
          (let field = (\<lambda>f lo hi. ok_or InvalidExpression (lib_parse_field lib f lo hi)) in
           and_then (field minutes 0 59) (\<lambda>mi.
           and_then (field hours 0 23) (\<lambda>h.
           and_then (field days_of_month 1 31) (\<lambda>d.
           and_then (field months 1 12) (\<lambda>mo.
           and_then (field days_of_week 0 6) (\<lambda>w.
           Ok \<lparr> cf_minutes = mi, cf_hours = h, cf_days_of_month = d, cf_months = mo,
                cf_days_of_week = w \<rparr>))))))
      | _ \<Rightarrow> Err InvalidExpression)"

definition validate_cron ::
  "'tz cron_library \<Rightarrow> timestamp \<Rightarrow> bytes \<Rightarrow> bytes \<Rightarrow> (RecurrenceError, unit) result" where
  "validate_cron lib utc_now expression timezone =
     and_then (parsed_fields lib expression) (\<lambda>_.
     and_then (ok_or InvalidTimezone (lib_parse_tz lib timezone)) (\<lambda>zone.
     and_then (ok_or InvalidExpression (lib_parse_cron lib expression zone utc_now)) (\<lambda>_. Ok ())))"

definition sat_i64 :: "int \<Rightarrow> int" where
  "sat_i64 x = max (- i64_max - 1) (min i64_max x)"

text \<open>The scan of \<open>first_utc_match\<close>, minute by minute up to \<open>search_end\<close>.\<close>

function utc_scan ::
  "'tz cron_library \<Rightarrow> CronFields \<Rightarrow> 'tz \<Rightarrow> timestamp \<Rightarrow> timestamp \<Rightarrow> timestamp
     \<Rightarrow> (RecurrenceError, timestamp) result" where
  "utc_scan lib fs zone library_next search_end candidate =
     (if candidate \<le> search_end then
        (if cron_matches fs (lib_local lib zone candidate) then Ok candidate
         else if lib_chrono_range lib (candidate + 60 * second)
              then utc_scan lib fs zone library_next search_end (candidate + 60 * second)
              else Err OutOfRange)
      else Ok library_next)"
  by pat_completeness auto
termination
  by (relation "measure (\<lambda>(_, _, _, _, e, c). nat (e + 1 - c))") auto

declare utc_scan.simps [simp del]

definition OVERLAP_SEARCH_HOURS :: int where
  "OVERLAP_SEARCH_HOURS = 26"

definition search_end ::
  "'tz cron_library \<Rightarrow> timestamp \<Rightarrow> timestamp \<Rightarrow> timestamp" where
  "search_end lib after library_next =
     (let e = after + OVERLAP_SEARCH_HOURS * 3600 * second in
      if lib_chrono_range lib e then min e library_next else library_next)"

definition first_candidate :: "timestamp \<Rightarrow> timestamp" where
  "first_candidate after = sat_i64 (sat_i64 ((after div second) div 60 + 1) * 60) * second"

definition first_utc_match ::
  "'tz cron_library \<Rightarrow> CronFields \<Rightarrow> 'tz \<Rightarrow> timestamp \<Rightarrow> timestamp
     \<Rightarrow> (RecurrenceError, timestamp) result" where
  "first_utc_match lib fs zone after library_next =
     (let candidate = first_candidate after in
      if lib_chrono_range lib candidate
      then utc_scan lib fs zone library_next (search_end lib after library_next) candidate
      else Err OutOfRange)"

text \<open>\<open>timestamp_nanos_opt\<close> is defined on the nanosecond counts that fit in \<open>i64\<close>.\<close>

definition next_cron_occurrence ::
  "'tz cron_library \<Rightarrow> bytes \<Rightarrow> bytes \<Rightarrow> timestamp \<Rightarrow> (RecurrenceError, timestamp) result" where
  "next_cron_occurrence lib expression timezone after =
     and_then (parsed_fields lib expression) (\<lambda>fs.
     and_then (ok_or InvalidTimezone (lib_parse_tz lib timezone)) (\<lambda>zone.
     and_then (ensure (lib_chrono_range lib after) OutOfRange) (\<lambda>_.
     and_then (ok_or InvalidExpression (lib_parse_cron lib expression zone after)) (\<lambda>library_next.
     and_then (first_utc_match lib fs zone after library_next) (\<lambda>next.
     if - i64_max - 1 \<le> next \<and> next \<le> i64_max \<and> lib_time_range lib next
     then Ok next else Err OutOfRange)))))"

section \<open>Planner\<close>

record PlannedOccurrence =
  occ_scheduled_at :: timestamp
  occ_execute :: bool
  occ_lateness_seconds :: int
  occ_reason :: "bytes option"
  occ_dispatch_deadline :: "timestamp option"

record SchedulePlan =
  plan_schedule_id :: uuid
  plan_owner :: uuid
  plan_occurrences :: "PlannedOccurrence list"
  plan_next_run_at :: "timestamp option"
  plan_disable :: bool

definition dispatch_deadline :: "MisfirePolicy \<Rightarrow> int option \<Rightarrow> timestamp \<Rightarrow> timestamp option" where
  "dispatch_deadline policy grace_seconds scheduled_at =
     (case policy of
        RunLate \<Rightarrow> None
      | MisfireSkip \<Rightarrow> Some (scheduled_at + 30 * second)
      | GracePeriod \<Rightarrow> map_option (\<lambda>s. scheduled_at + s * second) grace_seconds)"

definition skipped :: "timestamp \<Rightarrow> timestamp \<Rightarrow> bytes \<Rightarrow> PlannedOccurrence" where
  "skipped scheduled_at now reason =
     \<lparr> occ_scheduled_at = scheduled_at, occ_execute = False,
       occ_lateness_seconds = lateness scheduled_at now, occ_reason = Some reason,
       occ_dispatch_deadline = None \<rparr>"

definition occurrence :: "Schedule \<Rightarrow> timestamp \<Rightarrow> timestamp \<Rightarrow> bytes option \<Rightarrow> PlannedOccurrence" where
  "occurrence s scheduled_at now reason =
     (case decide_misfire (sched_misfire_policy s) (sched_misfire_grace_seconds s) scheduled_at now of
        MisfireExecute late \<Rightarrow>
          \<lparr> occ_scheduled_at = scheduled_at, occ_execute = True, occ_lateness_seconds = late,
            occ_reason = reason,
            occ_dispatch_deadline = dispatch_deadline (sched_misfire_policy s)
              (sched_misfire_grace_seconds s) scheduled_at \<rparr>
      | MisfireSkipped late \<Rightarrow>
          \<lparr> occ_scheduled_at = scheduled_at, occ_execute = False, occ_lateness_seconds = late,
            occ_reason = Some ''misfire policy rejected the late occurrence'',
            occ_dispatch_deadline = None \<rparr>)"

text \<open>The catch-up loop: \<open>next\<close> is the recurrence, \<open>occurrences\<close> grows until the limit.\<close>

function catch_up_loop ::
  "(timestamp \<Rightarrow> (RecurrenceError, timestamp) result) \<Rightarrow> Schedule \<Rightarrow> timestamp \<Rightarrow> nat
     \<Rightarrow> PlannedOccurrence list \<Rightarrow> timestamp
     \<Rightarrow> (RecurrenceError, PlannedOccurrence list \<times> timestamp) result" where
  "catch_up_loop next s now limit occurrences cursor =
     (if cursor \<le> now \<and> length occurrences < limit
      then and_then (next cursor) (\<lambda>cursor'.
           catch_up_loop next s now limit (occurrences @ [occurrence s cursor now None]) cursor')
      else Ok (occurrences, cursor))"
  by pat_completeness auto
termination
  by (relation "measure (\<lambda>(_, _, _, limit, occs, _). limit - length occs)") auto

declare catch_up_loop.simps [simp del]

definition plan_occurrences_cron ::
  "(timestamp \<Rightarrow> (RecurrenceError, timestamp) result) \<Rightarrow> Schedule \<Rightarrow> timestamp \<Rightarrow> timestamp
     \<Rightarrow> (RecurrenceError, PlannedOccurrence list \<times> timestamp) result" where
  "plan_occurrences_cron next s now first_due =
     (case sched_catchup_policy s of
        CatchupSkip \<Rightarrow>
          and_then (next now) (\<lambda>n.
          Ok ([skipped first_due now ''catch-up policy skipped missed occurrences''], n))
      | RunOnce \<Rightarrow>
          and_then (next now) (\<lambda>n.
          Ok ([occurrence s first_due now (Some ''coalesced missed occurrences'')], n))
      | CatchUp \<Rightarrow>
          (let oldest = now - sched_max_catchup_age_seconds s * second in
           and_then (if first_due < oldest
                     then and_then (next oldest) (\<lambda>c.
                       Ok ([skipped first_due now ''occurrences older than max_catchup_age were summarized''], c))
                     else Ok ([], first_due)) (\<lambda>(occurrences, cursor).
           and_then (catch_up_loop next s now (sched_max_catchup_runs s) occurrences cursor)
             (\<lambda>(occurrences', cursor').
           if cursor' \<le> now
           then and_then (next now) (\<lambda>n.
                Ok (occurrences' @ [skipped cursor' now ''occurrences exceeding max_catchup_runs were summarized''], n))
           else Ok (occurrences', cursor')))))"

definition plan_cron ::
  "'tz cron_library \<Rightarrow> Schedule \<Rightarrow> uuid \<Rightarrow> timestamp \<Rightarrow> timestamp \<Rightarrow> bytes \<Rightarrow> bytes
     \<Rightarrow> (RecurrenceError, SchedulePlan) result" where
  "plan_cron lib s owner now first_due expression timezone =
     and_then (plan_occurrences_cron (next_cron_occurrence lib expression timezone) s now first_due)
       (\<lambda>(occs, n).
     Ok \<lparr> plan_schedule_id = sched_id s, plan_owner = owner, plan_occurrences = occs,
          plan_next_run_at = Some n, plan_disable = False \<rparr>)"

definition plan ::
  "'tz cron_library \<Rightarrow> Schedule \<Rightarrow> uuid \<Rightarrow> timestamp \<Rightarrow> (RecurrenceError, SchedulePlan) result" where
  "plan lib s owner now =
     (case sched_next_run_at s of
        None \<Rightarrow> Ok \<lparr> plan_schedule_id = sched_id s, plan_owner = owner, plan_occurrences = [],
                     plan_next_run_at = None, plan_disable = True \<rparr>
      | Some first_due \<Rightarrow>
          (case sched_timing s of
             Once _ \<Rightarrow> Ok \<lparr> plan_schedule_id = sched_id s, plan_owner = owner,
                            plan_occurrences = [occurrence s first_due now None],
                            plan_next_run_at = None, plan_disable = True \<rparr>
           | Cron expression timezone \<Rightarrow> plan_cron lib s owner now first_due expression timezone))"

section \<open>The recurrence contract\<close>

lemma occurrence_scheduled [simp]: "occ_scheduled_at (occurrence s t now r) = t"
  by (simp add: occurrence_def split: MisfireDecision.split)

lemma skipped_simps [simp]:
  "occ_scheduled_at (skipped t now r) = t" "occ_execute (skipped t now r) = False"
  "occ_dispatch_deadline (skipped t now r) = None"
  by (simp_all add: skipped_def)

text \<open>How a catch-up plan is put together.\<close>

lemma catch_up_cases:
  assumes "sched_catchup_policy s = CatchUp" "plan_occurrences_cron nxt s now first_due = Inr (occs, n)"
  obtains pre cur mid cur' where
    "(pre = [] \<and> cur = first_due \<and> now - sched_max_catchup_age_seconds s * second \<le> first_due) \<or>
      (\<exists>r. pre = [skipped first_due now r] \<and>
           first_due < now - sched_max_catchup_age_seconds s * second \<and>
           nxt (now - sched_max_catchup_age_seconds s * second) = Inr cur)"
    "catch_up_loop nxt s now (sched_max_catchup_runs s) pre cur = Inr (mid, cur')"
    "(cur' \<le> now \<and> nxt now = Inr n \<and> (\<exists>r. occs = mid @ [skipped cur' now r])) \<or>
      (now < cur' \<and> n = cur' \<and> occs = mid)"
proof -
  let ?oldest = "now - sched_max_catchup_age_seconds s * second"
  from assms obtain pre cur mid cur' where init: "(if first_due < ?oldest
         then and_then (nxt ?oldest) (\<lambda>c. Ok ([skipped first_due now ''occurrences older than max_catchup_age were summarized''], c))
         else Ok ([], first_due)) = Inr (pre, cur)"
      and loop: "catch_up_loop nxt s now (sched_max_catchup_runs s) pre cur = Inr (mid, cur')"
      and final: "(if cur' \<le> now then and_then (nxt now) (\<lambda>n.
           Ok (mid @ [skipped cur' now ''occurrences exceeding max_catchup_runs were summarized''], n))
         else Ok (mid, cur')) = Inr (occs, n)"
    by (auto simp: plan_occurrences_cron_def Let_def)
  show thesis
  proof (rule that [OF _ loop])
    show "(pre = [] \<and> cur = first_due \<and> ?oldest \<le> first_due) \<or>
      (\<exists>r. pre = [skipped first_due now r] \<and> first_due < ?oldest \<and> nxt ?oldest = Inr cur)"
      using init by (auto split: if_splits)
    show "(cur' \<le> now \<and> nxt now = Inr n \<and> (\<exists>r. occs = mid @ [skipped cur' now r])) \<or>
      (now < cur' \<and> n = cur' \<and> occs = mid)"
      using final by (auto split: if_splits)
  qed
qed

text \<open>The catch-up loop walks along the recurrence without leaving an occurrence out.\<close>

lemma loop_chain:
  assumes "catch_up_loop nxt s now limit occs cursor = Inr (occs', cursor')"
  shows "\<exists>ts. occs' = occs @ map (\<lambda>t. occurrence s t now None) ts \<and>
    successively (\<lambda>a b. nxt a = Inr b) (ts @ [cursor']) \<and> hd (ts @ [cursor']) = cursor \<and>
    (cursor' \<le> now \<longrightarrow> limit \<le> length occs') \<and> length occs' \<le> max limit (length occs)"
  using assms
proof (induction nxt s now limit occs cursor rule: catch_up_loop.induct)
  case (1 nxt s now limit occs cursor)
  show ?case
  proof (cases "cursor \<le> now \<and> length occs < limit")
    case True
    with 1(2) obtain n where n: "nxt cursor = Inr n"
        "catch_up_loop nxt s now limit (occs @ [occurrence s cursor now None]) n = Inr (occs', cursor')"
      by (subst (asm) catch_up_loop.simps) auto
    from 1(1) [OF True n(2)] obtain ts where ts:
      "occs' = (occs @ [occurrence s cursor now None]) @ map (\<lambda>t. occurrence s t now None) ts"
      "successively (\<lambda>a b. nxt a = Inr b) (ts @ [cursor'])" "hd (ts @ [cursor']) = n"
      "cursor' \<le> now \<longrightarrow> limit \<le> length occs'"
      "length occs' \<le> max limit (length (occs @ [occurrence s cursor now None]))"
      by blast
    moreover have "successively (\<lambda>a b. nxt a = Inr b) ((cursor # ts) @ [cursor'])"
      using ts(2,3) n(1) by (auto simp: successively_Cons)
    ultimately show ?thesis
      using True by (intro exI [of _ "cursor # ts"]) auto
  next
    case False
    then have "occs' = occs" "cursor' = cursor" using 1(2) by (subst (asm) catch_up_loop.simps; simp)+
    then show ?thesis using False by (intro exI [of _ "[]"]) auto
  qed
qed

lemma catch_up_chain:
  assumes "sched_catchup_policy s = CatchUp" "plan_occurrences_cron nxt s now first_due = Inr (occs, n)"
    and "now - sched_max_catchup_age_seconds s * second \<le> first_due" "first_due \<le> now"
  shows "occs \<noteq> [] \<and> occ_scheduled_at (hd occs) = first_due \<and>
    successively (\<lambda>a b. nxt a = Inr b) (map occ_scheduled_at occs) \<and>
    (\<forall>o' \<in> set (take (sched_max_catchup_runs s) occs). \<exists>t. o' = occurrence s t now None) \<and>
    (length occs \<le> sched_max_catchup_runs s \<longrightarrow> nxt (occ_scheduled_at (last occs)) = Inr n)"
  using assms(1,2)
proof (elim catch_up_cases)
  fix pre cur mid cur'
  assume start: "(pre = [] \<and> cur = first_due \<and> now - sched_max_catchup_age_seconds s * second \<le> first_due) \<or>
      (\<exists>r. pre = [skipped first_due now r] \<and>
         first_due < now - sched_max_catchup_age_seconds s * second \<and>
         nxt (now - sched_max_catchup_age_seconds s * second) = Inr cur)"
    and loop: "catch_up_loop nxt s now (sched_max_catchup_runs s) pre cur = Inr (mid, cur')"
    and final: "(cur' \<le> now \<and> nxt now = Inr n \<and> (\<exists>r. occs = mid @ [skipped cur' now r])) \<or>
      (now < cur' \<and> n = cur' \<and> occs = mid)"
  from start assms(3) have pc: "pre = []" "cur = first_due" by auto
  from loop_chain [OF loop] obtain ts where ts: "mid = map (\<lambda>t. occurrence s t now None) ts"
      "successively (\<lambda>a b. nxt a = Inr b) (ts @ [cur'])" "hd (ts @ [cur']) = first_due"
      "cur' \<le> now \<longrightarrow> sched_max_catchup_runs s \<le> length mid" "length mid \<le> sched_max_catchup_runs s"
    unfolding pc by auto
  have sched: "map occ_scheduled_at mid = ts" using ts(1) by (simp add: comp_def)
  from final show ?thesis
  proof (elim disjE conjE exE)
    fix r assume f: "cur' \<le> now" "occs = mid @ [skipped cur' now r]"
    have "map occ_scheduled_at occs = ts @ [cur']" using f(2) sched by simp
    moreover have "occ_scheduled_at (hd occs) = first_due"
      using f(2) ts(1,3) by (cases ts) auto
    ultimately show ?thesis using f ts by auto
  next
    assume f: "now < cur'" "n = cur'" "occs = mid"
    then have "ts \<noteq> []" using ts(3) assms(4) by (cases ts) auto
    then show ?thesis using f ts sched
      by (auto simp: successively_append_iff hd_map last_map dest: in_set_takeD)
  qed
qed

text \<open>
  The planner relies on one law of its recurrence: an occurrence lies strictly after the instant
  it is computed from.  \<open>ok\<close> marks the configurations for which the law holds.
\<close>

locale recurrence =
  fixes nxt :: "'c \<Rightarrow> timestamp \<Rightarrow> (RecurrenceError, timestamp) result"
    and ok :: "'c \<Rightarrow> bool"
  assumes advances: "ok c \<Longrightarrow> nxt c t = Inr t' \<Longrightarrow> t < t'"
begin

lemma loop_result:
  assumes "ok c" "catch_up_loop (nxt c) s now limit occs cursor = Inr (occs', cursor')"
    and "sorted_wrt (<) (map occ_scheduled_at occs @ [cursor])"
  shows "(\<exists>ts. map occ_scheduled_at occs' = map occ_scheduled_at occs @ ts \<and> (\<forall>t \<in> set ts. t \<le> now)) \<and>
    sorted_wrt (<) (map occ_scheduled_at occs' @ [cursor']) \<and>
    (cursor' \<le> now \<longrightarrow> limit \<le> length occs') \<and> (cursor \<le> now \<or> cursor' = cursor) \<and>
    length occs' \<le> max limit (length occs)"
  using assms(2,3)
proof (induction "nxt c" s now limit occs cursor rule: catch_up_loop.induct)
  case (1 s now limit occs cursor)
  show ?case
  proof (cases "cursor \<le> now \<and> length occs < limit")
    case True
    with 1(2) obtain n where n: "nxt c cursor = Inr n"
        "catch_up_loop (nxt c) s now limit (occs @ [occurrence s cursor now None]) n = Inr (occs', cursor')"
      by (subst (asm) catch_up_loop.simps) auto
    have "sorted_wrt (<) (map occ_scheduled_at (occs @ [occurrence s cursor now None]) @ [n])"
      using 1(3) advances [OF assms(1) n(1)] by (auto simp: sorted_wrt_append intro: less_trans)
    from 1(1) [OF True n(2) this] True show ?thesis by auto
  next
    case False
    then have "occs' = occs" "cursor' = cursor" using 1(2) by (subst (asm) catch_up_loop.simps; simp)+
    then show ?thesis using False 1(3) by auto
  qed
qed

lemma start_sorted:
  assumes "ok c"
    and "(pre = [] \<and> cur = first_due \<and> b) \<or>
      (\<exists>r. pre = [skipped first_due now r] \<and> first_due < old \<and> nxt c old = Inr cur)"
  shows "sorted_wrt (<) (map occ_scheduled_at pre @ [cur])" "length pre \<le> 1"
    "\<forall>t \<in> set (map occ_scheduled_at pre). t = first_due"
  using assms(2) by (auto dest!: advances [OF assms(1)])

lemma plan_sound:
  assumes "ok c" "plan_occurrences_cron (nxt c) s now first_due = Inr (occs, n)" "first_due \<le> now"
    and "0 \<le> sched_max_catchup_age_seconds s"
  shows "now < n \<and> sorted_wrt (<) (map occ_scheduled_at occs) \<and> (\<forall>t \<in> set (map occ_scheduled_at occs). t \<le> now)"
proof (cases "sched_catchup_policy s")
  case CatchUp
  from assms(2) CatchUp show ?thesis
  proof (elim catch_up_cases)
    fix pre cur mid cur'
    assume start: "(pre = [] \<and> cur = first_due \<and> now - sched_max_catchup_age_seconds s * second \<le> first_due) \<or>
        (\<exists>r. pre = [skipped first_due now r] \<and>
           first_due < now - sched_max_catchup_age_seconds s * second \<and>
           nxt c (now - sched_max_catchup_age_seconds s * second) = Inr cur)"
      and loop: "catch_up_loop (nxt c) s now (sched_max_catchup_runs s) pre cur = Inr (mid, cur')"
      and final: "(cur' \<le> now \<and> nxt c now = Inr n \<and> (\<exists>r. occs = mid @ [skipped cur' now r])) \<or>
        (now < cur' \<and> n = cur' \<and> occs = mid)"
    note pre = start_sorted [OF assms(1) start]
    from loop_result [OF assms(1) loop pre(1)] obtain ts where
      mid: "map occ_scheduled_at mid = map occ_scheduled_at pre @ ts" "\<forall>t \<in> set ts. t \<le> now"
        "sorted_wrt (<) (map occ_scheduled_at mid @ [cur'])"
      by blast
    have "\<forall>t \<in> set (map occ_scheduled_at mid). t \<le> now" unfolding mid(1) using pre(3) mid(2) assms(3) by auto
    then show ?thesis
      using final mid(3) advances [OF assms(1)] by (auto simp: sorted_wrt_append)
  qed
next
  case CatchupSkip
  then show ?thesis
    using assms advances by (auto simp: plan_occurrences_cron_def skipped_def)
next
  case RunOnce
  then show ?thesis
    using assms advances
    by (auto simp: plan_occurrences_cron_def occurrence_def split: MisfireDecision.splits)
qed

lemma executes_bounded:
  assumes "ok c" "plan_occurrences_cron (nxt c) s now first_due = Inr (occs, n)"
    and "0 < sched_max_catchup_runs s"
  shows "length (filter occ_execute occs) \<le> sched_max_catchup_runs s"
proof (cases "sched_catchup_policy s")
  case CatchUp
  from assms(2) CatchUp show ?thesis
  proof (elim catch_up_cases)
    fix pre cur mid cur'
    assume start: "(pre = [] \<and> cur = first_due \<and> now - sched_max_catchup_age_seconds s * second \<le> first_due) \<or>
        (\<exists>r. pre = [skipped first_due now r] \<and>
           first_due < now - sched_max_catchup_age_seconds s * second \<and>
           nxt c (now - sched_max_catchup_age_seconds s * second) = Inr cur)"
      and loop: "catch_up_loop (nxt c) s now (sched_max_catchup_runs s) pre cur = Inr (mid, cur')"
      and final: "(cur' \<le> now \<and> nxt c now = Inr n \<and> (\<exists>r. occs = mid @ [skipped cur' now r])) \<or>
        (now < cur' \<and> n = cur' \<and> occs = mid)"
    with loop_result [OF assms(1) loop] start_sorted [OF assms(1) start] assms(3) have "length mid \<le> sched_max_catchup_runs s" by auto
    then have "length (filter occ_execute mid) \<le> sched_max_catchup_runs s"
      using le_trans [OF length_filter_le] by blast
    then show ?thesis using final by auto
  qed
qed (use assms in \<open>auto simp: plan_occurrences_cron_def\<close>)

end

section \<open>The recurrence keeps its contract\<close>

text \<open>
  Documented behaviour of the cron library: its iterator returns an instant strictly after the
  one it is given, and its timestamps lie within the years \<open>-262143\<close> to \<open>262142\<close>.
\<close>

definition library_advances :: "'tz cron_library \<Rightarrow> bool" where
  "library_advances lib \<longleftrightarrow>
     (\<forall>e z t n. lib_parse_cron lib e z t = Some n \<longrightarrow> t < n) \<and>
     (\<forall>t. lib_chrono_range lib t \<longrightarrow> \<bar>t\<bar> \<le> 9000000000000 * second)"

lemma first_candidate_eq:
  assumes "\<bar>after\<bar> \<le> 9000000000000 * second"
  shows "first_candidate after = ((after div second) div 60 + 1) * 60 * second"
proof -
  have "\<bar>after div second div 60\<bar> \<le> 9000000000000" using assms by linarith
  then show ?thesis by (simp add: first_candidate_def sat_i64_def i64_max_def)
qed

lemma first_candidate_next_minute:
  assumes "\<bar>after\<bar> \<le> 9000000000000 * second"
  shows "after < first_candidate after" "first_candidate after \<le> after + 60 * second"
    "60 * second dvd first_candidate after"
proof -
  have "first_candidate after = (after div (60 * second) + 1) * (60 * second)"
    using first_candidate_eq [OF assms] by (simp add: zdiv_zmult2_eq [symmetric])
  then show "after < first_candidate after" "first_candidate after \<le> after + 60 * second"
      "60 * second dvd first_candidate after"
    by (simp_all add: algebra_simps)
qed

lemma utc_scan_Ok:
  "utc_scan lib fs zone lnext send c = Inr r \<Longrightarrow>
     (r = lnext \<and> (\<forall>k :: nat. c + int k * (60 * second) \<le> send \<longrightarrow>
        \<not> cron_matches fs (lib_local lib zone (c + int k * (60 * second))))) \<or>
     (r \<le> send \<and> cron_matches fs (lib_local lib zone r) \<and>
      (\<exists>n :: nat. r = c + int n * (60 * second) \<and>
        (\<forall>k < n. \<not> cron_matches fs (lib_local lib zone (c + int k * (60 * second))))))"
proof (induction lib fs zone lnext send c rule: utc_scan.induct)
  case (1 lib fs zone lnext send c)
  show ?case
  proof (cases "c \<le> send")
    case False
    moreover have "c \<le> c + int k * (60 * second)" for k by simp
    ultimately show ?thesis using 1(2) by (subst (asm) utc_scan.simps) (auto intro: order.trans)
  next
    case le: True
    show ?thesis
    proof (cases "cron_matches fs (lib_local lib zone c)")
      case True
      then show ?thesis using le 1(2) by (subst (asm) utc_scan.simps) auto
    next
      case no: False
      have range: "lib_chrono_range lib (c + 60 * second)"
        and rest: "utc_scan lib fs zone lnext send (c + 60 * second) = Inr r"
        using 1(2) le no by (subst (asm) utc_scan.simps; simp split: if_splits)+
      have shift: "c + 60 * second + int k * (60 * second) = c + int (Suc k) * (60 * second)" for k
        by simp
      from 1(1) [OF le no range rest, unfolded shift] show ?thesis
      proof (elim disjE conjE exE)
        assume "r = lnext" and all: "\<forall>k. c + int (Suc k) * (60 * second) \<le> send \<longrightarrow>
            \<not> cron_matches fs (lib_local lib zone (c + int (Suc k) * (60 * second)))"
        moreover have "\<not> cron_matches fs (lib_local lib zone (c + int k * (60 * second)))"
          if "c + int k * (60 * second) \<le> send" for k
          using that all no by (cases k) auto
        ultimately show ?thesis by blast
      next
        fix n assume "r \<le> send" "cron_matches fs (lib_local lib zone r)"
          and r: "r = c + int (Suc n) * (60 * second)"
          and all: "\<forall>k<n. \<not> cron_matches fs (lib_local lib zone (c + int (Suc k) * (60 * second)))"
        moreover have "\<not> cron_matches fs (lib_local lib zone (c + int k * (60 * second)))"
          if "k < Suc n" for k
          using that all no by (cases k) auto
        ultimately show ?thesis by blast
      qed
    qed
  qed
qed

lemma first_utc_match_after:
  assumes "first_utc_match lib fs zone after lnext = Inr r" "after < lnext" "library_advances lib"
    and "lib_chrono_range lib after"
  shows "after < r"
proof -
  have "\<bar>after\<bar> \<le> 9000000000000 * second" using assms(3,4) by (auto simp: library_advances_def)
  note cand = first_candidate_next_minute(1) [OF this]
  have "utc_scan lib fs zone lnext (search_end lib after lnext) (first_candidate after) = Inr r"
    using assms(1) by (simp add: first_utc_match_def Let_def split: if_splits)
  from utc_scan_Ok [OF this] consider "r = lnext" | n where "r = first_candidate after + int n * (60 * second)"
    by blast
  then show ?thesis
  proof cases
    case 2
    have "0 \<le> int n * (60 * second)" by simp
    then show ?thesis using cand 2 by linarith
  qed (use assms(2) in simp)
qed

lemma next_cron_advances:
  assumes "library_advances lib" "next_cron_occurrence lib e z t = Inr t'"
  shows "t < t'"
proof -
  from assms(2) obtain fs zone ln where "lib_chrono_range lib t"
      "lib_parse_cron lib e zone t = Some ln" "first_utc_match lib fs zone t ln = Inr t'"
    by (auto simp: next_cron_occurrence_def split: if_splits)
  then show ?thesis
    using assms(1) first_utc_match_after by (metis library_advances_def)
qed

interpretation cron: recurrence
  "\<lambda>(lib, e, z) t. next_cron_occurrence lib e z t" "\<lambda>(lib, e, z). library_advances lib"
  by unfold_locales (auto dest: next_cron_advances)

section \<open>Properties\<close>




definition sample_lib :: "unit cron_library" where
  "sample_lib = \<lparr> lib_parse_field = (\<lambda>f lo hi. if f = ''*'' then Some [lo..<hi + 1] else Some [lo]),
     lib_parse_tz = (\<lambda>z. Some ()), lib_parse_cron = (\<lambda>e z t. Some ((t div (3600 * second) + 1) * (3600 * second))),
     lib_local = (\<lambda>z t. \<lparr> lt_minute = nat (t div (60 * second) mod 60), lt_hour = nat (t div (3600 * second) mod 24),
        lt_day = 1, lt_month = 1, lt_weekday = 0 \<rparr>),
     lib_chrono_range = (\<lambda>t. \<bar>t\<bar> \<le> 9000000000000 * second), lib_time_range = (\<lambda>t. True) \<rparr>"

lemma sample_lib_advances: "library_advances sample_lib"
proof -
  have "t < (t div (3600 * second) + 1) * (3600 * second)" for t :: int by (simp add: algebra_simps)
  then show ?thesis by (simp add: library_advances_def sample_lib_def)
qed

lemma plan_cron_split:
  "plan_cron lib s owner now first_due e z = Inr p \<longleftrightarrow>
     (\<exists>occs n. plan_occurrences_cron (next_cron_occurrence lib e z) s now first_due = Inr (occs, n) \<and>
        p = \<lparr> plan_schedule_id = sched_id s, plan_owner = owner, plan_occurrences = occs,
              plan_next_run_at = Some n, plan_disable = False \<rparr>)"
  by (auto simp: plan_cron_def)

text \<open>
  C31. Planning a due cron Schedule always makes progress: the new cursor lies strictly after
  the planning instant, so the Schedule leaves the due set; the planned occurrences are strictly
  increasing, none lies in the future, and at most \<open>max_catchup_runs\<close> of them execute.
\<close>

theorem plan_cron_progress:
  assumes "plan_cron lib s owner now first_due e z = Inr p" and "library_advances lib"
    and "first_due \<le> now" and "0 < sched_max_catchup_runs s" and "0 \<le> sched_max_catchup_age_seconds s"
  shows "(\<exists>n. plan_next_run_at p = Some n \<and> now < n) \<and> \<not> plan_disable p \<and>
    sorted_wrt (<) (map occ_scheduled_at (plan_occurrences p)) \<and>
    (\<forall>t \<in> set (map occ_scheduled_at (plan_occurrences p)). t \<le> now) \<and>
    length (filter occ_execute (plan_occurrences p)) \<le> sched_max_catchup_runs s"
proof -
  from assms(1) obtain occs n where
    occs: "plan_occurrences_cron (next_cron_occurrence lib e z) s now first_due = Inr (occs, n)"
    and p: "plan_next_run_at p = Some n" "plan_occurrences p = occs" "\<not> plan_disable p"
    by (auto simp: plan_cron_split)
  from cron.plan_sound [of "(lib, e, z)"] cron.executes_bounded [of "(lib, e, z)"] occs assms p
  show ?thesis by (auto split: prod.splits)
qed

definition sample_schedule :: "MisfirePolicy \<Rightarrow> CatchupPolicy \<Rightarrow> nat \<Rightarrow> Schedule" where
  "sample_schedule misfire catchup runs = \<lparr> sched_id = 7, sched_namespace_id = 1,
     sched_name = ResourceName ''minutely'', sched_job_id = 2, sched_target = SelectTarget 3,
     sched_inputs = JObject [], sched_timing = Cron ''* * * * *'' ''UTC'', sched_enabled = True,
     sched_next_run_at = Some (60 * second), sched_last_run_at = None, sched_misfire_policy = misfire,
     sched_misfire_grace_seconds = None, sched_catchup_policy = catchup, sched_max_catchup_runs = runs,
     sched_max_catchup_age_seconds = 100, sched_revision = 1, sched_created_at = 0, sched_updated_at = 0 \<rparr>"

lemma sample_fields:
  "parsed_fields sample_lib ''* * * * *'' = Inr \<lparr> cf_minutes = [0..<60], cf_hours = [0..<24],
     cf_days_of_month = [1..<32], cf_months = [1..<13], cf_days_of_week = [0..<7] \<rparr>"
  by (simp add: parsed_fields_def split_whitespace_def white_space_def sample_lib_def numeral_eq_Suc)

lemma sample_next:
  assumes "0 \<le> t" "t \<le> 1000 * second"
  shows "next_cron_occurrence sample_lib ''* * * * *'' ''UTC'' t = Inr ((t div (60 * second) + 1) * (60 * second))"
proof -
  let ?n = "(t div (60 * second) + 1) * (60 * second)"
  have cand: "first_candidate t = ?n"
    using first_candidate_eq [of t] assms by (simp add: zdiv_zmult2_eq [symmetric])
  have bounds: "0 \<le> ?n" "?n \<le> 1060 * second" "?n \<le> t + 93600 * second" "?n \<le> (t div (3600 * second) + 1) * (3600 * second)"
  proof -
    have "t div 3600000000000 = 0" using assms by simp
    moreover have "0 \<le> t div 60000000000" "t div 60000000000 * 60000000000 \<le> t" using assms by simp_all
    ultimately show "0 \<le> ?n" "?n \<le> 1060 * second" "?n \<le> t + 93600 * second"
        "?n \<le> (t div (3600 * second) + 1) * (3600 * second)"
      using assms by (simp_all add: algebra_simps)
  qed
  let ?fs = "\<lparr> cf_minutes = [0..<60], cf_hours = [0..<24],
     cf_days_of_month = [1..<32], cf_months = [1..<13], cf_days_of_week = [0..<7] \<rparr>"
  have matches: "cron_matches ?fs (lib_local sample_lib () ?n)"
    by (simp add: sample_lib_def cron_matches_def nat_less_iff)
  have range: "lib_chrono_range sample_lib ?n" "lib_chrono_range sample_lib t"
      "lib_chrono_range sample_lib (t + 26 * 3600 * second)"
    using bounds assms by (simp_all add: sample_lib_def)
  have "?n \<le> search_end sample_lib t ((t div (3600 * second) + 1) * (3600 * second))"
    using bounds(3,4) range(3) unfolding search_end_def OVERLAP_SEARCH_HOURS_def Let_def by simp
  then have "first_utc_match sample_lib ?fs () t ((t div (3600 * second) + 1) * (3600 * second)) = Inr ?n"
    unfolding first_utc_match_def cand Let_def using range(1) matches by (subst utc_scan.simps) simp
  moreover have "lib_parse_tz sample_lib ''UTC'' = Some ()" "lib_time_range sample_lib ?n"
      "lib_parse_cron sample_lib ''* * * * *'' () t = Some ((t div (3600 * second) + 1) * (3600 * second))"
    by (simp_all add: sample_lib_def)
  moreover have "- i64_max - 1 \<le> ?n" "?n \<le> i64_max"
    using bounds(1,2) unfolding i64_max_def by linarith+
  ultimately show ?thesis
    using range(2) unfolding next_cron_occurrence_def sample_fields by (simp del: mult_numeral_1)
qed


lemmas sample_plan_simps = plan_cron_def plan_occurrences_cron_def sample_schedule_def
  catch_up_loop.simps sample_next skipped_def occurrence_def decide_misfire_def lateness_def
  whole_seconds_def saturate_def u64_max_def dispatch_deadline_def

lemma sample_plan:
  "plan_cron sample_lib (sample_schedule MisfireSkip CatchUp 3) 9 (130 * second) (60 * second) ''* * * * *'' ''UTC'' =
     Inr \<lparr> plan_schedule_id = 7, plan_owner = 9, plan_occurrences =
       [\<lparr> occ_scheduled_at = 60 * second, occ_execute = False, occ_lateness_seconds = 70,
          occ_reason = Some ''misfire policy rejected the late occurrence'', occ_dispatch_deadline = None \<rparr>,
        \<lparr> occ_scheduled_at = 120 * second, occ_execute = True, occ_lateness_seconds = 10,
          occ_reason = None, occ_dispatch_deadline = Some (150 * second) \<rparr>],
       plan_next_run_at = Some (180 * second), plan_disable = False \<rparr>"
  by (simp add: sample_plan_simps)

theorem plan_cron_progress_witness:
  "sorted_wrt (<) [60 * second, 120 * second] \<and> 130 * second < 180 * second"
  using plan_cron_progress [OF sample_plan sample_lib_advances]
  by (simp add: sample_schedule_def)

text \<open>
  Catch-up leaves no occurrence out: when the cursor is not older than the age limit, the
  planned occurrences start at the cursor and follow the recurrence link by link; each of the
  first \<open>max_catchup_runs\<close> is a real occurrence under the misfire policy, and unless the limit
  was exceeded the new cursor is the successor of the last of them.
\<close>

theorem catch_up_complete:
  assumes "plan_cron lib s owner now first_due e z = Inr p" and "sched_catchup_policy s = CatchUp"
    and "now - sched_max_catchup_age_seconds s * second \<le> first_due" and "first_due \<le> now"
  shows "plan_occurrences p \<noteq> [] \<and> occ_scheduled_at (hd (plan_occurrences p)) = first_due \<and>
    successively (\<lambda>a b. next_cron_occurrence lib e z a = Inr b) (map occ_scheduled_at (plan_occurrences p)) \<and>
    (\<forall>o' \<in> set (take (sched_max_catchup_runs s) (plan_occurrences p)). \<exists>t. o' = occurrence s t now None) \<and>
    (length (plan_occurrences p) \<le> sched_max_catchup_runs s \<longrightarrow>
       next_cron_occurrence lib e z (occ_scheduled_at (last (plan_occurrences p))) =
         Inr (the (plan_next_run_at p)))"
  using assms catch_up_chain [OF assms(2) _ assms(3,4)] by (auto simp: plan_cron_split)

theorem catch_up_complete_witness:
  "next_cron_occurrence sample_lib ''* * * * *'' ''UTC'' (60 * second) = Inr (120 * second) \<and>
   next_cron_occurrence sample_lib ''* * * * *'' ''UTC'' (120 * second) = Inr (180 * second)"
  using catch_up_complete [OF sample_plan] by (simp add: sample_schedule_def)

lemma whole_seconds_le_iff: "0 \<le> g \<Longrightarrow> max (whole_seconds d) 0 \<le> g \<longleftrightarrow> d < (g + 1) * second"
proof (cases "0 \<le> d")
  case True
  assume "0 \<le> g"
  have "d = d div second * second + d mod second" "0 \<le> d mod second" "d mod second < second"
    by simp_all
  then have "d div second \<le> g \<longleftrightarrow> d < (g + 1) * second"
    by (smt (verit) distrib_right mult_right_mono mult_1)
  then show ?thesis using True \<open>0 \<le> g\<close> by (simp add: whole_seconds_def)
next
  case False
  assume "0 \<le> g"
  have "0 \<le> (- d) div second" using False by (simp add: pos_imp_zdiv_nonneg_iff)
  then show ?thesis using False \<open>0 \<le> g\<close> by (simp add: whole_seconds_def algebra_simps)
qed

lemma lateness_le_iff:
  assumes "0 \<le> g" "g < u64_max"
  shows "lateness t now \<le> g \<longleftrightarrow> now < t + (g + 1) * second"
proof -
  have "lateness t now \<le> g \<longleftrightarrow> max (whole_seconds (now - t)) 0 \<le> g"
    using assms by (auto simp: lateness_def saturate_def)
  also have "\<dots> \<longleftrightarrow> now < t + (g + 1) * second"
    using whole_seconds_le_iff [OF assms(1), of "now - t"] by auto
  finally show ?thesis .
qed

text \<open>
  The misfire policy and the dispatch deadline agree up to the truncation to whole seconds:
  an occurrence planned for execution with a deadline is planned less than one second after it,
  and one that is rejected is rejected at least one second after the deadline its policy gives.
\<close>

theorem misfire_deadline:
  assumes "dispatch_deadline (sched_misfire_policy s) (sched_misfire_grace_seconds s) t = Some d"
    and "\<forall>g. sched_misfire_grace_seconds s = Some g \<longrightarrow> 0 \<le> g \<and> g \<le> u32_max"
  shows "occ_execute (occurrence s t now r) \<longleftrightarrow> now < d + second"
proof (cases "sched_misfire_policy s")
  case GracePeriod
  then obtain g where g: "sched_misfire_grace_seconds s = Some g" "d = t + g * second"
    using assms(1) by (auto simp: dispatch_deadline_def)
  have "lateness t now \<le> g \<longleftrightarrow> now < t + (g + 1) * second"
    using assms(2) g by (intro lateness_le_iff) (auto simp: int_bounds)
  then show ?thesis
    using GracePeriod g by (auto simp: occurrence_def decide_misfire_def algebra_simps)
next
  case MisfireSkip
  have "lateness t now \<le> 30 \<longleftrightarrow> now < t + 31 * second"
    using lateness_le_iff [of 30 t now] by (simp add: int_bounds)
  then show ?thesis
    using MisfireSkip assms(1) by (auto simp: occurrence_def decide_misfire_def dispatch_deadline_def)
qed (use assms(1) in \<open>simp add: dispatch_deadline_def\<close>)

theorem misfire_deadline_witness:
  "occ_execute (occurrence (sample_schedule MisfireSkip CatchUp 3) (60 * second) (90 * second + 1) None) \<longleftrightarrow>
     90 * second + 1 < 90 * second + second"
  using misfire_deadline [of "sample_schedule MisfireSkip CatchUp 3" "60 * second" "90 * second" "90 * second + 1" None]
  by (simp add: sample_schedule_def dispatch_deadline_def)

text \<open>
  The summary of occurrences beyond the age limit counts against \<open>max_catchup_runs\<close>: with
  a cursor older than the age limit and \<open>max_catchup_runs = 1\<close>, nothing executes even when
  recent occurrences are within the age limit.
\<close>

theorem catchup_limit_one_old_cursor:
  assumes "plan_cron lib s owner now first_due e z = Inr p" and "sched_catchup_policy s = CatchUp"
    and "sched_max_catchup_runs s = 1"
    and "first_due < now - sched_max_catchup_age_seconds s * second"
  shows "\<not> (\<exists>o' \<in> set (plan_occurrences p). occ_execute o')"
  using assms
  by (auto simp: plan_cron_split plan_occurrences_cron_def Let_def catch_up_loop.simps split: if_splits)

theorem catchup_limit_one_old_cursor_witness:
  "\<exists>p. plan_cron sample_lib (sample_schedule RunLate CatchUp 1) 9 (300 * second) (60 * second) ''* * * * *'' ''UTC'' = Inr p \<and>
     map occ_scheduled_at (plan_occurrences p) = [60 * second, 240 * second] \<and>
     \<not> (\<exists>o' \<in> set (plan_occurrences p). occ_execute o')"
proof -
  obtain p where p: "plan_cron sample_lib (sample_schedule RunLate CatchUp 1) 9 (300 * second) (60 * second)
        ''* * * * *'' ''UTC'' = Inr p" "map occ_scheduled_at (plan_occurrences p) = [60 * second, 240 * second]"
    by (simp add: plan_cron_def plan_occurrences_cron_def sample_schedule_def sample_next catch_up_loop.simps)
  with catchup_limit_one_old_cursor [OF p(1)] show ?thesis by (auto simp: sample_schedule_def)
qed

end
