(* ===== verification/WorkflowGraph.thy ===== *)
theory WorkflowGraph
  imports Domain
begin

text \<open>
  Workflow definitions (\<open>services/server/src/domain/workflow.rs\<close>): validation of the graph with
  Kahn's algorithm, and the AND-join decision for one node.  A counter that would drop below
  zero is a Rust overflow; the model returns \<open>None\<close> there, and the graph lemmas show that it
  cannot happen.
\<close>

datatype DependencyCondition = OnSuccess | OnFailure | Always

record WorkflowNode =
  wn_name :: ResourceName
  wn_job_id :: uuid

record WorkflowEdge =
  we_from :: ResourceName
  we_to :: ResourceName
  we_condition :: DependencyCondition

record WorkflowDefinition =
  wd_name :: ResourceName
  wd_description :: "bytes option"
  wd_nodes :: "WorkflowNode list"
  wd_edges :: "WorkflowEdge list"

text \<open>One constructor per message of \<open>validate\<close>.\<close>

datatype WorkflowInvalid =
    WorkflowBounds
  | WorkflowDescription
  | DuplicateNode
  | EdgeEndpoints
  | DuplicateEdge
  | WorkflowCycle

section \<open>Validation\<close>

fun insert_nodes ::
  "(bytes, nat) btree \<Rightarrow> WorkflowNode list \<Rightarrow> (WorkflowInvalid, (bytes, nat) btree) result" where
  "insert_nodes incoming [] = Ok incoming"
| "insert_nodes incoming (node # nodes) =
     (if bt_get incoming (resource_str (wn_name node)) \<noteq> None then Err DuplicateNode
      else insert_nodes (bt_insert (resource_str (wn_name node)) 0 incoming) nodes)"

fun insert_edges ::
  "(bytes \<times> bytes) list \<Rightarrow> (bytes, nat) btree \<Rightarrow> (bytes, bytes list) btree \<Rightarrow> WorkflowEdge list
     \<Rightarrow> (WorkflowInvalid, (bytes, nat) btree \<times> (bytes, bytes list) btree) result" where
  "insert_edges pairs incoming outgoing [] = Ok (incoming, outgoing)"
| "insert_edges pairs incoming outgoing (edge # edges) =
     (let source = resource_str (we_from edge); dest = resource_str (we_to edge) in
      if source = dest \<or> bt_get incoming source = None \<or> bt_get incoming dest = None then Err EdgeEndpoints
      else if (source, dest) \<in> set pairs then Err DuplicateEdge
      else insert_edges ((source, dest) # pairs)
             (case bt_get incoming dest of Some count \<Rightarrow> bt_set dest (count + 1) incoming | None \<Rightarrow> incoming)
             (bt_insert source ((case bt_get outgoing source of Some ds \<Rightarrow> ds | None \<Rightarrow> []) @ [dest]) outgoing)
             edges)"

fun relax :: "(bytes, nat) btree \<Rightarrow> bytes list \<Rightarrow> bytes list \<Rightarrow> ((bytes, nat) btree \<times> bytes list) option" where
  "relax incoming ready [] = Some (incoming, ready)"
| "relax incoming ready (downstream # rest) =
     (case bt_get incoming downstream of
        None \<Rightarrow> relax incoming ready rest
      | Some 0 \<Rightarrow> None
      | Some (Suc count) \<Rightarrow>
          relax (bt_set downstream count incoming) (if count = 0 then ready @ [downstream] else ready) rest)"

definition total :: "(bytes, nat) btree \<Rightarrow> nat" where
  "total incoming = sum_list (map snd incoming)"

lemma total_set: "bt_get m k = Some (Suc c) \<Longrightarrow> total m = Suc (total (bt_set k c m))"
  unfolding total_def by (induction m) (auto split: if_splits)

lemma relax_measure:
  "relax incoming ready ds = Some (incoming', ready') \<Longrightarrow>
     total incoming' + length ready' \<le> total incoming + length ready"
proof (induction incoming ready ds rule: relax.induct)
  case (2 incoming ready d rest)
  then show ?case
    by (auto split: option.splits nat.splits if_splits dest!: total_set)
qed simp

function kahn ::
  "(bytes, nat) btree \<Rightarrow> (bytes, bytes list) btree \<Rightarrow> bytes list \<Rightarrow> nat \<Rightarrow> nat option" where
  "kahn incoming outgoing ready visited =
     (case ready of
        [] \<Rightarrow> Some visited
      | node # rest \<Rightarrow>
          (case relax incoming rest (case bt_get outgoing node of Some ds \<Rightarrow> ds | None \<Rightarrow> []) of
             None \<Rightarrow> None
           | Some (incoming', ready') \<Rightarrow> kahn incoming' outgoing ready' (visited + 1)))"
  by pat_completeness auto
termination
  by (relation "measure (\<lambda>(inc, out, ready, v). total inc + length ready)")
    (auto dest!: relax_measure)

declare kahn.simps [simp del]

definition description_ok :: "bytes option \<Rightarrow> bool" where
  "description_ok d = (case d of None \<Rightarrow> True | Some v \<Rightarrow> NUL \<notin> set v \<and> char_count v \<le> 500)"

text \<open>\<open>WorkflowDefinition::validate\<close>; \<open>None\<close> would be an arithmetic overflow.\<close>

definition validate_workflow :: "WorkflowDefinition \<Rightarrow> (WorkflowInvalid, unit) result option" where
  "validate_workflow d =
     (if wd_nodes d = [] \<or> length (wd_nodes d) > 64 \<or> length (wd_edges d) > 256
      then Some (Err WorkflowBounds)
      else if \<not> description_ok (wd_description d) then Some (Err WorkflowDescription)
      else (case insert_nodes [] (wd_nodes d) of
              Inl e \<Rightarrow> Some (Err e)
            | Inr nodes \<Rightarrow>
                (case insert_edges [] nodes [] (wd_edges d) of
                   Inl e \<Rightarrow> Some (Err e)
                 | Inr (incoming, outgoing) \<Rightarrow>
                     (case kahn incoming outgoing (map fst (filter (\<lambda>(_, count). count = 0) incoming)) 0 of
                        None \<Rightarrow> None
                      | Some visited \<Rightarrow>
                          Some (if visited \<noteq> length (wd_nodes d) then Err WorkflowCycle else Ok ())))))"

section \<open>Dependency decisions\<close>

datatype WorkflowNodeState =
    NodePending | NodeReady | NodeRunning | NodeSucceeded | NodeFailed | NodeSkipped
  | NodeCancelled | NodeUnknown

definition node_is_terminal :: "WorkflowNodeState \<Rightarrow> bool" where
  "node_is_terminal s \<longleftrightarrow> \<not> (s = NodePending \<or> s = NodeReady \<or> s = NodeRunning)"

datatype WorkflowState =
    WorkflowPending | WorkflowRunning | WorkflowSucceeded | WorkflowFailed | WorkflowCancelled

datatype DependencyDecision = DepWaiting | DepReady | DepSkipped

definition condition_matches :: "DependencyCondition \<Rightarrow> WorkflowNodeState \<Rightarrow> bool" where
  "condition_matches c s =
     (case c of
        OnSuccess \<Rightarrow> s = NodeSucceeded
      | OnFailure \<Rightarrow> s = NodeFailed \<or> s = NodeUnknown
      | Always \<Rightarrow> True)"

fun decide_from :: "bool \<Rightarrow> (DependencyCondition \<times> WorkflowNodeState) list \<Rightarrow> DependencyDecision" where
  "decide_from waiting [] = (if waiting then DepWaiting else DepReady)"
| "decide_from waiting ((c, s) # rest) =
     (if \<not> node_is_terminal s then decide_from True rest
      else if \<not> condition_matches c s then DepSkipped
      else decide_from waiting rest)"

definition dependency_decision :: "(DependencyCondition \<times> WorkflowNodeState) list \<Rightarrow> DependencyDecision" where
  "dependency_decision incoming = decide_from False incoming"

section \<open>Graph lemmas\<close>

abbreviation node_names :: "WorkflowNode list \<Rightarrow> bytes list" where
  "node_names nodes \<equiv> map (\<lambda>n. resource_str (wn_name n)) nodes"

abbreviation endpoints :: "WorkflowEdge list \<Rightarrow> (bytes \<times> bytes) list" where
  "endpoints edges \<equiv> map (\<lambda>e. (resource_str (we_from e), resource_str (we_to e))) edges"

lemma insert_nodes_Ok:
  "insert_nodes inc nodes = Inr inc' \<Longrightarrow> bt_sorted inc \<Longrightarrow>
     bt_sorted inc' \<and> distinct (node_names nodes) \<and> (\<forall>n \<in> set (node_names nodes). bt_get inc n = None) \<and>
     (\<forall>k. bt_get inc' k = (if k \<in> set (node_names nodes) then Some 0 else bt_get inc k))"
  by (induction inc nodes rule: insert_nodes.induct)
    (auto simp: bt_sorted_insert bt.get_ins split: if_splits)

lemma insert_nodes_total:
  "distinct (node_names nodes) \<Longrightarrow> \<forall>n \<in> set (node_names nodes). bt_get inc n = None \<Longrightarrow>
     \<exists>inc'. insert_nodes inc nodes = Inr inc'"
proof (induction inc nodes rule: insert_nodes.induct)
  case (2 inc node nodes)
  moreover have "\<forall>n \<in> set (node_names nodes). bt_get (bt_insert (resource_str (wn_name node)) 0 inc) n = None"
    using 2(2,3) by (auto simp: bt.get_ins) (metis image_eqI)
  ultimately show ?case by simp
qed simp

lemma insert_nodes_Err: "insert_nodes inc nodes = Inl e \<Longrightarrow> e = DuplicateNode"
  by (induction inc nodes rule: insert_nodes.induct) (auto split: if_splits)

definition outs :: "(bytes, bytes list) btree \<Rightarrow> bytes \<Rightarrow> bytes list" where
  "outs outgoing n = (case bt_get outgoing n of Some ds \<Rightarrow> ds | None \<Rightarrow> [])"

lemma insert_edges_Ok:
  assumes "insert_edges pairs inc out edges = Inr (inc', out')"
  shows "bt_sorted inc' = bt_sorted inc \<and> map fst inc' = map fst inc \<and>
    distinct (endpoints edges) \<and> set (endpoints edges) \<inter> set pairs = {} \<and>
    (\<forall>(a, b) \<in> set (endpoints edges). a \<noteq> b \<and> bt_get inc a \<noteq> None \<and> bt_get inc b \<noteq> None) \<and>
    (\<forall>k. bt_get inc' k = map_option (\<lambda>c. c + length (filter (\<lambda>(a, b). b = k) (endpoints edges))) (bt_get inc k)) \<and>
    (\<forall>k. outs out' k = outs out k @ map snd (filter (\<lambda>(a, b). a = k) (endpoints edges)))"
  using assms
proof (induction pairs inc out edges rule: insert_edges.induct)
  case (1 pairs inc out)
  then show ?case by (auto simp: option.map_ident)
next
  case (2 pairs inc out e es)
  let ?a = "resource_str (we_from e)" and ?b = "resource_str (we_to e)"
  from 2(2) have ok: "?a \<noteq> ?b" "bt_get inc ?a \<noteq> None" "(?a, ?b) \<notin> set pairs"
    and rec: "insert_edges ((?a, ?b) # pairs)
        (case bt_get inc ?b of Some count \<Rightarrow> bt_set ?b (count + 1) inc | None \<Rightarrow> inc)
        (bt_insert ?a (outs out ?a @ [?b]) out) es = Inr (inc', out')"
    by (auto simp: Let_def outs_def split: if_splits)
  from 2(2) obtain c where c: "bt_get inc ?b = Some c" by (auto simp: Let_def split: if_splits)
  have get: "bt_get (bt_set ?b (c + 1) inc) k = (if k = ?b then Some (c + 1) else bt_get inc k)" for k
    using c by (simp add: bt_get_set)
  have out: "outs (bt_insert ?a (outs out ?a @ [?b]) out) k = (if k = ?a then outs out ?a @ [?b] else outs out k)" for k
    by (simp add: outs_def bt.get_ins)
  have cond: "\<not> (?a = ?b \<or> bt_get inc ?a = None \<or> bt_get inc ?b = None)" "(?a, ?b) \<notin> set pairs"
    using ok c by auto
  from 2(1) [OF refl refl cond] rec c
  have ih: "bt_sorted inc' = bt_sorted inc \<and> map fst inc' = map fst inc \<and>
    distinct (endpoints es) \<and> set (endpoints es) \<inter> set ((?a, ?b) # pairs) = {} \<and>
    (\<forall>(a, b) \<in> set (endpoints es). a \<noteq> b \<and> bt_get (bt_set ?b (c + 1) inc) a \<noteq> None \<and> bt_get (bt_set ?b (c + 1) inc) b \<noteq> None) \<and>
    (\<forall>k. bt_get inc' k = map_option (\<lambda>c. c + length (filter (\<lambda>(a, b). b = k) (endpoints es))) (bt_get (bt_set ?b (c + 1) inc) k)) \<and>
    (\<forall>k. outs out' k = outs (bt_insert ?a (outs out ?a @ [?b]) out) k @ map snd (filter (\<lambda>(a, b). a = k) (endpoints es)))"
    by (simp add: outs_def)
  then show ?case
    using ok c unfolding get out by (auto simp: comp_def split: if_splits)
qed

lemma relax_eq:
  assumes "distinct ds" "\<forall>d \<in> set ds. \<exists>c. bt_get inc d = Some (Suc c)"
  shows "\<exists>inc'. relax inc ready ds = Some (inc', ready @ filter (\<lambda>d. bt_get inc d = Some 1) ds) \<and>
    (\<forall>k. bt_get inc' k = (if k \<in> set ds then map_option (\<lambda>c. c - 1) (bt_get inc k) else bt_get inc k))"
  using assms
proof (induction ds arbitrary: inc ready)
  case (Cons d ds)
  then obtain c where c: "bt_get inc d = Some (Suc c)" by auto
  let ?inc = "bt_set d c inc"
  have get: "bt_get ?inc k = (if k = d then Some c else bt_get inc k)" for k
    using c by (simp add: bt_get_set)
  have "\<forall>x \<in> set ds. \<exists>c. bt_get ?inc x = Some (Suc c)" using Cons.prems get by auto
  from Cons.IH [OF _ this] Cons.prems(1) obtain inc' where inc':
    "relax ?inc (if c = 0 then ready @ [d] else ready) ds =
       Some (inc', (if c = 0 then ready @ [d] else ready) @ filter (\<lambda>d. bt_get ?inc d = Some 1) ds)"
    "\<And>k. bt_get inc' k = (if k \<in> set ds then map_option (\<lambda>c. c - 1) (bt_get ?inc k) else bt_get ?inc k)"
    by force
  have "filter (\<lambda>d. bt_get ?inc d = Some 1) ds = filter (\<lambda>d. bt_get inc d = Some 1) ds"
    using Cons.prems(1) get by (intro filter_cong) auto
  moreover have "bt_get inc' k = (if k \<in> set (d # ds) then map_option (\<lambda>c. c - 1) (bt_get inc k) else bt_get inc k)"
    for k
    using inc'(2) [of k] c Cons.prems(1) unfolding get by auto
  ultimately show ?case
    using inc'(1) c by (intro exI [of _ inc']) simp
qed simp

text \<open>
  The invariant of Kahn's algorithm: \<open>V\<close> are the visited nodes in order, the counters hold the
  number of unvisited predecessors, and the queue holds the unvisited nodes without any.
\<close>

definition kahn_inv ::
  "bytes set \<Rightarrow> (bytes \<times> bytes) set \<Rightarrow> bytes list \<Rightarrow> (bytes, nat) btree \<Rightarrow> bytes list \<Rightarrow> bool" where
  "kahn_inv N E V inc ready \<longleftrightarrow>
     distinct (V @ ready) \<and> set (V @ ready) \<subseteq> N \<and>
     (\<forall>k. bt_get inc k = (if k \<in> N then Some (card {a. (a, k) \<in> E \<and> a \<notin> set V}) else None)) \<and>
     (\<forall>k \<in> N. {a. (a, k) \<in> E \<and> a \<notin> set V} = {} \<longleftrightarrow> k \<in> set V \<union> set ready) \<and>
     (\<forall>i < length V. \<forall>a. (a, V ! i) \<in> E \<longrightarrow> a \<in> set (take i V))"

lemma kahn_inv_step:
  assumes inv: "kahn_inv N E V inc (n # rest)"
    and E: "finite E" "E \<subseteq> N \<times> N" and irr: "\<And>a. (a, a) \<notin> E"
    and ds: "distinct ds" "set ds = {b. (n, b) \<in> E}"
  shows "\<exists>inc' ready'. relax inc rest ds = Some (inc', ready') \<and> kahn_inv N E (V @ [n]) inc' ready'"
proof -
  let ?P = "\<lambda>k. {a. (a, k) \<in> E \<and> a \<notin> set V}"
  have fin: "finite (?P k)" for k
    by (rule finite_subset [OF _ finite_imageI [OF E(1), of fst]]) force
  have get: "bt_get inc k = (if k \<in> N then Some (card (?P k)) else None)" for k
    using inv by (simp add: kahn_inv_def)
  have zero: "?P k = {} \<longleftrightarrow> k \<in> set V \<union> set (n # rest)" if "k \<in> N" for k
    using inv that by (simp add: kahn_inv_def)
  have n: "n \<in> N" "n \<notin> set V" "n \<notin> set rest" using inv by (auto simp: kahn_inv_def)
  have dN: "d \<in> N \<and> n \<in> ?P d" if "d \<in> set ds" for d using that ds(2) E(2) n by auto
  have shrink: "{a. (a, k) \<in> E \<and> a \<notin> set (V @ [n])} = ?P k - {n}" for k by auto
  have "\<exists>c. bt_get inc d = Some (Suc c)" if d: "d \<in> set ds" for d
  proof -
    have "card (?P d) \<noteq> 0" using dN [OF d] fin [of d] by auto
    then show ?thesis using get [of d] dN [OF d] by (auto simp: not0_implies_Suc)
  qed
  with relax_eq [OF ds(1), of inc rest] obtain inc' where inc':
    "relax inc rest ds = Some (inc', rest @ filter (\<lambda>d. bt_get inc d = Some 1) ds)"
    "\<And>k. bt_get inc' k = (if k \<in> set ds then map_option (\<lambda>c. c - 1) (bt_get inc k) else bt_get inc k)"
    by blast
  let ?ready = "rest @ filter (\<lambda>d. bt_get inc d = Some 1) ds"
  have get': "bt_get inc' k = (if k \<in> N then Some (card (?P k - {n})) else None)" for k
  proof (cases "k \<in> set ds")
    case True
    then show ?thesis using inc'(2) [of k] get [of k] dN [OF True] by (simp add: card_Diff_singleton)
  next
    case False
    then have "?P k - {n} = ?P k" using ds(2) by auto
    then show ?thesis using inc'(2) [of k] get [of k] False by simp
  qed
  have fresh: "d \<notin> set V \<union> set (n # rest)" if "d \<in> set ds" for d using zero dN [OF that] by blast
  have one: "bt_get inc d = Some 1 \<longleftrightarrow> ?P d - {n} = {}" if d: "d \<in> set ds" for d
  proof -
    have "card (?P d - {n}) = card (?P d) - 1" "card (?P d) \<noteq> 0"
      using dN [OF d] fin [of d] by (auto simp: card_Diff_singleton)
    moreover have "?P d - {n} = {} \<longleftrightarrow> card (?P d - {n}) = 0"
      using fin [of d] card_0_eq [of "?P d - {n}"] by blast
    ultimately show ?thesis using get [of d] dN [OF d] by (simp, linarith)
  qed
  have zero': "?P k - {n} = {} \<longleftrightarrow> k \<in> set (V @ [n]) \<union> set ?ready" if k: "k \<in> N" for k
  proof (cases "k \<in> set ds")
    case True
    then show ?thesis using one [OF True] fresh [OF True] by auto
  next
    case False
    then have "n \<notin> ?P k" using ds(2) by auto
    then show ?thesis using zero [OF k] False by auto
  qed
  have pred: "a \<in> set V" if "(a, n) \<in> E" for a
    using zero [OF n(1)] that by auto
  have topo: "\<forall>i < length (V @ [n]). \<forall>a. (a, (V @ [n]) ! i) \<in> E \<longrightarrow> a \<in> set (take i (V @ [n]))"
    using inv pred by (auto simp: kahn_inv_def nth_append less_Suc_eq)
  have "distinct ((V @ [n]) @ ?ready)" "set ((V @ [n]) @ ?ready) \<subseteq> N"
    using inv fresh dN ds(1) by (auto simp: kahn_inv_def)
  then show ?thesis
    using inc'(1) get' zero' topo unfolding kahn_inv_def shrink by blast
qed

lemma kahn_visits:
  assumes "kahn_inv N E V inc ready" "finite E" "E \<subseteq> N \<times> N" "\<And>a. (a, a) \<notin> E"
    and "\<And>n. distinct (outs out n) \<and> set (outs out n) = {b. (n, b) \<in> E}"
  shows "\<exists>V' inc'. kahn inc out ready (length V) = Some (length V') \<and> kahn_inv N E V' inc' []"
  using assms(1,5)
proof (induction inc out ready "length V" arbitrary: V rule: kahn.induct)
  case (1 inc out ready)
  show ?case
  proof (cases ready)
    case Nil
    then show ?thesis using 1(2) by (subst kahn.simps) auto
  next
    case (Cons n rest)
    from kahn_inv_step [OF 1(2) [unfolded Cons] assms(2-4), of "outs out n"] 1(3) obtain inc' ready' where
      step: "relax inc rest (outs out n) = Some (inc', ready')" "kahn_inv N E (V @ [n]) inc' ready'"
      by blast
    from 1(1) [OF Cons _ _ _ step(2)] step(1) 1(3) show ?thesis
      by (subst kahn.simps) (auto simp: Cons outs_def)
  qed
qed

lemma kahn_inv_initial:
  assumes inc: "bt_sorted inc" "\<And>k. bt_get inc k = (if k \<in> N then Some (card {a. (a, k) \<in> E}) else None)"
    and E: "finite E"
  shows "kahn_inv N E [] inc (map fst (filter (\<lambda>(_, c). c = 0) inc))"
proof -
  let ?ready = "map fst (filter (\<lambda>(_, c). c = 0) inc)"
  have fin: "finite {a. (a, k) \<in> E}" for k
    by (rule finite_subset [OF _ finite_imageI [OF E, of fst]]) force
  have ready: "k \<in> set ?ready \<longleftrightarrow> bt_get inc k = Some 0" for k
    using bt.get_entries [OF inc(1), of k 0] by force
  have "distinct ?ready"
    using bt.distinct_keys [OF inc(1)] by (simp add: distinct_map_filter)
  moreover have "set ?ready \<subseteq> N" using ready inc(2) by (metis option.distinct(1) subsetI)
  moreover have "\<forall>k \<in> N. {a. (a, k) \<in> E} = {} \<longleftrightarrow> k \<in> set ?ready"
    unfolding ready inc(2) using fin by (metis card_0_eq option.inject)
  ultimately show ?thesis
    using inc(2) unfolding kahn_inv_def by simp
qed

text \<open>
  A duplicate-free traversal in topological order that stops only where every remaining node waits for
  another one reaches all nodes exactly when the relation has no cycle.
\<close>

lemma topological_iff_acyclic:
  assumes V: "distinct V" "set V \<subseteq> N"
    and topo: "\<And>i a. i < length V \<Longrightarrow> (a, V ! i) \<in> E \<Longrightarrow> a \<in> set (take i V)"
    and stuck: "\<And>k. k \<in> N \<Longrightarrow> k \<notin> set V \<Longrightarrow> \<exists>a. (a, k) \<in> E \<and> a \<notin> set V"
    and "finite N" "E \<subseteq> N \<times> N"
  shows "set V = N \<longleftrightarrow> acyclic E"
proof
  assume N: "set V = N"
  define pos where "pos a = (LEAST i. i < length V \<and> V ! i = a)" for a
  have pos: "pos (V ! i) = i" if "i < length V" for i
    unfolding pos_def using that V(1) by (intro Least_equality) (auto simp: nth_eq_iff_index_eq)
  have "pos a < pos b" if ab: "(a, b) \<in> E" for a b
  proof -
    obtain i where i: "i < length V" "V ! i = b"
      using ab assms(6) N by (metis SigmaE2 in_set_conv_nth subsetD)
    then obtain j where "j < i" "V ! j = a" using topo ab by (fastforce simp: in_set_conv_nth)
    then show ?thesis using i pos by auto
  qed
  then show "acyclic E" by (intro acyclicI_order [where f = "\<lambda>a. - int (pos a)"]) simp
next
  assume "acyclic E"
  moreover have "finite E" using assms(5,6) finite_subset by blast
  ultimately have "wf E" using finite_acyclic_wf by blast
  have "k \<in> set V" if "k \<in> N" for k
    using \<open>wf E\<close> that
  proof (induction k rule: wf_induct_rule)
    case (less k)
    then show ?case using stuck assms(6) by blast
  qed
  then show "set V = N" using V(2) by blast
qed

lemma visited_all_iff_acyclic:
  assumes inv: "kahn_inv N E V inc []" and "finite N" "E \<subseteq> N \<times> N"
  shows "length V = card N \<longleftrightarrow> acyclic E"
proof -
  have V: "distinct V" "set V \<subseteq> N" using inv by (auto simp: kahn_inv_def)
  have "set V = N \<longleftrightarrow> acyclic E"
    using inv assms(2,3) V by (intro topological_iff_acyclic) (auto simp: kahn_inv_def)
  moreover have "length V = card N \<longleftrightarrow> set V = N"
    using V assms(2) by (metis card_subset_eq distinct_card)
  ultimately show ?thesis by simp
qed

lemma insert_edges_total:
  assumes "distinct (endpoints edges)" "set (endpoints edges) \<inter> set pairs = {}"
    and "\<forall>(a, b) \<in> set (endpoints edges). a \<noteq> b \<and> bt_get inc a \<noteq> None \<and> bt_get inc b \<noteq> None"
  shows "\<exists>r. insert_edges pairs inc out edges = Inr r"
  using assms
proof (induction edges arbitrary: pairs inc out)
  case (Cons e es)
  let ?a = "resource_str (we_from e)" and ?b = "resource_str (we_to e)"
  from Cons.prems obtain c where c: "bt_get inc ?b = Some c" by auto
  have keep: "bt_get (bt_set ?b (c + 1) inc) k \<noteq> None \<longleftrightarrow> bt_get inc k \<noteq> None" for k
    using c by (simp add: bt_get_set)
  have "distinct (endpoints es)" "set (endpoints es) \<inter> set ((?a, ?b) # pairs) = {}"
    using Cons.prems(1,2) by auto
  moreover have "\<forall>(a, b) \<in> set (endpoints es). a \<noteq> b \<and> bt_get (bt_set ?b (c + 1) inc) a \<noteq> None \<and>
      bt_get (bt_set ?b (c + 1) inc) b \<noteq> None"
    using Cons.prems(3) unfolding keep by auto
  ultimately have "\<exists>r. insert_edges ((?a, ?b) # pairs) (bt_set ?b (c + 1) inc) out' es = Inr r" for out'
    by (rule Cons.IH)
  then show ?case using Cons.prems c by (simp add: Let_def)
qed simp

lemma in_degree_card:
  assumes "distinct eps"
  shows "length (filter (\<lambda>(a, b). b = k) eps) = card {a. (a, k) \<in> set eps}"
proof -
  have "set (map fst (filter (\<lambda>(a, b). b = k) eps)) = {a. (a, k) \<in> set eps}" by force
  moreover have "distinct (map fst (filter (\<lambda>(a, b). b = k) eps))"
    using assms by (auto simp: distinct_map inj_on_def)
  ultimately show ?thesis using distinct_card by fastforce
qed

lemma validated_kahn:
  assumes "insert_nodes [] (wd_nodes d) = Inr nodes"
    and "insert_edges [] nodes [] (wd_edges d) = Inr (inc, out)"
  shows "\<exists>v. kahn inc out (map fst (filter (\<lambda>(_, count). count = 0) inc)) 0 = Some v \<and>
    (v = length (wd_nodes d) \<longleftrightarrow> acyclic (set (endpoints (wd_edges d))))"
proof -
  let ?N = "set (node_names (wd_nodes d))" and ?eps = "endpoints (wd_edges d)"
  have nodes: "bt_sorted nodes" "distinct (node_names (wd_nodes d))"
      "\<And>k. bt_get nodes k = (if k \<in> ?N then Some 0 else None)"
    using insert_nodes_Ok [OF assms(1)] by simp_all
  have edges: "bt_sorted inc" "distinct ?eps" "\<forall>(a, b) \<in> set ?eps. a \<noteq> b \<and> bt_get nodes a \<noteq> None \<and> bt_get nodes b \<noteq> None"
      "\<And>k. bt_get inc k = map_option (\<lambda>c. c + length (filter (\<lambda>(a, b). b = k) ?eps)) (bt_get nodes k)"
      "\<And>k. outs out k = map snd (filter (\<lambda>(a, b). a = k) ?eps)"
    using insert_edges_Ok [OF assms(2)] nodes(1) by (auto simp: outs_def)
  have E: "set ?eps \<subseteq> ?N \<times> ?N" "\<And>a. (a, a) \<notin> set ?eps"
    using edges(3) unfolding nodes(3) by (auto split: if_splits)
  have inc: "bt_get inc k = (if k \<in> ?N then Some (card {a. (a, k) \<in> set ?eps}) else None)" for k
    unfolding edges(4) nodes(3) in_degree_card [OF edges(2)] by simp
  have outs: "distinct (outs out n) \<and> set (outs out n) = {b. (n, b) \<in> set ?eps}" for n
    unfolding edges(5) using edges(2) by (force simp: distinct_map inj_on_def)
  have init: "kahn_inv ?N (set ?eps) [] inc (map fst (filter (\<lambda>(_, count). count = 0) inc))"
    by (rule kahn_inv_initial [OF edges(1) inc]) simp
  from kahn_visits [OF init List.finite_set E outs] obtain V inc' where
    run: "kahn inc out (map fst (filter (\<lambda>(_, count). count = 0) inc)) 0 = Some (length V)"
    and inv: "kahn_inv ?N (set ?eps) V inc' []" by auto
  have "card ?N = length (wd_nodes d)"
    using nodes(2) distinct_card [of "node_names (wd_nodes d)"] by simp
  with visited_all_iff_acyclic [OF inv List.finite_set E(1)] run show ?thesis by simp
qed

text \<open>The endpoints of an accepted graph: distinct existing nodes, each pair at most once.\<close>

definition graph_ok :: "WorkflowDefinition \<Rightarrow> bool" where
  "graph_ok d \<longleftrightarrow>
     distinct (node_names (wd_nodes d)) \<and> distinct (endpoints (wd_edges d)) \<and>
     (\<forall>(a, b) \<in> set (endpoints (wd_edges d)).
        a \<noteq> b \<and> a \<in> set (node_names (wd_nodes d)) \<and> b \<in> set (node_names (wd_nodes d)))"

lemma insertions_iff_graph_ok:
  "(\<exists>nodes r. insert_nodes [] (wd_nodes d) = Inr nodes \<and> insert_edges [] nodes [] (wd_edges d) = Inr r) \<longleftrightarrow>
     graph_ok d"
proof
  assume "\<exists>nodes r. insert_nodes [] (wd_nodes d) = Inr nodes \<and> insert_edges [] nodes [] (wd_edges d) = Inr r"
  then obtain nodes inc out where ok: "insert_nodes [] (wd_nodes d) = Inr nodes"
      "insert_edges [] nodes [] (wd_edges d) = Inr (inc, out)" by auto
  have "\<And>k. bt_get nodes k = (if k \<in> set (node_names (wd_nodes d)) then Some 0 else None)"
      "distinct (node_names (wd_nodes d))"
    using insert_nodes_Ok [OF ok(1)] by simp_all
  then show "graph_ok d"
    using insert_edges_Ok [OF ok(2)] by (auto simp: graph_ok_def split: if_splits)
next
  assume g: "graph_ok d"
  then obtain nodes where n: "insert_nodes [] (wd_nodes d) = Inr nodes"
    using insert_nodes_total [of "wd_nodes d" "[]"] by (auto simp: graph_ok_def)
  have "\<And>k. bt_get nodes k = (if k \<in> set (node_names (wd_nodes d)) then Some 0 else None)"
    using insert_nodes_Ok [OF n] by simp
  then have "\<exists>r. insert_edges [] nodes [] (wd_edges d) = Inr r"
    using g by (intro insert_edges_total) (auto simp: graph_ok_def)
  then show "\<exists>nodes r. insert_nodes [] (wd_nodes d) = Inr nodes \<and> insert_edges [] nodes [] (wd_edges d) = Inr r"
    using n by blast
qed

lemma validate_workflow_accepts:
  "validate_workflow d \<noteq> None \<and>
   (validate_workflow d = Some (Inr ()) \<longleftrightarrow>
      wd_nodes d \<noteq> [] \<and> length (wd_nodes d) \<le> 64 \<and> length (wd_edges d) \<le> 256 \<and>
      description_ok (wd_description d) \<and> graph_ok d \<and> acyclic (set (endpoints (wd_edges d))))"
proof (cases "(wd_nodes d = [] \<or> length (wd_nodes d) > 64 \<or> length (wd_edges d) > 256) \<or> \<not> description_ok (wd_description d)")
  case True
  then show ?thesis by (auto simp: validate_workflow_def)
next
  case False
  show ?thesis
  proof (cases "graph_ok d")
    case True
    then obtain nodes inc out where ok: "insert_nodes [] (wd_nodes d) = Inr nodes"
        "insert_edges [] nodes [] (wd_edges d) = Inr (inc, out)"
      using insertions_iff_graph_ok [of d] by auto
    from validated_kahn [OF ok] show ?thesis
      using False True ok by (auto simp: validate_workflow_def)
  next
    case no: False
    then have "\<not> (\<exists>nodes r. insert_nodes [] (wd_nodes d) = Inr nodes \<and> insert_edges [] nodes [] (wd_edges d) = Inr r)"
      using insertions_iff_graph_ok by blast
    then show ?thesis using False no by (auto simp: validate_workflow_def split: sum.splits)
  qed
qed

section \<open>Properties\<close>

text \<open>
  C34. Workflow validation is exact: it never overflows, and it accepts a definition if and only
  if it has 1 to 64 nodes and at most 256 edges, an acceptable description, unique node names,
  edges between distinct existing nodes without duplicate endpoint pairs, and no cycle.
\<close>

theorem validate_workflow_exact:
  "validate_workflow d \<noteq> None \<and>
   (validate_workflow d = Some (Inr ()) \<longleftrightarrow>
      wd_nodes d \<noteq> [] \<and> length (wd_nodes d) \<le> 64 \<and> length (wd_edges d) \<le> 256 \<and>
      description_ok (wd_description d) \<and> graph_ok d \<and> acyclic (set (endpoints (wd_edges d))))"
  by (rule validate_workflow_accepts)

lemma decide_from_Skipped:
  "decide_from w deps = DepSkipped \<longleftrightarrow> (\<exists>(c, s) \<in> set deps. node_is_terminal s \<and> \<not> condition_matches c s)"
  by (induction w deps rule: decide_from.induct) auto

lemma decide_from_Waiting:
  "decide_from w deps = DepWaiting \<longleftrightarrow>
     (\<forall>(c, s) \<in> set deps. node_is_terminal s \<longrightarrow> condition_matches c s) \<and>
     (w \<or> (\<exists>(c, s) \<in> set deps. \<not> node_is_terminal s))"
  by (induction w deps rule: decide_from.induct) auto

text \<open>
  The AND join is independent of the order of the dependencies: it is Skipped exactly when
  some terminal predecessor misses its condition, otherwise Waiting exactly when some
  predecessor is not terminal, and otherwise Ready; a root is Ready.
\<close>

theorem dependency_decision_exact:
  "dependency_decision deps =
     (if \<exists>(c, s) \<in> set deps. node_is_terminal s \<and> \<not> condition_matches c s then DepSkipped
      else if \<exists>(c, s) \<in> set deps. \<not> node_is_terminal s then DepWaiting else DepReady)"
  unfolding dependency_decision_def
  using decide_from_Skipped [of False deps] decide_from_Waiting [of False deps]
  by (cases "decide_from False deps") auto

end
