(* ===== verification/Store.thy ===== *)
theory Store
  imports Scheduling WorkflowGraph "HOL-Library.Product_Lexorder" "HOL-Library.Multiset"
begin

text \<open>
  The authoritative state: the tables of \<open>db/sql/01_crono.sql\<close> and \<open>db/sql/02_workflows.sql\<close> as
  lists of rows (\<open>infrastructure/postgres.rs\<close>), the row operations every transaction is made of,
  and the trigger that queues a Workflow completion when a Run becomes terminal.

  A transaction is a function from the state to \<open>(StoreError, state \<times> value) result\<close>; an error
  rolls back, so it carries no state.  \<open>now\<close> is the statement timestamp.  Version 7 UUIDs are drawn
  from a counter of the state, which makes them fresh and increasing.  The JSON detail of an event
  is not kept.  Connection failures are not modelled.
\<close>

section \<open>Execution snapshots\<close>

datatype ExecutionTrigger = TriggerManual | TriggerSchedule | TriggerRerun

record ExecutionSnapshot =
  snap_executor :: ExecutorKind
  snap_executable :: "bytes option"
  snap_shell_command :: "bytes option"
  snap_argument_templates :: "bytes list"
  snap_arguments :: "bytes list"
  snap_inputs :: json
  snap_job_id :: "uuid option"
  snap_trigger :: "ExecutionTrigger option"
  snap_scheduled_at :: "timestamp option"
  snap_idempotency_key :: uuid
  snap_queue_id :: uuid
  snap_queue :: bytes
  snap_idempotent :: bool
  snap_dry_run :: bool
  snap_retry_initial_seconds :: int
  snap_retry_max_seconds :: int
  snap_retry_multiplier :: f64
  snap_retry_jitter :: f64

text \<open>Why a persisted execution could not be rendered.\<close>

datatype RenderError =
    RenderInputs InputError
  | RenderExecutor
  | RenderRetryDelay
  | RenderMaxRetryDelay

text \<open>The \<open>execution_snapshot\<close> column: an execution, or the error object of a failed rendering.\<close>

datatype StoredSnapshot =
    Rendered ExecutionSnapshot
  | RenderFailed RenderError json

section \<open>Rows\<close>

record RunRow =
  run_id :: uuid
  run_request_id :: "uuid option"
  run_rerun_of :: "uuid option"
  run_schedule_id :: "uuid option"
  run_job_id :: uuid
  run_target_id :: uuid
  run_queue_id :: uuid
  run_scheduled_at :: timestamp
  run_status :: RunStatus
  run_snapshot :: StoredSnapshot
  run_attempt_count :: int
  run_max_attempts :: int
  run_next_retry_at :: "timestamp option"
  run_lateness_seconds :: int
  run_terminal_reason :: "bytes option"
  run_created_at :: timestamp
  run_queued_at :: "timestamp option"
  run_started_at :: "timestamp option"
  run_completed_at :: "timestamp option"

record RunAttemptRow =
  att_id :: uuid
  att_run_id :: uuid
  att_attempt :: int
  att_status :: RunStatus
  att_worker_id :: "bytes option"
  att_started_at :: "timestamp option"
  att_heartbeat_at :: "timestamp option"
  att_lease_expires_at :: "timestamp option"
  att_completed_at :: "timestamp option"
  att_exit_code :: "int option"
  att_stdout_tail :: "bytes option"
  att_stderr_tail :: "bytes option"
  att_output_sequence :: int
  att_error :: "bytes option"

record DispatchEnvelope =
  env_dispatch_id :: uuid
  env_run_id :: uuid
  env_attempt_id :: uuid
  env_queue_id :: uuid

text \<open>The subject is \<open>crono.dispatch.\<close> followed by the Queue identity, which is what is kept.\<close>

record OutboxRow =
  ob_id :: uuid
  ob_run_id :: uuid
  ob_attempt_id :: uuid
  ob_subject :: uuid
  ob_payload :: DispatchEnvelope
  ob_dispatch_deadline :: "timestamp option"
  ob_attempt_count :: int
  ob_next_attempt_at :: timestamp
  ob_claimed_by :: "uuid option"
  ob_claim_expires_at :: "timestamp option"
  ob_last_error :: "bytes option"
  ob_created_at :: timestamp
  ob_published_at :: "timestamp option"
  ob_cancelled_at :: "timestamp option"
  ob_stream_sequence :: "int option"

record RunEventRow =
  ev_run_id :: uuid
  ev_type :: bytes
  ev_at :: timestamp

record ScheduleEventRow =
  sev_schedule_id :: uuid
  sev_type :: bytes
  sev_scheduled_at :: timestamp
  sev_run_id :: uuid
  sev_target_id :: uuid

record RunRequestRow =
  rr_request_id :: uuid
  rr_namespace_id :: uuid
  rr_job_id :: uuid
  rr_target_id :: "uuid option"
  rr_target_set_id :: "uuid option"
  rr_inputs :: json

record ScheduleRow =
  srow_schedule :: Schedule
  srow_claim_owner :: "uuid option"
  srow_claim_expires_at :: "timestamp option"

record WorkerRow =
  wk_worker_id :: bytes
  wk_session_id :: uuid
  wk_queue_id :: uuid
  wk_concurrency :: int
  wk_version :: bytes
  wk_diagnostics :: "json option"
  wk_started_at :: timestamp
  wk_last_seen_at :: timestamp

record StoredNode =
  sn_id :: uuid
  sn_name :: ResourceName
  sn_job_id :: uuid

record StoredWorkflow =
  sw_id :: uuid
  sw_namespace_id :: uuid
  sw_namespace :: NamespaceName
  sw_name :: ResourceName
  sw_description :: "bytes option"
  sw_revision :: int
  sw_created_at :: timestamp
  sw_updated_at :: timestamp
  sw_nodes :: "StoredNode list"
  sw_edges :: "WorkflowEdge list"

text \<open>A catalog row together with its node and edge rows; an edge row holds the names of its ends.\<close>

record WorkflowRow =
  wf_id :: uuid
  wf_namespace_id :: uuid
  wf_name :: ResourceName
  wf_description :: "bytes option"
  wf_revision :: int
  wf_created_at :: timestamp
  wf_updated_at :: timestamp
  wf_nodes :: "StoredNode list"
  wf_edges :: "WorkflowEdge list"

record WorkflowRunRow =
  wr_id :: uuid
  wr_request_id :: uuid
  wr_workflow_id :: uuid
  wr_namespace_id :: uuid
  wr_definition :: StoredWorkflow
  wr_target_id :: "uuid option"
  wr_target_set_id :: "uuid option"
  wr_inputs :: json
  wr_state :: WorkflowState
  wr_cancellation_requested :: bool
  wr_created_at :: timestamp
  wr_started_at :: "timestamp option"
  wr_finished_at :: "timestamp option"

record NodeRunRow =
  nr_id :: uuid
  nr_workflow_run_id :: uuid
  nr_workflow_node_id :: uuid
  nr_name :: ResourceName
  nr_job_id :: uuid
  nr_state :: WorkflowNodeState
  nr_started_at :: "timestamp option"
  nr_finished_at :: "timestamp option"

record RunEdgeRow =
  re_workflow_run_id :: uuid
  re_from :: uuid
  re_to :: uuid
  re_condition :: DependencyCondition

record NodeExecutionRow =
  ne_node_run_id :: uuid
  ne_target_id :: uuid
  ne_prospective_run_id :: uuid
  ne_run_id :: "uuid option"
  ne_queue_id :: uuid
  ne_max_attempts :: int
  ne_snapshot :: StoredSnapshot

record CompletionEventRow =
  ce_run_id :: uuid
  ce_workflow_run_id :: uuid
  ce_node_run_id :: uuid

record Db =
  db_namespaces :: "Namespace list"
  db_queues :: "Queue list"
  db_jobs :: "Job list"
  db_targets :: "Target list"
  db_target_sets :: "TargetSet list"
  db_schedules :: "ScheduleRow list"
  db_requests :: "RunRequestRow list"
  db_runs :: "RunRow list"
  db_attempts :: "RunAttemptRow list"
  db_outbox :: "OutboxRow list"
  db_run_events :: "RunEventRow list"
  db_schedule_events :: "ScheduleEventRow list"
  db_workers :: "WorkerRow list"
  db_workflows :: "WorkflowRow list"
  db_workflow_runs :: "WorkflowRunRow list"
  db_node_runs :: "NodeRunRow list"
  db_run_edges :: "RunEdgeRow list"
  db_node_executions :: "NodeExecutionRow list"
  db_completion_events :: "CompletionEventRow list"
  db_next_id :: uuid

type_synonym 'a transaction = "(StoreError, Db \<times> 'a) result"

section \<open>Row operations\<close>

text \<open>
  \<open>UPDATE crono.runs ... WHERE p\<close> with the trigger \<open>runs_workflow_completion\<close>: a row whose status
  becomes terminal queues one completion event for the Workflow node that owns it.
\<close>

definition enqueue_completion :: "uuid \<Rightarrow> Db \<Rightarrow> Db" where
  "enqueue_completion rid db =
     (case find (\<lambda>e. ne_run_id e = Some rid) (db_node_executions db) of
        None \<Rightarrow> db
      | Some e \<Rightarrow>
          (case find (\<lambda>n. nr_id n = ne_node_run_id e) (db_node_runs db) of
             None \<Rightarrow> db
           | Some n \<Rightarrow>
               if \<exists>c \<in> set (db_completion_events db). ce_run_id c = rid then db
               else db\<lparr> db_completion_events := db_completion_events db @
                      [\<lparr> ce_run_id = rid, ce_workflow_run_id = nr_workflow_run_id n, ce_node_run_id = nr_id n \<rparr>] \<rparr>))"

definition becomes_terminal :: "(RunRow \<Rightarrow> RunRow) \<Rightarrow> RunRow \<Rightarrow> bool" where
  "becomes_terminal f r \<longleftrightarrow> run_status (f r) \<noteq> run_status r \<and> run_is_terminal (run_status (f r))"

definition update_runs :: "(RunRow \<Rightarrow> bool) \<Rightarrow> (RunRow \<Rightarrow> RunRow) \<Rightarrow> Db \<Rightarrow> Db" where
  "update_runs p f db =
     fold (\<lambda>r d. if becomes_terminal f r then enqueue_completion (run_id r) d else d)
       (filter p (db_runs db)) (db\<lparr> db_runs := update_where p f (db_runs db) \<rparr>)"

definition update_attempts :: "(RunAttemptRow \<Rightarrow> bool) \<Rightarrow> (RunAttemptRow \<Rightarrow> RunAttemptRow) \<Rightarrow> Db \<Rightarrow> Db" where
  "update_attempts p f db = db\<lparr> db_attempts := update_where p f (db_attempts db) \<rparr>"

definition update_outbox :: "(OutboxRow \<Rightarrow> bool) \<Rightarrow> (OutboxRow \<Rightarrow> OutboxRow) \<Rightarrow> Db \<Rightarrow> Db" where
  "update_outbox p f db = db\<lparr> db_outbox := update_where p f (db_outbox db) \<rparr>"

definition insert_run_event :: "timestamp \<Rightarrow> uuid \<Rightarrow> bytes \<Rightarrow> Db \<Rightarrow> Db" where
  "insert_run_event now rid event_type db =
     db\<lparr> db_run_events := db_run_events db @ [\<lparr> ev_run_id = rid, ev_type = event_type, ev_at = now \<rparr>] \<rparr>"

text \<open>\<open>store_error\<close> of a failure the database reports with an SQLSTATE code.\<close>

definition statement_error :: "bytes \<Rightarrow> StoreError" where
  "statement_error code = (case classify_sqlstate (Some code) of Some e \<Rightarrow> e | None \<Rightarrow> StoreInternal)"

text \<open>
  The refusal that the source documents at \<open>classify_sqlstate\<close> (\<open>postgres.rs\<close>): a statement with NUL in a
  \<open>text\<close> parameter fails with SQLSTATE 22021, before any row is touched.
\<close>

definition text_storable :: "bytes \<Rightarrow> bool" where
  "text_storable v \<longleftrightarrow> CHR 0x00 \<notin> set v"

definition opt_storable :: "bytes option \<Rightarrow> bool" where
  "opt_storable v = (case v of None \<Rightarrow> True | Some t \<Rightarrow> text_storable t)"

text \<open>
  \<open>ORDER BY key LIMIT n FOR UPDATE SKIP LOCKED\<close>: the rows another transaction holds are passed over.
\<close>

definition select_batch :: "('r \<Rightarrow> 'k::linorder) \<Rightarrow> ('r \<Rightarrow> bool) \<Rightarrow> ('r \<Rightarrow> bool) \<Rightarrow> nat \<Rightarrow> 'r list \<Rightarrow> 'r list" where
  "select_batch key locked p n rows = take n (sort_key key (filter (\<lambda>r. p r \<and> \<not> locked r) rows))"

section \<open>Framing\<close>

lemma statement_error_text [simp]: "statement_error ''22021'' = StoreInvalidData"
  by (simp add: statement_error_def classify_sqlstate_def)

text \<open>The trigger touches nothing but the completion events.\<close>

lemma enqueue_completion_frame [simp, table_simps]:
  "db_runs (enqueue_completion rid db) = db_runs db"
  "db_attempts (enqueue_completion rid db) = db_attempts db"
  "db_outbox (enqueue_completion rid db) = db_outbox db"
  "db_requests (enqueue_completion rid db) = db_requests db"
  "db_schedules (enqueue_completion rid db) = db_schedules db"
  "db_run_events (enqueue_completion rid db) = db_run_events db"
  "db_schedule_events (enqueue_completion rid db) = db_schedule_events db"
  "db_workers (enqueue_completion rid db) = db_workers db"
  "db_node_runs (enqueue_completion rid db) = db_node_runs db"
  "db_run_edges (enqueue_completion rid db) = db_run_edges db"
  "db_workflow_runs (enqueue_completion rid db) = db_workflow_runs db"
  "db_node_executions (enqueue_completion rid db) = db_node_executions db"
  "db_next_id (enqueue_completion rid db) = db_next_id db"
  by (simp_all add: enqueue_completion_def split: option.split)

lemma fold_frame:
  assumes "\<And>r d. g (f r d) = g d"
  shows "g (fold f rs d) = g d"
  using assms by (induction rs arbitrary: d) auto

lemma update_runs_frame [simp, table_simps]:
  "db_runs (update_runs p f db) = update_where p f (db_runs db)"
  "db_attempts (update_runs p f db) = db_attempts db"
  "db_outbox (update_runs p f db) = db_outbox db"
  "db_requests (update_runs p f db) = db_requests db"
  "db_schedules (update_runs p f db) = db_schedules db"
  "db_run_events (update_runs p f db) = db_run_events db"
  "db_schedule_events (update_runs p f db) = db_schedule_events db"
  "db_workers (update_runs p f db) = db_workers db"
  "db_node_runs (update_runs p f db) = db_node_runs db"
  "db_run_edges (update_runs p f db) = db_run_edges db"
  "db_workflow_runs (update_runs p f db) = db_workflow_runs db"
  "db_node_executions (update_runs p f db) = db_node_executions db"
  "db_next_id (update_runs p f db) = db_next_id db"
  by (simp_all add: update_runs_def fold_frame)

lemma update_attempts_frame [simp, table_simps]:
  "db_attempts (update_attempts p f db) = update_where p f (db_attempts db)"
  "db_runs (update_attempts p f db) = db_runs db"
  "db_outbox (update_attempts p f db) = db_outbox db"
  "db_requests (update_attempts p f db) = db_requests db"
  "db_next_id (update_attempts p f db) = db_next_id db"
  by (simp_all add: update_attempts_def)

lemma update_outbox_frame [simp, table_simps]:
  "db_outbox (update_outbox p f db) = update_where p f (db_outbox db)"
  "db_runs (update_outbox p f db) = db_runs db"
  "db_attempts (update_outbox p f db) = db_attempts db"
  "db_requests (update_outbox p f db) = db_requests db"
  "db_next_id (update_outbox p f db) = db_next_id db"
  by (simp_all add: update_outbox_def)

lemma insert_run_event_frame [simp, table_simps]:
  "db_runs (insert_run_event now rid t db) = db_runs db"
  "db_attempts (insert_run_event now rid t db) = db_attempts db"
  "db_outbox (insert_run_event now rid t db) = db_outbox db"
  "db_requests (insert_run_event now rid t db) = db_requests db"
  "db_next_id (insert_run_event now rid t db) = db_next_id db"
  by (simp_all add: insert_run_event_def)

lemma select_batch_set: "set (select_batch key locked p n rows) \<subseteq> {r \<in> set rows. p r \<and> \<not> locked r}"
  unfolding select_batch_def using set_take_subset by fastforce

lemma select_batch_length: "length (select_batch key locked p n rows) \<le> n"
  by (simp add: select_batch_def)

lemma select_batch_distinct:
  "distinct (map k rows) \<Longrightarrow> distinct (map k (select_batch key locked p n rows))"
proof -
  assume "distinct (map k rows)"
  then have "distinct (map k (filter (\<lambda>r. p r \<and> \<not> locked r) rows))" by (rule distinct_map_filter)
  moreover have "mset (map k (sort_key key xs)) = mset (map k xs)" for xs by simp
  ultimately have "distinct (map k (sort_key key (filter (\<lambda>r. p r \<and> \<not> locked r) rows)))"
    by (metis mset_eq_imp_distinct_iff)
  then show ?thesis unfolding select_batch_def by (simp add: take_map [symmetric] distinct_take)
qed

text \<open>A free row is selected when fewer free rows than the limit come before it.\<close>

lemma sort_key_take:
  fixes key :: "'r \<Rightarrow> 'k::linorder"
  assumes "x \<in> set rows" "distinct (map key rows)" "length (filter (\<lambda>r. key r < key x) rows) < n"
  shows "x \<in> set (take n (sort_key key rows))"
proof -
  define zs where "zs = sort_key key rows"
  have dist: "distinct (map key zs)" unfolding zs_def using assms(2) by (simp add: distinct_map)
  obtain i where i: "i < length zs" "zs ! i = x" using assms(1) by (metis in_set_conv_nth set_sort zs_def)
  have "key (zs ! j) < key x" if "j < i" for j
    using that i sorted_nth_mono [of "map key zs" j i] nth_eq_iff_index_eq [OF dist, of j i] by (force simp: zs_def)
  then have "filter (\<lambda>r. key r < key x) (take i zs) = take i zs"
    using i(1) by (auto simp: filter_id_conv in_set_conv_nth)
  then have "i \<le> length (filter (\<lambda>r. key r < key x) zs)"
    using i(1) by (metis append_take_drop_id filter_append le_add1 length_append length_take less_imp_le min.absorb2)
  also have "\<dots> = length (filter (\<lambda>r. key r < key x) rows)" by (simp add: zs_def filter_sort)
  finally have "i < n" using assms(3) by simp
  then show ?thesis using i by (auto simp: zs_def in_set_conv_nth)
qed

lemma select_batch_member:
  assumes "x \<in> set rows" "p x" "\<not> locked x" "distinct (map key rows)"
    and "length (filter (\<lambda>r. p r \<and> \<not> locked r \<and> key r < key x) rows) < n"
  shows "x \<in> set (select_batch key locked p n rows)"
proof -
  have "filter (\<lambda>r. key r < key x) (filter (\<lambda>r. p r \<and> \<not> locked r) rows) = filter (\<lambda>r. p r \<and> \<not> locked r \<and> key r < key x) rows"
    by (auto intro: filter_cong)
  then show ?thesis
    unfolding select_batch_def using assms by (intro sort_key_take distinct_map_filter) auto
qed

end
