(* ===== verification/RunStore.thy ===== *)
theory RunStore
  imports Store
begin

text \<open>
  The Run life cycle of \<open>infrastructure/postgres.rs\<close>: creation of Runs with their first Attempt and
  outbox message, publication, worker claims, leases, completion, retries and reconciliation.
  Every definition is one transaction or one helper of it, in the order of the source.
\<close>

section \<open>Preparing executions\<close>

record ExecutionRow =
  ex_namespace_id :: uuid
  ex_job_id :: uuid
  ex_target_id :: uuid
  ex_executor :: bytes
  ex_queue_id :: uuid
  ex_queue_name :: bytes
  ex_executable :: "bytes option"
  ex_shell_command :: "bytes option"
  ex_job_arguments :: "bytes list"
  ex_target_arguments :: "bytes list"
  ex_job_inputs :: json
  ex_target_inputs :: json
  ex_idempotent :: bool
  ex_dry_run :: bool
  ex_max_attempts :: int
  ex_retry_initial_seconds :: int
  ex_retry_max_seconds :: int
  ex_retry_multiplier :: f64
  ex_retry_jitter :: f64

definition load_execution_ids :: "Db \<Rightarrow> uuid \<Rightarrow> uuid \<Rightarrow> (StoreError, ExecutionRow) result" where
  "load_execution_ids db jid tid =
     (case find (\<lambda>j. job_id j = jid) (db_jobs db) of
        None \<Rightarrow> Err StoreNotFound
      | Some j \<Rightarrow>
          (case find (\<lambda>q. queue_id q = job_queue_id j) (db_queues db) of
             None \<Rightarrow> Err StoreNotFound
           | Some q \<Rightarrow>
               (case find (\<lambda>t. target_id t = tid \<and> target_namespace_id t = job_namespace_id j) (db_targets db) of
                  None \<Rightarrow> Err StoreNotFound
                | Some t \<Rightarrow> Ok
                    \<lparr> ex_namespace_id = job_namespace_id j, ex_job_id = job_id j, ex_target_id = target_id t,
                      ex_executor = executor_name (job_executor j), ex_queue_id = job_queue_id j,
                      ex_queue_name = queue_str (queue_name q), ex_executable = job_executable j,
                      ex_shell_command = job_shell_command j, ex_job_arguments = job_arguments j,
                      ex_target_arguments = target_arguments t, ex_job_inputs = job_inputs j,
                      ex_target_inputs = target_inputs t, ex_idempotent = job_idempotent j,
                      ex_dry_run = job_dry_run j, ex_max_attempts = job_max_attempts j,
                      ex_retry_initial_seconds = job_retry_initial_seconds j,
                      ex_retry_max_seconds = job_retry_max_seconds j,
                      ex_retry_multiplier = job_retry_multiplier j, ex_retry_jitter = job_retry_jitter j \<rparr>)))"

text \<open>The members of a Target Set in the order \<open>t.name, t.id\<close>.\<close>

definition set_member_ids :: "Db \<Rightarrow> TargetSet \<Rightarrow> uuid list" where
  "set_member_ids db s =
     map target_id (sort_key (\<lambda>t. (resource_str (target_name t), target_id t))
       (filter (\<lambda>t. target_id t \<in> set (set_members s)) (db_targets db)))"

definition load_selection_executions ::
  "Db \<Rightarrow> uuid \<Rightarrow> TargetSelection \<Rightarrow> (StoreError, ExecutionRow list \<times> json option) result" where
  "load_selection_executions db jid target =
     (case target of
        SelectTarget tid \<Rightarrow> and_then (load_execution_ids db jid tid) (\<lambda>e. Ok ([e], None))
      | SelectTargetSet sid \<Rightarrow>
          (case find (\<lambda>j. job_id j = jid) (db_jobs db) of
             None \<Rightarrow> Err StoreNotFound
           | Some j \<Rightarrow>
               (case find (\<lambda>s. set_id s = sid \<and> set_namespace_id s = job_namespace_id j) (db_target_sets db) of
                  None \<Rightarrow> Err StoreNotFound
                | Some s \<Rightarrow>
                    (let target_ids = set_member_ids db s in
                     if target_ids = [] then Err StoreNotFound
                     else and_then (traverse (load_execution_ids db jid) target_ids) (\<lambda>es.
                          Ok (es, Some (set_inputs s)))))))"

definition selection_ids :: "TargetSelection \<Rightarrow> uuid option \<times> uuid option" where
  "selection_ids t = (case t of SelectTarget i \<Rightarrow> (Some i, None) | SelectTargetSet i \<Rightarrow> (None, Some i))"

definition target_selection :: "uuid option \<Rightarrow> uuid option \<Rightarrow> (StoreError, TargetSelection) result" where
  "target_selection tid sid =
     (case (tid, sid) of
        (Some i, None) \<Rightarrow> Ok (SelectTarget i)
      | (None, Some i) \<Rightarrow> Ok (SelectTargetSet i)
      | _ \<Rightarrow> Err StoreInternal)"

definition empty_object :: json where
  "empty_object = JObject []"

definition execution_layers :: "ExecutionRow \<Rightarrow> json option \<Rightarrow> json \<Rightarrow> json list" where
  "execution_layers e target_set_inputs invocation_inputs =
     [ex_job_inputs e, (case target_set_inputs of Some v \<Rightarrow> v | None \<Rightarrow> empty_object),
      ex_target_inputs e, invocation_inputs]"

definition execution_snapshot_with_inputs ::
  "(json \<Rightarrow> bytes option) \<Rightarrow> uuid \<Rightarrow> ExecutionRow \<Rightarrow> json option \<Rightarrow> json \<Rightarrow> ExecutionTrigger \<Rightarrow> timestamp option
     \<Rightarrow> (RenderError, ExecutionSnapshot) result" where
  "execution_snapshot_with_inputs encode rid e target_set_inputs invocation_inputs trigger scheduled_at =
     (let arguments = ex_job_arguments e @ ex_target_arguments e in
      and_then (map_err RenderInputs (merge_inputs encode (execution_layers e target_set_inputs invocation_inputs))) (\<lambda>inputs.
      and_then (map_err RenderInputs (render_arguments encode arguments inputs)) (\<lambda>rendered.
      and_then (map_err (\<lambda>_. RenderExecutor) (parse_executor (ex_executor e))) (\<lambda>executor.
      and_then (ensure (0 \<le> ex_retry_initial_seconds e) RenderRetryDelay) (\<lambda>_.
      and_then (ensure (0 \<le> ex_retry_max_seconds e) RenderMaxRetryDelay) (\<lambda>_.
      Ok \<lparr> snap_executor = executor, snap_executable = ex_executable e, snap_shell_command = ex_shell_command e,
           snap_argument_templates = arguments, snap_arguments = rendered, snap_inputs = inputs,
           snap_job_id = Some (ex_job_id e), snap_trigger = Some trigger, snap_scheduled_at = scheduled_at,
           snap_idempotency_key = rid, snap_queue_id = ex_queue_id e, snap_queue = ex_queue_name e,
           snap_idempotent = ex_idempotent e, snap_dry_run = ex_dry_run e,
           snap_retry_initial_seconds = ex_retry_initial_seconds e,
           snap_retry_max_seconds = ex_retry_max_seconds e,
           snap_retry_multiplier = ex_retry_multiplier e, snap_retry_jitter = ex_retry_jitter e \<rparr>))))))"

section \<open>Creating Runs\<close>

text \<open>
  \<open>INSERT\<close> into \<open>run_attempts\<close> and \<open>outbox\<close>.  The pair of Run and attempt number is unique, and the
  Run must exist.
\<close>

definition create_attempt_and_outbox ::
  "timestamp \<Rightarrow> uuid \<Rightarrow> int \<Rightarrow> uuid \<Rightarrow> timestamp option \<Rightarrow> Db \<Rightarrow> (StoreError, Db) result" where
  "create_attempt_and_outbox now rid attempt qid deadline db =
     (let attempt_id = db_next_id db; dispatch_id = db_next_id db + 1 in
      if \<exists>a \<in> set (db_attempts db). att_run_id a = rid \<and> att_attempt a = attempt then Err StoreConflict
      else if \<not> (\<exists>r \<in> set (db_runs db). run_id r = rid) then Err StoreInUse
      else Ok (db\<lparr>
        db_next_id := db_next_id db + 2,
        db_attempts := db_attempts db @ [\<lparr> att_id = attempt_id, att_run_id = rid, att_attempt = attempt,
          att_status = PendingDispatch, att_worker_id = None, att_started_at = None, att_heartbeat_at = None,
          att_lease_expires_at = None, att_completed_at = None, att_exit_code = None, att_stdout_tail = None,
          att_stderr_tail = None, att_output_sequence = 0, att_error = None \<rparr>],
        db_outbox := db_outbox db @ [\<lparr> ob_id = dispatch_id, ob_run_id = rid, ob_attempt_id = attempt_id,
          ob_subject = qid, ob_payload = \<lparr> env_dispatch_id = dispatch_id, env_run_id = rid,
            env_attempt_id = attempt_id, env_queue_id = qid \<rparr>,
          ob_dispatch_deadline = deadline, ob_attempt_count = 0, ob_next_attempt_at = now, ob_claimed_by = None,
          ob_claim_expires_at = None, ob_last_error = None, ob_created_at = now, ob_published_at = None, ob_cancelled_at = None,
          ob_stream_sequence = None \<rparr>] \<rparr>))"

text \<open>The check \<open>runs_attempt_bounds\<close> and the primary key, enforced on every inserted Run.\<close>

definition insert_run :: "RunRow \<Rightarrow> Db \<Rightarrow> (StoreError, Db) result" where
  "insert_run r db =
     (if \<not> (0 \<le> run_attempt_count r \<and> 1 \<le> run_max_attempts r \<and> run_max_attempts r \<le> 100 \<and>
            run_attempt_count r \<le> run_max_attempts r) then Err StoreInternal
      else if \<exists>r' \<in> set (db_runs db). run_id r' = run_id r then Err StoreConflict
      else Ok (db\<lparr> db_runs := db_runs db @ [r] \<rparr>))"

record PreparedRun =
  pr_id :: uuid
  pr_request_id :: uuid
  pr_job_id :: uuid
  pr_target_id :: uuid
  pr_queue_id :: uuid
  pr_max_attempts :: int
  pr_snapshot :: StoredSnapshot

definition normal_run :: "timestamp \<Rightarrow> uuid option \<Rightarrow> PreparedRun \<Rightarrow> RunRow" where
  "normal_run now rerun_of p =
     \<lparr> run_id = pr_id p, run_request_id = Some (pr_request_id p), run_rerun_of = rerun_of,
       run_schedule_id = None, run_job_id = pr_job_id p, run_target_id = pr_target_id p,
       run_queue_id = pr_queue_id p, run_scheduled_at = now, run_status = PendingDispatch,
       run_snapshot = pr_snapshot p, run_attempt_count = 1, run_max_attempts = pr_max_attempts p,
       run_next_retry_at = None, run_lateness_seconds = 0, run_terminal_reason = None, run_created_at = now,
       run_queued_at = None, run_started_at = None, run_completed_at = None \<rparr>"

definition create_normal_run :: "timestamp \<Rightarrow> PreparedRun \<Rightarrow> Db \<Rightarrow> (StoreError, Db) result" where
  "create_normal_run now p db =
     and_then (insert_run (normal_run now None p) db) (\<lambda>db.
     and_then (create_attempt_and_outbox now (pr_id p) 1 (pr_queue_id p) None db) (\<lambda>db.
     Ok (insert_run_event now (pr_id p) ''created'' db)))"

fun create_normal_runs :: "timestamp \<Rightarrow> PreparedRun list \<Rightarrow> Db \<Rightarrow> (StoreError, Db) result" where
  "create_normal_runs now [] db = Ok db"
| "create_normal_runs now (p # ps) db = and_then (create_normal_run now p db) (create_normal_runs now ps)"

section \<open>Manual requests\<close>

definition workflow_owned :: "Db \<Rightarrow> uuid \<Rightarrow> bool" where
  "workflow_owned db rid \<longleftrightarrow> (\<exists>n \<in> set (db_node_runs db). nr_id n = rid)"

definition find_run_request :: "Db \<Rightarrow> uuid \<Rightarrow> RunRequestRow option" where
  "find_run_request db rid = find (\<lambda>r. rr_request_id r = rid) (db_requests db)"

text \<open>\<open>jsonb_eq\<close> is the database's equality of \<open>jsonb\<close> values.\<close>

definition json_inputs_equal :: "(json \<Rightarrow> json \<Rightarrow> bool) \<Rightarrow> json \<Rightarrow> json \<Rightarrow> bool" where
  "json_inputs_equal jsonb_eq stored incoming \<longleftrightarrow> stored = incoming \<or> jsonb_eq stored incoming"

definition compare_run_request ::
  "(json \<Rightarrow> json \<Rightarrow> bool) \<Rightarrow> Db \<Rightarrow> RunRequestRow \<Rightarrow> uuid \<Rightarrow> TargetSelection \<Rightarrow> json \<Rightarrow> (StoreError, unit) result" where
  "compare_run_request jsonb_eq db existing jid target inputs =
     (if \<not> workflow_owned db (rr_request_id existing) \<and> rr_job_id existing = jid \<and>
         (rr_target_id existing, rr_target_set_id existing) = selection_ids target \<and>
         json_inputs_equal jsonb_eq (rr_inputs existing) inputs
      then Ok () else Err StoreIdempotencyConflict)"

text \<open>\<open>ORDER BY t.name, r.id\<close>; the joined Target is found by identity.\<close>

definition target_name_of :: "Db \<Rightarrow> uuid \<Rightarrow> bytes" where
  "target_name_of db tid =
     (case find (\<lambda>t. target_id t = tid) (db_targets db) of Some t \<Rightarrow> resource_str (target_name t) | None \<Rightarrow> [])"

definition runs_for_request :: "Db \<Rightarrow> uuid \<Rightarrow> RunRow list" where
  "runs_for_request db rid =
     sort_key (\<lambda>r. (target_name_of db (run_target_id r), run_id r))
       (filter (\<lambda>r. run_request_id r = Some rid) (db_runs db))"

fun prepare_snapshots ::
  "(json \<Rightarrow> bytes option) \<Rightarrow> uuid \<Rightarrow> json option \<Rightarrow> json \<Rightarrow> ExecutionRow list
     \<Rightarrow> (RenderError, (uuid \<times> ExecutionSnapshot) list) result" where
  "prepare_snapshots encode next_id shared_inputs inputs [] = Ok []"
| "prepare_snapshots encode next_id shared_inputs inputs (e # es) =
     and_then (execution_snapshot_with_inputs encode next_id e shared_inputs inputs TriggerManual None) (\<lambda>s.
     and_then (prepare_snapshots encode (next_id + 1) shared_inputs inputs es) (\<lambda>ss. Ok ((next_id, s) # ss)))"

definition prepared_run :: "uuid \<Rightarrow> ExecutionRow \<times> uuid \<times> ExecutionSnapshot \<Rightarrow> PreparedRun" where
  "prepared_run request_id x =
     (case x of (e, rid, s) \<Rightarrow>
        \<lparr> pr_id = rid, pr_request_id = request_id, pr_job_id = ex_job_id e, pr_target_id = ex_target_id e,
          pr_queue_id = ex_queue_id e, pr_max_attempts = ex_max_attempts e, pr_snapshot = Rendered s \<rparr>)"

definition first_namespace :: "ExecutionRow list \<Rightarrow> uuid option" where
  "first_namespace executions = (case executions of [] \<Rightarrow> None | e # _ \<Rightarrow> Some (ex_namespace_id e))"

text \<open>
  The request row is unique by \<open>request_id\<close>.  A concurrent insertion of the same request shows up
  as a row of the state and takes the branch of an existing request.
\<close>

definition create_runs ::
  "(json \<Rightarrow> bytes option) \<Rightarrow> (json \<Rightarrow> json \<Rightarrow> bool) \<Rightarrow> timestamp \<Rightarrow> uuid \<Rightarrow> uuid \<Rightarrow> TargetSelection \<Rightarrow> json \<Rightarrow> Db
     \<Rightarrow> (RunRow list \<times> bool) transaction" where
  "create_runs encode jsonb_eq now request_id jid target inputs db =
     (case find_run_request db request_id of
        Some existing \<Rightarrow>
          and_then (compare_run_request jsonb_eq db existing jid target inputs) (\<lambda>_.
          Ok (db, runs_for_request db request_id, False))
      | None \<Rightarrow>
          and_then (load_selection_executions db jid target) (\<lambda>(executions, shared_inputs).
          and_then (map_err (\<lambda>_. StoreInternal)
             (prepare_snapshots encode (db_next_id db) shared_inputs inputs executions)) (\<lambda>snapshots.
          and_then (ok_or StoreNotFound (first_namespace executions)) (\<lambda>namespace_id.
          let request = \<lparr> rr_request_id = request_id, rr_namespace_id = namespace_id, rr_job_id = jid,
                rr_target_id = fst (selection_ids target), rr_target_set_id = snd (selection_ids target),
                rr_inputs = inputs \<rparr>;
              db1 = db\<lparr> db_next_id := db_next_id db + length snapshots,
                        db_requests := db_requests db @ [request] \<rparr> in
          and_then (create_normal_runs now (map (prepared_run request_id) (zip executions snapshots)) db1) (\<lambda>db2.
          Ok (db2, runs_for_request db2 request_id, True))))))"

definition existing_rerun :: "Db \<Rightarrow> uuid \<Rightarrow> uuid \<Rightarrow> (StoreError, RunRow option) result" where
  "existing_rerun db request_id source_id =
     (case find_run_request db request_id of
        None \<Rightarrow> Ok None
      | Some _ \<Rightarrow>
          (case runs_for_request db request_id of
             [run] \<Rightarrow> if run_rerun_of run = Some source_id then Ok (Some run) else Err StoreIdempotencyConflict
           | _ \<Rightarrow> Err StoreIdempotencyConflict))"

definition invocation_inputs_of :: "Db \<Rightarrow> RunRow \<Rightarrow> json" where
  "invocation_inputs_of db r =
     (case (case run_request_id r of None \<Rightarrow> None | Some q \<Rightarrow> find_run_request db q) of
        Some request \<Rightarrow> rr_inputs request
      | None \<Rightarrow>
          (case (case run_schedule_id r of
                   None \<Rightarrow> None
                 | Some s \<Rightarrow> find (\<lambda>row. sched_id (srow_schedule row) = s) (db_schedules db)) of
             Some row \<Rightarrow> sched_inputs (srow_schedule row)
           | None \<Rightarrow> empty_object))"

text \<open>The source of a re-run: the Run, the Namespace of its Job, and its rendered snapshot.\<close>

definition rerun_source :: "Db \<Rightarrow> uuid \<Rightarrow> (StoreError, RunRow \<times> uuid \<times> ExecutionSnapshot) result" where
  "rerun_source db source_id =
     and_then (ok_or StoreNotFound (find (\<lambda>r. run_id r = source_id) (db_runs db))) (\<lambda>source.
     and_then (ok_or StoreNotFound (find (\<lambda>j. job_id j = run_job_id source) (db_jobs db))) (\<lambda>j.
     and_then (ok_or StoreNotFound (find (\<lambda>q. queue_id q = run_queue_id source) (db_queues db))) (\<lambda>q.
     and_then (ensure (queue_enabled q) StoreQueueDisabled) (\<lambda>_.
     case run_snapshot source of
       RenderFailed _ _ \<Rightarrow> Err StoreInternal
     | Rendered s \<Rightarrow> Ok (source, job_namespace_id j, s)))))"

definition rerun_prepared :: "uuid \<Rightarrow> uuid \<Rightarrow> RunRow \<Rightarrow> ExecutionSnapshot \<Rightarrow> PreparedRun" where
  "rerun_prepared rid request_id source s =
     \<lparr> pr_id = rid, pr_request_id = request_id, pr_job_id = run_job_id source,
       pr_target_id = run_target_id source, pr_queue_id = run_queue_id source,
       pr_max_attempts = run_max_attempts source,
       pr_snapshot = Rendered (s\<lparr> snap_idempotency_key := rid, snap_job_id := Some (run_job_id source),
         snap_queue_id := run_queue_id source, snap_trigger := Some TriggerRerun, snap_scheduled_at := None \<rparr>) \<rparr>"

definition rerun_request :: "Db \<Rightarrow> uuid \<Rightarrow> uuid \<Rightarrow> RunRow \<Rightarrow> RunRequestRow" where
  "rerun_request db request_id namespace_id source =
     \<lparr> rr_request_id = request_id, rr_namespace_id = namespace_id, rr_job_id = run_job_id source,
       rr_target_id = Some (run_target_id source), rr_target_set_id = None,
       rr_inputs = invocation_inputs_of db source \<rparr>"

definition insert_rerun :: "timestamp \<Rightarrow> uuid \<Rightarrow> uuid \<Rightarrow> Db \<Rightarrow> (RunRow \<times> bool) transaction" where
  "insert_rerun now source_id request_id db =
     and_then (existing_rerun db request_id source_id) (\<lambda>existing.
     case existing of
       Some run \<Rightarrow> Ok (db, run, False)
     | None \<Rightarrow>
         and_then (rerun_source db source_id) (\<lambda>(source, namespace_id, s).
         let rid = db_next_id db;
             db1 = db\<lparr> db_next_id := rid + 1,
               db_requests := db_requests db @ [rerun_request db request_id namespace_id source] \<rparr> in
         and_then (insert_run (normal_run now (Some source_id) (rerun_prepared rid request_id source s)) db1) (\<lambda>db2.
         and_then (create_attempt_and_outbox now rid 1 (run_queue_id source) None db2) (\<lambda>db3.
         let db4 = insert_run_event now rid ''created'' db3 in
         and_then (existing_rerun db4 request_id source_id) (\<lambda>found.
         and_then (ok_or StoreInternal found) (\<lambda>run. Ok (db4, run, True)))))))"

section \<open>Schedules\<close>

definition claim_due_schedules ::
  "timestamp \<Rightarrow> (uuid \<Rightarrow> bool) \<Rightarrow> uuid \<Rightarrow> nat \<Rightarrow> int \<Rightarrow> Db \<Rightarrow> Schedule list transaction" where
  "claim_due_schedules now locked owner limit lease_secs db =
     and_then (duration_seconds lease_secs) (\<lambda>lease_seconds.
     let due = (\<lambda>row. sched_enabled (srow_schedule row) \<and>
           (case sched_next_run_at (srow_schedule row) of None \<Rightarrow> False | Some t \<Rightarrow> t \<le> now) \<and>
           (case srow_claim_expires_at row of None \<Rightarrow> True | Some t \<Rightarrow> t < now));
         chosen = select_batch (\<lambda>row. (the (sched_next_run_at (srow_schedule row)), sched_id (srow_schedule row)))
           (\<lambda>row. locked (sched_id (srow_schedule row))) due limit (db_schedules db);
         ids = map (\<lambda>row. sched_id (srow_schedule row)) chosen in
     Ok (db\<lparr> db_schedules := update_where (\<lambda>row. sched_id (srow_schedule row) \<in> set ids)
              (\<lambda>row. row\<lparr> srow_claim_owner := Some owner,
                          srow_claim_expires_at := Some (now + lease_seconds * second) \<rparr>) (db_schedules db) \<rparr>,
         map srow_schedule chosen))"

definition scheduled_snapshot ::
  "(json \<Rightarrow> bytes option) \<Rightarrow> uuid \<Rightarrow> ExecutionRow \<Rightarrow> json option \<Rightarrow> json \<Rightarrow> timestamp
     \<Rightarrow> (RenderError, ExecutionSnapshot) result" where
  "scheduled_snapshot encode rid e target_set_inputs schedule_inputs scheduled_at =
     execution_snapshot_with_inputs encode rid e target_set_inputs schedule_inputs TriggerSchedule (Some scheduled_at)"

text \<open>
  \<open>ON CONFLICT (schedule_id, scheduled_at, target_id) DO NOTHING\<close>: an occurrence that was already
  planned for the Target is left alone.  The reason text of a failed rendering is kept as the
  fixed prefix of the message.
\<close>

definition insert_scheduled_occurrence ::
  "(json \<Rightarrow> bytes option) \<Rightarrow> timestamp \<Rightarrow> uuid \<Rightarrow> PlannedOccurrence \<Rightarrow> ExecutionRow \<Rightarrow> json option \<Rightarrow> json
     \<Rightarrow> Db \<Rightarrow> (StoreError, Db) result" where
  "insert_scheduled_occurrence encode now schedule_id occ e target_set_inputs schedule_inputs db =
     (let rid = db_next_id db;
          db0 = db\<lparr> db_next_id := rid + 1 \<rparr>;
          rendered = scheduled_snapshot encode rid e target_set_inputs schedule_inputs (occ_scheduled_at occ);
          fallback = (case merge_inputs encode (execution_layers e target_set_inputs schedule_inputs) of
                        Inr v \<Rightarrow> v | Inl _ \<Rightarrow> empty_object);
          (snapshot, status, reason) =
            (case rendered of
               Inr s \<Rightarrow> if occ_execute occ then (Rendered s, PendingDispatch, None)
                        else (Rendered s, Skipped, occ_reason occ)
             | Inl m \<Rightarrow> (RenderFailed m fallback, Failed, Some ''execution template could not be rendered''));
          attempt_count = (if status = PendingDispatch then 1 else 0);
          r = \<lparr> run_id = rid, run_request_id = None, run_rerun_of = None, run_schedule_id = Some schedule_id,
                run_job_id = ex_job_id e, run_target_id = ex_target_id e, run_queue_id = ex_queue_id e,
                run_scheduled_at = occ_scheduled_at occ, run_status = status, run_snapshot = snapshot,
                run_attempt_count = attempt_count, run_max_attempts = ex_max_attempts e,
                run_next_retry_at = None, run_lateness_seconds = min (occ_lateness_seconds occ) i64_max,
                run_terminal_reason = reason, run_created_at = now, run_queued_at = None,
                run_started_at = None,
                run_completed_at = (if status = Skipped \<or> status = Failed then Some now else None) \<rparr> in
      if \<exists>r' \<in> set (db_runs db). run_schedule_id r' = Some schedule_id \<and>
           run_scheduled_at r' = occ_scheduled_at occ \<and> run_target_id r' = ex_target_id e
      then Ok db0
      else and_then (insert_run r db0) (\<lambda>db1.
           and_then (if status = PendingDispatch
                     then create_attempt_and_outbox now rid 1 (ex_queue_id e) (occ_dispatch_deadline occ) db1
                     else Ok db1) (\<lambda>db2.
           let event = (if status = PendingDispatch then ''created'' else if status = Failed then ''failed'' else ''skipped'');
               db3 = insert_run_event now rid event db2 in
           Ok (db3\<lparr> db_schedule_events := db_schedule_events db3 @
             [\<lparr> sev_schedule_id = schedule_id, sev_type = event, sev_scheduled_at = occ_scheduled_at occ,
                sev_run_id = rid, sev_target_id = ex_target_id e \<rparr>] \<rparr>))))"

fun insert_occurrence_executions ::
  "(json \<Rightarrow> bytes option) \<Rightarrow> timestamp \<Rightarrow> uuid \<Rightarrow> PlannedOccurrence \<Rightarrow> ExecutionRow list \<Rightarrow> json option \<Rightarrow> json
     \<Rightarrow> Db \<Rightarrow> (StoreError, Db) result" where
  "insert_occurrence_executions encode now sid occ [] set_in in' db = Ok db"
| "insert_occurrence_executions encode now sid occ (e # es) set_in in' db =
     and_then (insert_scheduled_occurrence encode now sid occ e set_in in' db) (\<lambda>db'.
     insert_occurrence_executions encode now sid occ es set_in in' db')"

fun insert_occurrences ::
  "(json \<Rightarrow> bytes option) \<Rightarrow> timestamp \<Rightarrow> uuid \<Rightarrow> PlannedOccurrence list \<Rightarrow> ExecutionRow list \<Rightarrow> json option \<Rightarrow> json
     \<Rightarrow> Db \<Rightarrow> (StoreError, Db) result" where
  "insert_occurrences encode now sid [] es set_in in' db = Ok db"
| "insert_occurrences encode now sid (occ # occs) es set_in in' db =
     and_then (insert_occurrence_executions encode now sid occ es set_in in' db) (\<lambda>db'.
     insert_occurrences encode now sid occs es set_in in' db')"

definition commit_schedule_plan ::
  "(json \<Rightarrow> bytes option) \<Rightarrow> timestamp \<Rightarrow> SchedulePlan \<Rightarrow> Db \<Rightarrow> unit transaction" where
  "commit_schedule_plan encode now p db =
     (case find (\<lambda>row. sched_id (srow_schedule row) = plan_schedule_id p \<and>
                  srow_claim_owner row = Some (plan_owner p) \<and>
                  (case srow_claim_expires_at row of None \<Rightarrow> False | Some t \<Rightarrow> now < t)) (db_schedules db) of
        None \<Rightarrow> Err StoreConflict
      | Some row \<Rightarrow>
          and_then (load_selection_executions db (sched_job_id (srow_schedule row)) (sched_target (srow_schedule row)))
            (\<lambda>(executions, target_set_inputs).
          and_then (insert_occurrences encode now (plan_schedule_id p) (plan_occurrences p) executions
                      target_set_inputs (sched_inputs (srow_schedule row)) db) (\<lambda>db1.
          let mine = (\<lambda>row. sched_id (srow_schedule row) = plan_schedule_id p \<and>
                            srow_claim_owner row = Some (plan_owner p));
              last_at = (case plan_occurrences p of [] \<Rightarrow> None | _ \<Rightarrow> Some (occ_scheduled_at (last (plan_occurrences p)))) in
          if length (filter mine (db_schedules db1)) \<noteq> 1 then Err StoreConflict
          else Ok (db1\<lparr> db_schedules := update_where mine (\<lambda>row. row\<lparr>
                 srow_schedule := (srow_schedule row)\<lparr> sched_next_run_at := plan_next_run_at p,
                   sched_last_run_at := (case last_at of Some t \<Rightarrow> Some t | None \<Rightarrow> sched_last_run_at (srow_schedule row)),
                   sched_enabled := (if plan_disable p then False else sched_enabled (srow_schedule row)),
                   sched_updated_at := now \<rparr>,
                 srow_claim_owner := None, srow_claim_expires_at := None \<rparr>) (db_schedules db1) \<rparr>, ()))))"

section \<open>Outbox publication\<close>

definition outbox_claimable :: "timestamp \<Rightarrow> OutboxRow \<Rightarrow> bool" where
  "outbox_claimable now o' \<longleftrightarrow>
     ob_published_at o' = None \<and> ob_cancelled_at o' = None \<and> ob_next_attempt_at o' \<le> now \<and>
     (case ob_dispatch_deadline o' of None \<Rightarrow> True | Some d \<Rightarrow> now \<le> d) \<and>
     (case ob_claim_expires_at o' of None \<Rightarrow> True | Some t \<Rightarrow> t < now)"

text \<open>The claimed message as the dispatcher holds it (\<open>OutboxRecord\<close>).\<close>

record OutboxRecord =
  rec_id :: uuid
  rec_run_id :: uuid
  rec_attempt_id :: uuid
  rec_subject :: uuid
  rec_payload :: DispatchEnvelope
  rec_attempt_count :: int

definition outbox_record :: "OutboxRow \<Rightarrow> OutboxRecord" where
  "outbox_record o' = \<lparr> rec_id = ob_id o', rec_run_id = ob_run_id o', rec_attempt_id = ob_attempt_id o',
     rec_subject = ob_subject o', rec_payload = ob_payload o', rec_attempt_count = ob_attempt_count o' \<rparr>"

definition claim_outbox ::
  "timestamp \<Rightarrow> (uuid \<Rightarrow> bool) \<Rightarrow> uuid \<Rightarrow> nat \<Rightarrow> int \<Rightarrow> Db \<Rightarrow> OutboxRecord list transaction" where
  "claim_outbox now locked owner limit lease_secs db =
     and_then (duration_seconds lease_secs) (\<lambda>lease_seconds.
     let chosen = select_batch (\<lambda>o'. (ob_next_attempt_at o', ob_id o')) (\<lambda>o'. locked (ob_id o'))
           (outbox_claimable now) limit (db_outbox db) in
     and_then (traverse (\<lambda>o'. if 0 \<le> ob_attempt_count o' then Ok (outbox_record o') else Err StoreInternal) chosen)
       (\<lambda>records.
     Ok (update_outbox (\<lambda>o'. ob_id o' \<in> set (map ob_id chosen))
           (\<lambda>o'. o'\<lparr> ob_claimed_by := Some owner, ob_claim_expires_at := Some (now + lease_seconds * second) \<rparr>) db,
         records)))"

definition mark_published :: "timestamp \<Rightarrow> uuid \<Rightarrow> OutboxRecord \<Rightarrow> int \<Rightarrow> Db \<Rightarrow> unit transaction" where
  "mark_published now owner record stream_sequence db =
     (if stream_sequence > i64_max then Err StoreInternal
      else let mine = (\<lambda>o'. ob_id o' = rec_id record \<and> ob_run_id o' = rec_run_id record \<and>
                 ob_claimed_by o' = Some owner \<and> ob_published_at o' = None) in
        if length (filter mine (db_outbox db)) \<noteq> 1 then Err StoreConflict
        else Ok (insert_run_event now (rec_run_id record) ''queued''
               (update_runs (\<lambda>r. run_id r = rec_run_id record \<and> run_status r = PendingDispatch)
                  (\<lambda>r. r\<lparr> run_status := Queued, run_queued_at := Some now \<rparr>)
               (update_attempts (\<lambda>a. att_id a = rec_attempt_id record \<and> att_status a = PendingDispatch)
                  (\<lambda>a. a\<lparr> att_status := Queued \<rparr>)
               (update_outbox mine
                  (\<lambda>o'. o'\<lparr> ob_published_at := Some now, ob_stream_sequence := Some stream_sequence,
                            ob_claimed_by := None, ob_claim_expires_at := None, ob_last_error := None \<rparr>) db))), ()))"

definition record_publish_failure ::
  "uuid \<Rightarrow> uuid \<Rightarrow> bytes \<Rightarrow> timestamp \<Rightarrow> Db \<Rightarrow> unit transaction" where
  "record_publish_failure owner dispatch_id message next_attempt_at db =
     Ok (update_outbox (\<lambda>o'. ob_id o' = dispatch_id \<and> ob_claimed_by o' = Some owner \<and> ob_published_at o' = None)
           (\<lambda>o'. o'\<lparr> ob_attempt_count := ob_attempt_count o' + 1, ob_last_error := Some (take_chars 1024 message),
                     ob_next_attempt_at := next_attempt_at, ob_claimed_by := None, ob_claim_expires_at := None \<rparr>) db, ())"

section \<open>Worker control\<close>

record ClaimRequest =
  cr_run_id :: uuid
  cr_attempt_id :: uuid
  cr_queue_id :: uuid
  cr_worker_id :: bytes

record ClaimResponse =
  claimed :: bool
  lease_seconds :: int
  execution :: "ExecutionSnapshot option"

text \<open>
  The claim updates the Attempt and the Run in one transaction.  The snapshot is decoded after the
  commit, so a snapshot that is no execution is reported as an error of a committed claim.
\<close>

definition claim_attempt :: "timestamp \<Rightarrow> ClaimRequest \<Rightarrow> Db \<Rightarrow> Db \<times> (StoreError, ClaimResponse) result" where
  "claim_attempt now request db =
     (if \<not> text_storable (cr_worker_id request) then (db, Err StoreInvalidData) else
      let mine = (\<lambda>a. att_id a = cr_attempt_id request \<and> att_run_id a = cr_run_id request \<and>
            att_status a = Queued \<and>
            (\<exists>r \<in> set (db_runs db). run_id r = att_run_id a \<and> run_queue_id r = cr_queue_id request)) in
      case find mine (db_attempts db) of
        None \<Rightarrow> (db, Ok \<lparr> claimed = False, lease_seconds = 60, execution = None \<rparr>)
      | Some a \<Rightarrow>
          (case find (\<lambda>r. run_id r = att_run_id a \<and> run_status r = Queued) (db_runs db) of
             None \<Rightarrow> (db, Err StoreConflict)
           | Some r \<Rightarrow>
               (let db' = insert_run_event now (att_run_id a) ''running''
                      (update_runs (\<lambda>r. run_id r = att_run_id a \<and> run_status r = Queued)
                         (\<lambda>r. r\<lparr> run_status := Running,
                                 run_started_at := (case run_started_at r of None \<Rightarrow> Some now | Some t \<Rightarrow> Some t) \<rparr>)
                      (update_attempts mine
                         (\<lambda>a. a\<lparr> att_status := Running, att_worker_id := Some (cr_worker_id request),
                                 att_started_at := Some now, att_heartbeat_at := Some now,
                                 att_lease_expires_at := Some (now + 60 * second) \<rparr>) db)) in
                (db', (case run_snapshot r of
                         Rendered s \<Rightarrow> Ok \<lparr> claimed = True, lease_seconds = 60, execution = Some s \<rparr>
                       | RenderFailed _ _ \<Rightarrow> Err StoreInternal)))))"

text \<open>A worker's lease on an Attempt: it runs, the worker owns it, and the lease has not expired.\<close>

definition holds_lease :: "timestamp \<Rightarrow> uuid \<Rightarrow> bytes \<Rightarrow> RunAttemptRow \<Rightarrow> bool" where
  "holds_lease now attempt_id worker_id a \<longleftrightarrow>
     att_id a = attempt_id \<and> att_worker_id a = Some worker_id \<and> att_status a = Running \<and>
     (case att_lease_expires_at a of None \<Rightarrow> False | Some t \<Rightarrow> now < t)"

definition renew_lease :: "timestamp \<Rightarrow> uuid \<Rightarrow> bytes \<Rightarrow> Db \<Rightarrow> bool transaction" where
  "renew_lease now attempt_id worker_id db =
     (if \<not> text_storable worker_id then Err StoreInvalidData else
      Ok (update_attempts (holds_lease now attempt_id worker_id)
           (\<lambda>a. a\<lparr> att_heartbeat_at := Some now, att_lease_expires_at := Some (now + 60 * second) \<rparr>) db,
         length (filter (holds_lease now attempt_id worker_id) (db_attempts db)) = 1))"

record OutputSnapshotRequest =
  os_attempt_id :: uuid
  os_worker_id :: bytes
  os_sequence :: int
  os_stdout_tail :: bytes
  os_stderr_tail :: bytes

text \<open>The check \<open>run_attempts_output_bounded\<close> refuses an oversized tail of a matching row.\<close>

definition record_attempt_output :: "timestamp \<Rightarrow> OutputSnapshotRequest \<Rightarrow> Db \<Rightarrow> bool transaction" where
  "record_attempt_output now request db =
     (if os_sequence request > i64_max then Err StoreInternal
      else if \<not> (text_storable (os_worker_id request) \<and> text_storable (os_stdout_tail request) \<and>
             text_storable (os_stderr_tail request)) then Err StoreInvalidData
      else let mine = (\<lambda>a. holds_lease now (os_attempt_id request) (os_worker_id request) a \<and>
                 att_output_sequence a < os_sequence request) in
        if filter mine (db_attempts db) \<noteq> [] \<and>
           (length (os_stdout_tail request) > 65536 \<or> length (os_stderr_tail request) > 65536)
        then Err StoreInternal
        else Ok (update_attempts mine
                   (\<lambda>a. a\<lparr> att_stdout_tail := Some (os_stdout_tail request),
                           att_stderr_tail := Some (os_stderr_tail request),
                           att_output_sequence := os_sequence request \<rparr>) db,
                 length (filter mine (db_attempts db)) = 1))"

record CompletionRequest =
  comp_attempt_id :: uuid
  comp_worker_id :: bytes
  comp_succeeded :: bool
  comp_skipped :: bool
  comp_exit_code :: "int option"
  comp_stdout_tail :: bytes
  comp_stderr_tail :: bytes
  comp_error :: "bytes option"

record RetryRow =
  rt_attempt_count :: int
  rt_max_attempts :: int
  rt_idempotent :: bool
  rt_initial_seconds :: int
  rt_max_seconds :: int
  rt_multiplier :: rat
  rt_jitter :: rat

definition snapshot_idempotent :: "StoredSnapshot \<Rightarrow> bool" where
  "snapshot_idempotent s = (case s of Rendered x \<Rightarrow> snap_idempotent x | RenderFailed _ _ \<Rightarrow> False)"

text \<open>The retry columns of a stored snapshot; a missing or non-finite one cannot be decoded.\<close>

definition retry_row :: "RunRow \<Rightarrow> (StoreError, RetryRow) result" where
  "retry_row r =
     (case run_snapshot r of
        RenderFailed _ _ \<Rightarrow> Err StoreInternal
      | Rendered s \<Rightarrow>
          (case (snap_retry_multiplier s, snap_retry_jitter s) of
             (F64 m, F64 j) \<Rightarrow> Ok \<lparr> rt_attempt_count = run_attempt_count r, rt_max_attempts = run_max_attempts r,
               rt_idempotent = snap_idempotent s, rt_initial_seconds = snap_retry_initial_seconds s,
               rt_max_seconds = snap_retry_max_seconds s, rt_multiplier = m, rt_jitter = j \<rparr>
           | _ \<Rightarrow> Err StoreInternal))"

text \<open>
  The retry delay in nanoseconds.  \<open>rnd\<close> is the rounding of double arithmetic, applied to the result
  of every operation, and \<open>to_nanos\<close> the conversion \<open>Duration::seconds_f64\<close>.  The seed is the last
  byte of the Run identity.
\<close>

definition retry_delay :: "(rat \<Rightarrow> rat) \<Rightarrow> (rat \<Rightarrow> int) \<Rightarrow> uuid \<Rightarrow> RetryRow \<Rightarrow> int" where
  "retry_delay rnd to_nanos rid retry =
     (let exponent = nat (max (rt_attempt_count retry - 1) 0);
          initial = of_int (rt_initial_seconds retry);
          maximum = of_int (rt_max_seconds retry);
          base = min (rnd (initial * rnd (rt_multiplier retry ^ exponent))) maximum;
          seed = rid mod 256;
          unit = rnd (rnd (of_nat seed / 255) * 2 - 1) in
      to_nanos (rnd (base * rnd (rt_jitter retry * unit) + base)))"

definition completion_status :: "CompletionRequest \<Rightarrow> RunStatus" where
  "completion_status request =
     (if comp_skipped request then Skipped else if comp_succeeded request then Succeeded else Failed)"

definition should_retry :: "CompletionRequest \<Rightarrow> RetryRow \<Rightarrow> bool" where
  "should_retry request retry \<longleftrightarrow>
     \<not> comp_succeeded request \<and> \<not> comp_skipped request \<and> rt_idempotent retry \<and>
     rt_attempt_count retry < rt_max_attempts retry"

definition completed_run_status :: "CompletionRequest \<Rightarrow> bool \<Rightarrow> RunStatus" where
  "completed_run_status request retry =
     (if comp_skipped request then Skipped else if comp_succeeded request then Succeeded
      else if retry then RetryWait else Failed)"

text \<open>
  The texts bound to the update of the Attempt; what a bounded tail or message cuts off is not bound.
  The statement fails as \<open>text_storable\<close> describes and \<open>store_error\<close> classifies the failure.
\<close>

definition completion_texts :: "CompletionRequest \<Rightarrow> bytes list" where
  "completion_texts request =
     [comp_worker_id request, bounded_tail (comp_stdout_tail request), bounded_tail (comp_stderr_tail request)] @
     (case comp_error request of None \<Rightarrow> [] | Some e \<Rightarrow> [bounded_error e])"

definition complete_attempt ::
  "(RunRow \<Rightarrow> RetryRow \<Rightarrow> int) \<Rightarrow> timestamp \<Rightarrow> timestamp \<Rightarrow> CompletionRequest \<Rightarrow> Db \<Rightarrow> bool transaction" where
  "complete_attempt delay now utc_now request db =
     (if comp_skipped request \<and> \<not> comp_succeeded request then Err StoreInternal
      else if \<not> list_all text_storable (completion_texts request) then Err (statement_error ''22021'')
      else let mine = holds_lease now (comp_attempt_id request) (comp_worker_id request) in
        case find mine (db_attempts db) of
          None \<Rightarrow> Ok (db, False)
        | Some a \<Rightarrow>
            (case find (\<lambda>r. run_id r = att_run_id a) (db_runs db) of
               None \<Rightarrow> Err StoreInternal
             | Some r \<Rightarrow>
                 and_then (retry_row r) (\<lambda>retry.
                 let again = should_retry request retry;
                     status = completed_run_status request again in
                 Ok (insert_run_event now (att_run_id a) (run_status_name status)
                     (update_runs (\<lambda>r. run_id r = att_run_id a \<and> run_status r = Running)
                        (\<lambda>r. r\<lparr> run_status := status,
                                run_completed_at := (if status = RetryWait then None else Some now),
                                run_next_retry_at := (if again then Some (utc_now + delay r retry) else None),
                                run_terminal_reason := (if comp_skipped request then Some ''dry run''
                                  else map_option bounded_error (comp_error request)) \<rparr>)
                     (update_attempts mine
                        (\<lambda>a. a\<lparr> att_status := completion_status request, att_completed_at := Some now,
                                att_lease_expires_at := None, att_exit_code := comp_exit_code request,
                                att_stdout_tail := Some (bounded_tail (comp_stdout_tail request)),
                                att_stderr_tail := Some (bounded_tail (comp_stderr_tail request)),
                                att_error := map_option bounded_error (comp_error request) \<rparr>) db)), True))))"

section \<open>Reconciliation\<close>

definition remove_expired_worker_presence :: "timestamp \<Rightarrow> (bytes \<Rightarrow> bool) \<Rightarrow> nat \<Rightarrow> Db \<Rightarrow> Db \<times> nat" where
  "remove_expired_worker_presence now locked limit db =
     (let expired = select_batch wk_last_seen_at (\<lambda>w. locked (wk_worker_id w))
            (\<lambda>w. wk_last_seen_at w < now - 7 * 86400 * second) limit (db_workers db) in
      (db\<lparr> db_workers := filter (\<lambda>w. wk_worker_id w \<notin> set (map wk_worker_id expired)) (db_workers db) \<rparr>,
       length expired))"

definition expire_dispatch :: "timestamp \<Rightarrow> OutboxRow \<Rightarrow> Db \<Rightarrow> Db" where
  "expire_dispatch now o' db =
     insert_run_event now (ob_run_id o') ''skipped''
     (update_runs (\<lambda>r. run_id r = ob_run_id o' \<and> run_status r = PendingDispatch)
        (\<lambda>r. r\<lparr> run_status := Skipped, run_completed_at := Some now,
                run_terminal_reason := Some ''misfire dispatch deadline expired'' \<rparr>)
     (update_attempts (\<lambda>a. att_id a = ob_attempt_id o' \<and> att_status a = PendingDispatch)
        (\<lambda>a. a\<lparr> att_status := Dead, att_completed_at := Some now,
                att_error := Some ''misfire dispatch deadline expired'' \<rparr>)
     (update_outbox (\<lambda>x. ob_id x = ob_id o' \<and> ob_published_at x = None \<and> ob_cancelled_at x = None)
        (\<lambda>x. x\<lparr> ob_cancelled_at := Some now, ob_claimed_by := None, ob_claim_expires_at := None,
                ob_last_error := Some ''misfire dispatch deadline expired'' \<rparr>) db)))"

definition dispatch_expired :: "timestamp \<Rightarrow> OutboxRow \<Rightarrow> bool" where
  "dispatch_expired now o' \<longleftrightarrow>
     ob_published_at o' = None \<and> ob_cancelled_at o' = None \<and>
     (case ob_dispatch_deadline o' of None \<Rightarrow> False | Some d \<Rightarrow> d < now)"

definition reconcile_expired_dispatches :: "timestamp \<Rightarrow> (uuid \<Rightarrow> bool) \<Rightarrow> nat \<Rightarrow> Db \<Rightarrow> Db \<times> nat" where
  "reconcile_expired_dispatches now locked limit db =
     (let rows = select_batch (\<lambda>o'. (the (ob_dispatch_deadline o'), ob_id o')) (\<lambda>o'. locked (ob_id o'))
            (dispatch_expired now) limit (db_outbox db) in
      (fold (expire_dispatch now) rows db, length rows))"

text \<open>A Run enters its next Attempt; the check on the attempt count is enforced by the database.\<close>

definition next_attempt_run :: "RunStatus \<Rightarrow> uuid \<Rightarrow> int \<Rightarrow> Db \<Rightarrow> (StoreError, Db) result" where
  "next_attempt_run from_status rid next_attempt db =
     (let mine = (\<lambda>r. run_id r = rid \<and> run_status r = from_status) in
      if \<exists>r \<in> set (db_runs db). mine r \<and> run_max_attempts r < next_attempt then Err StoreInternal
      else Ok (update_runs mine (\<lambda>r. r\<lparr> run_status := PendingDispatch, run_attempt_count := next_attempt,
                 run_next_retry_at := None, run_started_at := None \<rparr>) db))"

definition snapshot_queue :: "RunRow \<Rightarrow> uuid option" where
  "snapshot_queue r = (case run_snapshot r of Rendered s \<Rightarrow> Some (snap_queue_id s) | RenderFailed _ _ \<Rightarrow> None)"

definition retry_due :: "timestamp \<Rightarrow> RunRow \<Rightarrow> bool" where
  "retry_due now r \<longleftrightarrow>
     run_status r = RetryWait \<and> (case run_next_retry_at r of None \<Rightarrow> False | Some t \<Rightarrow> t \<le> now)"

definition dispatch_retry :: "timestamp \<Rightarrow> RunRow \<Rightarrow> Db \<Rightarrow> (StoreError, Db) result" where
  "dispatch_retry now r db =
     and_then (ok_or StoreInternal (snapshot_queue r)) (\<lambda>qid.
     and_then (next_attempt_run RetryWait (run_id r) (run_attempt_count r + 1) db) (\<lambda>db1.
     create_attempt_and_outbox now (run_id r) (run_attempt_count r + 1) qid None db1))"

fun fold_result :: "('r \<Rightarrow> Db \<Rightarrow> (StoreError, Db) result) \<Rightarrow> 'r list \<Rightarrow> Db \<Rightarrow> (StoreError, Db) result" where
  "fold_result f [] db = Ok db"
| "fold_result f (r # rs) db = and_then (f r db) (fold_result f rs)"

definition reconcile_due_retries :: "timestamp \<Rightarrow> (uuid \<Rightarrow> bool) \<Rightarrow> nat \<Rightarrow> Db \<Rightarrow> nat transaction" where
  "reconcile_due_retries now locked limit db =
     (let rows = select_batch (\<lambda>r. (the (run_next_retry_at r), run_id r)) (\<lambda>r. locked (run_id r))
            (retry_due now) limit (db_runs db) in
      and_then (fold_result (dispatch_retry now) rows db) (\<lambda>db'. Ok (db', length rows)))"

definition lease_expired :: "timestamp \<Rightarrow> RunAttemptRow \<Rightarrow> bool" where
  "lease_expired now a \<longleftrightarrow>
     att_status a = Running \<and> (case att_lease_expires_at a of None \<Rightarrow> False | Some t \<Rightarrow> t < now)"

definition abandon_attempt :: "timestamp \<Rightarrow> uuid \<Rightarrow> bool \<Rightarrow> Db \<Rightarrow> Db" where
  "abandon_attempt now aid retry db =
     update_attempts (\<lambda>x. att_id x = aid \<and> att_status x = Running)
       (\<lambda>x. x\<lparr> att_status := (if retry then Failed else Unknown), att_completed_at := Some now,
               att_lease_expires_at := None, att_error := Some ''worker lease expired'' \<rparr>) db"

definition lose_run :: "timestamp \<Rightarrow> uuid \<Rightarrow> Db \<Rightarrow> Db" where
  "lose_run now rid db =
     update_runs (\<lambda>x. run_id x = rid \<and> run_status x = Running)
       (\<lambda>x. x\<lparr> run_status := Unknown,
               run_terminal_reason := Some ''worker lease expired after an ambiguous execution'',
               run_completed_at := Some now \<rparr>) db"

definition lease_retry :: "RunRow \<Rightarrow> bool" where
  "lease_retry r \<longleftrightarrow> snapshot_idempotent (run_snapshot r) \<and> run_attempt_count r < run_max_attempts r"

definition expire_lease :: "timestamp \<Rightarrow> RunAttemptRow \<times> RunRow \<Rightarrow> Db \<Rightarrow> (StoreError, Db) result" where
  "expire_lease now ar db =
     (case ar of (a, r) \<Rightarrow>
        and_then (ok_or StoreInternal (snapshot_queue r)) (\<lambda>qid.
        let db1 = abandon_attempt now (att_id a) (lease_retry r) db in
        if lease_retry r
        then and_then (next_attempt_run Running (run_id r) (run_attempt_count r + 1) db1) (\<lambda>db2.
             create_attempt_and_outbox now (run_id r) (run_attempt_count r + 1) qid None db2)
        else Ok (lose_run now (run_id r) db1)))"

text \<open>The join of Attempts and their Runs.\<close>

definition with_run :: "Db \<Rightarrow> RunAttemptRow \<Rightarrow> (RunAttemptRow \<times> RunRow) list" where
  "with_run db a = (case find (\<lambda>r. run_id r = att_run_id a) (db_runs db) of Some r \<Rightarrow> [(a, r)] | None \<Rightarrow> [])"

definition reconcile_expired_leases :: "timestamp \<Rightarrow> (uuid \<Rightarrow> bool) \<Rightarrow> nat \<Rightarrow> Db \<Rightarrow> nat transaction" where
  "reconcile_expired_leases now locked limit db =
     (let rows = select_batch (\<lambda>(a, r). (the (att_lease_expires_at a), att_id a))
            (\<lambda>(a, r). locked (att_id a) \<or> locked (run_id r)) (\<lambda>(a, r). lease_expired now a) limit
            (concat (map (with_run db) (db_attempts db))) in
      and_then (fold_result (expire_lease now) rows db) (\<lambda>db'. Ok (db', length rows)))"

definition release_expired_claims :: "timestamp \<Rightarrow> Db \<Rightarrow> Db" where
  "release_expired_claims now db =
     update_outbox (\<lambda>o'. ob_published_at o' = None \<and> ob_cancelled_at o' = None \<and>
                         (case ob_claim_expires_at o' of None \<Rightarrow> False | Some t \<Rightarrow> t < now))
       (\<lambda>o'. o'\<lparr> ob_claimed_by := None, ob_claim_expires_at := None \<rparr>) db"

text \<open>The transaction of \<open>reconcile\<close>; the Workflow pass that follows it is in \<open>WorkflowEngine\<close>.\<close>

definition reconcile_runs ::
  "timestamp \<Rightarrow> (uuid \<Rightarrow> bool) \<Rightarrow> (bytes \<Rightarrow> bool) \<Rightarrow> nat \<Rightarrow> Db \<Rightarrow> nat transaction" where
  "reconcile_runs now locked worker_locked limit db =
     (case reconcile_expired_dispatches now locked limit db of (db1, expired_dispatches) \<Rightarrow>
      and_then (reconcile_due_retries now locked limit db1) (\<lambda>(db2, due_retries).
      and_then (reconcile_expired_leases now locked limit db2) (\<lambda>(db3, expired_leases).
      case remove_expired_worker_presence now worker_locked limit db3 of (db4, expired_workers) \<Rightarrow>
      Ok (release_expired_claims now db4, expired_leases + due_retries + expired_dispatches + expired_workers))))"

end
