(* ===== verification/Authorization.thy ===== *)
theory Authorization
  imports Store
begin

text \<open>
  Identity and authority (\<open>application/auth.rs\<close>, \<open>auth/capabilities.rs\<close>, \<open>auth/grants.rs\<close>,
  \<open>auth/policy.rs\<close>, \<open>infrastructure/postgres/authorization.rs\<close>): the permission registry, grant
  sets, the policy that decides a capability on a resource, and the visibility of reads.
\<close>

section \<open>Resources and errors\<close>

datatype ResourceScope =
    ControlPlane
  | NamespaceScope uuid
  | QueueScope uuid
  | JobScope uuid
  | TargetScope uuid
  | TargetSetScope uuid
  | ScheduleScope uuid
  | WorkflowScope uuid
  | WorkflowRunScope uuid
  | RunScope uuid

datatype ResourceKind =
    KControlPlane | KNamespace | KQueue | KJob | KTarget | KTargetSet | KSchedule | KWorkflow
  | KWorkflowRun | KRun

primrec resource_kind :: "ResourceScope \<Rightarrow> ResourceKind" where
  "resource_kind ControlPlane = KControlPlane"
| "resource_kind (NamespaceScope i) = KNamespace"
| "resource_kind (QueueScope i) = KQueue"
| "resource_kind (JobScope i) = KJob"
| "resource_kind (TargetScope i) = KTarget"
| "resource_kind (TargetSetScope i) = KTargetSet"
| "resource_kind (ScheduleScope i) = KSchedule"
| "resource_kind (WorkflowScope i) = KWorkflow"
| "resource_kind (WorkflowRunScope i) = KWorkflowRun"
| "resource_kind (RunScope i) = KRun"

datatype VisibilityScope = VisibleAll | VisibleNamespaces "uuid list" | VisibleNone

datatype AuthorizationError = Unauthenticated | Forbidden | AuthNotFound | AuthUnavailable

section \<open>Permissions\<close>

datatype PermissionScope = ScopeGlobal | ScopeNamespace

datatype Capability =
    NamespaceCreate | NamespaceRead | NamespaceDelete | QueueCreate | QueueRead
  | QueueUpdate | QueueDelete | JobCreate | JobRead | JobUpdate
  | JobExecute | TargetCreate | TargetRead | TargetUpdate | TargetDelete
  | TargetUse | TargetSetCreate | TargetSetRead | TargetSetUpdate | TargetSetUse
  | ScheduleCreate | ScheduleRead | ScheduleUpdate | WorkflowCreate | WorkflowRead
  | WorkflowUpdate | WorkflowDelete | WorkflowExecute | WorkflowRunRead | WorkflowRunCancel
  | RunCreate | RunRead | WorkerRead | MonitorRead | OverviewRead

record PermissionDefinition =
  perm_identifier :: bytes
  perm_scope :: PermissionScope
  perm_resources :: "ResourceKind list"

definition permission :: "bytes \<Rightarrow> PermissionScope \<Rightarrow> ResourceKind list \<Rightarrow> PermissionDefinition" where
  "permission i s ks = \<lparr> perm_identifier = i, perm_scope = s, perm_resources = ks \<rparr>"

primrec cap_definition :: "Capability \<Rightarrow> PermissionDefinition" where
  "cap_definition NamespaceCreate = permission ''crono.namespace.create'' ScopeGlobal [KControlPlane]"
| "cap_definition NamespaceRead = permission ''crono.namespace.read'' ScopeNamespace [KNamespace]"
| "cap_definition NamespaceDelete = permission ''crono.namespace.delete'' ScopeNamespace [KNamespace]"
| "cap_definition QueueCreate = permission ''crono.queue.create'' ScopeGlobal [KControlPlane]"
| "cap_definition QueueRead = permission ''crono.queue.read'' ScopeGlobal [KControlPlane, KQueue]"
| "cap_definition QueueUpdate = permission ''crono.queue.update'' ScopeGlobal [KQueue]"
| "cap_definition QueueDelete = permission ''crono.queue.delete'' ScopeGlobal [KQueue]"
| "cap_definition JobCreate = permission ''crono.job.create'' ScopeNamespace [KNamespace]"
| "cap_definition JobRead = permission ''crono.job.read'' ScopeNamespace [KNamespace, KJob]"
| "cap_definition JobUpdate = permission ''crono.job.update'' ScopeNamespace [KJob]"
| "cap_definition JobExecute = permission ''crono.job.execute'' ScopeNamespace [KJob]"
| "cap_definition TargetCreate = permission ''crono.target.create'' ScopeNamespace [KNamespace]"
| "cap_definition TargetRead = permission ''crono.target.read'' ScopeNamespace [KNamespace, KTarget]"
| "cap_definition TargetUpdate = permission ''crono.target.update'' ScopeNamespace [KTarget]"
| "cap_definition TargetDelete = permission ''crono.target.delete'' ScopeNamespace [KTarget]"
| "cap_definition TargetUse = permission ''crono.target.use'' ScopeNamespace [KTarget]"
| "cap_definition TargetSetCreate = permission ''crono.target_set.create'' ScopeNamespace [KNamespace]"
| "cap_definition TargetSetRead = permission ''crono.target_set.read'' ScopeNamespace [KNamespace, KTargetSet]"
| "cap_definition TargetSetUpdate = permission ''crono.target_set.update'' ScopeNamespace [KTargetSet]"
| "cap_definition TargetSetUse = permission ''crono.target_set.use'' ScopeNamespace [KTargetSet]"
| "cap_definition ScheduleCreate = permission ''crono.schedule.create'' ScopeNamespace [KNamespace]"
| "cap_definition ScheduleRead = permission ''crono.schedule.read'' ScopeNamespace [KNamespace, KSchedule]"
| "cap_definition ScheduleUpdate = permission ''crono.schedule.update'' ScopeNamespace [KSchedule]"
| "cap_definition WorkflowCreate = permission ''crono.workflow.create'' ScopeNamespace [KNamespace]"
| "cap_definition WorkflowRead = permission ''crono.workflow.read'' ScopeNamespace [KNamespace, KWorkflow]"
| "cap_definition WorkflowUpdate = permission ''crono.workflow.update'' ScopeNamespace [KWorkflow]"
| "cap_definition WorkflowDelete = permission ''crono.workflow.delete'' ScopeNamespace [KWorkflow]"
| "cap_definition WorkflowExecute = permission ''crono.workflow.execute'' ScopeNamespace [KWorkflow]"
| "cap_definition WorkflowRunRead = permission ''crono.workflow_run.read'' ScopeNamespace [KWorkflow, KWorkflowRun]"
| "cap_definition WorkflowRunCancel = permission ''crono.workflow_run.cancel'' ScopeNamespace [KWorkflowRun]"
| "cap_definition RunCreate = permission ''crono.run.create'' ScopeNamespace [KNamespace]"
| "cap_definition RunRead = permission ''crono.run.read'' ScopeNamespace [KRun]"
| "cap_definition WorkerRead = permission ''crono.worker.read'' ScopeGlobal [KControlPlane]"
| "cap_definition MonitorRead = permission ''crono.monitor.read'' ScopeGlobal [KControlPlane]"
| "cap_definition OverviewRead = permission ''crono.overview.read'' ScopeNamespace [KNamespace]"

definition ALL_CAPABILITIES :: "Capability list" where
  "ALL_CAPABILITIES =
     [NamespaceCreate, NamespaceRead, NamespaceDelete, QueueCreate, QueueRead,
      QueueUpdate, QueueDelete, JobCreate, JobRead, JobUpdate,
      JobExecute, TargetCreate, TargetRead, TargetUpdate, TargetDelete,
      TargetUse, TargetSetCreate, TargetSetRead, TargetSetUpdate, TargetSetUse,
      ScheduleCreate, ScheduleRead, ScheduleUpdate, WorkflowCreate, WorkflowRead,
      WorkflowUpdate, WorkflowDelete, WorkflowExecute, WorkflowRunRead, WorkflowRunCancel,
      RunCreate, RunRead, WorkerRead, MonitorRead, OverviewRead]"

definition from_permission_id :: "bytes \<Rightarrow> Capability option" where
  "from_permission_id i = find (\<lambda>c. perm_identifier (cap_definition c) = i) ALL_CAPABILITIES"

definition accepts_resource :: "Capability \<Rightarrow> ResourceScope \<Rightarrow> bool" where
  "accepts_resource c r \<longleftrightarrow> resource_kind r \<in> set (perm_resources (cap_definition c))"

text \<open>The derived order is the order of declaration.\<close>

primrec cap_index :: "Capability \<Rightarrow> nat" where
  "cap_index NamespaceCreate = 0"
| "cap_index NamespaceRead = 1"
| "cap_index NamespaceDelete = 2"
| "cap_index QueueCreate = 3"
| "cap_index QueueRead = 4"
| "cap_index QueueUpdate = 5"
| "cap_index QueueDelete = 6"
| "cap_index JobCreate = 7"
| "cap_index JobRead = 8"
| "cap_index JobUpdate = 9"
| "cap_index JobExecute = 10"
| "cap_index TargetCreate = 11"
| "cap_index TargetRead = 12"
| "cap_index TargetUpdate = 13"
| "cap_index TargetDelete = 14"
| "cap_index TargetUse = 15"
| "cap_index TargetSetCreate = 16"
| "cap_index TargetSetRead = 17"
| "cap_index TargetSetUpdate = 18"
| "cap_index TargetSetUse = 19"
| "cap_index ScheduleCreate = 20"
| "cap_index ScheduleRead = 21"
| "cap_index ScheduleUpdate = 22"
| "cap_index WorkflowCreate = 23"
| "cap_index WorkflowRead = 24"
| "cap_index WorkflowUpdate = 25"
| "cap_index WorkflowDelete = 26"
| "cap_index WorkflowExecute = 27"
| "cap_index WorkflowRunRead = 28"
| "cap_index WorkflowRunCancel = 29"
| "cap_index RunCreate = 30"
| "cap_index RunRead = 31"
| "cap_index WorkerRead = 32"
| "cap_index MonitorRead = 33"
| "cap_index OverviewRead = 34"

lemma cap_index_nth: "ALL_CAPABILITIES ! cap_index c = c"
  by (cases c) (simp_all add: ALL_CAPABILITIES_def)

lemma cap_index_inject: "cap_index c = cap_index d \<Longrightarrow> c = d"
  by (metis cap_index_nth)

instantiation Capability :: linorder
begin

definition less_eq_Capability :: "Capability \<Rightarrow> Capability \<Rightarrow> bool" where
  "less_eq_Capability c d \<longleftrightarrow> cap_index c \<le> cap_index d"

definition less_Capability :: "Capability \<Rightarrow> Capability \<Rightarrow> bool" where
  "less_Capability c d \<longleftrightarrow> cap_index c < cap_index d"

instance
  by standard (auto simp: less_eq_Capability_def less_Capability_def dest: cap_index_inject)

end

lemma all_capabilities: "c \<in> set ALL_CAPABILITIES"
  by (cases c) (simp_all add: ALL_CAPABILITIES_def)

section \<open>Grants\<close>

datatype GrantScope = GrantGlobal | GrantAllNamespaces | GrantNamespace uuid

primrec scope_rank :: "GrantScope \<Rightarrow> nat \<times> nat" where
  "scope_rank GrantGlobal = (0, 0)"
| "scope_rank GrantAllNamespaces = (1, 0)"
| "scope_rank (GrantNamespace n) = (2, n)"

lemma scope_rank_inject: "scope_rank s = scope_rank t \<Longrightarrow> s = t"
  by (cases s; cases t) simp_all

instantiation GrantScope :: linorder
begin

definition less_eq_GrantScope :: "GrantScope \<Rightarrow> GrantScope \<Rightarrow> bool" where
  "less_eq_GrantScope s t \<longleftrightarrow> scope_rank s \<le> scope_rank t"

definition less_GrantScope :: "GrantScope \<Rightarrow> GrantScope \<Rightarrow> bool" where
  "less_GrantScope s t \<longleftrightarrow> scope_rank s < scope_rank t"

instance
  by standard (auto simp: less_eq_GrantScope_def less_GrantScope_def less_le_not_le dest: scope_rank_inject)

end

definition MAX_GRANT_ENTRIES :: nat where "MAX_GRANT_ENTRIES = 256"

datatype GrantError = InvalidDocument | UnsupportedVersion | UnknownPermission | IncompatibleScope | TooLarge

type_synonym GrantSet = "(GrantScope, Capability list) btree"

definition compatible :: "GrantScope \<Rightarrow> PermissionScope \<Rightarrow> bool" where
  "compatible s p \<longleftrightarrow>
     (case s of GrantGlobal \<Rightarrow> p = ScopeGlobal | GrantAllNamespaces \<Rightarrow> p = ScopeNamespace
      | GrantNamespace _ \<Rightarrow> p = ScopeNamespace)"

text \<open>\<open>assignments.entry(scope).or_default().insert(permission)\<close>.\<close>

definition grant_entry :: "GrantScope \<Rightarrow> Capability \<Rightarrow> GrantSet \<Rightarrow> GrantSet" where
  "grant_entry s c g = bt_insert s (bset_insert c (case bt_get g s of Some cs \<Rightarrow> cs | None \<Rightarrow> [])) g"

fun grant_permissions :: "GrantScope \<Rightarrow> Capability list \<Rightarrow> GrantSet \<Rightarrow> (GrantError, GrantSet) result" where
  "grant_permissions s [] g = Ok g"
| "grant_permissions s (c # cs) g =
     (if compatible s (perm_scope (cap_definition c)) then grant_permissions s cs (grant_entry s c g)
      else Err IncompatibleScope)"

fun grant_entries :: "nat \<Rightarrow> (GrantScope \<times> Capability list) list \<Rightarrow> GrantSet \<Rightarrow> (GrantError, GrantSet) result" where
  "grant_entries index [] g = Ok g"
| "grant_entries index ((s, cs) # es) g =
     (if MAX_GRANT_ENTRIES \<le> index then Err TooLarge
      else and_then (grant_permissions s cs g) (grant_entries (index + 1) es))"

definition GrantSet_new :: "(GrantScope \<times> Capability list) list \<Rightarrow> (GrantError, GrantSet) result" where
  "GrantSet_new entries = grant_entries 0 entries []"

definition development_grants :: GrantSet where
  "development_grants =
     fold (\<lambda>c g. grant_entry (case perm_scope (cap_definition c) of ScopeGlobal \<Rightarrow> GrantGlobal
             | ScopeNamespace \<Rightarrow> GrantAllNamespaces) c g) ALL_CAPABILITIES []"

definition grants_contains :: "GrantSet \<Rightarrow> GrantScope \<Rightarrow> Capability \<Rightarrow> bool" where
  "grants_contains g s c \<longleftrightarrow> (case bt_get g s of Some cs \<Rightarrow> c \<in> set cs | None \<Rightarrow> False)"

definition allows_global :: "GrantSet \<Rightarrow> Capability \<Rightarrow> bool" where
  "allows_global g c \<longleftrightarrow> grants_contains g GrantGlobal c"

definition allows_namespace :: "GrantSet \<Rightarrow> Capability \<Rightarrow> uuid \<Rightarrow> bool" where
  "allows_namespace g c n \<longleftrightarrow> grants_contains g GrantAllNamespaces c \<or> grants_contains g (GrantNamespace n) c"

definition granted_namespaces :: "GrantSet \<Rightarrow> Capability \<Rightarrow> uuid list" where
  "granted_namespaces g c =
     bset_of (concat (map (\<lambda>(s, cs). case s of GrantNamespace n \<Rightarrow> if c \<in> set cs then [n] else [] | _ \<Rightarrow> []) g))"

definition grants_visibility :: "GrantSet \<Rightarrow> Capability \<Rightarrow> VisibilityScope" where
  "grants_visibility g c =
     (if grants_contains g GrantAllNamespaces c then VisibleAll
      else let ids = granted_namespaces g c in if ids = [] then VisibleNone else VisibleNamespaces ids)"

section \<open>Policy\<close>

definition denial :: "Capability \<Rightarrow> AuthorizationError" where
  "denial c = (if c = RunRead \<or> c = WorkflowRead \<or> c = WorkflowRunRead then AuthNotFound else Forbidden)"

text \<open>\<open>GrantAuthorizer::authorize\<close>; \<open>namespace_for\<close> is the injected resolver.\<close>

definition authorize ::
  "(ResourceScope \<Rightarrow> (AuthorizationError, uuid option) result) \<Rightarrow> GrantSet \<Rightarrow> Capability \<Rightarrow> ResourceScope
     \<Rightarrow> (AuthorizationError, unit) result" where
  "authorize namespace_for g c r =
     (if \<not> accepts_resource c r then Err Forbidden
      else if perm_scope (cap_definition c) = ScopeGlobal
      then (if allows_global g c then Ok () else Err Forbidden)
      else case grants_visibility g c of
             VisibleNone \<Rightarrow> Err (denial c)
           | VisibleAll \<Rightarrow> Ok ()
           | VisibleNamespaces _ \<Rightarrow>
               and_then (case r of NamespaceScope i \<Rightarrow> Ok i
                         | _ \<Rightarrow> and_then (namespace_for r) (ok_or AuthNotFound)) (\<lambda>n.
               if allows_namespace g c n then Ok () else Err (denial c)))"

text \<open>The last segment of \<open>rsplit('.')\<close>.\<close>

definition last_segment :: "bytes \<Rightarrow> bytes" where
  "last_segment v = rev (takeWhile (\<lambda>x. x \<noteq> CHR ''.'') (rev v))"

definition visibility :: "GrantSet \<Rightarrow> Capability \<Rightarrow> (AuthorizationError, VisibilityScope) result" where
  "visibility g c =
     (if perm_scope (cap_definition c) \<noteq> ScopeNamespace \<or> last_segment (perm_identifier (cap_definition c)) \<noteq> ''read''
      then Err Forbidden else Ok (grants_visibility g c))"

definition visible :: "VisibilityScope \<Rightarrow> uuid \<Rightarrow> bool" where
  "visible v n = (case v of VisibleAll \<Rightarrow> True | VisibleNamespaces ids \<Rightarrow> n \<in> set ids | VisibleNone \<Rightarrow> False)"

text \<open>The resolver of the store: ownership of a resource by its row alone.\<close>

definition namespace_for :: "Db \<Rightarrow> ResourceScope \<Rightarrow> (AuthorizationError, uuid option) result" where
  "namespace_for db r =
     (case r of
        NamespaceScope i \<Rightarrow> Ok (Some i)
      | JobScope i \<Rightarrow> Ok (map_option job_namespace_id (find (\<lambda>j. job_id j = i) (db_jobs db)))
      | TargetScope i \<Rightarrow> Ok (map_option target_namespace_id (find (\<lambda>t. target_id t = i) (db_targets db)))
      | TargetSetScope i \<Rightarrow> Ok (map_option set_namespace_id (find (\<lambda>s. set_id s = i) (db_target_sets db)))
      | ScheduleScope i \<Rightarrow>
          Ok (map_option (\<lambda>s. sched_namespace_id (srow_schedule s)) (find (\<lambda>s. sched_id (srow_schedule s) = i) (db_schedules db)))
      | WorkflowScope i \<Rightarrow> Ok (map_option wf_namespace_id (find (\<lambda>w. wf_id w = i) (db_workflows db)))
      | WorkflowRunScope i \<Rightarrow> Ok (map_option wr_namespace_id (find (\<lambda>w. wr_id w = i) (db_workflow_runs db)))
      | RunScope i \<Rightarrow>
          Ok (case find (\<lambda>x. run_id x = i) (db_runs db) of
                None \<Rightarrow> None
              | Some x \<Rightarrow> map_option job_namespace_id (find (\<lambda>j. job_id j = run_job_id x) (db_jobs db)))
      | ControlPlane \<Rightarrow> Err Forbidden
      | QueueScope _ \<Rightarrow> Err Forbidden)"

section \<open>Grant sets\<close>

text \<open>The invariant of a normalised grant set.\<close>

definition grants_ok :: "GrantSet \<Rightarrow> bool" where
  "grants_ok g \<longleftrightarrow> bt_sorted g \<and>
     (\<forall>(s, cs) \<in> set g. sorted_wrt (<) cs \<and> cs \<noteq> [] \<and> (\<forall>c \<in> set cs. compatible s (perm_scope (cap_definition c))))"

lemma grants_contains_iff: "bt_sorted g \<Longrightarrow> grants_contains g s c \<longleftrightarrow> (\<exists>cs. (s, cs) \<in> set g \<and> c \<in> set cs)"
  unfolding grants_contains_def bt_get_iff [symmetric] by (auto split: option.split)

lemma grants_contains_entry: "grants_contains (grant_entry s c g) s' c' \<longleftrightarrow> s' = s \<and> c' = c \<or> grants_contains g s' c'"
  by (auto simp: grants_contains_def grant_entry_def bt_get_insert split: option.splits)

lemma grants_contains_Nil [simp]: "\<not> grants_contains [] s c"
  by (simp add: grants_contains_def)

lemma grant_entry_ok:
  assumes "grants_ok g" "compatible s (perm_scope (cap_definition c))"
  shows "grants_ok (grant_entry s c g)"
proof -
  let ?cs = "case bt_get g s of Some cs \<Rightarrow> cs | None \<Rightarrow> []"
  have sorted: "bt_sorted g" using assms(1) by (simp add: grants_ok_def)
  have old: "sorted_wrt (<) cs \<and> (\<forall>c \<in> set cs. compatible s (perm_scope (cap_definition c)))" if "bt_get g s = Some cs" for s cs
    using that assms(1) bt_get_iff [OF sorted] by (auto simp: grants_ok_def)
  have new: "sorted_wrt (<) (bset_insert c ?cs)" "bset_insert c ?cs \<noteq> []"
      "\<forall>d \<in> set (bset_insert c ?cs). compatible s (perm_scope (cap_definition d))"
    using old [of s] assms(2)
    by (cases "bt_get g s"; auto intro!: sorted_bset_insert simp flip: set_empty)+
  have srt: "bt_sorted (grant_entry s c g)" using sorted by (simp add: grant_entry_def bt_sorted_insert)
  moreover have "sorted_wrt (<) ds \<and> ds \<noteq> [] \<and> (\<forall>d \<in> set ds. compatible t (perm_scope (cap_definition d)))"
    if mem: "(t, ds) \<in> set (grant_entry s c g)" for t ds
  proof (cases "t = s")
    have get: "bt_get (grant_entry s c g) t = Some ds" using mem bt_get_iff [OF srt] by blast
    case True
    then have "ds = bset_insert c ?cs" using get by (simp add: grant_entry_def bt_get_insert)
    then show ?thesis using new True by simp
  next
    case False
    moreover have "bt_get (grant_entry s c g) t = Some ds" using mem bt_get_iff [OF srt] by blast
    ultimately have "bt_get g t = Some ds" by (simp add: grant_entry_def bt_get_insert)
    then show ?thesis using assms(1) bt_get_iff [OF sorted] by (auto simp: grants_ok_def)
  qed
  ultimately show ?thesis by (auto simp: grants_ok_def)
qed

lemma grant_permissions_Ok:
  "grant_permissions s cs g = Inr g' \<Longrightarrow> grants_ok g \<Longrightarrow>
     grants_ok g' \<and> (\<forall>t c. grants_contains g' t c \<longleftrightarrow> grants_contains g t c \<or> t = s \<and> c \<in> set cs)"
  by (induction s cs g rule: grant_permissions.induct)
    (auto simp: grants_contains_entry grant_entry_ok split: if_splits)

lemma grant_entries_Ok:
  "grant_entries i es g = Inr g' \<Longrightarrow> grants_ok g \<Longrightarrow>
     grants_ok g' \<and> (\<forall>t c. grants_contains g' t c \<longleftrightarrow> grants_contains g t c \<or> (\<exists>cs. (t, cs) \<in> set es \<and> c \<in> set cs))"
proof (induction i es g rule: grant_entries.induct)
  case (2 i s cs es g)
  from 2(2) obtain g1 where g1: "grant_permissions s cs g = Inr g1" "grant_entries (i + 1) es g1 = Inr g'" "i < MAX_GRANT_ENTRIES"
    by (auto split: if_splits)
  note step = grant_permissions_Ok [OF g1(1) 2(3)]
  show ?case using 2(1) [OF _ g1(2)] g1(3) step by auto
qed simp

lemma grants_ok_Nil [simp]: "grants_ok []"
  by (simp add: grants_ok_def)

lemmas GrantSet_new_Ok = grant_entries_Ok [of 0 _ "[]", folded GrantSet_new_def, simplified]

lemma grants_ext:
  assumes "grants_ok g" "grants_ok h" "\<And>s c. grants_contains g s c \<longleftrightarrow> grants_contains h s c"
  shows "g = h"
proof -
  have "bt_get g s = bt_get h s" for s
  proof -
    have val: "bt_get g s = Some cs \<Longrightarrow> sorted_wrt (<) cs \<and> cs \<noteq> []" "bt_get h s = Some cs \<Longrightarrow> sorted_wrt (<) cs \<and> cs \<noteq> []" for cs
      using assms(1,2) by (auto simp: grants_ok_def dest!: bt_get_in)
    have same: "grants_contains g s c \<longleftrightarrow> grants_contains h s c" for c by (rule assms(3))
    show ?thesis
    proof (cases "bt_get g s"; cases "bt_get h s")
      fix cs ds assume eq: "bt_get g s = Some cs" "bt_get h s = Some ds"
      then have "set cs = set ds" using same by (auto simp: grants_contains_def)
      then show ?thesis using val eq by (metis strict_sorted_equal)
    next
      fix ds assume eq: "bt_get g s = None" "bt_get h s = Some ds"
      then show ?thesis using same [of "hd ds"] val(2) [OF eq(2)] by (auto simp: grants_contains_def)
    next
      fix cs assume eq: "bt_get g s = Some cs" "bt_get h s = None"
      then show ?thesis using same [of "hd cs"] val(1) [OF eq(1)] by (auto simp: grants_contains_def)
    qed simp
  qed
  then show ?thesis by (intro bt.entries_ext) (use assms(1,2) in \<open>simp_all add: grants_ok_def\<close>)
qed

lemma set_granted_namespaces:
  "bt_sorted g \<Longrightarrow> n \<in> set (granted_namespaces g c) \<longleftrightarrow> grants_contains g (GrantNamespace n) c"
  by (auto simp: granted_namespaces_def grants_contains_iff split: GrantScope.splits if_splits)

lemma visible_iff: "bt_sorted g \<Longrightarrow> visible (grants_visibility g c) n \<longleftrightarrow> allows_namespace g c n"
  using set_granted_namespaces [of g n c]
  by (auto simp: visible_def grants_visibility_def allows_namespace_def Let_def)

section \<open>Authorization\<close>

text \<open>What the policy needs of a resolver, and what ownership means where the resolver has one.\<close>

locale namespace_resolver =
  fixes resolve :: "ResourceScope \<Rightarrow> (AuthorizationError, uuid option) result"
  assumes direct: "resolve (NamespaceScope i) = Inr (Some i)"
begin

lemma authorize_iff:
  assumes "bt_sorted g"
  shows "authorize resolve g c r = Inr () \<longleftrightarrow> accepts_resource c r \<and>
    (if perm_scope (cap_definition c) = ScopeGlobal then grants_contains g GrantGlobal c
     else grants_contains g GrantAllNamespaces c \<or>
       (\<exists>n. resolve r = Inr (Some n) \<and> grants_contains g (GrantNamespace n) c))"
proof (cases "perm_scope (cap_definition c) = ScopeGlobal")
  case True
  then show ?thesis by (simp add: authorize_def allows_global_def)
next
  case False
  have none: "grants_visibility g c = VisibleNone \<Longrightarrow> \<not> grants_contains g GrantAllNamespaces c \<and> \<not> grants_contains g (GrantNamespace n) c" for n
    using set_granted_namespaces [OF assms, of n c] by (auto simp: grants_visibility_def Let_def split: if_splits)
  have all: "grants_visibility g c = VisibleAll \<longleftrightarrow> grants_contains g GrantAllNamespaces c"
    by (simp add: grants_visibility_def Let_def)
  have lookup: "(case r of NamespaceScope i \<Rightarrow> Ok i | _ \<Rightarrow> and_then (resolve r) (ok_or AuthNotFound)) = Inr n \<longleftrightarrow> resolve r = Inr (Some n)" for n
    by (cases r) (auto simp: direct)
  show ?thesis
    using False none all
    by (cases "grants_visibility g c") (auto simp: authorize_def lookup allows_namespace_def)
qed

lemma authorize_hides:
  assumes "c \<in> {RunRead, WorkflowRead, WorkflowRunRead}" "accepts_resource c r" "resolve r = Inr x"
    "authorize resolve g c r \<noteq> Inr ()"
  shows "authorize resolve g c r = Inl AuthNotFound"
proof -
  have ns: "perm_scope (cap_definition c) = ScopeNamespace" "denial c = AuthNotFound"
    using assms(1) by (auto simp: permission_def denial_def)
  have "(case r of NamespaceScope i \<Rightarrow> Ok i | _ \<Rightarrow> and_then (resolve r) (ok_or AuthNotFound)) =
      (case x of Some n \<Rightarrow> Inr n | None \<Rightarrow> Inl AuthNotFound)"
    using assms(3) direct by (cases r; cases x) auto
  then show ?thesis
    using assms(2,4) ns by (cases x; cases "grants_visibility g c") (auto simp: authorize_def split: if_splits)
qed

end

locale membership = namespace_resolver +
  fixes owner :: "ResourceScope \<Rightarrow> uuid \<Rightarrow> bool"
  assumes resolves: "resolve r = Inr (Some n) \<Longrightarrow> owner r n"
begin

lemma authorize_owner:
  assumes "bt_sorted g" "authorize resolve g c r = Inr ()" "perm_scope (cap_definition c) = ScopeNamespace"
  shows "grants_contains g GrantAllNamespaces c \<or> (\<exists>n. owner r n \<and> grants_contains g (GrantNamespace n) c)"
  using assms resolves by (auto simp: authorize_iff)

end

text \<open>Ownership in the tables.\<close>

definition owns :: "Db \<Rightarrow> ResourceScope \<Rightarrow> uuid \<Rightarrow> bool" where
  "owns db r n =
     (case r of
        NamespaceScope i \<Rightarrow> n = i
      | JobScope i \<Rightarrow> (\<exists>j \<in> set (db_jobs db). job_id j = i \<and> job_namespace_id j = n)
      | TargetScope i \<Rightarrow> (\<exists>t \<in> set (db_targets db). target_id t = i \<and> target_namespace_id t = n)
      | TargetSetScope i \<Rightarrow> (\<exists>s \<in> set (db_target_sets db). set_id s = i \<and> set_namespace_id s = n)
      | ScheduleScope i \<Rightarrow> (\<exists>s \<in> set (db_schedules db). sched_id (srow_schedule s) = i \<and> sched_namespace_id (srow_schedule s) = n)
      | WorkflowScope i \<Rightarrow> (\<exists>w \<in> set (db_workflows db). wf_id w = i \<and> wf_namespace_id w = n)
      | WorkflowRunScope i \<Rightarrow> (\<exists>w \<in> set (db_workflow_runs db). wr_id w = i \<and> wr_namespace_id w = n)
      | RunScope i \<Rightarrow> (\<exists>x \<in> set (db_runs db). run_id x = i \<and> (\<exists>j \<in> set (db_jobs db). job_id j = run_job_id x \<and> job_namespace_id j = n))
      | ControlPlane \<Rightarrow> False
      | QueueScope _ \<Rightarrow> False)"

interpretation store: membership "namespace_for db" "owns db" for db
proof unfold_locales
  show "namespace_for db (NamespaceScope i) = Inr (Some i)" for i by (simp add: namespace_for_def)
  show "owns db r n" if "namespace_for db r = Inr (Some n)" for r n
    using that by (cases r) (auto simp: namespace_for_def owns_def dest!: find_Some_in split: option.splits)
qed

section \<open>Properties\<close>

text \<open>
  C36. The policy decides exactly by verified grants and stored ownership: a capability is allowed on
  a resource if and only if the registry accepts the resource kind and there is a grant of that
  capability, global for a global permission, and otherwise for all Namespaces or for the Namespace
  that owns the resource in the tables.
\<close>

theorem authorize_exact:
  assumes "GrantSet_new entries = Inr g"
  shows "authorize (namespace_for db) g c r = Inr () \<longleftrightarrow> accepts_resource c r \<and>
    (if perm_scope (cap_definition c) = ScopeGlobal then \<exists>cs. (GrantGlobal, cs) \<in> set entries \<and> c \<in> set cs
     else (\<exists>cs. (GrantAllNamespaces, cs) \<in> set entries \<and> c \<in> set cs) \<or>
       (\<exists>n cs. namespace_for db r = Inr (Some n) \<and> owns db r n \<and> (GrantNamespace n, cs) \<in> set entries \<and> c \<in> set cs))"
proof -
  have g: "grants_ok g" "\<And>t c. grants_contains g t c \<longleftrightarrow> (\<exists>cs. (t, cs) \<in> set entries \<and> c \<in> set cs)"
    using GrantSet_new_Ok [OF assms] by auto
  have "bt_sorted g" using g(1) by (simp add: grants_ok_def)
  then show ?thesis using store.resolves by (auto simp: store.authorize_iff g(2))
qed

definition sample_auth_db :: "Db" where
  "sample_auth_db = \<lparr> db_namespaces = [], db_queues = [], db_jobs = [], db_targets = [], db_target_sets = [],
     db_schedules = [], db_requests = [], db_runs = [], db_attempts = [], db_outbox = [], db_run_events = [],
     db_schedule_events = [], db_workers = [], db_workflows = [],
     db_workflow_runs = [\<lparr> wr_id = 8, wr_request_id = 1, wr_workflow_id = 2, wr_namespace_id = 5,
       wr_definition = \<lparr> sw_id = 2, sw_namespace_id = 5, sw_namespace = NamespaceName ''a'', sw_name = ResourceName ''w'',
         sw_description = None, sw_revision = 1, sw_created_at = 0, sw_updated_at = 0, sw_nodes = [], sw_edges = [] \<rparr>,
       wr_target_id = Some 3, wr_target_set_id = None, wr_inputs = JObject [], wr_state = WorkflowRunning,
       wr_cancellation_requested = False, wr_created_at = 0, wr_started_at = None, wr_finished_at = None \<rparr>],
     db_node_runs = [], db_run_edges = [], db_node_executions = [], db_completion_events = [], db_next_id = 9 \<rparr>"

theorem authorize_exact_witness:
  "authorize (namespace_for sample_auth_db) [(GrantNamespace 5, [WorkflowRunRead])] WorkflowRunRead (WorkflowRunScope 8) = Inr () \<and>
   authorize (namespace_for sample_auth_db) [(GrantNamespace 5, [WorkflowRunRead])] WorkflowRunCancel (WorkflowRunScope 8) \<noteq> Inr ()"
proof -
  have new: "GrantSet_new [(GrantNamespace 5, [WorkflowRunRead])] = Inr [(GrantNamespace 5, [WorkflowRunRead])]"
    by (simp add: GrantSet_new_def MAX_GRANT_ENTRIES_def compatible_def permission_def grant_entry_def bset_insert_def)
  show ?thesis
    unfolding authorize_exact [OF new]
    by (simp add: accepts_resource_def permission_def namespace_for_def owns_def sample_auth_db_def)
qed

lemma distinct_identifiers: "distinct (map (\<lambda>c. perm_identifier (cap_definition c)) ALL_CAPABILITIES)"
  by (simp add: ALL_CAPABILITIES_def permission_def)

lemma from_permission_id_identifier: "from_permission_id (perm_identifier (cap_definition c)) = Some c"
proof -
  have "find (\<lambda>c. f c = f x) xs = Some x" if "distinct (map f xs)" "x \<in> set xs" for f :: "Capability \<Rightarrow> bytes" and x xs
    using that by (induction xs) (auto simp: image_iff)
  then show ?thesis unfolding from_permission_id_def using distinct_identifiers all_capabilities by blast
qed

lemma grant_permissions_total:
  "\<forall>c \<in> set cs. compatible s (perm_scope (cap_definition c)) \<Longrightarrow> \<exists>g'. grant_permissions s cs g = Inr g'"
  by (induction cs arbitrary: g) auto

lemma grant_entries_total:
  "\<forall>(s, cs) \<in> set es. \<forall>c \<in> set cs. compatible s (perm_scope (cap_definition c)) \<Longrightarrow>
     i + length es \<le> MAX_GRANT_ENTRIES \<Longrightarrow> \<exists>g'. grant_entries i es g = Inr g'"
proof (induction i es g rule: grant_entries.induct)
  case (2 i s cs es g)
  obtain g1 where "grant_permissions s cs g = Inr g1" using grant_permissions_total 2(2) by fastforce
  then show ?case using 2 by auto
qed simp

lemma GrantSet_new_self:
  assumes "grants_ok g" "length g \<le> MAX_GRANT_ENTRIES"
  shows "GrantSet_new g = Inr g"
proof -
  have "\<forall>(s, cs) \<in> set g. \<forall>c \<in> set cs. compatible s (perm_scope (cap_definition c))" using assms(1) by (auto simp: grants_ok_def)
  then obtain h where h: "GrantSet_new g = Inr h"
    using grant_entries_total [of g 0 "[]"] assms(2) by (auto simp: GrantSet_new_def)
  have "grants_ok h" "grants_contains h s c \<longleftrightarrow> grants_contains g s c" for s c
    using GrantSet_new_Ok [OF h] assms(1) by (auto simp: grants_contains_iff grants_ok_def)
  then have "h = g" using grants_ext assms(1) by blast
  then show ?thesis using h by simp
qed

end
