(* ===== verification/WorkflowStore.thy ===== *)
theory WorkflowStore
  imports RunStore Authorization
begin

text \<open>
  Workflow catalog and invocations (\<open>infrastructure/postgres/workflows.rs\<close>): replacing a graph under
  its revision, pinning every child execution of a launch, activating nodes through the ordinary Run
  path, and the reconciliation that turns completed Runs into node states and propagates them.
  The size of a serialised snapshot is that of the JSON encoder and a parameter.
\<close>

section \<open>State names\<close>

definition condition_name :: "DependencyCondition \<Rightarrow> bytes" where
  "condition_name c = (case c of OnSuccess \<Rightarrow> ''success'' | OnFailure \<Rightarrow> ''failure'' | Always \<Rightarrow> ''always'')"

definition condition :: "bytes \<Rightarrow> (StoreError, DependencyCondition) result" where
  "condition v =
     (if v = ''success'' then Ok OnSuccess else if v = ''failure'' then Ok OnFailure
      else if v = ''always'' then Ok Always else Err StoreInternal)"

definition node_state :: "bytes \<Rightarrow> (StoreError, WorkflowNodeState) result" where
  "node_state v =
     (if v = ''pending'' then Ok NodePending else if v = ''ready'' then Ok NodeReady
      else if v = ''running'' then Ok NodeRunning else if v = ''succeeded'' then Ok NodeSucceeded
      else if v = ''failed'' then Ok NodeFailed else if v = ''skipped'' then Ok NodeSkipped
      else if v = ''cancelled'' then Ok NodeCancelled else if v = ''unknown'' then Ok NodeUnknown
      else Err StoreInternal)"

definition workflow_state :: "bytes \<Rightarrow> (StoreError, WorkflowState) result" where
  "workflow_state v =
     (if v = ''pending'' then Ok WorkflowPending else if v = ''running'' then Ok WorkflowRunning
      else if v = ''succeeded'' then Ok WorkflowSucceeded else if v = ''failed'' then Ok WorkflowFailed
      else if v = ''cancelled'' then Ok WorkflowCancelled else Err StoreInternal)"

section \<open>Catalog\<close>

record WorkflowRecord =
  wrec_id :: uuid
  wrec_namespace_id :: uuid
  wrec_namespace :: NamespaceName
  wrec_revision :: int
  wrec_definition :: WorkflowDefinition
  wrec_node_ids :: "(bytes, uuid) btree"
  wrec_created_at :: timestamp
  wrec_updated_at :: timestamp

definition stored_definition :: "StoredWorkflow \<Rightarrow> WorkflowDefinition" where
  "stored_definition s =
     \<lparr> wd_name = sw_name s, wd_description = sw_description s,
       wd_nodes = map (\<lambda>n. \<lparr> wn_name = sn_name n, wn_job_id = sn_job_id n \<rparr>) (sw_nodes s), wd_edges = sw_edges s \<rparr>"

definition definition_valid :: "StoreError \<Rightarrow> WorkflowDefinition \<Rightarrow> (StoreError, unit) result" where
  "definition_valid e d = ensure (validate_workflow d = Some (Ok ())) e"

definition workflow_record :: "StoredWorkflow \<Rightarrow> (StoreError, WorkflowRecord) result" where
  "workflow_record s =
     and_then (definition_valid StoreInternal (stored_definition s)) (\<lambda>_.
     Ok \<lparr> wrec_id = sw_id s, wrec_namespace_id = sw_namespace_id s, wrec_namespace = sw_namespace s,
          wrec_revision = sw_revision s, wrec_definition = stored_definition s,
          wrec_node_ids = fold (\<lambda>n m. bt_insert (resource_str (sn_name n)) (sn_id n) m) (sw_nodes s) [],
          wrec_created_at = sw_created_at s, wrec_updated_at = sw_updated_at s \<rparr>)"

definition catalog :: "Db \<Rightarrow> uuid \<Rightarrow> (StoreError, StoredWorkflow) result" where
  "catalog db i =
     and_then (ok_or StoreNotFound (find (\<lambda>w. wf_id w = i) (db_workflows db))) (\<lambda>w.
     and_then (ok_or StoreNotFound (find (\<lambda>n. ns_id n = wf_namespace_id w) (db_namespaces db))) (\<lambda>n.
     and_then (ensure (0 \<le> wf_revision w) StoreInternal) (\<lambda>_.
     Ok \<lparr> sw_id = wf_id w, sw_namespace_id = wf_namespace_id w, sw_namespace = ns_name n, sw_name = wf_name w,
          sw_description = wf_description w, sw_revision = wf_revision w, sw_created_at = wf_created_at w,
          sw_updated_at = wf_updated_at w, sw_nodes = sort_key (\<lambda>x. resource_str (sn_name x)) (wf_nodes w),
          sw_edges = sort_key (\<lambda>e. (resource_str (we_from e), resource_str (we_to e))) (wf_edges w) \<rparr>)))"

definition catalog_record :: "Db \<Rightarrow> uuid \<Rightarrow> (StoreError, WorkflowRecord) result" where
  "catalog_record db i = and_then (catalog db i) workflow_record"

text \<open>The unique constraint on Namespace and name.\<close>

definition workflow_name_taken :: "Db \<Rightarrow> uuid option \<Rightarrow> uuid \<Rightarrow> ResourceName \<Rightarrow> bool" where
  "workflow_name_taken db self n name \<longleftrightarrow>
     (\<exists>w \<in> set (db_workflows db). wf_namespace_id w = n \<and> wf_name w = name \<and> self \<noteq> Some (wf_id w))"

fun insert_workflow_nodes :: "Db \<Rightarrow> uuid \<Rightarrow> uuid \<Rightarrow> WorkflowNode list \<Rightarrow> (StoreError, StoredNode list) result" where
  "insert_workflow_nodes db n next_id [] = Ok []"
| "insert_workflow_nodes db n next_id (node # nodes) =
     (case find (\<lambda>j. job_id j = wn_job_id node) (db_jobs db) of
        None \<Rightarrow> Err StoreNotFound
      | Some j \<Rightarrow>
          if job_namespace_id j \<noteq> n then Err StoreInvalidData
          else and_then (insert_workflow_nodes db n (next_id + 1) nodes) (\<lambda>rest.
               Ok (\<lparr> sn_id = next_id, sn_name = wn_name node, sn_job_id = wn_job_id node \<rparr> # rest)))"

definition insert_workflow_edges :: "StoredNode list \<Rightarrow> WorkflowEdge list \<Rightarrow> (StoreError, WorkflowEdge list) result" where
  "insert_workflow_edges nodes edges =
     traverse (\<lambda>e. if we_from e \<in> sn_name ` set nodes \<and> we_to e \<in> sn_name ` set nodes then Ok e
                   else Err StoreInvalidData) edges"

definition write_workflow_row :: "timestamp \<Rightarrow> uuid \<Rightarrow> (uuid \<times> int) option \<Rightarrow> WorkflowDefinition \<Rightarrow> Db \<Rightarrow> uuid transaction" where
  "write_workflow_row now n existing d db =
     (case existing of
        Some (i, revision) \<Rightarrow>
          and_then (stored_revision revision) (\<lambda>revision.
          let mine = (\<lambda>w. wf_id w = i \<and> wf_namespace_id w = n \<and> wf_revision w = revision) in
          case find mine (db_workflows db) of
            None \<Rightarrow> Err StoreStaleRevision
          | Some _ \<Rightarrow>
              if workflow_name_taken db (Some i) n (wd_name d) then Err StoreConflict
              else Ok (db\<lparr> db_workflows := update_where mine (\<lambda>w. w\<lparr> wf_name := wd_name d,
                          wf_description := wd_description d, wf_revision := wf_revision w + 1,
                          wf_updated_at := now, wf_nodes := [], wf_edges := [] \<rparr>) (db_workflows db) \<rparr>, i))
      | None \<Rightarrow>
          if workflow_name_taken db None n (wd_name d) then Err StoreConflict
          else if \<not> (\<exists>x \<in> set (db_namespaces db). ns_id x = n) then Err StoreInUse
          else let i = db_next_id db in
            Ok (db\<lparr> db_next_id := i + 1, db_workflows := db_workflows db @
                  [\<lparr> wf_id = i, wf_namespace_id = n, wf_name = wd_name d, wf_description = wd_description d,
                     wf_revision = 1, wf_created_at = now, wf_updated_at = now, wf_nodes = [], wf_edges = [] \<rparr>] \<rparr>, i))"

definition write_workflow :: "timestamp \<Rightarrow> uuid \<Rightarrow> (uuid \<times> int) option \<Rightarrow> WorkflowDefinition \<Rightarrow> Db \<Rightarrow> WorkflowRecord transaction" where
  "write_workflow now n existing d db =
     and_then (definition_valid StoreInvalidData d) (\<lambda>_.
     and_then (write_workflow_row now n existing d db) (\<lambda>(db1, i).
     and_then (insert_workflow_nodes db1 n (db_next_id db1) (wd_nodes d)) (\<lambda>nodes.
     and_then (insert_workflow_edges nodes (wd_edges d)) (\<lambda>edges.
     let db2 = db1\<lparr> db_next_id := db_next_id db1 + length nodes,
           db_workflows := update_where (\<lambda>w. wf_id w = i) (\<lambda>w. w\<lparr> wf_nodes := nodes, wf_edges := edges \<rparr>) (db_workflows db1) \<rparr> in
     and_then (catalog_record db2 i) (\<lambda>record. Ok (db2, record))))))"

definition list_workflows ::
  "VisibilityScope \<Rightarrow> uuid \<Rightarrow> nat \<Rightarrow> bytes option \<Rightarrow> Db \<Rightarrow> (StoreError, WorkflowRecord Page) result" where
  "list_workflows vis n limit after db =
     (if \<not> visible vis n then Ok empty_page
      else let rows = take (limit + 1) (sort_key (\<lambda>w. resource_str (wf_name w))
             (filter (\<lambda>w. wf_namespace_id w = n \<and> (case after of None \<Rightarrow> True | Some a \<Rightarrow> a < resource_str (wf_name w)))
               (db_workflows db))) in
        page rows limit (\<lambda>w. catalog_record db (wf_id w)) (\<lambda>r. resource_str (wd_name (wrec_definition r))))"

definition delete_workflow :: "uuid \<Rightarrow> Db \<Rightarrow> unit transaction" where
  "delete_workflow i db =
     (if \<not> (\<exists>w \<in> set (db_workflows db). wf_id w = i) then Err StoreNotFound
      else if \<exists>r \<in> set (db_workflow_runs db). wr_workflow_id r = i then Err StoreInUse
      else Ok (db\<lparr> db_workflows := filter (\<lambda>w. wf_id w \<noteq> i) (db_workflows db) \<rparr>, ()))"

section \<open>Invocation records\<close>

record WorkflowChildRun =
  child_target_id :: uuid
  child_run_id :: uuid

record WorkflowNodeRunRecord =
  nrec_id :: uuid
  nrec_workflow_node_id :: uuid
  nrec_name :: ResourceName
  nrec_job_id :: uuid
  nrec_state :: WorkflowNodeState
  nrec_runs :: "WorkflowChildRun list"
  nrec_started_at :: "timestamp option"
  nrec_finished_at :: "timestamp option"

record WorkflowRunRecord =
  wrr_id :: uuid
  wrr_request_id :: uuid
  wrr_workflow :: WorkflowRecord
  wrr_target :: TargetSelection
  wrr_inputs :: json
  wrr_state :: WorkflowState
  wrr_cancellation_requested :: bool
  wrr_nodes :: "WorkflowNodeRunRecord list"
  wrr_created_at :: timestamp
  wrr_started_at :: "timestamp option"
  wrr_finished_at :: "timestamp option"

definition node_children :: "Db \<Rightarrow> uuid \<Rightarrow> WorkflowChildRun list" where
  "node_children db nid =
     map (\<lambda>e. \<lparr> child_target_id = ne_target_id e, child_run_id = the (ne_run_id e) \<rparr>)
       (sort_key ne_target_id (filter (\<lambda>e. ne_node_run_id e = nid \<and> ne_run_id e \<noteq> None) (db_node_executions db)))"

definition node_record :: "Db \<Rightarrow> NodeRunRow \<Rightarrow> WorkflowNodeRunRecord" where
  "node_record db n = \<lparr> nrec_id = nr_id n, nrec_workflow_node_id = nr_workflow_node_id n, nrec_name = nr_name n,
     nrec_job_id = nr_job_id n, nrec_state = nr_state n, nrec_runs = node_children db (nr_id n),
     nrec_started_at = nr_started_at n, nrec_finished_at = nr_finished_at n \<rparr>"

definition invocation :: "Db \<Rightarrow> VisibilityScope \<Rightarrow> uuid \<Rightarrow> (StoreError, WorkflowRunRecord) result" where
  "invocation db vis i =
     and_then (ok_or StoreNotFound (find (\<lambda>w. wr_id w = i) (db_workflow_runs db))) (\<lambda>w.
     and_then (ensure (visible vis (sw_namespace_id (wr_definition w))) StoreNotFound) (\<lambda>_.
     and_then (workflow_record (wr_definition w)) (\<lambda>record.
     and_then (target_selection (wr_target_id w) (wr_target_set_id w)) (\<lambda>target.
     Ok \<lparr> wrr_id = wr_id w, wrr_request_id = wr_request_id w, wrr_workflow = record, wrr_target = target,
          wrr_inputs = wr_inputs w, wrr_state = wr_state w, wrr_cancellation_requested = wr_cancellation_requested w,
          wrr_nodes = map (node_record db) (sort_key (\<lambda>n. resource_str (nr_name n))
            (filter (\<lambda>n. nr_workflow_run_id n = i) (db_node_runs db))),
          wrr_created_at = wr_created_at w, wrr_started_at = wr_started_at w, wrr_finished_at = wr_finished_at w \<rparr>))))"

definition workflow_for_request ::
  "(json \<Rightarrow> json \<Rightarrow> bool) \<Rightarrow> uuid \<Rightarrow> json \<Rightarrow> Db \<Rightarrow> (StoreError, WorkflowRunRecord option) result" where
  "workflow_for_request jsonb_eq request_id inputs db =
     (case find (\<lambda>w. wr_request_id w = request_id) (db_workflow_runs db) of
        None \<Rightarrow> Ok None
      | Some w \<Rightarrow> and_then (invocation db VisibleAll (wr_id w)) (\<lambda>record.
          if json_inputs_equal jsonb_eq (wrr_inputs record) inputs then Ok (Some record)
          else Err StoreIdempotencyConflict))"

definition workflow_targets :: "Db \<Rightarrow> uuid \<Rightarrow> uuid list" where
  "workflow_targets db i =
     bset_of (map ne_target_id (filter (\<lambda>e. \<exists>n \<in> set (db_node_runs db). nr_id n = ne_node_run_id e \<and> nr_workflow_run_id n = i)
       (db_node_executions db)))"

definition list_workflow_runs ::
  "(uuid \<Rightarrow> bytes) \<Rightarrow> VisibilityScope \<Rightarrow> uuid \<Rightarrow> nat \<Rightarrow> uuid option \<Rightarrow> Db \<Rightarrow> (StoreError, WorkflowRunRecord Page) result" where
  "list_workflow_runs uuid_str vis i limit before db =
     (let rows = take (limit + 1) (rev (sort_key wr_id (filter (\<lambda>w. wr_workflow_id w = i \<and>
            (case before of None \<Rightarrow> True | Some b \<Rightarrow> wr_id w < b) \<and> visible vis (wr_namespace_id w)) (db_workflow_runs db)))) in
      page rows limit (\<lambda>w. invocation db vis (wr_id w)) (\<lambda>r. uuid_str (wrr_id r)))"

end
