(* ===== verification/Catalog.thy ===== *)
theory Catalog
  imports WorkflowStore
begin

text \<open>
  The catalog of the store (\<open>infrastructure/postgres.rs\<close>): Namespaces, Queues, Jobs, Targets, Target
  Sets and Schedules, with the constraints and foreign keys of \<open>db/sql/01_crono.sql\<close> that decide the
  outcome of a statement.  A row holds the entity a read would decode from it; text is compared by
  its bytes.
\<close>

section \<open>Storable values\<close>

text \<open>The same holds for the strings of \<open>jsonb\<close>.\<close>

fun json_storable :: "json \<Rightarrow> bool" where
  "json_storable (JString t) = text_storable t"
| "json_storable (JArray vs) = list_all json_storable vs"
| "json_storable (JObject es) = list_all (\<lambda>(k, v). text_storable k \<and> json_storable v) es"
| "json_storable _ = True"

definition canonical :: "bytes \<Rightarrow> bool" where
  "canonical name \<longleftrightarrow> validate_resource_name name = Ok ()"

section \<open>Records\<close>

record JobDefinition =
  jd_executor :: ExecutorKind
  jd_queue_id :: uuid
  jd_executable :: "bytes option"
  jd_shell_command :: "bytes option"
  jd_arguments :: "bytes list"
  jd_inputs :: json
  jd_idempotent :: bool
  jd_dry_run :: bool
  jd_max_attempts :: int
  jd_retry_initial_seconds :: int
  jd_retry_max_seconds :: int
  jd_retry_multiplier :: f64
  jd_retry_jitter :: f64

record TargetDefinition =
  td_arguments :: "bytes list"
  td_inputs :: json

record NewSchedule =
  nsch_namespace_id :: uuid
  nsch_name :: ResourceName
  nsch_job_id :: uuid
  nsch_target :: TargetSelection
  nsch_inputs :: json
  nsch_cron_expression :: "bytes option"
  nsch_execute_at :: "timestamp option"
  nsch_timezone :: bytes
  nsch_next_run_at :: timestamp
  nsch_misfire_policy :: MisfirePolicy
  nsch_misfire_grace_seconds :: "int option"
  nsch_catchup_policy :: CatchupPolicy
  nsch_max_catchup_runs :: nat
  nsch_max_catchup_age_seconds :: int

record JobRecord =
  jrec_namespace :: NamespaceName
  jrec_queue_name :: QueueName
  jrec_job :: Job

record TargetRecord =
  trec_namespace :: NamespaceName
  trec_target :: Target

record TargetSetRecord =
  tsrec_namespace :: NamespaceName
  tsrec_target_set :: TargetSet
  tsrec_targets :: "Target list"

record ScheduleRecord =
  srec_schedule :: Schedule
  srec_namespace :: NamespaceName
  srec_job_name :: ResourceName
  srec_target_name :: ResourceName

section \<open>Namespaces and Queues\<close>

text \<open>The rows of a name-ordered listing: one more than the page holds.\<close>

definition named_rows :: "('r \<Rightarrow> bytes) \<Rightarrow> ('r \<Rightarrow> bool) \<Rightarrow> nat \<Rightarrow> bytes option \<Rightarrow> 'r list \<Rightarrow> 'r list" where
  "named_rows name keep limit after rows =
     take (limit + 1) (sort_key name
       (filter (\<lambda>r. keep r \<and> (case after of None \<Rightarrow> True | Some a \<Rightarrow> a < name r)) rows))"

definition find_namespace :: "Db \<Rightarrow> uuid \<Rightarrow> Namespace option" where
  "find_namespace db i = find (\<lambda>n. ns_id n = i) (db_namespaces db)"

definition find_queue :: "Db \<Rightarrow> uuid \<Rightarrow> Queue option" where
  "find_queue db i = find (\<lambda>q. queue_id q = i) (db_queues db)"

definition create_namespace :: "timestamp \<Rightarrow> NamespaceName \<Rightarrow> Db \<Rightarrow> Namespace transaction" where
  "create_namespace now name db =
     (if \<not> canonical (namespace_str name) then Err StoreInternal
      else if \<exists>n \<in> set (db_namespaces db). ns_name n = name then Err StoreConflict
      else let n = \<lparr> ns_id = db_next_id db, ns_name = name, ns_created_at = now \<rparr> in
        Ok (db\<lparr> db_next_id := db_next_id db + 1, db_namespaces := db_namespaces db @ [n] \<rparr>, n))"

definition list_namespaces :: "VisibilityScope \<Rightarrow> nat \<Rightarrow> bytes option \<Rightarrow> Db \<Rightarrow> (StoreError, Namespace Page) result" where
  "list_namespaces vis limit after db =
     (if vis = VisibleNone then Ok empty_page
      else page (named_rows (\<lambda>n. namespace_str (ns_name n)) (\<lambda>n. visible vis (ns_id n)) limit after (db_namespaces db))
             limit Ok (\<lambda>n. namespace_str (ns_name n)))"

definition get_namespace :: "Db \<Rightarrow> uuid \<Rightarrow> (StoreError, Namespace) result" where
  "get_namespace db i = ok_or StoreNotFound (find_namespace db i)"

definition queue_checks :: "QueueName \<Rightarrow> bytes option \<Rightarrow> bool \<Rightarrow> bool \<Rightarrow> bool" where
  "queue_checks name description enabled system \<longleftrightarrow>
     canonical (queue_str name) \<and>
     (case description of None \<Rightarrow> True | Some d \<Rightarrow> char_count d \<le> 500) \<and>
     (system \<longrightarrow> enabled) \<and> (queue_str name = ''default'') = system"

definition create_queue :: "timestamp \<Rightarrow> QueueName \<Rightarrow> bytes option \<Rightarrow> Db \<Rightarrow> Queue transaction" where
  "create_queue now name description db =
     (if \<not> opt_storable description then Err StoreInvalidData
      else if \<not> queue_checks name description True False then Err StoreInternal
      else if \<exists>q \<in> set (db_queues db). queue_name q = name then Err StoreConflict
      else let q = \<lparr> queue_id = db_next_id db, queue_name = name, queue_description = description,
             queue_enabled = True, queue_system = False, queue_created_at = now, queue_updated_at = now \<rparr> in
        Ok (db\<lparr> db_next_id := db_next_id db + 1, db_queues := db_queues db @ [q] \<rparr>, q))"

definition list_queues :: "nat \<Rightarrow> bytes option \<Rightarrow> Db \<Rightarrow> (StoreError, Queue Page) result" where
  "list_queues limit after db =
     page (named_rows (\<lambda>q. queue_str (queue_name q)) (\<lambda>q. True) limit after (db_queues db))
       limit Ok (\<lambda>q. queue_str (queue_name q))"

definition get_queue :: "Db \<Rightarrow> uuid \<Rightarrow> (StoreError, Queue) result" where
  "get_queue db i = ok_or StoreNotFound (find_queue db i)"

definition get_queue_by_name :: "Db \<Rightarrow> QueueName \<Rightarrow> (StoreError, Queue) result" where
  "get_queue_by_name db name = ok_or StoreNotFound (find (\<lambda>q. queue_name q = name) (db_queues db))"

definition update_queue :: "timestamp \<Rightarrow> uuid \<Rightarrow> QueueName \<Rightarrow> bytes option \<Rightarrow> bool \<Rightarrow> Db \<Rightarrow> Queue transaction" where
  "update_queue now i name description enabled db =
     (if \<not> opt_storable description then Err StoreInvalidData
      else and_then (get_queue db i) (\<lambda>q.
        if \<not> queue_checks name description enabled (queue_system q) then Err StoreInternal
        else if \<exists>x \<in> set (db_queues db). queue_name x = name \<and> queue_id x \<noteq> i then Err StoreConflict
        else let f = (\<lambda>q. q\<lparr> queue_name := name, queue_description := description, queue_enabled := enabled,
               queue_updated_at := now \<rparr>) in
          Ok (db\<lparr> db_queues := update_where (\<lambda>q. queue_id q = i) f (db_queues db) \<rparr>, f q)))"

text \<open>The references that restrict a deletion.\<close>

definition namespace_used :: "Db \<Rightarrow> uuid \<Rightarrow> bool" where
  "namespace_used db i \<longleftrightarrow>
     (\<exists>j \<in> set (db_jobs db). job_namespace_id j = i) \<or> (\<exists>t \<in> set (db_targets db). target_namespace_id t = i) \<or>
     (\<exists>s \<in> set (db_target_sets db). set_namespace_id s = i) \<or>
     (\<exists>s \<in> set (db_schedules db). sched_namespace_id (srow_schedule s) = i) \<or>
     (\<exists>r \<in> set (db_requests db). rr_namespace_id r = i) \<or> (\<exists>w \<in> set (db_workflows db). wf_namespace_id w = i) \<or>
     (\<exists>w \<in> set (db_workflow_runs db). wr_namespace_id w = i)"

definition queue_used :: "Db \<Rightarrow> uuid \<Rightarrow> bool" where
  "queue_used db i \<longleftrightarrow>
     (\<exists>j \<in> set (db_jobs db). job_queue_id j = i) \<or> (\<exists>r \<in> set (db_runs db). run_queue_id r = i) \<or>
     (\<exists>w \<in> set (db_workers db). wk_queue_id w = i) \<or> (\<exists>e \<in> set (db_node_executions db). ne_queue_id e = i)"

definition target_used :: "Db \<Rightarrow> uuid \<Rightarrow> bool" where
  "target_used db i \<longleftrightarrow>
     (\<exists>s \<in> set (db_target_sets db). i \<in> set (set_members s)) \<or>
     (\<exists>s \<in> set (db_schedules db). sched_target (srow_schedule s) = SelectTarget i) \<or>
     (\<exists>r \<in> set (db_requests db). rr_target_id r = Some i) \<or> (\<exists>r \<in> set (db_runs db). run_target_id r = i) \<or>
     (\<exists>w \<in> set (db_workflow_runs db). wr_target_id w = Some i) \<or>
     (\<exists>e \<in> set (db_node_executions db). ne_target_id e = i)"

definition delete_namespace :: "uuid \<Rightarrow> Db \<Rightarrow> unit transaction" where
  "delete_namespace i db =
     (if find_namespace db i = None then Err StoreNotFound
      else if namespace_used db i then Err StoreInUse
      else Ok (db\<lparr> db_namespaces := filter (\<lambda>n. ns_id n \<noteq> i) (db_namespaces db) \<rparr>, ()))"

definition delete_queue :: "uuid \<Rightarrow> Db \<Rightarrow> unit transaction" where
  "delete_queue i db =
     (if find_queue db i = None then Err StoreNotFound
      else if queue_used db i then Err StoreInUse
      else Ok (db\<lparr> db_queues := filter (\<lambda>q. queue_id q \<noteq> i) (db_queues db) \<rparr>, ()))"

section \<open>Jobs\<close>

text \<open>PostgreSQL orders NaN above every other double.\<close>

fun f64_at_least :: "rat \<Rightarrow> f64 \<Rightarrow> bool" where
  "f64_at_least b (F64 x) = (b \<le> x)"
| "f64_at_least b F64_nan = True"
| "f64_at_least b (F64_inf neg) = (\<not> neg)"

fun f64_at_most :: "rat \<Rightarrow> f64 \<Rightarrow> bool" where
  "f64_at_most b (F64 x) = (x \<le> b)"
| "f64_at_most b F64_nan = False"
| "f64_at_most b (F64_inf neg) = neg"

definition absolute_path :: "bytes option \<Rightarrow> bool" where
  "absolute_path p = (case p of Some (c # cs) \<Rightarrow> c = CHR ''/'' | _ \<Rightarrow> False)"

definition job_checks :: "JobDefinition \<Rightarrow> bool" where
  "job_checks d \<longleftrightarrow>
     (case jd_executor d of
        Noop \<Rightarrow> jd_executable d = None \<and> jd_shell_command d = None
      | Process \<Rightarrow> absolute_path (jd_executable d) \<and> jd_shell_command d = None
      | Shell \<Rightarrow> absolute_path (jd_executable d) \<and>
          (case jd_shell_command d of None \<Rightarrow> False | Some s \<Rightarrow> 1 \<le> length s \<and> length s \<le> 65536)) \<and>
     is_object (jd_inputs d) \<and>
     1 \<le> jd_max_attempts d \<and> jd_max_attempts d \<le> 100 \<and>
     1 \<le> jd_retry_initial_seconds d \<and> jd_retry_initial_seconds d \<le> 86400 \<and>
     jd_retry_initial_seconds d \<le> jd_retry_max_seconds d \<and> jd_retry_max_seconds d \<le> 86400 \<and>
     f64_at_least 1 (jd_retry_multiplier d) \<and> f64_at_least 0 (jd_retry_jitter d) \<and> f64_at_most 1 (jd_retry_jitter d)"

definition job_storable :: "JobDefinition \<Rightarrow> bool" where
  "job_storable d \<longleftrightarrow> opt_storable (jd_executable d) \<and> opt_storable (jd_shell_command d) \<and>
     list_all text_storable (jd_arguments d) \<and> json_storable (jd_inputs d)"

definition job_of :: "uuid \<Rightarrow> uuid \<Rightarrow> ResourceName \<Rightarrow> JobDefinition \<Rightarrow> timestamp \<Rightarrow> timestamp \<Rightarrow> Job" where
  "job_of i n name d created updated =
     \<lparr> job_id = i, job_namespace_id = n, job_name = name, job_executor = jd_executor d, job_queue_id = jd_queue_id d,
       job_executable = jd_executable d, job_shell_command = jd_shell_command d, job_arguments = jd_arguments d,
       job_inputs = jd_inputs d, job_idempotent = jd_idempotent d, job_dry_run = jd_dry_run d,
       job_max_attempts = jd_max_attempts d, job_retry_initial_seconds = jd_retry_initial_seconds d,
       job_retry_max_seconds = jd_retry_max_seconds d, job_retry_multiplier = jd_retry_multiplier d,
       job_retry_jitter = jd_retry_jitter d, job_created_at = created, job_updated_at = updated \<rparr>"

definition job_seconds_fit :: "JobDefinition \<Rightarrow> bool" where
  "job_seconds_fit d \<longleftrightarrow> jd_retry_initial_seconds d \<le> i32_max \<and> jd_retry_max_seconds d \<le> i32_max"

definition job_name_taken :: "Db \<Rightarrow> uuid option \<Rightarrow> uuid \<Rightarrow> ResourceName \<Rightarrow> bool" where
  "job_name_taken db self n name \<longleftrightarrow>
     (\<exists>j \<in> set (db_jobs db). job_namespace_id j = n \<and> job_name j = name \<and> self \<noteq> Some (job_id j))"

text \<open>The joins of a Job with its Namespace and its Queue.\<close>

definition job_record :: "Db \<Rightarrow> Job \<Rightarrow> (StoreError, JobRecord) result" where
  "job_record db j =
     and_then (ok_or StoreNotFound (find_namespace db (job_namespace_id j))) (\<lambda>n.
     and_then (ok_or StoreNotFound (find_queue db (job_queue_id j))) (\<lambda>q.
     Ok \<lparr> jrec_namespace = ns_name n, jrec_queue_name = queue_name q, jrec_job = j \<rparr>))"

definition create_job :: "timestamp \<Rightarrow> uuid \<Rightarrow> ResourceName \<Rightarrow> JobDefinition \<Rightarrow> Db \<Rightarrow> JobRecord transaction" where
  "create_job now n name d db =
     (if \<not> job_seconds_fit d then Err StoreInternal
      else if \<not> job_storable d then Err StoreInvalidData
      else case (find_namespace db n, find_queue db (jd_queue_id d)) of
        (Some ns, Some q) \<Rightarrow>
          if \<not> queue_enabled q then Err StoreNotFound
          else if \<not> (canonical (resource_str name) \<and> job_checks d) then Err StoreInternal
          else if job_name_taken db None n name then Err StoreConflict
          else let j = job_of (db_next_id db) n name d now now in
            Ok (db\<lparr> db_next_id := db_next_id db + 1, db_jobs := db_jobs db @ [j] \<rparr>,
                \<lparr> jrec_namespace = ns_name ns, jrec_queue_name = queue_name q, jrec_job = j \<rparr>)
      | _ \<Rightarrow> Err StoreNotFound)"

definition list_jobs :: "uuid \<Rightarrow> VisibilityScope \<Rightarrow> nat \<Rightarrow> bytes option \<Rightarrow> Db \<Rightarrow> (StoreError, JobRecord Page) result" where
  "list_jobs n vis limit after db =
     (if vis = VisibleNone then Ok empty_page
      else page (named_rows (\<lambda>j. resource_str (job_name j))
                  (\<lambda>j. job_namespace_id j = n \<and> visible vis n \<and> is_ok (job_record db j)) limit after (db_jobs db))
             limit (job_record db) (\<lambda>r. resource_str (job_name (jrec_job r))))"

definition get_job :: "Db \<Rightarrow> uuid \<Rightarrow> (StoreError, JobRecord) result" where
  "get_job db i = and_then (ok_or StoreNotFound (find (\<lambda>j. job_id j = i) (db_jobs db))) (job_record db)"

definition update_job :: "timestamp \<Rightarrow> uuid \<Rightarrow> ResourceName \<Rightarrow> JobDefinition \<Rightarrow> Db \<Rightarrow> JobRecord transaction" where
  "update_job now i name d db =
     (if \<not> job_seconds_fit d then Err StoreInternal
      else if \<not> job_storable d then Err StoreInvalidData
      else case (find (\<lambda>j. job_id j = i) (db_jobs db), find_queue db (jd_queue_id d)) of
        (Some j, Some q) \<Rightarrow>
          if \<not> (queue_enabled q \<or> queue_id q = job_queue_id j) then Err StoreNotFound
          else if \<not> (canonical (resource_str name) \<and> job_checks d) then Err StoreInternal
          else if job_name_taken db (Some i) (job_namespace_id j) name then Err StoreConflict
          else let j' = job_of i (job_namespace_id j) name d (job_created_at j) now in
            and_then (job_record db j') (\<lambda>record.
            Ok (db\<lparr> db_jobs := update_where (\<lambda>j. job_id j = i) (\<lambda>_. j') (db_jobs db) \<rparr>, record))
      | _ \<Rightarrow> Err StoreNotFound)"

section \<open>Targets and Target Sets\<close>

definition target_storable :: "TargetDefinition \<Rightarrow> bool" where
  "target_storable d \<longleftrightarrow> list_all text_storable (td_arguments d) \<and> json_storable (td_inputs d)"

definition target_name_taken :: "Db \<Rightarrow> uuid option \<Rightarrow> uuid \<Rightarrow> ResourceName \<Rightarrow> bool" where
  "target_name_taken db self n name \<longleftrightarrow>
     (\<exists>t \<in> set (db_targets db). target_namespace_id t = n \<and> target_name t = name \<and> self \<noteq> Some (target_id t))"

definition target_record :: "Db \<Rightarrow> Target \<Rightarrow> (StoreError, TargetRecord) result" where
  "target_record db t =
     and_then (ok_or StoreNotFound (find_namespace db (target_namespace_id t))) (\<lambda>n.
     Ok \<lparr> trec_namespace = ns_name n, trec_target = t \<rparr>)"

definition create_target :: "timestamp \<Rightarrow> uuid \<Rightarrow> ResourceName \<Rightarrow> TargetDefinition \<Rightarrow> Db \<Rightarrow> TargetRecord transaction" where
  "create_target now n name d db =
     (if \<not> target_storable d then Err StoreInvalidData
      else and_then (ok_or StoreNotFound (find_namespace db n)) (\<lambda>ns.
        if \<not> (canonical (resource_str name) \<and> is_object (td_inputs d)) then Err StoreInternal
        else if target_name_taken db None n name then Err StoreConflict
        else let t = \<lparr> target_id = db_next_id db, target_namespace_id = n, target_name = name,
               target_arguments = td_arguments d, target_inputs = td_inputs d, target_created_at = now,
               target_updated_at = now \<rparr> in
          Ok (db\<lparr> db_next_id := db_next_id db + 1, db_targets := db_targets db @ [t] \<rparr>,
              \<lparr> trec_namespace = ns_name ns, trec_target = t \<rparr>)))"

definition list_targets :: "uuid \<Rightarrow> VisibilityScope \<Rightarrow> nat \<Rightarrow> bytes option \<Rightarrow> Db \<Rightarrow> (StoreError, TargetRecord Page) result" where
  "list_targets n vis limit after db =
     (if vis = VisibleNone then Ok empty_page
      else page (named_rows (\<lambda>t. resource_str (target_name t))
                  (\<lambda>t. target_namespace_id t = n \<and> visible vis n \<and> is_ok (target_record db t)) limit after (db_targets db))
             limit (target_record db) (\<lambda>r. resource_str (target_name (trec_target r))))"

definition get_target :: "Db \<Rightarrow> uuid \<Rightarrow> (StoreError, TargetRecord) result" where
  "get_target db i = and_then (ok_or StoreNotFound (find (\<lambda>t. target_id t = i) (db_targets db))) (target_record db)"

text \<open>The trigger \<open>default_target_name\<close> keeps the name of the starter Target.\<close>

definition protected_target :: "Db \<Rightarrow> Target \<Rightarrow> bool" where
  "protected_target db t \<longleftrightarrow>
     resource_str (target_name t) = ''default'' \<and>
     (\<exists>n \<in> set (db_namespaces db). ns_id n = target_namespace_id t \<and> namespace_str (ns_name n) = ''default'')"

definition update_target :: "timestamp \<Rightarrow> uuid \<Rightarrow> ResourceName \<Rightarrow> TargetDefinition \<Rightarrow> Db \<Rightarrow> TargetRecord transaction" where
  "update_target now i name d db =
     (if \<not> target_storable d then Err StoreInvalidData
      else and_then (ok_or StoreNotFound (find (\<lambda>t. target_id t = i) (db_targets db))) (\<lambda>t.
        if protected_target db t \<and> name \<noteq> target_name t then Err StoreInternal
        else if \<not> (canonical (resource_str name) \<and> is_object (td_inputs d)) then Err StoreInternal
        else if target_name_taken db (Some i) (target_namespace_id t) name then Err StoreConflict
        else let t' = t\<lparr> target_name := name, target_arguments := td_arguments d, target_inputs := td_inputs d,
               target_updated_at := now \<rparr> in
          and_then (target_record db t') (\<lambda>record.
          Ok (db\<lparr> db_targets := update_where (\<lambda>t. target_id t = i) (\<lambda>_. t') (db_targets db) \<rparr>, record))))"

definition delete_target :: "uuid \<Rightarrow> Db \<Rightarrow> unit transaction" where
  "delete_target i db =
     (if find (\<lambda>t. target_id t = i) (db_targets db) = None then Err StoreNotFound
      else if target_used db i then Err StoreInUse
      else Ok (db\<lparr> db_targets := filter (\<lambda>t. target_id t \<noteq> i) (db_targets db) \<rparr>, ()))"

definition target_rows_for_ids :: "Db \<Rightarrow> uuid \<Rightarrow> uuid list \<Rightarrow> Target list" where
  "target_rows_for_ids db n ids =
     sort_key (\<lambda>t. resource_str (target_name t))
       (filter (\<lambda>t. target_namespace_id t = n \<and> target_id t \<in> set ids) (db_targets db))"

fun add_targets :: "TargetSet \<Rightarrow> Target list \<Rightarrow> (StoreError, TargetSet) result" where
  "add_targets s [] = Ok s"
| "add_targets s (t # ts) =
     (case add_target s t of (Inl _, s') \<Rightarrow> Err StoreInternal | (Inr _, s') \<Rightarrow> add_targets s' ts)"

definition target_set_from_rows :: "Db \<Rightarrow> TargetSet \<Rightarrow> Target list \<Rightarrow> (StoreError, TargetSetRecord) result" where
  "target_set_from_rows db row targets =
     and_then (ok_or StoreNotFound (find_namespace db (set_namespace_id row))) (\<lambda>n.
     and_then (add_targets (TargetSet_new (set_id row) (set_namespace_id row) (set_name row) (set_inputs row)
       (set_created_at row) (set_updated_at row)) targets) (\<lambda>s.
     Ok \<lparr> tsrec_namespace = ns_name n, tsrec_target_set = s, tsrec_targets = targets \<rparr>))"

definition load_target_set_record :: "Db \<Rightarrow> TargetSet \<Rightarrow> (StoreError, TargetSetRecord) result" where
  "load_target_set_record db row =
     target_set_from_rows db row
       (sort_key (\<lambda>t. resource_str (target_name t)) (filter (\<lambda>t. target_id t \<in> set (set_members row)) (db_targets db)))"

definition set_name_taken :: "Db \<Rightarrow> uuid option \<Rightarrow> uuid \<Rightarrow> ResourceName \<Rightarrow> bool" where
  "set_name_taken db self n name \<longleftrightarrow>
     (\<exists>s \<in> set (db_target_sets db). set_namespace_id s = n \<and> set_name s = name \<and> self \<noteq> Some (set_id s))"

text \<open>
  Members are inserted as the request lists them: a duplicate violates the primary key, but the
  row count was compared with the number of distinct Targets before.
\<close>

definition create_target_set :: "timestamp \<Rightarrow> uuid \<Rightarrow> ResourceName \<Rightarrow> uuid list \<Rightarrow> json \<Rightarrow> Db \<Rightarrow> TargetSetRecord transaction" where
  "create_target_set now n name ids inputs db =
     (if \<not> json_storable inputs then Err StoreInvalidData
      else and_then (ok_or StoreNotFound (find_namespace db n)) (\<lambda>ns.
        if \<not> (canonical (resource_str name) \<and> is_object inputs) then Err StoreInternal
        else if set_name_taken db None n name then Err StoreConflict
        else let targets = target_rows_for_ids db n ids;
                 row = TargetSet_new (db_next_id db) n name inputs now now in
          if length targets \<noteq> length ids then Err StoreNotFound
          else and_then (target_set_from_rows db row targets) (\<lambda>record.
          Ok (db\<lparr> db_next_id := db_next_id db + 1,
                db_target_sets := db_target_sets db @ [row\<lparr> set_members := bset_of ids \<rparr>] \<rparr>, record))))"

definition list_target_sets ::
  "uuid \<Rightarrow> VisibilityScope \<Rightarrow> nat \<Rightarrow> bytes option \<Rightarrow> Db \<Rightarrow> (StoreError, TargetSetRecord Page) result" where
  "list_target_sets n vis limit after db =
     (if vis = VisibleNone then Ok empty_page
      else page (named_rows (\<lambda>s. resource_str (set_name s))
                  (\<lambda>s. set_namespace_id s = n \<and> visible vis n \<and> find_namespace db n \<noteq> None) limit after (db_target_sets db))
             limit (load_target_set_record db) (\<lambda>r. resource_str (set_name (tsrec_target_set r))))"

definition get_target_set :: "Db \<Rightarrow> uuid \<Rightarrow> (StoreError, TargetSetRecord) result" where
  "get_target_set db i =
     and_then (ok_or StoreNotFound (find (\<lambda>s. set_id s = i) (db_target_sets db))) (load_target_set_record db)"

definition update_target_set :: "timestamp \<Rightarrow> uuid \<Rightarrow> ResourceName \<Rightarrow> uuid list \<Rightarrow> json \<Rightarrow> Db \<Rightarrow> TargetSetRecord transaction" where
  "update_target_set now i name ids inputs db =
     (if \<not> json_storable inputs then Err StoreInvalidData
      else and_then (ok_or StoreNotFound (find (\<lambda>s. set_id s = i) (db_target_sets db))) (\<lambda>s.
        if \<not> (canonical (resource_str name) \<and> is_object inputs) then Err StoreInternal
        else if set_name_taken db (Some i) (set_namespace_id s) name then Err StoreConflict
        else let targets = target_rows_for_ids db (set_namespace_id s) ids;
                 row = s\<lparr> set_name := name, set_inputs := inputs, set_updated_at := now, set_members := bset_of ids \<rparr> in
          if length targets \<noteq> length ids then Err StoreNotFound
          else and_then (target_set_from_rows db row targets) (\<lambda>record.
          Ok (db\<lparr> db_target_sets := update_where (\<lambda>s. set_id s = i) (\<lambda>_. row) (db_target_sets db) \<rparr>, record))))"

section \<open>Schedules\<close>

definition schedule_checks :: "NewSchedule \<Rightarrow> bool" where
  "schedule_checks s \<longleftrightarrow>
     canonical (resource_str (nsch_name s)) \<and> is_object (nsch_inputs s) \<and>
     (nsch_cron_expression s = None) = (nsch_execute_at s \<noteq> None) \<and>
     (case nsch_misfire_grace_seconds s of
        None \<Rightarrow> nsch_misfire_policy s \<noteq> GracePeriod
      | Some g \<Rightarrow> nsch_misfire_policy s = GracePeriod \<and> 0 \<le> g \<and> g \<le> i32_max) \<and>
     1 \<le> nsch_max_catchup_runs s \<and> nsch_max_catchup_runs s \<le> 1000 \<and>
     60 \<le> nsch_max_catchup_age_seconds s \<and> nsch_max_catchup_age_seconds s \<le> 31536000"

definition schedule_name_taken :: "Db \<Rightarrow> uuid \<Rightarrow> ResourceName \<Rightarrow> bool" where
  "schedule_name_taken db n name \<longleftrightarrow>
     (\<exists>s \<in> set (db_schedules db). sched_namespace_id (srow_schedule s) = n \<and> sched_name (srow_schedule s) = name)"

definition selection_name :: "Db \<Rightarrow> TargetSelection \<Rightarrow> ResourceName option" where
  "selection_name db t =
     (case t of
        SelectTarget i \<Rightarrow> map_option target_name (find (\<lambda>x. target_id x = i) (db_targets db))
      | SelectTargetSet i \<Rightarrow> map_option set_name (find (\<lambda>x. set_id x = i) (db_target_sets db)))"

definition schedule_record :: "Db \<Rightarrow> Schedule \<Rightarrow> (StoreError, ScheduleRecord) result" where
  "schedule_record db s =
     and_then (ok_or StoreNotFound (find_namespace db (sched_namespace_id s))) (\<lambda>n.
     and_then (ok_or StoreNotFound (find (\<lambda>j. job_id j = sched_job_id s) (db_jobs db))) (\<lambda>j.
     Ok \<lparr> srec_schedule = s, srec_namespace = ns_name n, srec_job_name = job_name j,
          srec_target_name = (case selection_name db (sched_target s) of Some t \<Rightarrow> t | None \<Rightarrow> ResourceName ''unknown'') \<rparr>))"

definition schedule_timing :: "NewSchedule \<Rightarrow> ScheduleTiming" where
  "schedule_timing s =
     (case nsch_cron_expression s of
        Some e \<Rightarrow> Cron e (nsch_timezone s)
      | None \<Rightarrow> Once (case nsch_execute_at s of Some t \<Rightarrow> t | None \<Rightarrow> nsch_next_run_at s))"

definition new_schedule :: "uuid \<Rightarrow> timestamp \<Rightarrow> NewSchedule \<Rightarrow> Schedule" where
  "new_schedule i now s =
     \<lparr> sched_id = i, sched_namespace_id = nsch_namespace_id s, sched_name = nsch_name s, sched_job_id = nsch_job_id s,
       sched_target = nsch_target s, sched_inputs = nsch_inputs s, sched_timing = schedule_timing s, sched_enabled = True,
       sched_next_run_at = Some (nsch_next_run_at s), sched_last_run_at = None,
       sched_misfire_policy = nsch_misfire_policy s, sched_misfire_grace_seconds = nsch_misfire_grace_seconds s,
       sched_catchup_policy = nsch_catchup_policy s, sched_max_catchup_runs = nsch_max_catchup_runs s,
       sched_max_catchup_age_seconds = nsch_max_catchup_age_seconds s, sched_revision = 1, sched_created_at = now,
       sched_updated_at = now \<rparr>"

definition create_schedule :: "timestamp \<Rightarrow> NewSchedule \<Rightarrow> Db \<Rightarrow> ScheduleRecord transaction" where
  "create_schedule now s db =
     (if \<not> (json_storable (nsch_inputs s) \<and> opt_storable (nsch_cron_expression s) \<and> text_storable (nsch_timezone s))
      then Err StoreInvalidData
      else if \<not> schedule_checks s then Err StoreInternal
      else if schedule_name_taken db (nsch_namespace_id s) (nsch_name s) then Err StoreConflict
      else let row = new_schedule (db_next_id db) now s in
        if selection_name db (nsch_target s) = None then Err StoreInUse
        else and_then (map_err (\<lambda>_. StoreInUse) (schedule_record db row)) (\<lambda>record.
        Ok (db\<lparr> db_next_id := db_next_id db + 1, db_schedules := db_schedules db @
              [\<lparr> srow_schedule = row, srow_claim_owner = None, srow_claim_expires_at = None \<rparr>] \<rparr>, record)))"

definition list_schedules ::
  "uuid \<Rightarrow> VisibilityScope \<Rightarrow> nat \<Rightarrow> bytes option \<Rightarrow> Db \<Rightarrow> (StoreError, ScheduleRecord Page) result" where
  "list_schedules n vis limit after db =
     (if vis = VisibleNone then Ok empty_page
      else page (named_rows (\<lambda>s. resource_str (sched_name s))
                  (\<lambda>s. sched_namespace_id s = n \<and> visible vis n \<and> is_ok (schedule_record db s)) limit after
                  (map srow_schedule (db_schedules db)))
             limit (schedule_record db) (\<lambda>r. resource_str (sched_name (srec_schedule r))))"

definition get_schedule :: "Db \<Rightarrow> uuid \<Rightarrow> (StoreError, ScheduleRecord) result" where
  "get_schedule db i =
     and_then (ok_or StoreNotFound (find (\<lambda>s. sched_id (srow_schedule s) = i) (db_schedules db))) (\<lambda>s.
     schedule_record db (srow_schedule s))"

definition set_schedule_enabled :: "timestamp \<Rightarrow> uuid \<Rightarrow> int \<Rightarrow> bool \<Rightarrow> timestamp option \<Rightarrow> Db \<Rightarrow> ScheduleRecord transaction" where
  "set_schedule_enabled now i revision enabled next_run db =
     and_then (stored_revision revision) (\<lambda>revision.
     let mine = (\<lambda>s. sched_id (srow_schedule s) = i \<and> sched_revision (srow_schedule s) = revision);
         f = (\<lambda>s. s\<lparr> sched_enabled := enabled, sched_next_run_at := next_run, sched_revision := sched_revision s + 1,
                sched_updated_at := now \<rparr>) in
     and_then (ok_or StoreStaleRevision (find mine (db_schedules db))) (\<lambda>s.
     and_then (map_err (\<lambda>_. StoreStaleRevision) (schedule_record db (f (srow_schedule s)))) (\<lambda>record.
     Ok (db\<lparr> db_schedules := update_where mine (\<lambda>s. s\<lparr> srow_schedule := f (srow_schedule s), srow_claim_owner := None,
           srow_claim_expires_at := None \<rparr>) (db_schedules db) \<rparr>, record))))"

end
