(* ===== verification/Reads.thy ===== *)
theory Reads
  imports Catalog
begin

text \<open>
  The reads of Run history, worker presence and the overview (\<open>infrastructure/postgres.rs\<close>), and the
  worker heartbeat.  \<open>uuid_str\<close> is the text form of an identity, a function of the \<open>uuid\<close> library.
\<close>

section \<open>Run history\<close>

record RunRecord =
  rrec_run :: RunRow
  rrec_has_snapshot :: bool
  rrec_job_namespace :: NamespaceName
  rrec_job_name :: ResourceName
  rrec_target_namespace :: NamespaceName
  rrec_target_name :: ResourceName
  rrec_target_set_name :: "ResourceName option"
  rrec_queue_name :: QueueName

record RunListFilter =
  rf_namespace_id :: "uuid option"
  rf_status :: "RunStatus option"
  rf_job_id :: "uuid option"
  rf_target_id :: "uuid option"
  rf_target_set_id :: "uuid option"

definition has_execution_snapshot :: "RunRow \<Rightarrow> bool" where
  "has_execution_snapshot r = (case run_snapshot r of Rendered _ \<Rightarrow> True | RenderFailed _ _ \<Rightarrow> False)"

text \<open>\<open>COALESCE(rr.target_set_id, s.target_set_id)\<close>, joined with the Target Sets.\<close>

definition run_target_set :: "Db \<Rightarrow> RunRow \<Rightarrow> TargetSet option" where
  "run_target_set db r =
     (let requested = (case run_request_id r of None \<Rightarrow> None
             | Some q \<Rightarrow> (case find_run_request db q of None \<Rightarrow> None | Some request \<Rightarrow> rr_target_set_id request));
          scheduled = (case run_schedule_id r of None \<Rightarrow> None
             | Some i \<Rightarrow> (case find (\<lambda>s. sched_id (srow_schedule s) = i) (db_schedules db) of None \<Rightarrow> None
                 | Some s \<Rightarrow> snd (selection_ids (sched_target (srow_schedule s))))) in
      case (case requested of Some i \<Rightarrow> Some i | None \<Rightarrow> scheduled) of
        None \<Rightarrow> None
      | Some i \<Rightarrow> find (\<lambda>s. set_id s = i) (db_target_sets db))"

definition run_job_namespace :: "Db \<Rightarrow> RunRow \<Rightarrow> uuid option" where
  "run_job_namespace db r = map_option job_namespace_id (find (\<lambda>j. job_id j = run_job_id r) (db_jobs db))"

definition run_record :: "Db \<Rightarrow> RunRow \<Rightarrow> (StoreError, RunRecord) result" where
  "run_record db r =
     and_then (ok_or StoreNotFound (find (\<lambda>j. job_id j = run_job_id r) (db_jobs db))) (\<lambda>j.
     and_then (ok_or StoreNotFound (find_namespace db (job_namespace_id j))) (\<lambda>jn.
     and_then (ok_or StoreNotFound (find (\<lambda>t. target_id t = run_target_id r) (db_targets db))) (\<lambda>t.
     and_then (ok_or StoreNotFound (find_namespace db (target_namespace_id t))) (\<lambda>tn.
     and_then (ok_or StoreNotFound (find_queue db (run_queue_id r))) (\<lambda>q.
     Ok \<lparr> rrec_run = r, rrec_has_snapshot = has_execution_snapshot r, rrec_job_namespace = ns_name jn,
          rrec_job_name = job_name j, rrec_target_namespace = ns_name tn, rrec_target_name = target_name t,
          rrec_target_set_name = map_option set_name (run_target_set db r), rrec_queue_name = queue_name q \<rparr>)))))"

definition run_visible :: "VisibilityScope \<Rightarrow> Db \<Rightarrow> RunRow \<Rightarrow> bool" where
  "run_visible vis db r \<longleftrightarrow>
     (case run_job_namespace db r of None \<Rightarrow> False | Some n \<Rightarrow> visible vis n) \<and> is_ok (run_record db r)"

definition run_matches :: "RunListFilter \<Rightarrow> Db \<Rightarrow> RunRow \<Rightarrow> bool" where
  "run_matches f db r \<longleftrightarrow>
     (case rf_namespace_id f of None \<Rightarrow> True | Some n \<Rightarrow> run_job_namespace db r = Some n) \<and>
     (case rf_status f of None \<Rightarrow> True | Some s \<Rightarrow> run_status r = s) \<and>
     (case rf_job_id f of None \<Rightarrow> True | Some i \<Rightarrow> run_job_id r = i) \<and>
     (case rf_target_id f of None \<Rightarrow> True | Some i \<Rightarrow> run_target_id r = i) \<and>
     (case rf_target_set_id f of None \<Rightarrow> True | Some i \<Rightarrow> map_option set_id (run_target_set db r) = Some i)"

definition listed_runs :: "VisibilityScope \<Rightarrow> RunListFilter \<Rightarrow> uuid option \<Rightarrow> Db \<Rightarrow> RunRow list" where
  "listed_runs vis f before db =
     rev (sort_key run_id (filter (\<lambda>r. (case before of None \<Rightarrow> True | Some i \<Rightarrow> run_id r < i) \<and>
       run_visible vis db r \<and> run_matches f db r) (db_runs db)))"

definition list_runs ::
  "(uuid \<Rightarrow> bytes) \<Rightarrow> VisibilityScope \<Rightarrow> RunListFilter \<Rightarrow> nat \<Rightarrow> uuid option \<Rightarrow> Db \<Rightarrow> (StoreError, RunRecord Page) result" where
  "list_runs uuid_str vis f limit before db =
     (if vis = VisibleNone then Ok empty_page
      else page (take (limit + 1) (listed_runs vis f before db)) limit (run_record db) (\<lambda>r. uuid_str (run_id (rrec_run r))))"

definition get_run :: "VisibilityScope \<Rightarrow> uuid \<Rightarrow> Db \<Rightarrow> (StoreError, RunRecord) result" where
  "get_run vis i db =
     (if vis = VisibleNone then Err StoreNotFound
      else and_then (ok_or StoreNotFound (find (\<lambda>r. run_id r = i \<and> run_visible vis db r) (db_runs db))) (run_record db))"

definition list_run_attempts :: "VisibilityScope \<Rightarrow> uuid \<Rightarrow> Db \<Rightarrow> (StoreError, RunAttemptRow list) result" where
  "list_run_attempts vis i db =
     and_then (get_run vis i db) (\<lambda>_.
     traverse (\<lambda>a. if 0 \<le> att_attempt a \<and> att_attempt a \<le> u16_max then Ok a else Err StoreInternal)
       (take 100 (rev (sort_key att_attempt (filter (\<lambda>a. att_run_id a = i) (db_attempts db))))))"

definition list_run_events :: "VisibilityScope \<Rightarrow> uuid \<Rightarrow> Db \<Rightarrow> (StoreError, (bytes \<times> timestamp) list) result" where
  "list_run_events vis i db =
     and_then (get_run vis i db) (\<lambda>_.
     Ok (map (\<lambda>e. (ev_type e, ev_at e)) (take 1000 (sort_key ev_at (filter (\<lambda>e. ev_run_id e = i) (db_run_events db))))))"

section \<open>Workers\<close>

record WorkerDiagnostics =
  wd_hostname :: bytes
  wd_os :: bytes
  wd_architecture :: bytes
  wd_default_shell_path :: bytes
  wd_default_shell_present :: bool
  wd_dry_run :: bool
  wd_lang :: "bytes option"
  wd_lc_all :: "bytes option"
  wd_tz :: "bytes option"

record WorkerHeartbeatRequest =
  hb_worker_id :: bytes
  hb_session_id :: uuid
  hb_queue_id :: uuid
  hb_concurrency :: int
  hb_version :: bytes
  hb_diagnostics :: "WorkerDiagnostics option"

record WorkerRecord =
  wkrec_worker :: WorkerRow
  wkrec_queue :: QueueName
  wkrec_active_executions :: nat

text \<open>\<open>diagnostics_json\<close> is the \<open>serde\<close> encoding of the diagnostics, an object.\<close>

definition record_worker_heartbeat ::
  "(WorkerDiagnostics \<Rightarrow> json) \<Rightarrow> timestamp \<Rightarrow> WorkerHeartbeatRequest \<Rightarrow> Db \<Rightarrow> unit transaction" where
  "record_worker_heartbeat diagnostics_json now r db =
     (let diagnostics = map_option diagnostics_json (hb_diagnostics r) in
      if \<not> (text_storable (hb_worker_id r) \<and> text_storable (hb_version r) \<and>
           (case diagnostics of None \<Rightarrow> True | Some d \<Rightarrow> json_storable d)) then Err StoreInvalidData
      else if \<not> (canonical (hb_worker_id r) \<and> 1 \<le> hb_concurrency r \<and> hb_concurrency r \<le> 256 \<and>
           1 \<le> char_count (hb_version r) \<and> char_count (hb_version r) \<le> 128 \<and>
           (case diagnostics of None \<Rightarrow> True | Some d \<Rightarrow> is_object d)) then Err StoreInternal
      else if find_queue db (hb_queue_id r) = None then Err StoreInUse
      else case find (\<lambda>w. wk_worker_id w = hb_worker_id r) (db_workers db) of
        None \<Rightarrow> Ok (db\<lparr> db_workers := db_workers db @
            [\<lparr> wk_worker_id = hb_worker_id r, wk_session_id = hb_session_id r, wk_queue_id = hb_queue_id r,
               wk_concurrency = hb_concurrency r, wk_version = hb_version r, wk_diagnostics = diagnostics,
               wk_started_at = now, wk_last_seen_at = now \<rparr>] \<rparr>, ())
      | Some _ \<Rightarrow> Ok (db\<lparr> db_workers := update_where (\<lambda>w. wk_worker_id w = hb_worker_id r)
            (\<lambda>w. w\<lparr> wk_session_id := hb_session_id r, wk_queue_id := hb_queue_id r, wk_concurrency := hb_concurrency r,
                   wk_version := hb_version r, wk_diagnostics := diagnostics,
                   wk_started_at := (if wk_session_id w \<noteq> hb_session_id r then now else wk_started_at w),
                   wk_last_seen_at := now \<rparr>) (db_workers db) \<rparr>, ()))"

definition active_executions :: "timestamp \<Rightarrow> Db \<Rightarrow> bytes \<Rightarrow> nat" where
  "active_executions now db wid =
     length (filter (\<lambda>a. att_worker_id a = Some wid \<and> att_status a = Running \<and>
       (case att_lease_expires_at a of None \<Rightarrow> False | Some t \<Rightarrow> now < t)) (db_attempts db))"

definition worker_record :: "timestamp \<Rightarrow> Db \<Rightarrow> WorkerRow \<Rightarrow> (StoreError, WorkerRecord) result" where
  "worker_record now db w =
     and_then (ok_or StoreNotFound (find_queue db (wk_queue_id w))) (\<lambda>q.
     Ok \<lparr> wkrec_worker = w, wkrec_queue = queue_name q, wkrec_active_executions = active_executions now db (wk_worker_id w) \<rparr>)"

definition list_workers :: "timestamp \<Rightarrow> nat \<Rightarrow> bytes option \<Rightarrow> Db \<Rightarrow> (StoreError, WorkerRecord Page) result" where
  "list_workers now limit after db =
     page (named_rows wk_worker_id (\<lambda>w. is_ok (worker_record now db w)) limit after (db_workers db))
       limit (worker_record now db) (\<lambda>r. wk_worker_id (wkrec_worker r))"

definition get_worker :: "timestamp \<Rightarrow> bytes \<Rightarrow> Db \<Rightarrow> (StoreError, WorkerRecord) result" where
  "get_worker now wid db =
     and_then (ok_or StoreNotFound (find (\<lambda>w. wk_worker_id w = wid) (db_workers db))) (worker_record now db)"

section \<open>Overview\<close>

record Overview =
  ov_namespaces :: nat
  ov_jobs :: nat
  ov_targets :: nat
  ov_target_sets :: nat
  ov_schedules :: nat
  ov_runs :: nat

definition overview :: "VisibilityScope \<Rightarrow> Db \<Rightarrow> Overview" where
  "overview vis db =
     (if vis = VisibleNone
      then \<lparr> ov_namespaces = 0, ov_jobs = 0, ov_targets = 0, ov_target_sets = 0, ov_schedules = 0, ov_runs = 0 \<rparr>
      else \<lparr> ov_namespaces = length (filter (\<lambda>n. visible vis (ns_id n)) (db_namespaces db)),
             ov_jobs = length (filter (\<lambda>j. visible vis (job_namespace_id j)) (db_jobs db)),
             ov_targets = length (filter (\<lambda>t. visible vis (target_namespace_id t)) (db_targets db)),
             ov_target_sets = length (filter (\<lambda>s. visible vis (set_namespace_id s)) (db_target_sets db)),
             ov_schedules = length (filter (\<lambda>s. visible vis (sched_namespace_id (srow_schedule s))) (db_schedules db)),
             ov_runs = length (filter (\<lambda>r. case run_job_namespace db r of None \<Rightarrow> False | Some n \<Rightarrow> visible vis n) (db_runs db)) \<rparr>)"

end
