(* ===== verification/Service.thy ===== *)
theory Service
  imports Reads
begin

text \<open>
  The application service (\<open>application/service.rs\<close>, \<open>application/error.rs\<close>): every operation with its
  authorization, validation and store calls in the order of the code.  The request context is the
  verified grant set of the principal; the texts of validation messages are left out, their field is
  kept.  The calls of one request see one state of the store.
\<close>

section \<open>Errors\<close>

datatype ApplicationError =
    AppInvalidInput "bytes option"
  | AppNotFound
  | AppConflict
  | AppInUse
  | AppIdempotencyConflict
  | AppAuthorization AuthorizationError
  | AppUnavailable
  | AppInternal

definition app_invalid :: "bytes \<Rightarrow> ApplicationError" where
  "app_invalid field = AppInvalidInput (Some field)"

definition app_invalid_request :: ApplicationError where
  "app_invalid_request = AppInvalidInput None"

definition app_error :: "StoreError \<Rightarrow> ApplicationError" where
  "app_error e =
     (case e of
        StoreNotFound \<Rightarrow> AppNotFound
      | StoreConflict \<Rightarrow> AppConflict
      | StoreStaleRevision \<Rightarrow> AppConflict
      | StoreInUse \<Rightarrow> AppInUse
      | StoreIdempotencyConflict \<Rightarrow> AppIdempotencyConflict
      | StoreQueueDisabled \<Rightarrow> app_invalid_request
      | StoreInvalidData \<Rightarrow> app_invalid_request
      | StoreWorkflowLaunchTooLarge \<Rightarrow> app_invalid_request
      | StoreUnavailable \<Rightarrow> AppUnavailable
      | StoreInternal \<Rightarrow> AppInternal)"

type_synonym 'a service = "(ApplicationError, 'a) result"

abbreviation store_call :: "(StoreError, 'a) result \<Rightarrow> 'a service" where
  "store_call \<equiv> map_err app_error"

definition allow :: "Db \<Rightarrow> GrantSet \<Rightarrow> Capability \<Rightarrow> ResourceScope \<Rightarrow> unit service" where
  "allow db g c r = map_err AppAuthorization (authorize (namespace_for db) g c r)"

definition see :: "GrantSet \<Rightarrow> Capability \<Rightarrow> VisibilityScope service" where
  "see g c = map_err AppAuthorization (visibility g c)"

section \<open>Validation\<close>

definition DEFAULT_LIMIT :: nat where "DEFAULT_LIMIT = 50"
definition MAX_LIMIT :: nat where "MAX_LIMIT = 100"
definition MAX_TARGET_SET_MEMBERS :: nat where "MAX_TARGET_SET_MEMBERS = 1000"
definition MAX_QUEUE_DESCRIPTION_CHARACTERS :: nat where "MAX_QUEUE_DESCRIPTION_CHARACTERS = 500"

definition page_limit :: "nat option \<Rightarrow> nat service" where
  "page_limit limit =
     (let limit = (case limit of None \<Rightarrow> DEFAULT_LIMIT | Some l \<Rightarrow> l) in
      if limit = 0 \<or> limit > MAX_LIMIT then Err (app_invalid ''limit'') else Ok limit)"

definition page_cursor :: "bytes option \<Rightarrow> bytes option service" where
  "page_cursor after =
     (case after of
        Some cursor \<Rightarrow> if is_ok (validate_resource_name cursor) then Ok (Some cursor) else Err (app_invalid ''after'')
      | None \<Rightarrow> Ok None)"

definition stored_worker_id :: "bytes \<Rightarrow> bytes service" where
  "stored_worker_id wid = (if is_ok (validate_resource_name wid) then Ok wid else Err AppNotFound)"

definition resource_name :: "bytes \<Rightarrow> ResourceName service" where
  "resource_name v = map_err (\<lambda>_. app_invalid ''name'') (ResourceName_parse (trim v))"

definition queue_name_input :: "bytes \<Rightarrow> QueueName service" where
  "queue_name_input v = map_err (\<lambda>_. app_invalid ''name'') (QueueName_parse (trim v))"

definition ensure_queue_name_available :: "QueueName \<Rightarrow> bool \<Rightarrow> unit service" where
  "ensure_queue_name_available name is_system = ensure (\<not> (QueueName_is_system name \<and> \<not> is_system)) AppConflict"

definition validate_queue_description :: "bytes option \<Rightarrow> unit service" where
  "validate_queue_description description =
     ensure (case description of None \<Rightarrow> True
       | Some v \<Rightarrow> NUL \<notin> set v \<and> char_count v \<le> MAX_QUEUE_DESCRIPTION_CHARACTERS) (app_invalid ''description'')"

definition validate_arguments :: "bytes list \<Rightarrow> unit service" where
  "validate_arguments arguments =
     (if length arguments > 128 \<or> (\<exists>a \<in> set arguments. length a > 4096 \<or> NUL \<in> set a)
      then Err (app_invalid ''arguments'')
      else map_err (\<lambda>_. app_invalid ''arguments'') (validate_argument_templates arguments))"

definition validate_input_object :: "(json \<Rightarrow> bytes option) \<Rightarrow> json \<Rightarrow> unit service" where
  "validate_input_object encode inputs = map_err (\<lambda>_. app_invalid ''inputs'') (validate_inputs encode inputs)"

definition validate_target_ids :: "uuid list \<Rightarrow> unit service" where
  "validate_target_ids ids =
     (if ids = [] \<or> length ids > MAX_TARGET_SET_MEMBERS then Err (app_invalid ''target_ids'')
      else if length (bset_of ids) \<noteq> length ids then Err (app_invalid ''target_ids'') else Ok ())"

definition validate_rendered_execution ::
  "(json \<Rightarrow> bytes option) \<Rightarrow> Job \<Rightarrow> json option \<Rightarrow> Target \<Rightarrow> json \<Rightarrow> unit service" where
  "validate_rendered_execution encode j shared t inputs =
     and_then (map_err (\<lambda>_. app_invalid ''inputs'')
       (merge_inputs encode [job_inputs j, (case shared of Some v \<Rightarrow> v | None \<Rightarrow> empty_object), target_inputs t, inputs])) (\<lambda>merged.
     and_then (map_err (\<lambda>_. app_invalid ''arguments'')
       (render_arguments encode (job_arguments j @ target_arguments t) merged)) (\<lambda>_. Ok ()))"

record CreateJobInput =
  ji_name :: bytes
  ji_definition :: JobDefinition

definition normalize_job_input :: "CreateJobInput \<Rightarrow> CreateJobInput" where
  "normalize_job_input input =
     input\<lparr> ji_definition := (ji_definition input)\<lparr> jd_executable := map_option trim (jd_executable (ji_definition input)) \<rparr> \<rparr>"

definition f64_finite :: "f64 \<Rightarrow> bool" where
  "f64_finite x = (case x of F64 _ \<Rightarrow> True | _ \<Rightarrow> False)"

definition path_valid :: "bytes option \<Rightarrow> bool" where
  "path_valid p = (case p of None \<Rightarrow> False | Some path \<Rightarrow> prefix ''/'' path \<and> NUL \<notin> set path \<and> length path \<le> 4096)"

definition validate_executor :: "JobDefinition \<Rightarrow> unit service" where
  "validate_executor d =
     (case jd_executor d of
        Noop \<Rightarrow> ensure (jd_executable d = None \<and> jd_shell_command d = None) (app_invalid ''executable'')
      | Process \<Rightarrow> ensure (path_valid (jd_executable d) \<and> jd_shell_command d = None) (app_invalid ''executable'')
      | Shell \<Rightarrow>
          if \<not> path_valid (jd_executable d) then Err (app_invalid ''executable'')
          else (case jd_shell_command d of
                  None \<Rightarrow> Err (app_invalid ''shell_command'')
                | Some script \<Rightarrow>
                    if trim script = [] \<or> length script > 65536 \<or> NUL \<in> set script then Err (app_invalid ''shell_command'')
                    else if find_sub ''{{'' script \<noteq> None then Err (app_invalid ''shell_command'')
                    else Ok ()))"

definition retry_policy_valid :: "JobDefinition \<Rightarrow> bool" where
  "retry_policy_valid d \<longleftrightarrow>
     1 \<le> jd_retry_initial_seconds d \<and> jd_retry_initial_seconds d \<le> 86400 \<and>
     jd_retry_initial_seconds d \<le> jd_retry_max_seconds d \<and> jd_retry_max_seconds d \<le> 86400 \<and>
     f64_finite (jd_retry_multiplier d) \<and> f64_at_least 1 (jd_retry_multiplier d) \<and>
     f64_finite (jd_retry_jitter d) \<and> f64_at_least 0 (jd_retry_jitter d) \<and> f64_at_most 1 (jd_retry_jitter d)"

definition validate_job :: "(json \<Rightarrow> bytes option) \<Rightarrow> JobDefinition \<Rightarrow> unit service" where
  "validate_job encode d =
     and_then (validate_arguments (jd_arguments d)) (\<lambda>_.
     and_then (validate_input_object encode (jd_inputs d)) (\<lambda>_.
     and_then (ensure (1 \<le> jd_max_attempts d \<and> jd_max_attempts d \<le> 100) (app_invalid ''max_attempts'')) (\<lambda>_.
     and_then (ensure (retry_policy_valid d) app_invalid_request) (\<lambda>_.
     validate_executor d))))"

definition validate_schedule_policy :: "MisfirePolicy \<Rightarrow> int option \<Rightarrow> nat \<Rightarrow> int \<Rightarrow> unit service" where
  "validate_schedule_policy policy grace max_runs max_age =
     (if (policy = GracePeriod) \<noteq> (grace \<noteq> None) then Err (app_invalid ''misfire_grace_seconds'')
      else if (case grace of None \<Rightarrow> False | Some s \<Rightarrow> s > i32_max) then Err (app_invalid ''misfire_grace_seconds'')
      else if \<not> (1 \<le> max_runs \<and> max_runs \<le> 1000) \<or> \<not> (60 \<le> max_age \<and> max_age \<le> 31536000) then Err app_invalid_request
      else Ok ())"

section \<open>Namespaces and Queues\<close>

definition app_create_namespace :: "timestamp \<Rightarrow> GrantSet \<Rightarrow> bytes \<Rightarrow> Db \<Rightarrow> (Db \<times> Namespace) service" where
  "app_create_namespace now g value db =
     and_then (allow db g NamespaceCreate ControlPlane) (\<lambda>_.
     and_then (map_err (\<lambda>_. app_invalid ''name'') (NamespaceName_parse (trim value))) (\<lambda>name.
     store_call (create_namespace now name db)))"

definition app_list_namespaces :: "GrantSet \<Rightarrow> nat option \<Rightarrow> bytes option \<Rightarrow> Db \<Rightarrow> Namespace Page service" where
  "app_list_namespaces g limit after db =
     and_then (see g NamespaceRead) (\<lambda>vis.
     and_then (page_limit limit) (\<lambda>limit.
     and_then (page_cursor after) (\<lambda>after.
     store_call (list_namespaces vis limit after db))))"

definition app_get_namespace :: "GrantSet \<Rightarrow> uuid \<Rightarrow> Db \<Rightarrow> Namespace service" where
  "app_get_namespace g i db =
     and_then (allow db g NamespaceRead (NamespaceScope i)) (\<lambda>_. store_call (get_namespace db i))"

definition app_delete_namespace :: "GrantSet \<Rightarrow> uuid \<Rightarrow> Db \<Rightarrow> (Db \<times> unit) service" where
  "app_delete_namespace g i db =
     and_then (allow db g NamespaceDelete (NamespaceScope i)) (\<lambda>_.
     and_then (store_call (get_namespace db i)) (\<lambda>n.
     and_then (ensure (namespace_str (ns_name n) \<noteq> ''default'') app_invalid_request) (\<lambda>_.
     store_call (delete_namespace i db))))"

definition app_create_queue :: "timestamp \<Rightarrow> GrantSet \<Rightarrow> bytes \<Rightarrow> bytes option \<Rightarrow> Db \<Rightarrow> (Db \<times> Queue) service" where
  "app_create_queue now g name description db =
     and_then (allow db g QueueCreate ControlPlane) (\<lambda>_.
     and_then (queue_name_input name) (\<lambda>name.
     and_then (validate_queue_description description) (\<lambda>_.
     and_then (ensure_queue_name_available name False) (\<lambda>_.
     store_call (create_queue now name description db)))))"

definition app_list_queues :: "GrantSet \<Rightarrow> nat option \<Rightarrow> bytes option \<Rightarrow> Db \<Rightarrow> Queue Page service" where
  "app_list_queues g limit after db =
     and_then (allow db g QueueRead ControlPlane) (\<lambda>_.
     and_then (page_limit limit) (\<lambda>limit.
     and_then (page_cursor after) (\<lambda>after.
     store_call (list_queues limit after db))))"

definition app_get_queue :: "GrantSet \<Rightarrow> uuid \<Rightarrow> Db \<Rightarrow> Queue service" where
  "app_get_queue g i db = and_then (allow db g QueueRead (QueueScope i)) (\<lambda>_. store_call (get_queue db i))"

definition app_update_queue ::
  "timestamp \<Rightarrow> GrantSet \<Rightarrow> uuid \<Rightarrow> bytes \<Rightarrow> bytes option \<Rightarrow> bool \<Rightarrow> Db \<Rightarrow> (Db \<times> Queue) service" where
  "app_update_queue now g i name description enabled db =
     and_then (queue_name_input name) (\<lambda>name.
     and_then (validate_queue_description description) (\<lambda>_.
     and_then (allow db g QueueUpdate (QueueScope i)) (\<lambda>_.
     and_then (store_call (get_queue db i)) (\<lambda>current.
     and_then (ensure (\<not> (queue_system current \<and> name \<noteq> queue_name current)) (app_invalid ''name'')) (\<lambda>_.
     and_then (ensure (\<not> (queue_system current \<and> \<not> enabled)) (app_invalid ''enabled'')) (\<lambda>_.
     and_then (ensure_queue_name_available name (queue_system current)) (\<lambda>_.
     store_call (update_queue now i name description enabled db))))))))"

definition app_delete_queue :: "GrantSet \<Rightarrow> uuid \<Rightarrow> Db \<Rightarrow> (Db \<times> unit) service" where
  "app_delete_queue g i db =
     and_then (allow db g QueueDelete (QueueScope i)) (\<lambda>_.
     and_then (store_call (get_queue db i)) (\<lambda>q.
     and_then (ensure (\<not> queue_system q) app_invalid_request) (\<lambda>_.
     store_call (delete_queue i db))))"

section \<open>Jobs\<close>

text \<open>The Queue a Job names: a missing one is a fault of that field.\<close>

definition job_queue :: "Db \<Rightarrow> uuid \<Rightarrow> Queue service" where
  "job_queue db i = map_err (\<lambda>e. if e = StoreNotFound then app_invalid ''queue_id'' else app_error e) (get_queue db i)"

definition app_create_job ::
  "(json \<Rightarrow> bytes option) \<Rightarrow> timestamp \<Rightarrow> GrantSet \<Rightarrow> uuid \<Rightarrow> CreateJobInput \<Rightarrow> Db \<Rightarrow> (Db \<times> JobRecord) service" where
  "app_create_job encode now g n input db =
     (let input = normalize_job_input input; d = ji_definition input in
      and_then (resource_name (ji_name input)) (\<lambda>name.
      and_then (validate_job encode d) (\<lambda>_.
      and_then (allow db g JobCreate (NamespaceScope n)) (\<lambda>_.
      and_then (allow db g QueueRead (QueueScope (jd_queue_id d))) (\<lambda>_.
      and_then (job_queue db (jd_queue_id d)) (\<lambda>q.
      and_then (ensure (queue_enabled q) (app_invalid ''queue_id'')) (\<lambda>_.
      store_call (create_job now n name d db))))))))"

definition app_update_job ::
  "(json \<Rightarrow> bytes option) \<Rightarrow> timestamp \<Rightarrow> GrantSet \<Rightarrow> uuid \<Rightarrow> CreateJobInput \<Rightarrow> Db \<Rightarrow> (Db \<times> JobRecord) service" where
  "app_update_job encode now g i input db =
     (let input = normalize_job_input input; d = ji_definition input in
      and_then (resource_name (ji_name input)) (\<lambda>name.
      and_then (validate_job encode d) (\<lambda>_.
      and_then (allow db g JobUpdate (JobScope i)) (\<lambda>_.
      and_then (store_call (get_job db i)) (\<lambda>existing.
      and_then (allow db g QueueRead (QueueScope (jd_queue_id d))) (\<lambda>_.
      and_then (job_queue db (jd_queue_id d)) (\<lambda>q.
      and_then (ensure (queue_enabled q \<or> jd_queue_id d = job_queue_id (jrec_job existing)) (app_invalid ''queue_id'')) (\<lambda>_.
      store_call (update_job now i name d db)))))))))"

definition app_list_jobs :: "GrantSet \<Rightarrow> uuid \<Rightarrow> nat option \<Rightarrow> bytes option \<Rightarrow> Db \<Rightarrow> JobRecord Page service" where
  "app_list_jobs g n limit after db =
     and_then (allow db g JobRead (NamespaceScope n)) (\<lambda>_.
     and_then (see g JobRead) (\<lambda>vis.
     and_then (page_limit limit) (\<lambda>limit.
     and_then (page_cursor after) (\<lambda>after.
     and_then (store_call (get_namespace db n)) (\<lambda>_.
     store_call (list_jobs n vis limit after db))))))"

definition app_get_job :: "GrantSet \<Rightarrow> uuid \<Rightarrow> Db \<Rightarrow> JobRecord service" where
  "app_get_job g i db = and_then (allow db g JobRead (JobScope i)) (\<lambda>_. store_call (get_job db i))"

section \<open>Targets and Target Sets\<close>

definition app_create_target ::
  "(json \<Rightarrow> bytes option) \<Rightarrow> timestamp \<Rightarrow> GrantSet \<Rightarrow> uuid \<Rightarrow> bytes \<Rightarrow> bytes list \<Rightarrow> json \<Rightarrow> Db \<Rightarrow> (Db \<times> TargetRecord) service" where
  "app_create_target encode now g n name arguments inputs db =
     and_then (resource_name name) (\<lambda>name.
     and_then (validate_arguments arguments) (\<lambda>_.
     and_then (validate_input_object encode inputs) (\<lambda>_.
     and_then (allow db g TargetCreate (NamespaceScope n)) (\<lambda>_.
     store_call (create_target now n name \<lparr> td_arguments = arguments, td_inputs = inputs \<rparr> db)))))"

definition app_list_targets :: "GrantSet \<Rightarrow> uuid \<Rightarrow> nat option \<Rightarrow> bytes option \<Rightarrow> Db \<Rightarrow> TargetRecord Page service" where
  "app_list_targets g n limit after db =
     and_then (allow db g TargetRead (NamespaceScope n)) (\<lambda>_.
     and_then (see g TargetRead) (\<lambda>vis.
     and_then (page_limit limit) (\<lambda>limit.
     and_then (page_cursor after) (\<lambda>after.
     and_then (store_call (get_namespace db n)) (\<lambda>_.
     store_call (list_targets n vis limit after db))))))"

definition app_get_target :: "GrantSet \<Rightarrow> uuid \<Rightarrow> Db \<Rightarrow> TargetRecord service" where
  "app_get_target g i db = and_then (allow db g TargetRead (TargetScope i)) (\<lambda>_. store_call (get_target db i))"

definition starter_target :: "TargetRecord \<Rightarrow> bool" where
  "starter_target r \<longleftrightarrow> namespace_str (trec_namespace r) = ''default'' \<and> resource_str (target_name (trec_target r)) = ''default''"

definition app_update_target ::
  "(json \<Rightarrow> bytes option) \<Rightarrow> timestamp \<Rightarrow> GrantSet \<Rightarrow> uuid \<Rightarrow> bytes \<Rightarrow> bytes list \<Rightarrow> json \<Rightarrow> Db \<Rightarrow> (Db \<times> TargetRecord) service" where
  "app_update_target encode now g i name arguments inputs db =
     and_then (resource_name name) (\<lambda>name.
     and_then (validate_arguments arguments) (\<lambda>_.
     and_then (validate_input_object encode inputs) (\<lambda>_.
     and_then (allow db g TargetUpdate (TargetScope i)) (\<lambda>_.
     and_then (store_call (get_target db i)) (\<lambda>current.
     and_then (ensure (\<not> (starter_target current \<and> resource_str name \<noteq> ''default'')) (app_invalid ''name'')) (\<lambda>_.
     store_call (update_target now i name \<lparr> td_arguments = arguments, td_inputs = inputs \<rparr> db)))))))"

definition app_delete_target :: "GrantSet \<Rightarrow> uuid \<Rightarrow> Db \<Rightarrow> (Db \<times> unit) service" where
  "app_delete_target g i db =
     and_then (allow db g TargetDelete (TargetScope i)) (\<lambda>_.
     and_then (store_call (get_target db i)) (\<lambda>current.
     and_then (ensure (\<not> starter_target current) app_invalid_request) (\<lambda>_.
     store_call (delete_target i db))))"

fun validate_target_members :: "GrantSet \<Rightarrow> uuid \<Rightarrow> uuid list \<Rightarrow> Db \<Rightarrow> unit service" where
  "validate_target_members g n [] db = Ok ()"
| "validate_target_members g n (i # ids) db =
     and_then (allow db g TargetRead (TargetScope i)) (\<lambda>_.
     and_then (map_err (\<lambda>e. if e = StoreNotFound then app_invalid ''target_ids'' else app_error e) (get_target db i)) (\<lambda>t.
     and_then (ensure (target_namespace_id (trec_target t) = n) (app_invalid ''target_ids'')) (\<lambda>_.
     validate_target_members g n ids db)))"

definition app_create_target_set ::
  "(json \<Rightarrow> bytes option) \<Rightarrow> timestamp \<Rightarrow> GrantSet \<Rightarrow> uuid \<Rightarrow> bytes \<Rightarrow> uuid list \<Rightarrow> json \<Rightarrow> Db \<Rightarrow> (Db \<times> TargetSetRecord) service" where
  "app_create_target_set encode now g n name ids inputs db =
     and_then (resource_name name) (\<lambda>name.
     and_then (validate_input_object encode inputs) (\<lambda>_.
     and_then (validate_target_ids ids) (\<lambda>_.
     and_then (allow db g TargetSetCreate (NamespaceScope n)) (\<lambda>_.
     and_then (validate_target_members g n ids db) (\<lambda>_.
     store_call (create_target_set now n name ids inputs db))))))"

definition app_list_target_sets :: "GrantSet \<Rightarrow> uuid \<Rightarrow> nat option \<Rightarrow> bytes option \<Rightarrow> Db \<Rightarrow> TargetSetRecord Page service" where
  "app_list_target_sets g n limit after db =
     and_then (allow db g TargetSetRead (NamespaceScope n)) (\<lambda>_.
     and_then (see g TargetSetRead) (\<lambda>vis.
     and_then (page_limit limit) (\<lambda>limit.
     and_then (page_cursor after) (\<lambda>after.
     and_then (store_call (get_namespace db n)) (\<lambda>_.
     store_call (list_target_sets n vis limit after db))))))"

definition app_get_target_set :: "GrantSet \<Rightarrow> uuid \<Rightarrow> Db \<Rightarrow> TargetSetRecord service" where
  "app_get_target_set g i db = and_then (allow db g TargetSetRead (TargetSetScope i)) (\<lambda>_. store_call (get_target_set db i))"

definition app_update_target_set ::
  "(json \<Rightarrow> bytes option) \<Rightarrow> timestamp \<Rightarrow> GrantSet \<Rightarrow> uuid \<Rightarrow> bytes \<Rightarrow> uuid list \<Rightarrow> json \<Rightarrow> Db \<Rightarrow> (Db \<times> TargetSetRecord) service" where
  "app_update_target_set encode now g i name ids inputs db =
     and_then (resource_name name) (\<lambda>name.
     and_then (validate_input_object encode inputs) (\<lambda>_.
     and_then (validate_target_ids ids) (\<lambda>_.
     and_then (allow db g TargetSetUpdate (TargetSetScope i)) (\<lambda>_.
     and_then (store_call (get_target_set db i)) (\<lambda>existing.
     and_then (validate_target_members g (set_namespace_id (tsrec_target_set existing)) ids db) (\<lambda>_.
     store_call (update_target_set now i name ids inputs db)))))))"

section \<open>Schedules\<close>

fun allow_targets :: "GrantSet \<Rightarrow> Target list \<Rightarrow> Db \<Rightarrow> unit service" where
  "allow_targets g [] db = Ok ()"
| "allow_targets g (t # ts) db =
     and_then (allow db g TargetUse (TargetScope (target_id t))) (\<lambda>_. allow_targets g ts db)"

definition execution_targets :: "GrantSet \<Rightarrow> TargetSelection \<Rightarrow> Db \<Rightarrow> (uuid \<times> json option \<times> Target list) service" where
  "execution_targets g selection db =
     (case selection of
        SelectTarget i \<Rightarrow>
          and_then (allow db g TargetUse (TargetScope i)) (\<lambda>_.
          and_then (store_call (get_target db i)) (\<lambda>r.
          Ok (target_namespace_id (trec_target r), None, [trec_target r])))
      | SelectTargetSet i \<Rightarrow>
          and_then (allow db g TargetSetUse (TargetSetScope i)) (\<lambda>_.
          and_then (store_call (get_target_set db i)) (\<lambda>r.
          and_then (allow_targets g (tsrec_targets r) db) (\<lambda>_.
          Ok (set_namespace_id (tsrec_target_set r), Some (set_inputs (tsrec_target_set r)), tsrec_targets r)))))"

definition validate_executions ::
  "(json \<Rightarrow> bytes option) \<Rightarrow> Job \<Rightarrow> json option \<Rightarrow> Target list \<Rightarrow> json \<Rightarrow> unit service" where
  "validate_executions encode j shared targets inputs =
     and_then (traverse (\<lambda>t. validate_rendered_execution encode j shared t inputs) targets) (\<lambda>_. Ok ())"

record CreateScheduleInput =
  si_name :: bytes
  si_job_id :: uuid
  si_target :: TargetSelection
  si_inputs :: json
  si_timing :: ScheduleTiming
  si_misfire_policy :: MisfirePolicy
  si_misfire_grace_seconds :: "int option"
  si_catchup_policy :: CatchupPolicy
  si_max_catchup_runs :: nat
  si_max_catchup_age_seconds :: int

definition schedule_start ::
  "'tz cron_library \<Rightarrow> timestamp \<Rightarrow> ScheduleTiming \<Rightarrow> (bytes option \<times> timestamp option \<times> bytes \<times> timestamp) service" where
  "schedule_start lib utc timing =
     (case timing of
        Cron expression timezone \<Rightarrow>
          and_then (map_err (\<lambda>_. app_invalid ''cron_expression'')
            (next_cron_occurrence lib (trim expression) (trim timezone) utc)) (\<lambda>next_run.
          Ok (Some (trim expression), None, trim timezone, next_run))
      | Once t \<Rightarrow> Ok (None, Some t, ''UTC'', t))"

definition app_create_schedule ::
  "(json \<Rightarrow> bytes option) \<Rightarrow> 'tz cron_library \<Rightarrow> timestamp \<Rightarrow> timestamp \<Rightarrow> GrantSet \<Rightarrow> uuid \<Rightarrow> CreateScheduleInput \<Rightarrow> Db
     \<Rightarrow> (Db \<times> ScheduleRecord) service" where
  "app_create_schedule encode lib now utc g n input db =
     and_then (resource_name (si_name input)) (\<lambda>name.
     and_then (validate_input_object encode (si_inputs input)) (\<lambda>_.
     and_then (allow db g ScheduleCreate (NamespaceScope n)) (\<lambda>_.
     and_then (allow db g JobRead (JobScope (si_job_id input))) (\<lambda>_.
     and_then (allow db g JobExecute (JobScope (si_job_id input))) (\<lambda>_.
     and_then (allow db g RunCreate (NamespaceScope n)) (\<lambda>_.
     and_then (store_call (get_job db (si_job_id input))) (\<lambda>j.
     and_then (execution_targets g (si_target input) db) (\<lambda>(selection_namespace, shared, targets).
     and_then (ensure (job_namespace_id (jrec_job j) = n \<and> selection_namespace = n) app_invalid_request) (\<lambda>_.
     and_then (validate_executions encode (jrec_job j) shared targets (si_inputs input)) (\<lambda>_.
     and_then (validate_schedule_policy (si_misfire_policy input) (si_misfire_grace_seconds input)
       (si_max_catchup_runs input) (si_max_catchup_age_seconds input)) (\<lambda>_.
     and_then (schedule_start lib utc (si_timing input)) (\<lambda>(cron, once_at, timezone, next_run).
     store_call (create_schedule now \<lparr> nsch_namespace_id = n, nsch_name = name, nsch_job_id = si_job_id input,
       nsch_target = si_target input, nsch_inputs = si_inputs input, nsch_cron_expression = cron, nsch_execute_at = once_at,
       nsch_timezone = timezone, nsch_next_run_at = next_run, nsch_misfire_policy = si_misfire_policy input,
       nsch_misfire_grace_seconds = si_misfire_grace_seconds input, nsch_catchup_policy = si_catchup_policy input,
       nsch_max_catchup_runs = si_max_catchup_runs input,
       nsch_max_catchup_age_seconds = si_max_catchup_age_seconds input \<rparr> db)))))))))))))"

definition app_list_schedules :: "GrantSet \<Rightarrow> uuid \<Rightarrow> nat option \<Rightarrow> bytes option \<Rightarrow> Db \<Rightarrow> ScheduleRecord Page service" where
  "app_list_schedules g n limit after db =
     and_then (allow db g ScheduleRead (NamespaceScope n)) (\<lambda>_.
     and_then (see g ScheduleRead) (\<lambda>vis.
     and_then (page_limit limit) (\<lambda>limit.
     and_then (page_cursor after) (\<lambda>after.
     and_then (store_call (get_namespace db n)) (\<lambda>_.
     store_call (list_schedules n vis limit after db))))))"

definition app_get_schedule :: "GrantSet \<Rightarrow> uuid \<Rightarrow> Db \<Rightarrow> ScheduleRecord service" where
  "app_get_schedule g i db = and_then (allow db g ScheduleRead (ScheduleScope i)) (\<lambda>_. store_call (get_schedule db i))"

definition enabled_start ::
  "'tz cron_library \<Rightarrow> timestamp \<Rightarrow> GrantSet \<Rightarrow> Schedule \<Rightarrow> Db \<Rightarrow> timestamp service" where
  "enabled_start lib utc g s db =
     and_then (allow db g JobRead (JobScope (sched_job_id s))) (\<lambda>_.
     and_then (allow db g JobExecute (JobScope (sched_job_id s))) (\<lambda>_.
     and_then (allow db g RunCreate (NamespaceScope (sched_namespace_id s))) (\<lambda>_.
     and_then (execution_targets g (sched_target s) db) (\<lambda>(n, _, _).
     and_then (ensure (n = sched_namespace_id s) app_invalid_request) (\<lambda>_.
     case sched_timing s of
       Cron expression timezone \<Rightarrow>
         map_err (\<lambda>_. app_invalid ''cron_expression'') (next_cron_occurrence lib expression timezone utc)
     | Once t \<Rightarrow> Ok t)))))"

definition app_set_schedule_enabled ::
  "'tz cron_library \<Rightarrow> timestamp \<Rightarrow> timestamp \<Rightarrow> GrantSet \<Rightarrow> uuid \<Rightarrow> int \<Rightarrow> bool \<Rightarrow> Db \<Rightarrow> (Db \<times> ScheduleRecord) service" where
  "app_set_schedule_enabled lib now utc g i revision enabled db =
     and_then (app_get_schedule g i db) (\<lambda>r.
     and_then (allow db g ScheduleUpdate (ScheduleScope i)) (\<lambda>_.
     and_then (if enabled then and_then (enabled_start lib utc g (srec_schedule r) db) (\<lambda>t. Ok (Some t)) else Ok None) (\<lambda>next_run.
     store_call (set_schedule_enabled now (sched_id (srec_schedule r)) revision enabled next_run db))))"

section \<open>Runs, workers and the overview\<close>

definition app_create_run ::
  "(json \<Rightarrow> bytes option) \<Rightarrow> (json \<Rightarrow> json \<Rightarrow> bool) \<Rightarrow> timestamp \<Rightarrow> GrantSet \<Rightarrow> uuid \<Rightarrow> uuid \<Rightarrow> TargetSelection \<Rightarrow> json \<Rightarrow> Db
     \<Rightarrow> (Db \<times> RunRow list \<times> bool) service" where
  "app_create_run encode jsonb_eq now g request_id jid target inputs db =
     and_then (validate_input_object encode inputs) (\<lambda>_.
     and_then (allow db g JobExecute (JobScope jid)) (\<lambda>_.
     and_then (store_call (get_job db jid)) (\<lambda>j.
     and_then (execution_targets g target db) (\<lambda>(selection_namespace, shared, targets).
     and_then (ensure (job_namespace_id (jrec_job j) = selection_namespace) app_invalid_request) (\<lambda>_.
     and_then (validate_executions encode (jrec_job j) shared targets inputs) (\<lambda>_.
     and_then (allow db g RunCreate (NamespaceScope (job_namespace_id (jrec_job j)))) (\<lambda>_.
     store_call (create_runs encode jsonb_eq now request_id jid target inputs db))))))))"

definition app_list_runs ::
  "(uuid \<Rightarrow> bytes) \<Rightarrow> GrantSet \<Rightarrow> RunListFilter \<Rightarrow> nat option \<Rightarrow> uuid option \<Rightarrow> Db \<Rightarrow> RunRecord Page service" where
  "app_list_runs uuid_str g f limit before db =
     and_then (see g RunRead) (\<lambda>vis.
     and_then (page_limit limit) (\<lambda>limit.
     store_call (list_runs uuid_str vis f limit before db)))"

definition app_get_run :: "GrantSet \<Rightarrow> uuid \<Rightarrow> Db \<Rightarrow> RunRecord service" where
  "app_get_run g i db =
     and_then (allow db g RunRead (RunScope i)) (\<lambda>_.
     and_then (see g RunRead) (\<lambda>vis.
     store_call (get_run vis i db)))"

definition app_rerun_run :: "timestamp \<Rightarrow> GrantSet \<Rightarrow> uuid \<Rightarrow> uuid \<Rightarrow> Db \<Rightarrow> (Db \<times> RunRow \<times> bool) service" where
  "app_rerun_run now g source_id request_id db =
     and_then (app_get_run g source_id db) (\<lambda>source.
     let run = rrec_run source in
     and_then (ensure (run_is_repeatable (run_status run)) app_invalid_request) (\<lambda>_.
     and_then (ensure (rrec_has_snapshot source) app_invalid_request) (\<lambda>_.
     and_then (allow db g JobExecute (JobScope (run_job_id run))) (\<lambda>_.
     and_then (store_call (get_job db (run_job_id run))) (\<lambda>j.
     and_then (allow db g TargetUse (TargetScope (run_target_id run))) (\<lambda>_.
     and_then (allow db g RunCreate (NamespaceScope (job_namespace_id (jrec_job j)))) (\<lambda>_.
     store_call (insert_rerun now (run_id run) request_id db))))))))"

definition app_list_run_attempts :: "GrantSet \<Rightarrow> uuid \<Rightarrow> Db \<Rightarrow> RunAttemptRow list service" where
  "app_list_run_attempts g i db =
     and_then (allow db g RunRead (RunScope i)) (\<lambda>_.
     and_then (see g RunRead) (\<lambda>vis. store_call (list_run_attempts vis i db)))"

definition app_list_run_events :: "GrantSet \<Rightarrow> uuid \<Rightarrow> Db \<Rightarrow> (bytes \<times> timestamp) list service" where
  "app_list_run_events g i db =
     and_then (allow db g RunRead (RunScope i)) (\<lambda>_.
     and_then (see g RunRead) (\<lambda>vis. store_call (list_run_events vis i db)))"

definition app_list_workers :: "timestamp \<Rightarrow> GrantSet \<Rightarrow> nat option \<Rightarrow> bytes option \<Rightarrow> Db \<Rightarrow> WorkerRecord Page service" where
  "app_list_workers now g limit after db =
     and_then (allow db g WorkerRead ControlPlane) (\<lambda>_.
     and_then (page_limit limit) (\<lambda>limit.
     and_then (page_cursor after) (\<lambda>after.
     store_call (list_workers now limit after db))))"

definition app_get_worker :: "timestamp \<Rightarrow> GrantSet \<Rightarrow> bytes \<Rightarrow> Db \<Rightarrow> WorkerRecord service" where
  "app_get_worker now g wid db =
     and_then (allow db g WorkerRead ControlPlane) (\<lambda>_.
     and_then (stored_worker_id wid) (\<lambda>wid. store_call (get_worker now wid db)))"

definition app_overview :: "GrantSet \<Rightarrow> Db \<Rightarrow> Overview service" where
  "app_overview g db = and_then (see g OverviewRead) (\<lambda>vis. Ok (overview vis db))"

end
