(* ===== verification/WorkflowEngine.thy ===== *)
theory WorkflowEngine
  imports WorkflowStore
begin

text \<open>
  Execution of Workflow invocations (\<open>infrastructure/postgres/workflows.rs\<close>): launch, activation,
  completion of nodes, propagation along the dependency edges, the final state and cancellation.
\<close>

section \<open>Activation\<close>

definition update_node_runs :: "(NodeRunRow \<Rightarrow> bool) \<Rightarrow> (NodeRunRow \<Rightarrow> NodeRunRow) \<Rightarrow> Db \<Rightarrow> Db" where
  "update_node_runs p f db = db\<lparr> db_node_runs := update_where p f (db_node_runs db) \<rparr>"

definition update_node_executions :: "(NodeExecutionRow \<Rightarrow> bool) \<Rightarrow> (NodeExecutionRow \<Rightarrow> NodeExecutionRow) \<Rightarrow> Db \<Rightarrow> Db" where
  "update_node_executions p f db = db\<lparr> db_node_executions := update_where p f (db_node_executions db) \<rparr>"

definition update_workflow_runs :: "(WorkflowRunRow \<Rightarrow> bool) \<Rightarrow> (WorkflowRunRow \<Rightarrow> WorkflowRunRow) \<Rightarrow> Db \<Rightarrow> Db" where
  "update_workflow_runs p f db = db\<lparr> db_workflow_runs := update_where p f (db_workflow_runs db) \<rparr>"

text \<open>The invocation of a node, where it is still running and not being cancelled.\<close>

definition invocation_open :: "Db \<Rightarrow> uuid \<Rightarrow> bool" where
  "invocation_open db i \<longleftrightarrow>
     (\<exists>w \<in> set (db_workflow_runs db). wr_id w = i \<and> \<not> wr_cancellation_requested w \<and> wr_state w = WorkflowRunning)"

definition activatable :: "Db \<Rightarrow> uuid \<Rightarrow> NodeRunRow \<Rightarrow> bool" where
  "activatable db nid n \<longleftrightarrow>
     nr_id n = nid \<and> (nr_state n = NodePending \<or> nr_state n = NodeReady) \<and> invocation_open db (nr_workflow_run_id n)"

fun activate_executions :: "timestamp \<Rightarrow> uuid \<Rightarrow> uuid \<Rightarrow> NodeExecutionRow list \<Rightarrow> Db \<Rightarrow> (StoreError, Db) result" where
  "activate_executions now nid jid [] db = Ok db"
| "activate_executions now nid jid (e # es) db =
     and_then (create_normal_run now \<lparr> pr_id = ne_prospective_run_id e, pr_request_id = nid, pr_job_id = jid,
         pr_target_id = ne_target_id e, pr_queue_id = ne_queue_id e, pr_max_attempts = ne_max_attempts e,
         pr_snapshot = ne_snapshot e \<rparr> db) (\<lambda>db1.
     activate_executions now nid jid es
       (update_node_executions (\<lambda>x. ne_node_run_id x = nid \<and> ne_target_id x = ne_target_id e \<and> ne_run_id x = None)
          (\<lambda>x. x\<lparr> ne_run_id := Some (ne_prospective_run_id x) \<rparr>) db1))"

definition activate :: "timestamp \<Rightarrow> uuid \<Rightarrow> Db \<Rightarrow> (StoreError, Db) result" where
  "activate now nid db =
     (case find (activatable db nid) (db_node_runs db) of
        None \<Rightarrow> Ok db
      | Some n \<Rightarrow>
          activate_executions now nid (nr_job_id n)
            (sort_key ne_target_id (filter (\<lambda>e. ne_node_run_id e = nid) (db_node_executions db)))
            (update_node_runs (activatable db nid) (\<lambda>n. n\<lparr> nr_state := NodeRunning, nr_started_at := Some now \<rparr>) db))"

section \<open>Launch\<close>

record WorkflowLaunch =
  la_workflow_id :: uuid
  la_revision :: int
  la_request_id :: uuid
  la_target :: TargetSelection
  la_inputs :: json
  la_authorized_targets :: "uuid list"

definition insert_request :: "RunRequestRow \<Rightarrow> Db \<Rightarrow> (StoreError, Db) result" where
  "insert_request r db =
     (if \<exists>x \<in> set (db_requests db). rr_request_id x = rr_request_id r then Err StoreConflict
      else Ok (db\<lparr> db_requests := db_requests db @ [r] \<rparr>))"

definition insert_node_execution :: "NodeExecutionRow \<Rightarrow> Db \<Rightarrow> (StoreError, Db) result" where
  "insert_node_execution e db =
     (if \<not> (1 \<le> ne_max_attempts e \<and> ne_max_attempts e \<le> 100) then Err StoreInternal
      else if \<exists>x \<in> set (db_node_executions db). ne_node_run_id x = ne_node_run_id e \<and> ne_target_id x = ne_target_id e
      then Err StoreConflict
      else Ok (db\<lparr> db_node_executions := db_node_executions db @ [e] \<rparr>))"

definition MAX_PREPARED_COUNT :: nat where "MAX_PREPARED_COUNT = 4096"
definition MAX_PREPARED_BYTES :: nat where "MAX_PREPARED_BYTES = 8 * 1024 * 1024"

fun prepare_executions ::
  "(json \<Rightarrow> bytes option) \<Rightarrow> (ExecutionSnapshot \<Rightarrow> nat option) \<Rightarrow> uuid \<Rightarrow> uuid \<Rightarrow> json option \<Rightarrow> json
     \<Rightarrow> ExecutionRow list \<Rightarrow> nat \<Rightarrow> Db \<Rightarrow> nat transaction" where
  "prepare_executions encode snapshot_bytes nid ns shared inputs [] prepared db = Ok (db, prepared)"
| "prepare_executions encode snapshot_bytes nid ns shared inputs (e # es) prepared db =
     (if ex_namespace_id e \<noteq> ns then Err StoreInvalidData
      else let rid = db_next_id db in
        and_then (map_err (\<lambda>_. StoreInvalidData)
          (execution_snapshot_with_inputs encode rid e shared inputs TriggerManual None)) (\<lambda>s.
        and_then (ok_or StoreInternal (snapshot_bytes s)) (\<lambda>n.
        if prepared + n > MAX_PREPARED_BYTES then Err StoreWorkflowLaunchTooLarge
        else and_then (insert_node_execution \<lparr> ne_node_run_id = nid, ne_target_id = ex_target_id e,
               ne_prospective_run_id = rid, ne_run_id = None, ne_queue_id = ex_queue_id e,
               ne_max_attempts = ex_max_attempts e, ne_snapshot = Rendered s \<rparr> (db\<lparr> db_next_id := rid + 1 \<rparr>)) (\<lambda>db1.
             prepare_executions encode snapshot_bytes nid ns shared inputs es (prepared + n) db1))))"

definition insert_node_run :: "uuid \<Rightarrow> uuid \<Rightarrow> StoredNode \<Rightarrow> Db \<Rightarrow> Db" where
  "insert_node_run i nid node db =
     db\<lparr> db_node_runs := db_node_runs db @ [\<lparr> nr_id = nid, nr_workflow_run_id = i, nr_workflow_node_id = sn_id node,
       nr_name = sn_name node, nr_job_id = sn_job_id node, nr_state = NodePending, nr_started_at = None,
       nr_finished_at = None \<rparr>] \<rparr>"

fun prepare_nodes ::
  "(json \<Rightarrow> bytes option) \<Rightarrow> (ExecutionSnapshot \<Rightarrow> nat option) \<Rightarrow> uuid \<Rightarrow> uuid \<Rightarrow> WorkflowLaunch \<Rightarrow> StoredNode list
     \<Rightarrow> nat \<Rightarrow> nat \<Rightarrow> (bytes, uuid) btree \<Rightarrow> Db \<Rightarrow> (bytes, uuid) btree transaction" where
  "prepare_nodes encode snapshot_bytes i ns launch [] total_count prepared ids db = Ok (db, ids)"
| "prepare_nodes encode snapshot_bytes i ns launch (node # nodes) total_count prepared ids db =
     (let nid = db_next_id db;
          db1 = insert_node_run i nid node (db\<lparr> db_next_id := nid + 1 \<rparr>) in
      and_then (insert_request \<lparr> rr_request_id = nid, rr_namespace_id = ns, rr_job_id = sn_job_id node,
          rr_target_id = fst (selection_ids (la_target launch)), rr_target_set_id = snd (selection_ids (la_target launch)),
          rr_inputs = la_inputs launch \<rparr> db1) (\<lambda>db2.
      and_then (load_selection_executions db2 (sn_job_id node) (la_target launch)) (\<lambda>(executions, shared).
      if bset_of (map ex_target_id executions) \<noteq> bset_of (la_authorized_targets launch) then Err StoreStaleRevision
      else if total_count + length executions > MAX_PREPARED_COUNT then Err StoreWorkflowLaunchTooLarge
      else and_then (prepare_executions encode snapshot_bytes nid ns shared (la_inputs launch) executions prepared db2)
             (\<lambda>(db3, prepared').
           prepare_nodes encode snapshot_bytes i ns launch nodes (total_count + length executions) prepared'
             (bt_insert (resource_str (sn_name node)) nid ids) db3))))"

definition node_id :: "(bytes, uuid) btree \<Rightarrow> ResourceName \<Rightarrow> (StoreError, uuid) result" where
  "node_id ids name = ok_or StoreInternal (bt_get ids (resource_str name))"

definition run_edges :: "uuid \<Rightarrow> (bytes, uuid) btree \<Rightarrow> WorkflowEdge list \<Rightarrow> (StoreError, RunEdgeRow list) result" where
  "run_edges i ids edges =
     traverse (\<lambda>e. and_then (node_id ids (we_from e)) (\<lambda>a. and_then (node_id ids (we_to e)) (\<lambda>b.
       Ok \<lparr> re_workflow_run_id = i, re_from = a, re_to = b, re_condition = we_condition e \<rparr>))) edges"

fun activate_roots :: "timestamp \<Rightarrow> (bytes, uuid) btree \<Rightarrow> WorkflowEdge list \<Rightarrow> StoredNode list \<Rightarrow> Db \<Rightarrow> (StoreError, Db) result" where
  "activate_roots now ids edges [] db = Ok db"
| "activate_roots now ids edges (node # nodes) db =
     (if \<exists>e \<in> set edges. we_to e = sn_name node then activate_roots now ids edges nodes db
      else and_then (node_id ids (sn_name node)) (\<lambda>nid.
           and_then (activate now nid db) (activate_roots now ids edges nodes)))"

definition selection_exists :: "Db \<Rightarrow> TargetSelection \<Rightarrow> bool" where
  "selection_exists db t =
     (case t of SelectTarget i \<Rightarrow> \<exists>x \<in> set (db_targets db). target_id x = i
      | SelectTargetSet i \<Rightarrow> \<exists>x \<in> set (db_target_sets db). set_id x = i)"

definition invocation_row :: "timestamp \<Rightarrow> WorkflowLaunch \<Rightarrow> StoredWorkflow \<Rightarrow> uuid \<Rightarrow> WorkflowRunRow" where
  "invocation_row now launch d i =
     \<lparr> wr_id = i, wr_request_id = la_request_id launch, wr_workflow_id = la_workflow_id launch,
       wr_namespace_id = sw_namespace_id d, wr_definition = d,
       wr_target_id = fst (selection_ids (la_target launch)),
       wr_target_set_id = snd (selection_ids (la_target launch)), wr_inputs = la_inputs launch,
       wr_state = WorkflowRunning, wr_cancellation_requested = False, wr_created_at = now,
       wr_started_at = Some now, wr_finished_at = None \<rparr>"

definition insert_invocation :: "timestamp \<Rightarrow> WorkflowLaunch \<Rightarrow> StoredWorkflow \<Rightarrow> Db \<Rightarrow> uuid transaction" where
  "insert_invocation now launch d db =
     (if \<not> selection_exists db (la_target launch) then Err StoreInUse
      else let i = db_next_id db in
        Ok (db\<lparr> db_next_id := i + 1, db_workflow_runs := db_workflow_runs db @ [invocation_row now launch d i] \<rparr>, i))"

definition start_new ::
  "(json \<Rightarrow> bytes option) \<Rightarrow> (ExecutionSnapshot \<Rightarrow> nat option) \<Rightarrow> timestamp \<Rightarrow> WorkflowLaunch \<Rightarrow> Db \<Rightarrow> uuid transaction" where
  "start_new encode snapshot_bytes now launch db =
     and_then (catalog db (la_workflow_id launch)) (\<lambda>d.
     and_then (ensure (sw_revision d = la_revision launch) StoreStaleRevision) (\<lambda>_.
     and_then (insert_invocation now launch d db) (\<lambda>(db1, i).
     and_then (prepare_nodes encode snapshot_bytes i (sw_namespace_id d) launch (sw_nodes d) 0 0 [] db1) (\<lambda>(db2, ids).
     and_then (run_edges i ids (sw_edges d)) (\<lambda>edges.
     and_then (activate_roots now ids (sw_edges d) (sw_nodes d) (db2\<lparr> db_run_edges := db_run_edges db2 @ edges \<rparr>)) (\<lambda>db3.
     Ok (db3, i)))))))"

definition start_workflow ::
  "(json \<Rightarrow> bytes option) \<Rightarrow> (ExecutionSnapshot \<Rightarrow> nat option) \<Rightarrow> (json \<Rightarrow> json \<Rightarrow> bool) \<Rightarrow> timestamp \<Rightarrow> WorkflowLaunch
     \<Rightarrow> Db \<Rightarrow> (WorkflowRunRecord \<times> bool) transaction" where
  "start_workflow encode snapshot_bytes jsonb_eq now launch db =
     (case find (\<lambda>w. wr_request_id w = la_request_id launch) (db_workflow_runs db) of
        Some w \<Rightarrow>
          and_then (invocation db VisibleAll (wr_id w)) (\<lambda>record.
          if wrec_id (wrr_workflow record) \<noteq> la_workflow_id launch \<or> wrr_target record \<noteq> la_target launch \<or>
             \<not> json_inputs_equal jsonb_eq (wrr_inputs record) (la_inputs launch)
          then Err StoreIdempotencyConflict else Ok (db, record, False))
      | None \<Rightarrow>
          and_then (start_new encode snapshot_bytes now launch db) (\<lambda>(db1, i).
          and_then (invocation db1 VisibleAll i) (\<lambda>record. Ok (db1, record, True))))"

section \<open>Completion and propagation\<close>

definition child_statuses :: "Db \<Rightarrow> uuid \<Rightarrow> RunStatus list" where
  "child_statuses db nid =
     concat (map (\<lambda>e. case ne_run_id e of None \<Rightarrow> []
                   | Some rid \<Rightarrow> map run_status (filter (\<lambda>r. run_id r = rid) (db_runs db)))
       (filter (\<lambda>e. ne_node_run_id e = nid) (db_node_executions db)))"

definition aggregate :: "RunStatus list \<Rightarrow> WorkflowNodeState" where
  "aggregate ss =
     (if Unknown \<in> set ss then NodeUnknown
      else if Failed \<in> set ss \<or> Dead \<in> set ss then NodeFailed
      else if Cancelled \<in> set ss then NodeCancelled
      else if Skipped \<in> set ss then NodeSkipped
      else NodeSucceeded)"

definition complete_node :: "timestamp \<Rightarrow> uuid \<Rightarrow> Db \<Rightarrow> Db \<times> bool" where
  "complete_node now nid db =
     (let ss = child_statuses db nid in
      if ss = [] \<or> (\<exists>s \<in> set ss. s = PendingDispatch \<or> s = Queued \<or> s = Running \<or> s = RetryWait) then (db, False)
      else let mine = (\<lambda>n. nr_id n = nid \<and> nr_state n = NodeRunning) in
        (update_node_runs mine (\<lambda>n. n\<lparr> nr_state := aggregate ss, nr_finished_at := Some now \<rparr>) db,
         length (filter mine (db_node_runs db)) = 1))"

definition outgoing :: "Db \<Rightarrow> uuid \<Rightarrow> uuid list" where
  "outgoing db nid = sort (map re_to (filter (\<lambda>e. re_from e = nid) (db_run_edges db)))"

definition incoming :: "Db \<Rightarrow> uuid \<Rightarrow> (DependencyCondition \<times> WorkflowNodeState) list" where
  "incoming db nid =
     concat (map (\<lambda>e. map (\<lambda>n. (re_condition e, nr_state n)) (filter (\<lambda>n. nr_id n = re_from e) (db_node_runs db)))
       (sort_key re_from (filter (\<lambda>e. re_to e = nid) (db_run_edges db))))"

definition skip_node :: "timestamp \<Rightarrow> uuid \<Rightarrow> Db \<Rightarrow> Db" where
  "skip_node now nid db =
     update_node_runs (\<lambda>n. nr_id n = nid \<and> nr_state n = NodePending)
       (\<lambda>n. n\<lparr> nr_state := NodeSkipped, nr_finished_at := Some now \<rparr>) db"

text \<open>The row \<open>fetch_one\<close> reads; without one the statement fails.\<close>

definition node_active :: "Db \<Rightarrow> uuid \<Rightarrow> (StoreError, bool) result" where
  "node_active db nid =
     (case find (\<lambda>n. nr_id n = nid \<and> (\<exists>w \<in> set (db_workflow_runs db). wr_id w = nr_workflow_run_id n)) (db_node_runs db) of
        None \<Rightarrow> Err StoreInternal
      | Some n \<Rightarrow> Ok (nr_state n = NodePending \<and>
          (case find (\<lambda>w. wr_id w = nr_workflow_run_id n) (db_workflow_runs db) of
             Some w \<Rightarrow> \<not> wr_cancellation_requested w | None \<Rightarrow> False)))"

definition pending_nodes :: "Db \<Rightarrow> nat" where
  "pending_nodes db = length (filter (\<lambda>n. nr_state n = NodePending) (db_node_runs db))"

text \<open>Framing of the launch and activation steps on the node table.\<close>

lemma update_node_runs_frame [simp]:
  "db_node_runs (update_node_runs p f db) = update_where p f (db_node_runs db)"
  "db_runs (update_node_runs p f db) = db_runs db" "db_attempts (update_node_runs p f db) = db_attempts db"
  "db_outbox (update_node_runs p f db) = db_outbox db" "db_next_id (update_node_runs p f db) = db_next_id db"
  "db_run_edges (update_node_runs p f db) = db_run_edges db" "db_workflow_runs (update_node_runs p f db) = db_workflow_runs db"
  "db_node_executions (update_node_runs p f db) = db_node_executions db"
  "db_completion_events (update_node_runs p f db) = db_completion_events db" "db_requests (update_node_runs p f db) = db_requests db"
  by (simp_all add: update_node_runs_def)

lemma update_node_executions_frame [simp]:
  "db_node_runs (update_node_executions p f db) = db_node_runs db"
  "db_runs (update_node_executions p f db) = db_runs db" "db_attempts (update_node_executions p f db) = db_attempts db"
  "db_outbox (update_node_executions p f db) = db_outbox db" "db_next_id (update_node_executions p f db) = db_next_id db"
  "db_run_edges (update_node_executions p f db) = db_run_edges db"
  "db_workflow_runs (update_node_executions p f db) = db_workflow_runs db"
  "db_node_executions (update_node_executions p f db) = update_where p f (db_node_executions db)"
  "db_completion_events (update_node_executions p f db) = db_completion_events db"
  "db_requests (update_node_executions p f db) = db_requests db"
  by (simp_all add: update_node_executions_def)

lemma create_normal_run_frame:
  assumes "create_normal_run now p db = Inr db'"
  shows "db_node_runs db' = db_node_runs db" "db_run_edges db' = db_run_edges db"
    "db_workflow_runs db' = db_workflow_runs db" "db_node_executions db' = db_node_executions db"
    "db_completion_events db' = db_completion_events db"
  using assms
  by (auto simp: create_normal_run_def insert_run_def create_attempt_and_outbox_def insert_run_event_def Let_def split: if_splits)

lemma activate_executions_frame:
  "activate_executions now nid jid es db = Inr db' \<Longrightarrow>
     db_node_runs db' = db_node_runs db \<and> db_run_edges db' = db_run_edges db \<and>
     db_workflow_runs db' = db_workflow_runs db \<and> db_completion_events db' = db_completion_events db"
proof (induction now nid jid es db rule: activate_executions.induct)
  case (2 now nid jid e es db)
  from 2(2) obtain d where d: "create_normal_run now \<lparr> pr_id = ne_prospective_run_id e, pr_request_id = nid, pr_job_id = jid,
         pr_target_id = ne_target_id e, pr_queue_id = ne_queue_id e, pr_max_attempts = ne_max_attempts e,
         pr_snapshot = ne_snapshot e \<rparr> db = Inr d" by (auto elim: and_thenE)
  show ?case using 2(1) [of d] 2(2) d create_normal_run_frame [OF d] by simp
qed simp

lemma activate_cases:
  assumes "activate now nid db = Inr db'"
  obtains (inactive) "db' = db" "\<forall>n \<in> set (db_node_runs db). \<not> activatable db nid n"
  | (active) n where "n \<in> set (db_node_runs db)" "activatable db nid n"
      "db_node_runs db' = update_where (activatable db nid) (\<lambda>n. n\<lparr> nr_state := NodeRunning, nr_started_at := Some now \<rparr>) (db_node_runs db)"
      "db_run_edges db' = db_run_edges db" "db_workflow_runs db' = db_workflow_runs db"
      "db_completion_events db' = db_completion_events db"
      "activate_executions now nid (nr_job_id n)
         (sort_key ne_target_id (filter (\<lambda>e. ne_node_run_id e = nid) (db_node_executions db)))
         (update_node_runs (activatable db nid) (\<lambda>n. n\<lparr> nr_state := NodeRunning, nr_started_at := Some now \<rparr>) db) = Inr db'"
proof (cases "find (activatable db nid) (db_node_runs db)")
  case None
  then have "db' = db" using assms by (simp add: activate_def)
  then show thesis by (rule inactive) (use None in \<open>simp add: find_None_iff\<close>)
next
  case (Some n)
  then have step: "activate_executions now nid (nr_job_id n)
         (sort_key ne_target_id (filter (\<lambda>e. ne_node_run_id e = nid) (db_node_executions db)))
         (update_node_runs (activatable db nid) (\<lambda>n. n\<lparr> nr_state := NodeRunning, nr_started_at := Some now \<rparr>) db) = Inr db'"
    using assms by (simp add: activate_def)
  show thesis
    by (rule active [of n]) (use find_Some_in [OF Some] activate_executions_frame [OF step] step in simp_all)
qed

lemma length_filter_update_where_le:
  "(\<And>x. p x \<Longrightarrow> \<not> q (f x)) \<Longrightarrow> length (filter q (update_where p f xs)) \<le> length (filter q xs)"
  by (induction xs) auto

lemma length_filter_update_where_less:
  assumes "\<And>x. p x \<Longrightarrow> \<not> q (f x)" "x \<in> set xs" "p x" "q x"
  shows "length (filter q (update_where p f xs)) < length (filter q xs)"
  using assms(2-)
proof (induction xs)
  case (Cons y ys)
  then show ?case
    using assms(1) length_filter_update_where_le [of p q f ys] by (auto simp: less_Suc_eq_le)
qed simp

lemma activate_pending: "activate now nid db = Inr db' \<Longrightarrow> pending_nodes db' \<le> pending_nodes db"
  by (erule activate_cases) (simp_all add: pending_nodes_def length_filter_update_where_le)

lemma node_active_True:
  assumes "node_active db nid = Inr True"
  obtains n where "n \<in> set (db_node_runs db)" "nr_id n = nid" "nr_state n = NodePending"
  using assms by (auto simp: node_active_def dest!: find_Some_in split: option.splits)

lemma skip_pending:
  assumes "node_active db nid = Inr True"
  shows "pending_nodes (skip_node now nid db) < pending_nodes db"
proof -
  obtain n where "n \<in> set (db_node_runs db)" "nr_id n = nid" "nr_state n = NodePending" using node_active_True [OF assms] .
  then show ?thesis
    unfolding pending_nodes_def skip_node_def update_node_runs_frame
    by (intro length_filter_update_where_less [of _ _ _ n]) simp_all
qed

function propagate :: "timestamp \<Rightarrow> uuid list \<Rightarrow> Db \<Rightarrow> (StoreError, Db) result" where
  "propagate now [] db = Ok db"
| "propagate now (nid # queue) db =
     (case node_active db nid of
        Inl e \<Rightarrow> Err e
      | Inr act \<Rightarrow>
          if \<not> act then propagate now queue db
          else case dependency_decision (incoming db nid) of
                 DepWaiting \<Rightarrow> propagate now queue db
               | DepReady \<Rightarrow>
                   (case activate now nid db of Inl e \<Rightarrow> Err e | Inr db' \<Rightarrow> propagate now queue db')
               | DepSkipped \<Rightarrow>
                   propagate now (queue @ outgoing (skip_node now nid db) nid) (skip_node now nid db))"
  by pat_completeness auto
termination
proof (relation "measures [\<lambda>(now, queue, db). pending_nodes db, \<lambda>(now, queue, db). length queue]")
  fix now nid queue db db' act
  assume "activate now nid db = Inr db'"
  then show "((now, queue, db'), now, nid # queue, db) \<in>
      measures [\<lambda>(now, queue, db). pending_nodes db, \<lambda>(now, queue, db). length queue]"
    using activate_pending [of now nid db db'] by auto
next
  fix now nid queue db and act :: bool
  assume "node_active db nid = Inr act" "\<not> \<not> act"
  then show "((now, queue @ outgoing (skip_node now nid db) nid, skip_node now nid db), now, nid # queue, db) \<in>
      measures [\<lambda>(now, queue, db). pending_nodes db, \<lambda>(now, queue, db). length queue]"
    using skip_pending by simp
qed auto

definition finish :: "timestamp \<Rightarrow> uuid \<Rightarrow> Db \<Rightarrow> Db" where
  "finish now i db =
     (let states = (\<lambda>w. map nr_state (filter (\<lambda>n. nr_workflow_run_id n = wr_id w) (db_node_runs db))) in
      update_workflow_runs (\<lambda>w. wr_id w = i \<and> wr_state w = WorkflowRunning \<and> (\<forall>s \<in> set (states w). node_is_terminal s))
        (\<lambda>w. w\<lparr> wr_state := (if wr_cancellation_requested w then WorkflowCancelled
                 else if \<exists>s \<in> set (states w). s = NodeFailed \<or> s = NodeUnknown \<or> s = NodeCancelled then WorkflowFailed
                 else WorkflowSucceeded),
               wr_finished_at := Some now \<rparr>) db)"

fun complete_nodes :: "timestamp \<Rightarrow> uuid list \<Rightarrow> uuid list \<Rightarrow> Db \<Rightarrow> Db \<times> uuid list" where
  "complete_nodes now [] downstream db = (db, downstream)"
| "complete_nodes now (nid # nids) downstream db =
     (case complete_node now nid db of
        (db1, changed) \<Rightarrow> complete_nodes now nids (if changed then downstream @ outgoing db1 nid else downstream) db1)"

definition reconcile_invocation :: "timestamp \<Rightarrow> uuid \<Rightarrow> Db \<Rightarrow> (StoreError, Db) result" where
  "reconcile_invocation now i db =
     (let events = filter (\<lambda>c. ce_workflow_run_id c = i) (db_completion_events db);
          affected = bset_of (map ce_node_run_id events) in
      case complete_nodes now affected [] db of
        (db1, downstream) \<Rightarrow>
          and_then (propagate now downstream db1) (\<lambda>db2.
          let db3 = finish now i db2 in
          Ok (db3\<lparr> db_completion_events := filter (\<lambda>c. ce_run_id c \<notin> set (map ce_run_id events)) (db_completion_events db3) \<rparr>)))"

definition next_invocation :: "(uuid \<Rightarrow> bool) \<Rightarrow> Db \<Rightarrow> uuid option" where
  "next_invocation locked db =
     find (\<lambda>i. \<not> locked i \<and> (\<exists>w \<in> set (db_workflow_runs db). wr_id w = i))
       (take 100 (bset_of (map ce_workflow_run_id (db_completion_events db))))"

text \<open>Each invocation is its own transaction, so the invocations before an error stay committed.\<close>

fun reconcile_workflows :: "timestamp \<Rightarrow> (uuid \<Rightarrow> bool) \<Rightarrow> nat \<Rightarrow> nat \<Rightarrow> Db \<Rightarrow> Db \<times> (StoreError, nat) result" where
  "reconcile_workflows now locked 0 total_count db = (db, Ok total_count)"
| "reconcile_workflows now locked (Suc limit) total_count db =
     (case next_invocation locked db of
        None \<Rightarrow> (db, Ok total_count)
      | Some i \<Rightarrow>
          (case reconcile_invocation now i db of
             Inl e \<Rightarrow> (db, Err e)
           | Inr db' \<Rightarrow> reconcile_workflows now locked limit (total_count + 1) db'))"

definition cancel_workflow :: "timestamp \<Rightarrow> uuid \<Rightarrow> Db \<Rightarrow> WorkflowRunRecord transaction" where
  "cancel_workflow now i db =
     (case find (\<lambda>w. wr_id w = i) (db_workflow_runs db) of
        None \<Rightarrow> Err StoreNotFound
      | Some w \<Rightarrow>
          let db1 = (if wr_state w = WorkflowRunning
                then finish now i
                  (update_node_runs (\<lambda>n. nr_workflow_run_id n = i \<and> (nr_state n = NodePending \<or> nr_state n = NodeReady))
                     (\<lambda>n. n\<lparr> nr_state := NodeCancelled, nr_finished_at := Some now \<rparr>)
                  (update_workflow_runs (\<lambda>w. wr_id w = i) (\<lambda>w. w\<lparr> wr_cancellation_requested := True \<rparr>) db))
                else db) in
          and_then (invocation db1 VisibleAll i) (\<lambda>record. Ok (db1, record)))"

text \<open>\<open>reconcile\<close> of the store: the Run transaction, then the Workflow pass.\<close>

definition reconcile ::
  "timestamp \<Rightarrow> (uuid \<Rightarrow> bool) \<Rightarrow> (bytes \<Rightarrow> bool) \<Rightarrow> nat \<Rightarrow> Db \<Rightarrow> Db \<times> (StoreError, nat) result" where
  "reconcile now locked worker_locked limit db =
     (case reconcile_runs now locked worker_locked limit db of
        Inl e \<Rightarrow> (db, Err e)
      | Inr (db1, repaired) \<Rightarrow>
          (case reconcile_workflows now locked limit 0 db1 of
             (db2, Inl e) \<Rightarrow> (db2, Err e)
           | (db2, Inr changes) \<Rightarrow> (db2, Ok (repaired + changes))))"

end
