(* ===== verification/WorkflowService.thy ===== *)
theory WorkflowService
  imports Service WorkflowEngine
begin

text \<open>
  The Workflow operations of the application service (\<open>application/workflows.rs\<close>) and the table of all
  requests that can change the store, with the decisions each of them requires.
\<close>

section \<open>Definitions\<close>

record WorkflowInput =
  wi_name :: bytes
  wi_description :: "bytes option"
  wi_nodes :: "(bytes \<times> uuid) list"
  wi_edges :: "(bytes \<times> bytes \<times> DependencyCondition) list"

definition input_node :: "bytes \<times> uuid \<Rightarrow> WorkflowNode service" where
  "input_node x = and_then (resource_name (fst x)) (\<lambda>name. Ok \<lparr> wn_name = name, wn_job_id = snd x \<rparr>)"

definition input_edge :: "bytes \<times> bytes \<times> DependencyCondition \<Rightarrow> WorkflowEdge service" where
  "input_edge x =
     and_then (resource_name (fst x)) (\<lambda>a.
     and_then (resource_name (fst (snd x))) (\<lambda>b.
     Ok \<lparr> we_from = a, we_to = b, we_condition = snd (snd x) \<rparr>))"

definition input_definition :: "WorkflowInput \<Rightarrow> WorkflowDefinition service" where
  "input_definition input =
     and_then (resource_name (wi_name input)) (\<lambda>name.
     and_then (traverse input_node (wi_nodes input)) (\<lambda>nodes.
     and_then (traverse input_edge (wi_edges input)) (\<lambda>edges.
     let d = \<lparr> wd_name = name, wd_description = wi_description input, wd_nodes = nodes, wd_edges = edges \<rparr> in
     and_then (ensure (validate_workflow d = Some (Ok ())) app_invalid_request) (\<lambda>_. Ok d))))"

fun validate_workflow_jobs :: "GrantSet \<Rightarrow> uuid \<Rightarrow> WorkflowNode list \<Rightarrow> Capability \<Rightarrow> Db \<Rightarrow> unit service" where
  "validate_workflow_jobs g n [] c db = Ok ()"
| "validate_workflow_jobs g n (node # nodes) c db =
     and_then (allow db g c (JobScope (wn_job_id node))) (\<lambda>_.
     and_then (store_call (get_job db (wn_job_id node))) (\<lambda>j.
     and_then (ensure (job_namespace_id (jrec_job j) = n) app_invalid_request) (\<lambda>_.
     validate_workflow_jobs g n nodes c db)))"

definition visible_namespace :: "VisibilityScope \<Rightarrow> uuid \<Rightarrow> unit service" where
  "visible_namespace vis n = ensure (visible vis n) AppNotFound"

definition app_create_workflow :: "timestamp \<Rightarrow> GrantSet \<Rightarrow> uuid \<Rightarrow> WorkflowInput \<Rightarrow> Db \<Rightarrow> (Db \<times> WorkflowRecord) service" where
  "app_create_workflow now g n input db =
     and_then (allow db g WorkflowCreate (NamespaceScope n)) (\<lambda>_.
     and_then (input_definition input) (\<lambda>d.
     and_then (validate_workflow_jobs g n (wd_nodes d) JobRead db) (\<lambda>_.
     store_call (write_workflow now n None d db))))"

definition app_update_workflow ::
  "timestamp \<Rightarrow> GrantSet \<Rightarrow> uuid \<Rightarrow> int \<Rightarrow> WorkflowInput \<Rightarrow> Db \<Rightarrow> (Db \<times> WorkflowRecord) service" where
  "app_update_workflow now g i revision input db =
     and_then (allow db g WorkflowUpdate (WorkflowScope i)) (\<lambda>_.
     and_then (store_call (catalog_record db i)) (\<lambda>existing.
     and_then (input_definition input) (\<lambda>d.
     and_then (validate_workflow_jobs g (wrec_namespace_id existing) (wd_nodes d) JobRead db) (\<lambda>_.
     store_call (write_workflow now (wrec_namespace_id existing) (Some (i, revision)) d db)))))"

definition app_get_workflow :: "GrantSet \<Rightarrow> uuid \<Rightarrow> Db \<Rightarrow> WorkflowRecord service" where
  "app_get_workflow g i db =
     and_then (allow db g WorkflowRead (WorkflowScope i)) (\<lambda>_.
     and_then (store_call (catalog_record db i)) (\<lambda>record.
     and_then (see g WorkflowRead) (\<lambda>vis.
     and_then (visible_namespace vis (wrec_namespace_id record)) (\<lambda>_. Ok record))))"

definition app_list_workflows :: "GrantSet \<Rightarrow> uuid \<Rightarrow> nat option \<Rightarrow> bytes option \<Rightarrow> Db \<Rightarrow> WorkflowRecord Page service" where
  "app_list_workflows g n limit after db =
     and_then (allow db g WorkflowRead (NamespaceScope n)) (\<lambda>_.
     and_then (see g WorkflowRead) (\<lambda>vis.
     and_then (visible_namespace vis n) (\<lambda>_.
     and_then (store_call (get_namespace db n)) (\<lambda>_.
     and_then (page_limit limit) (\<lambda>limit.
     and_then (page_cursor after) (\<lambda>after.
     store_call (list_workflows vis n limit after db)))))))"

definition app_delete_workflow :: "GrantSet \<Rightarrow> uuid \<Rightarrow> Db \<Rightarrow> (Db \<times> unit) service" where
  "app_delete_workflow g i db =
     and_then (allow db g WorkflowDelete (WorkflowScope i)) (\<lambda>_. store_call (delete_workflow i db))"

section \<open>Invocations\<close>

fun allow_all :: "GrantSet \<Rightarrow> Capability \<Rightarrow> ResourceScope list \<Rightarrow> Db \<Rightarrow> unit service" where
  "allow_all g c [] db = Ok ()"
| "allow_all g c (r # rs) db = and_then (allow db g c r) (\<lambda>_. allow_all g c rs db)"

definition authorize_workflow_replay :: "GrantSet \<Rightarrow> WorkflowRunRecord \<Rightarrow> Db \<Rightarrow> unit service" where
  "authorize_workflow_replay g run db =
     and_then (allow_all g JobExecute (map (\<lambda>n. JobScope (nrec_job_id n)) (wrr_nodes run)) db) (\<lambda>_.
     and_then (case wrr_target run of
         SelectTarget _ \<Rightarrow> Ok ()
       | SelectTargetSet i \<Rightarrow> allow db g TargetSetUse (TargetSetScope i)) (\<lambda>_.
     and_then (allow_all g TargetUse (map TargetScope (workflow_targets db (wrr_id run))) db) (\<lambda>_.
     allow db g RunCreate (NamespaceScope (wrec_namespace_id (wrr_workflow run))))))"

fun validate_node_executions ::
  "(json \<Rightarrow> bytes option) \<Rightarrow> json option \<Rightarrow> Target list \<Rightarrow> json \<Rightarrow> WorkflowNode list \<Rightarrow> Db \<Rightarrow> unit service" where
  "validate_node_executions encode shared targets inputs [] db = Ok ()"
| "validate_node_executions encode shared targets inputs (node # nodes) db =
     and_then (store_call (get_job db (wn_job_id node))) (\<lambda>j.
     and_then (validate_executions encode (jrec_job j) shared targets inputs) (\<lambda>_.
     validate_node_executions encode shared targets inputs nodes db))"

text \<open>The launch of a new invocation: everything it would run is authorized and rendered first.\<close>

definition app_launch ::
  "(json \<Rightarrow> bytes option) \<Rightarrow> (ExecutionSnapshot \<Rightarrow> nat option) \<Rightarrow> (json \<Rightarrow> json \<Rightarrow> bool) \<Rightarrow> timestamp \<Rightarrow> GrantSet
     \<Rightarrow> uuid \<Rightarrow> uuid \<Rightarrow> TargetSelection \<Rightarrow> json \<Rightarrow> Db \<Rightarrow> (Db \<times> WorkflowRunRecord \<times> bool) service" where
  "app_launch encode snapshot_bytes jsonb_eq now g i request_id target inputs db =
     and_then (store_call (catalog_record db i)) (\<lambda>workflow.
     and_then (execution_targets g target db) (\<lambda>(n, shared, targets).
     and_then (ensure (n = wrec_namespace_id workflow) app_invalid_request) (\<lambda>_.
     and_then (validate_workflow_jobs g n (wd_nodes (wrec_definition workflow)) JobExecute db) (\<lambda>_.
     and_then (validate_node_executions encode shared targets inputs (wd_nodes (wrec_definition workflow)) db) (\<lambda>_.
     and_then (allow db g RunCreate (NamespaceScope n)) (\<lambda>_.
     and_then (store_call (start_workflow encode snapshot_bytes jsonb_eq now
       \<lparr> la_workflow_id = i, la_revision = wrec_revision workflow, la_request_id = request_id, la_target = target,
         la_inputs = inputs, la_authorized_targets = map target_id targets \<rparr> db)) (\<lambda>(db', record, created).
     and_then (if created then Ok () else authorize_workflow_replay g record db') (\<lambda>_.
     Ok (db', record, created)))))))))"

definition app_start_workflow ::
  "(json \<Rightarrow> bytes option) \<Rightarrow> (ExecutionSnapshot \<Rightarrow> nat option) \<Rightarrow> (json \<Rightarrow> json \<Rightarrow> bool) \<Rightarrow> timestamp \<Rightarrow> GrantSet
     \<Rightarrow> uuid \<Rightarrow> uuid \<Rightarrow> TargetSelection \<Rightarrow> json \<Rightarrow> Db \<Rightarrow> (Db \<times> WorkflowRunRecord \<times> bool) service" where
  "app_start_workflow encode snapshot_bytes jsonb_eq now g i request_id target inputs db =
     and_then (allow db g WorkflowExecute (WorkflowScope i)) (\<lambda>_.
     and_then (validate_input_object encode inputs) (\<lambda>_.
     and_then (store_call (workflow_for_request jsonb_eq request_id inputs db)) (\<lambda>found.
     case found of
       Some existing \<Rightarrow>
         and_then (ensure (\<not> (wrec_id (wrr_workflow existing) \<noteq> i \<or> wrr_target existing \<noteq> target)) AppIdempotencyConflict) (\<lambda>_.
         and_then (authorize_workflow_replay g existing db) (\<lambda>_. Ok (db, existing, False)))
     | None \<Rightarrow> app_launch encode snapshot_bytes jsonb_eq now g i request_id target inputs db)))"

definition app_get_workflow_run :: "GrantSet \<Rightarrow> uuid \<Rightarrow> Db \<Rightarrow> WorkflowRunRecord service" where
  "app_get_workflow_run g i db =
     and_then (allow db g WorkflowRunRead (WorkflowRunScope i)) (\<lambda>_.
     and_then (see g WorkflowRunRead) (\<lambda>vis. store_call (invocation db vis i)))"

definition app_list_workflow_runs ::
  "(uuid \<Rightarrow> bytes) \<Rightarrow> GrantSet \<Rightarrow> uuid \<Rightarrow> nat option \<Rightarrow> uuid option \<Rightarrow> Db \<Rightarrow> WorkflowRunRecord Page service" where
  "app_list_workflow_runs uuid_str g i limit before db =
     and_then (allow db g WorkflowRunRead (WorkflowScope i)) (\<lambda>_.
     and_then (store_call (catalog_record db i)) (\<lambda>workflow.
     and_then (see g WorkflowRunRead) (\<lambda>vis.
     and_then (visible_namespace vis (wrec_namespace_id workflow)) (\<lambda>_.
     and_then (page_limit limit) (\<lambda>limit.
     store_call (list_workflow_runs uuid_str vis i limit before db))))))"

definition app_cancel_workflow_run :: "timestamp \<Rightarrow> GrantSet \<Rightarrow> uuid \<Rightarrow> Db \<Rightarrow> (Db \<times> WorkflowRunRecord) service" where
  "app_cancel_workflow_run now g i db =
     and_then (app_get_workflow_run g i db) (\<lambda>record.
     and_then (allow db g WorkflowRunCancel (WorkflowRunScope (wrr_id record))) (\<lambda>_.
     store_call (cancel_workflow now (wrr_id record) db)))"

end
