(* ===== verification/Requests.thy ===== *)
theory Requests
  imports WorkflowService
begin

text \<open>
  All requests that can change the store, as one table over the operations of the application
  service, and the decisions each of them requires.
\<close>

datatype Request =
    ReqCreateNamespace bytes
  | ReqDeleteNamespace uuid
  | ReqCreateQueue bytes "bytes option"
  | ReqUpdateQueue uuid bytes "bytes option" bool
  | ReqDeleteQueue uuid
  | ReqCreateJob uuid CreateJobInput
  | ReqUpdateJob uuid CreateJobInput
  | ReqCreateTarget uuid bytes "bytes list" json
  | ReqUpdateTarget uuid bytes "bytes list" json
  | ReqDeleteTarget uuid
  | ReqCreateTargetSet uuid bytes "uuid list" json
  | ReqUpdateTargetSet uuid bytes "uuid list" json
  | ReqCreateSchedule uuid CreateScheduleInput
  | ReqSetScheduleEnabled uuid int bool
  | ReqCreateRun uuid uuid TargetSelection json
  | ReqRerunRun uuid uuid
  | ReqCreateWorkflow uuid WorkflowInput
  | ReqUpdateWorkflow uuid int WorkflowInput
  | ReqDeleteWorkflow uuid
  | ReqStartWorkflow uuid uuid TargetSelection json
  | ReqCancelWorkflowRun uuid

text \<open>The code outside the repository a request depends on.\<close>

record 'tz ServiceEnv =
  se_encode :: "json \<Rightarrow> bytes option"
  se_snapshot_bytes :: "ExecutionSnapshot \<Rightarrow> nat option"
  se_jsonb_eq :: "json \<Rightarrow> json \<Rightarrow> bool"
  se_cron :: "'tz cron_library"

abbreviation changed :: "(Db \<times> 'a) service \<Rightarrow> Db service" where
  "changed r \<equiv> and_then r (\<lambda>x. Ok (fst x))"

fun serve :: "'tz ServiceEnv \<Rightarrow> timestamp \<Rightarrow> timestamp \<Rightarrow> GrantSet \<Rightarrow> Request \<Rightarrow> Db \<Rightarrow> Db service" where
  "serve E now utc g (ReqCreateNamespace v) db = changed (app_create_namespace now g v db)"
| "serve E now utc g (ReqDeleteNamespace i) db = changed (app_delete_namespace g i db)"
| "serve E now utc g (ReqCreateQueue n d) db = changed (app_create_queue now g n d db)"
| "serve E now utc g (ReqUpdateQueue i n d e) db = changed (app_update_queue now g i n d e db)"
| "serve E now utc g (ReqDeleteQueue i) db = changed (app_delete_queue g i db)"
| "serve E now utc g (ReqCreateJob n input) db = changed (app_create_job (se_encode E) now g n input db)"
| "serve E now utc g (ReqUpdateJob i input) db = changed (app_update_job (se_encode E) now g i input db)"
| "serve E now utc g (ReqCreateTarget n v args inputs) db = changed (app_create_target (se_encode E) now g n v args inputs db)"
| "serve E now utc g (ReqUpdateTarget i v args inputs) db = changed (app_update_target (se_encode E) now g i v args inputs db)"
| "serve E now utc g (ReqDeleteTarget i) db = changed (app_delete_target g i db)"
| "serve E now utc g (ReqCreateTargetSet n v ids inputs) db = changed (app_create_target_set (se_encode E) now g n v ids inputs db)"
| "serve E now utc g (ReqUpdateTargetSet i v ids inputs) db = changed (app_update_target_set (se_encode E) now g i v ids inputs db)"
| "serve E now utc g (ReqCreateSchedule n input) db = changed (app_create_schedule (se_encode E) (se_cron E) now utc g n input db)"
| "serve E now utc g (ReqSetScheduleEnabled i r e) db = changed (app_set_schedule_enabled (se_cron E) now utc g i r e db)"
| "serve E now utc g (ReqCreateRun q j t inputs) db = changed (app_create_run (se_encode E) (se_jsonb_eq E) now g q j t inputs db)"
| "serve E now utc g (ReqRerunRun i q) db = changed (app_rerun_run now g i q db)"
| "serve E now utc g (ReqCreateWorkflow n input) db = changed (app_create_workflow now g n input db)"
| "serve E now utc g (ReqUpdateWorkflow i r input) db = changed (app_update_workflow now g i r input db)"
| "serve E now utc g (ReqDeleteWorkflow i) db = changed (app_delete_workflow g i db)"
| "serve E now utc g (ReqStartWorkflow i q t inputs) db =
     changed (app_start_workflow (se_encode E) (se_snapshot_bytes E) (se_jsonb_eq E) now g i q t inputs db)"
| "serve E now utc g (ReqCancelWorkflowRun i) db = changed (app_cancel_workflow_run now g i db)"

text \<open>What a principal must be allowed for a request to take effect.\<close>

definition selection_decisions :: "Db \<Rightarrow> TargetSelection \<Rightarrow> (Capability \<times> ResourceScope) list" where
  "selection_decisions db t =
     (case t of
        SelectTarget i \<Rightarrow> [(TargetUse, TargetScope i)]
      | SelectTargetSet i \<Rightarrow> (TargetSetUse, TargetSetScope i) #
          (case get_target_set db i of Inl _ \<Rightarrow> [] | Inr r \<Rightarrow> map (\<lambda>t. (TargetUse, TargetScope (target_id t))) (tsrec_targets r)))"

fun required :: "Request \<Rightarrow> Db \<Rightarrow> (Capability \<times> ResourceScope) list" where
  "required (ReqCreateNamespace v) db = [(NamespaceCreate, ControlPlane)]"
| "required (ReqDeleteNamespace i) db = [(NamespaceDelete, NamespaceScope i)]"
| "required (ReqCreateQueue n d) db = [(QueueCreate, ControlPlane)]"
| "required (ReqUpdateQueue i n d e) db = [(QueueUpdate, QueueScope i)]"
| "required (ReqDeleteQueue i) db = [(QueueDelete, QueueScope i)]"
| "required (ReqCreateJob n input) db = [(JobCreate, NamespaceScope n), (QueueRead, QueueScope (jd_queue_id (ji_definition input)))]"
| "required (ReqUpdateJob i input) db = [(JobUpdate, JobScope i), (QueueRead, QueueScope (jd_queue_id (ji_definition input)))]"
| "required (ReqCreateTarget n v args inputs) db = [(TargetCreate, NamespaceScope n)]"
| "required (ReqUpdateTarget i v args inputs) db = [(TargetUpdate, TargetScope i)]"
| "required (ReqDeleteTarget i) db = [(TargetDelete, TargetScope i)]"
| "required (ReqCreateTargetSet n v ids inputs) db =
     (TargetSetCreate, NamespaceScope n) # map (\<lambda>i. (TargetRead, TargetScope i)) ids"
| "required (ReqUpdateTargetSet i v ids inputs) db =
     (TargetSetUpdate, TargetSetScope i) # map (\<lambda>i. (TargetRead, TargetScope i)) ids"
| "required (ReqCreateSchedule n input) db =
     [(ScheduleCreate, NamespaceScope n), (JobRead, JobScope (si_job_id input)), (JobExecute, JobScope (si_job_id input)),
      (RunCreate, NamespaceScope n)] @ selection_decisions db (si_target input)"
| "required (ReqSetScheduleEnabled i r e) db =
     [(ScheduleRead, ScheduleScope i), (ScheduleUpdate, ScheduleScope i)] @
     (case get_schedule db i of Inl _ \<Rightarrow> []
      | Inr s \<Rightarrow> if e then [(JobRead, JobScope (sched_job_id (srec_schedule s))), (JobExecute, JobScope (sched_job_id (srec_schedule s))),
            (RunCreate, NamespaceScope (sched_namespace_id (srec_schedule s)))] @ selection_decisions db (sched_target (srec_schedule s))
          else [])"
| "required (ReqCreateRun q j t inputs) db =
     (JobExecute, JobScope j) # selection_decisions db t @
     (case get_job db j of Inl _ \<Rightarrow> [] | Inr r \<Rightarrow> [(RunCreate, NamespaceScope (job_namespace_id (jrec_job r)))])"
| "required (ReqRerunRun i q) db =
     (RunRead, RunScope i) #
     (case find (\<lambda>r. run_id r = i) (db_runs db) of None \<Rightarrow> []
      | Some r \<Rightarrow> [(JobExecute, JobScope (run_job_id r)), (TargetUse, TargetScope (run_target_id r))] @
          (case get_job db (run_job_id r) of Inl _ \<Rightarrow> []
           | Inr j \<Rightarrow> [(RunCreate, NamespaceScope (job_namespace_id (jrec_job j)))]))"
| "required (ReqCreateWorkflow n input) db =
     (WorkflowCreate, NamespaceScope n) # map (\<lambda>(_, j). (JobRead, JobScope j)) (wi_nodes input)"
| "required (ReqUpdateWorkflow i r input) db =
     (WorkflowUpdate, WorkflowScope i) # map (\<lambda>(_, j). (JobRead, JobScope j)) (wi_nodes input)"
| "required (ReqDeleteWorkflow i) db = [(WorkflowDelete, WorkflowScope i)]"
| "required (ReqStartWorkflow i q t inputs) db =
     (WorkflowExecute, WorkflowScope i) # selection_decisions db t @
     (case catalog_record db i of Inl _ \<Rightarrow> []
      | Inr w \<Rightarrow> map (\<lambda>node. (JobExecute, JobScope (wn_job_id node))) (wd_nodes (wrec_definition w)) @
          [(RunCreate, NamespaceScope (wrec_namespace_id w))])"
| "required (ReqCancelWorkflowRun i) db = [(WorkflowRunRead, WorkflowRunScope i), (WorkflowRunCancel, WorkflowRunScope i)]"

section \<open>Every change is authorized\<close>

lemma allow_Ok [simp]: "allow db g c r = Inr u \<longleftrightarrow> authorize (namespace_for db) g c r = Inr ()"
  by (simp add: allow_def)

abbreviation granted :: "Db \<Rightarrow> GrantSet \<Rightarrow> (Capability \<times> ResourceScope) list \<Rightarrow> bool" where
  "granted db g ds \<equiv> \<forall>(c, r) \<in> set ds. authorize (namespace_for db) g c r = Inr ()"

lemma members_granted:
  "validate_target_members g n ids db = Inr u \<Longrightarrow> granted db g (map (\<lambda>i. (TargetRead, TargetScope i)) ids)"
  by (induction ids) auto

lemma allow_targets_granted:
  "allow_targets g ts db = Inr u \<Longrightarrow> granted db g (map (\<lambda>t. (TargetUse, TargetScope (target_id t))) ts)"
  by (induction ts) auto

lemma selection_granted:
  "execution_targets g t db = Inr x \<Longrightarrow> granted db g (selection_decisions db t)"
  using allow_targets_granted
  by (fastforce simp: execution_targets_def selection_decisions_def split: TargetSelection.splits sum.splits)

lemma jobs_granted:
  "validate_workflow_jobs g n nodes c db = Inr u \<Longrightarrow> granted db g (map (\<lambda>node. (c, JobScope (wn_job_id node))) nodes)"
  by (induction nodes) auto

lemma input_definition_jobs:
  assumes "input_definition input = Inr d"
  shows "map wn_job_id (wd_nodes d) = map snd (wi_nodes input)"
proof -
  obtain nodes where nodes: "traverse input_node (wi_nodes input) = Inr nodes" "wd_nodes d = nodes"
    using assms by (auto simp: input_definition_def Let_def)
  have "traverse input_node xs = Inr ys \<Longrightarrow> map wn_job_id ys = map snd xs" for xs ys
    by (induction xs arbitrary: ys) (auto simp: input_node_def)
  then show ?thesis using nodes by simp
qed

lemmas catalog_ops = app_create_namespace_def app_delete_namespace_def app_create_queue_def app_update_queue_def
  app_delete_queue_def app_create_job_def app_update_job_def app_create_target_def app_update_target_def
  app_delete_target_def app_create_target_set_def app_update_target_set_def app_create_workflow_def
  app_update_workflow_def app_delete_workflow_def app_cancel_workflow_run_def app_get_workflow_run_def
  app_start_workflow_def

lemma normalize_queue [simp]: "jd_queue_id (ji_definition (normalize_job_input input)) = jd_queue_id (ji_definition input)"
  by (simp add: normalize_job_input_def)

lemma jobs_granted_input:
  assumes "input_definition input = Inr d" "validate_workflow_jobs g n (wd_nodes d) c db = Inr u"
  shows "granted db g (map (\<lambda>(_, j). (c, JobScope j)) (wi_nodes input))"
proof -
  have "map (\<lambda>node. (c, JobScope (wn_job_id node))) (wd_nodes d) = map (\<lambda>(_, j). (c, JobScope j)) (wi_nodes input)"
    using arg_cong [OF input_definition_jobs [OF assms(1)], of "map (\<lambda>j. (c, JobScope j))"] by (simp add: split_def comp_def)
  then show ?thesis using jobs_granted [OF assms(2)] by (simp only:)
qed

lemma invocation_id: "invocation db v i = Inr record \<Longrightarrow> wrr_id record = i"
  by (auto simp: invocation_def dest!: find_Some_in split: option.splits)

lemma run_source:
  assumes "app_get_run g i db = Inr source"
  shows "authorize (namespace_for db) g RunRead (RunScope i) = Inr () \<and> rrec_run source \<in> set (db_runs db) \<and> run_id (rrec_run source) = i"
  using assms
  by (auto simp: app_get_run_def get_run_def run_record_def split: if_splits dest!: find_Some_in)

lemma rerun_granted:
  assumes "app_rerun_run now g i q db = Inr x" "distinct (map run_id (db_runs db))"
  shows "granted db g (required (ReqRerunRun i q) db)"
proof -
  from assms(1) obtain source j where source: "app_get_run g i db = Inr source"
    and ok: "authorize (namespace_for db) g JobExecute (JobScope (run_job_id (rrec_run source))) = Inr ()"
      "authorize (namespace_for db) g TargetUse (TargetScope (run_target_id (rrec_run source))) = Inr ()"
    and j: "get_job db (run_job_id (rrec_run source)) = Inr j"
      "authorize (namespace_for db) g RunCreate (NamespaceScope (job_namespace_id (jrec_job j))) = Inr ()"
    by (auto simp: app_rerun_run_def Let_def)
  have "find (\<lambda>r. run_id r = i) (db_runs db) = Some (rrec_run source)"
  proof (cases "find (\<lambda>r. run_id r = i) (db_runs db)")
    case None
    then show ?thesis using run_source [OF source] by (auto simp: find_None_iff)
  next
    case (Some r)
    then show ?thesis using find_Some_in [OF Some] run_source [OF source] assms(2) by (auto simp: distinct_map dest: inj_onD)
  qed
  then show ?thesis using run_source [OF source] ok j by simp
qed

lemma enabled_granted:
  assumes "app_set_schedule_enabled lib now utc g i k e db = Inr x"
  shows "granted db g (required (ReqSetScheduleEnabled i k e) db)"
proof -
  from assms obtain s next_run where s: "get_schedule db i = Inr s"
    and own: "authorize (namespace_for db) g ScheduleRead (ScheduleScope i) = Inr ()"
      "authorize (namespace_for db) g ScheduleUpdate (ScheduleScope i) = Inr ()"
    and start: "(if e then and_then (enabled_start lib utc g (srec_schedule s) db) (\<lambda>t. Ok (Some t)) else Ok None) = Inr next_run"
    by (auto simp: app_set_schedule_enabled_def app_get_schedule_def simp del: and_then_Ok elim!: and_thenE)
  show ?thesis
  proof (cases e)
    case True
    then obtain sel where "execution_targets g (sched_target (srec_schedule s)) db = Inr sel"
      and use: "authorize (namespace_for db) g JobRead (JobScope (sched_job_id (srec_schedule s))) = Inr ()"
        "authorize (namespace_for db) g JobExecute (JobScope (sched_job_id (srec_schedule s))) = Inr ()"
        "authorize (namespace_for db) g RunCreate (NamespaceScope (sched_namespace_id (srec_schedule s))) = Inr ()"
      using start by (auto simp: enabled_start_def simp del: and_then_Ok elim!: and_thenE)
    then show ?thesis using selection_granted s own True by auto
  qed (use s own in simp)
qed

lemma launch_granted:
  assumes "app_launch encode snapshot_bytes jsonb_eq now g i q t inputs db = Inr x"
    and "authorize (namespace_for db) g WorkflowExecute (WorkflowScope i) = Inr ()"
  shows "granted db g (required (ReqStartWorkflow i q t inputs) db)"
proof -
  from assms(1) obtain w shared targets u where w: "catalog_record db i = Inr w"
    and targets: "execution_targets g t db = Inr (wrec_namespace_id w, shared, targets)"
    and jobs: "validate_workflow_jobs g (wrec_namespace_id w) (wd_nodes (wrec_definition w)) JobExecute db = Inr u"
    and create: "authorize (namespace_for db) g RunCreate (NamespaceScope (wrec_namespace_id w)) = Inr ()"
    by (auto simp: app_launch_def)
  show ?thesis
    using assms(2) create jobs_granted [OF jobs] selection_granted [OF targets] by (auto simp: w)
qed

text \<open>A replayed launch answers with the recorded invocation and changes nothing.\<close>

lemma start_granted:
  assumes "app_start_workflow encode snapshot_bytes jsonb_eq now g i q t inputs db = Inr (db', x)" "db' \<noteq> db"
  shows "granted db g (required (ReqStartWorkflow i q t inputs) db)"
proof -
  from assms(1) obtain found where allowed: "authorize (namespace_for db) g WorkflowExecute (WorkflowScope i) = Inr ()"
    and found: "(case found of
         Some existing \<Rightarrow>
           and_then (ensure (\<not> (wrec_id (wrr_workflow existing) \<noteq> i \<or> wrr_target existing \<noteq> t)) AppIdempotencyConflict) (\<lambda>_.
           and_then (authorize_workflow_replay g existing db) (\<lambda>_. Ok (db, existing, False)))
       | None \<Rightarrow> app_launch encode snapshot_bytes jsonb_eq now g i q t inputs db) = Inr (db', x)"
    by (auto simp: app_start_workflow_def simp del: and_then_Ok elim!: and_thenE)
  with assms(2) have "found = None" by (cases found) auto
  then have "app_launch encode snapshot_bytes jsonb_eq now g i q t inputs db = Inr (db', x)" using found by simp
  then show ?thesis using allowed by (rule launch_granted)
qed

text \<open>
  Nothing changes without authority: whenever a request changes the store, the verified grants of its
  principal allow every decision the request requires, on the resources as the store owns them.
\<close>

lemma serve_granted:
  assumes "serve E now utc g req db = Inr db'" "distinct (map run_id (db_runs db))" "db' \<noteq> db"
  shows "\<forall>(c, r) \<in> set (required req db). authorize (namespace_for db) g c r = Inr ()"
proof (cases req)
  case (ReqCreateTargetSet n v ids inputs)
  then show ?thesis using assms members_granted by (fastforce simp: catalog_ops)
next
  case (ReqUpdateTargetSet i v ids inputs)
  then show ?thesis using assms members_granted by (fastforce simp: catalog_ops)
next
  case (ReqCreateSchedule n input)
  then show ?thesis using assms selection_granted by (fastforce simp: app_create_schedule_def)
next
  case (ReqSetScheduleEnabled i r e)
  then obtain x where "app_set_schedule_enabled (se_cron E) now utc g i r e db = Inr x" using assms by auto
  then show ?thesis unfolding ReqSetScheduleEnabled by (rule enabled_granted)
next
  case (ReqCreateRun q j t inputs)
  then show ?thesis using assms selection_granted by (fastforce simp: app_create_run_def)
next
  case (ReqRerunRun i q)
  then obtain x where "app_rerun_run now g i q db = Inr x" using assms by auto
  then show ?thesis unfolding ReqRerunRun using assms(2) by (rule rerun_granted)
next
  case (ReqCreateWorkflow n input)
  then show ?thesis using assms jobs_granted_input by (fastforce simp: catalog_ops)
next
  case (ReqUpdateWorkflow i r input)
  then show ?thesis using assms jobs_granted_input by (fastforce simp: catalog_ops)
next
  case (ReqStartWorkflow i q t inputs)
  then obtain x where "app_start_workflow (se_encode E) (se_snapshot_bytes E) (se_jsonb_eq E) now g i q t inputs db = Inr (db', x)"
    using assms(1) by auto
  then show ?thesis unfolding ReqStartWorkflow using assms(3) by (rule start_granted)
next
  case (ReqCancelWorkflowRun i)
  then show ?thesis using assms invocation_id by (fastforce simp: catalog_ops)
qed (use assms in \<open>auto simp: catalog_ops Let_def\<close>)

definition sample_installation :: Db where
  "sample_installation =
     \<lparr> db_namespaces = [\<lparr> ns_id = 1, ns_name = NamespaceName ''default'', ns_created_at = 0 \<rparr>],
       db_queues = [], db_jobs = [],
       db_targets = [\<lparr> target_id = 4, target_namespace_id = 1, target_name = ResourceName ''host'', target_arguments = [],
         target_inputs = JObject [], target_created_at = 0, target_updated_at = 0 \<rparr>], db_target_sets = [], db_schedules = [], db_requests = [], db_runs = [],
       db_attempts = [], db_outbox = [], db_run_events = [], db_schedule_events = [], db_workers = [], db_workflows = [],
       db_workflow_runs = [], db_node_runs = [], db_run_edges = [], db_node_executions = [], db_completion_events = [],
       db_next_id = 10 \<rparr>"

definition sample_service_env :: "unit ServiceEnv" where
  "sample_service_env = \<lparr> se_encode = (\<lambda>v. Some ''{}''), se_snapshot_bytes = (\<lambda>s. Some 1), se_jsonb_eq = (=),
     se_cron = \<lparr> lib_parse_field = (\<lambda>f lo hi. None), lib_parse_tz = (\<lambda>t. None), lib_parse_cron = (\<lambda>e z t. None),
       lib_local = (\<lambda>z t. \<lparr> lt_minute = 0, lt_hour = 0, lt_day = 1, lt_month = 1, lt_weekday = 0 \<rparr>),
       lib_chrono_range = (\<lambda>t. True), lib_time_range = (\<lambda>t. True) \<rparr> \<rparr>"

end
