(* ===== verification/Authentication.thy ===== *)
theory Authentication
  imports Authorization
begin

text \<open>
  Verification of credentials (\<open>authentication.rs\<close>, \<open>authentication/config.rs\<close>, the credential
  extraction of \<open>api/authentication.rs\<close>).  A header map is the list of its entries with names in
  lower case, as the \<open>http\<close> crate keeps them.  Parameters: \<open>to_str\<close> (the crate's view of a header
  value as text, if it is visible ASCII) and \<open>ct_eq\<close> (the comparison of the \<open>subtle\<close> crate).
\<close>

section \<open>Identities\<close>

datatype PrincipalKind = DevelopmentKind | HumanKind | ServiceKind | SystemKind

record Principal =
  principal_id :: bytes
  principal_issuer :: "bytes option"
  principal_kind :: PrincipalKind

definition Principal_new :: "bytes \<Rightarrow> PrincipalKind \<Rightarrow> Principal" where
  "Principal_new i k = \<lparr> principal_id = i, principal_issuer = None, principal_kind = k \<rparr>"

record AuthenticatedCaller =
  caller_principal :: Principal
  caller_grants :: GrantSet

record RequestContext =
  ctx_request_id :: uuid
  ctx_caller :: AuthenticatedCaller

section \<open>Bearer tokens\<close>

definition MAX_BEARER_TOKEN_BYTES :: nat where "MAX_BEARER_TOKEN_BYTES = 8192"

datatype AuthenticationError = InvalidCredentials | VerifierUnavailable

datatype BearerToken = BearerToken (expose_secret: bytes)

datatype RequestCredentials = Bearer BearerToken

definition is_ascii_uppercase :: "char \<Rightarrow> bool" where
  "is_ascii_uppercase c \<longleftrightarrow> 65 \<le> byte c \<and> byte c \<le> 90"

definition token_byte :: "char \<Rightarrow> bool" where
  "token_byte c \<longleftrightarrow> is_ascii_lowercase c \<or> is_ascii_uppercase c \<or> is_ascii_digit c \<or> c \<in> set ''-._~+/''"

definition trim_end_equals :: "bytes \<Rightarrow> bytes" where
  "trim_end_equals v = rev (dropWhile (\<lambda>c. c = CHR ''='') (rev v))"

definition BearerToken_new :: "bytes \<Rightarrow> (AuthenticationError, BearerToken) result" where
  "BearerToken_new v =
     (let unpadded = trim_end_equals v in
      if length v > MAX_BEARER_TOKEN_BYTES \<or> unpadded = [] \<or> \<not> list_all token_byte unpadded
      then Err InvalidCredentials else Ok (BearerToken v))"

section \<open>The development verifier and its configuration\<close>

datatype AuthMode = ModeDevelopment | ModeOidc

datatype AuthConfigError = MissingDevelopmentToken | InvalidDevelopmentToken | OidcNotImplemented

record DevelopmentAuthProvider =
  dev_token :: BearerToken

definition parse_auth_mode :: "bytes \<Rightarrow> AuthMode option" where
  "parse_auth_mode v =
     (if v = ''development'' then Some ModeDevelopment else if v = ''oidc'' then Some ModeOidc else None)"

definition DevelopmentAuthProvider_new :: "BearerToken \<Rightarrow> (AuthConfigError, DevelopmentAuthProvider) result" where
  "DevelopmentAuthProvider_new t =
     (if length (expose_secret t) < 32 then Err InvalidDevelopmentToken else Ok \<lparr> dev_token = t \<rparr>)"

text \<open>\<open>var\<close> is the environment variable \<open>CRONO_AUTH_DEVELOPMENT_TOKEN\<close>, when set to Unicode text.\<close>

definition auth_config_from_env :: "bytes option \<Rightarrow> AuthMode \<Rightarrow> (AuthConfigError, DevelopmentAuthProvider) result" where
  "auth_config_from_env var mode =
     (case mode of
        ModeDevelopment \<Rightarrow>
          and_then (ok_or MissingDevelopmentToken var) (\<lambda>v.
          and_then (map_err (\<lambda>_. InvalidDevelopmentToken) (BearerToken_new v)) DevelopmentAuthProvider_new)
      | ModeOidc \<Rightarrow> Err OidcNotImplemented)"

definition development_caller :: AuthenticatedCaller where
  "development_caller =
     \<lparr> caller_principal = Principal_new ''development/local'' DevelopmentKind, caller_grants = development_grants \<rparr>"

definition authenticate ::
  "(bytes \<Rightarrow> bytes \<Rightarrow> bool) \<Rightarrow> DevelopmentAuthProvider \<Rightarrow> RequestCredentials \<Rightarrow> (AuthenticationError, AuthenticatedCaller) result" where
  "authenticate ct_eq p c =
     (case c of Bearer t \<Rightarrow>
        if \<not> ct_eq (expose_secret t) (expose_secret (dev_token p)) then Err InvalidCredentials
        else Ok development_caller)"

section \<open>Credentials of a request\<close>

type_synonym headers = "(bytes \<times> bytes) list"

definition get_all :: "bytes \<Rightarrow> headers \<Rightarrow> bytes list" where
  "get_all n hs = map snd (filter (\<lambda>h. fst h = n) hs)"

definition to_ascii_lowercase :: "char \<Rightarrow> char" where
  "to_ascii_lowercase c = (if is_ascii_uppercase c then char_of (byte c + 32) else c)"

definition eq_ignore_ascii_case :: "bytes \<Rightarrow> bytes \<Rightarrow> bool" where
  "eq_ignore_ascii_case a b \<longleftrightarrow> map to_ascii_lowercase a = map to_ascii_lowercase b"

definition credentials :: "(bytes \<Rightarrow> bytes option) \<Rightarrow> headers \<Rightarrow> (AuthenticationError, RequestCredentials) result" where
  "credentials to_str hs =
     (case get_all ''authorization'' hs of
        [raw] \<Rightarrow>
          and_then (ok_or InvalidCredentials (to_str raw)) (\<lambda>v.
          and_then (ok_or InvalidCredentials (split_once (CHR '' '') v)) (\<lambda>(scheme, token).
          if \<not> eq_ignore_ascii_case scheme ''Bearer'' then Err InvalidCredentials
          else and_then (BearerToken_new (dropWhile (\<lambda>c. c = CHR '' '') token)) (\<lambda>t. Ok (Bearer t))))
      | _ \<Rightarrow> Err InvalidCredentials)"

section \<open>Which header values authenticate\<close>

lemma token_byte_no_space [simp]: "\<not> token_byte (CHR '' '')" "\<not> token_byte (CHR ''='')"
  by (simp_all add: token_byte_def is_ascii_lowercase_def is_ascii_uppercase_def is_ascii_digit_def byte_def)

lemma takeWhile_replicate: "takeWhile (\<lambda>c. c = x) xs = replicate (length (takeWhile (\<lambda>c. c = x) xs)) x"
  by (induction xs) auto

lemma split_leading: "\<exists>n. xs = replicate n x @ dropWhile (\<lambda>c. c = x) xs"
proof -
  have "xs = takeWhile (\<lambda>c. c = x) xs @ dropWhile (\<lambda>c. c = x) xs" by simp
  then show ?thesis by (metis takeWhile_replicate)
qed

lemma trim_end_equals_split: "\<exists>n. v = trim_end_equals v @ replicate n (CHR ''='')"
proof -
  obtain n where "rev v = replicate n (CHR ''='') @ dropWhile (\<lambda>c. c = CHR ''='') (rev v)"
    by (rule exE [OF split_leading])
  then have "rev (rev v) = rev (replicate n (CHR ''='') @ dropWhile (\<lambda>c. c = CHR ''='') (rev v))" by (rule arg_cong)
  then show ?thesis unfolding trim_end_equals_def rev_append rev_rev_ident rev_replicate by (rule exI)
qed

lemma token_head:
  assumes "BearerToken_new v = Ok t"
  shows "t = BearerToken v" "v \<noteq> []" "hd v \<noteq> CHR '' ''" "CHR '' '' \<notin> set v"
proof -
  from assms have ok: "t = BearerToken v" "trim_end_equals v \<noteq> []" "list_all token_byte (trim_end_equals v)"
    by (auto simp: BearerToken_new_def Let_def split: if_splits)
  obtain n where v: "v = trim_end_equals v @ replicate n (CHR ''='')" by (rule exE [OF trim_end_equals_split])
  have no: "CHR '' '' \<notin> set (trim_end_equals v)"
    using ok(3) by (auto simp: list_all_iff dest!: bspec)
  show "t = BearerToken v" by (rule ok(1))
  show "v \<noteq> []" using ok(2) v by auto
  have "CHR '' '' \<notin> set (trim_end_equals v @ replicate n (CHR ''=''))" using no by simp
  then show "CHR '' '' \<notin> set v" using v by simp
  with \<open>v \<noteq> []\<close> show "hd v \<noteq> CHR '' ''" by (metis hd_in_set)
qed

lemma bearer_no_space: "eq_ignore_ascii_case scheme ''Bearer'' \<Longrightarrow> CHR '' '' \<notin> set scheme"
proof
  assume e: "eq_ignore_ascii_case scheme ''Bearer''" and i: "CHR '' '' \<in> set scheme"
  have "to_ascii_lowercase (CHR '' '') = CHR '' ''" by (simp add: to_ascii_lowercase_def is_ascii_uppercase_def byte_def)
  with i have "CHR '' '' \<in> set (map to_ascii_lowercase scheme)" by (metis image_eqI set_map)
  then have "CHR '' '' \<in> set (map to_ascii_lowercase ''Bearer'')"
    using e unfolding eq_ignore_ascii_case_def by metis
  then show False by (simp add: to_ascii_lowercase_def is_ascii_uppercase_def byte_def char_of_def)
qed

text \<open>The credential of a request is the token of its only Authorization header.\<close>

lemma credentials_exact:
  "credentials to_str hs = Ok (Bearer t) \<longleftrightarrow>
   (\<exists>raw scheme n. get_all ''authorization'' hs = [raw] \<and> eq_ignore_ascii_case scheme ''Bearer'' \<and>
      to_str raw = Some (scheme @ replicate (Suc n) (CHR '' '') @ expose_secret t) \<and>
      BearerToken_new (expose_secret t) = Ok t)"
  (is "_ \<longleftrightarrow> ?rhs")
proof
  assume "credentials to_str hs = Ok (Bearer t)"
  then obtain raw v scheme token where c: "get_all ''authorization'' hs = [raw]" "to_str raw = Some v"
      "split_once (CHR '' '') v = Some (scheme, token)" "eq_ignore_ascii_case scheme ''Bearer''"
      "BearerToken_new (dropWhile (\<lambda>c. c = CHR '' '') token) = Ok t"
    by (auto simp: credentials_def split: list.splits if_splits)
  have t: "expose_secret t = dropWhile (\<lambda>c. c = CHR '' '') token" using token_head(1) [OF c(5)] by simp
  obtain n where "token = replicate n (CHR '' '') @ expose_secret t"
    using t split_leading by metis
  then have "v = scheme @ replicate (Suc n) (CHR '' '') @ expose_secret t"
    using split_onceD [OF c(3)] by simp
  then show ?rhs using c t by metis
next
  assume ?rhs
  then obtain raw scheme n where c: "get_all ''authorization'' hs = [raw]" "eq_ignore_ascii_case scheme ''Bearer''"
      "to_str raw = Some (scheme @ replicate (Suc n) (CHR '' '') @ expose_secret t)"
      "BearerToken_new (expose_secret t) = Ok t" by blast
  have "split_once (CHR '' '') (scheme @ replicate (Suc n) (CHR '' '') @ expose_secret t)
      = Some (scheme, replicate n (CHR '' '') @ expose_secret t)"
    using split_once_prefix [OF bearer_no_space [OF c(2)]] by simp
  moreover have "dropWhile (\<lambda>c. c = CHR '' '') (replicate n (CHR '' '') @ expose_secret t) = expose_secret t"
    using token_head(2,3) [OF c(4)] by (induction n) (auto simp: neq_Nil_conv)
  ultimately show "credentials to_str hs = Ok (Bearer t)" using c by (simp add: credentials_def)
qed

lemma credentials_Err: "credentials to_str hs = Err e \<Longrightarrow> e = InvalidCredentials"
  by (auto simp: credentials_def BearerToken_new_def and_then_Err Let_def split: list.splits if_splits prod.splits)

text \<open>A provider that starts holds a token that credentials can carry.\<close>

lemma configured_token:
  "auth_config_from_env var mode = Ok p \<Longrightarrow>
   mode = ModeDevelopment \<and> var = Some (expose_secret (dev_token p)) \<and> 32 \<le> length (expose_secret (dev_token p)) \<and>
   BearerToken_new (expose_secret (dev_token p)) = Ok (dev_token p)"
  by (auto simp: auth_config_from_env_def DevelopmentAuthProvider_new_def split: AuthMode.splits if_splits
      dest: token_head(1)) (metis BearerToken.sel token_head(1))

end
