(* ===== verification/Http.thy ===== *)
theory Http
  imports Service Authentication
begin

text \<open>
  The transport of the HTTP API (\<open>api/error.rs\<close>, \<open>api/extract.rs\<close>, \<open>api/request_id.rs\<close>,
  \<open>api/authentication.rs\<close>, the layers and fallbacks of \<open>api/mod.rs\<close>): error envelopes, request
  correlation, authentication before every protected handler.  A handler is a function from the
  verified context and the state to the next state and a response, whose body \<open>'b\<close> the resources
  of the API instantiate.
\<close>

section \<open>Responses\<close>

text \<open>The text of a message: a constant of the server, or a validation message, whose text is not modelled.\<close>

datatype ErrorMessage = Text bytes | Validation

record ErrorBody =
  error_code :: bytes
  error_message :: ErrorMessage
  error_field :: "bytes option"

datatype 'b Body = Empty | ErrorEnvelope ErrorBody | Json 'b | Plain bytes

record 'b Response =
  resp_status :: nat
  resp_headers :: headers
  resp_body :: "'b Body"

definition REJECTION_MESSAGE_MAX_CHARS :: nat where "REJECTION_MESSAGE_MAX_CHARS = 256"

datatype ApiError =
    ApiAuthentication AuthenticationError
  | ApiApplication ApplicationError
  | ApiRejected nat bytes bytes

definition ApiError_rejected :: "nat \<Rightarrow> bytes \<Rightarrow> bytes \<Rightarrow> ApiError" where
  "ApiError_rejected status code message = ApiRejected status code (take_chars REJECTION_MESSAGE_MAX_CHARS message)"

definition envelope :: "nat \<Rightarrow> bytes \<Rightarrow> ErrorMessage \<Rightarrow> bytes option \<Rightarrow> 'b Response" where
  "envelope status code message field =
     \<lparr> resp_status = status,
       resp_headers = (if status = 401 then [(''www-authenticate'', ''Bearer realm=\"crono\"'')] else []),
       resp_body = ErrorEnvelope \<lparr> error_code = code, error_message = message, error_field = field \<rparr> \<rparr>"

definition application_envelope :: "ApplicationError \<Rightarrow> nat \<times> bytes \<times> ErrorMessage \<times> bytes option" where
  "application_envelope e =
     (case e of
        AppInvalidInput field \<Rightarrow> (400, ''invalid_request'', Validation, field)
      | AppNotFound \<Rightarrow> (404, ''not_found'', Text ''resource was not found'', None)
      | AppConflict \<Rightarrow> (409, ''already_exists'', Text ''resource already exists'', None)
      | AppInUse \<Rightarrow> (409, ''resource_in_use'', Text ''resource is still in use and cannot be deleted'', None)
      | AppIdempotencyConflict \<Rightarrow> (409, ''idempotency_conflict'', Text ''request ID was reused with different inputs'', None)
      | AppAuthorization a \<Rightarrow>
          (case a of
             AuthNotFound \<Rightarrow> (404, ''not_found'', Text ''resource was not found'', None)
           | Unauthenticated \<Rightarrow> (401, ''unauthenticated'', Text ''authentication is required'', None)
           | Forbidden \<Rightarrow> (403, ''forbidden'', Text ''operation is not authorized'', None)
           | AuthUnavailable \<Rightarrow> (503, ''dependency_unavailable'', Text ''a required service is unavailable'', None))
      | AppUnavailable \<Rightarrow> (503, ''dependency_unavailable'', Text ''a required service is unavailable'', None)
      | AppInternal \<Rightarrow> (500, ''internal_error'', Text ''internal server error'', None))"

definition into_response :: "ApiError \<Rightarrow> 'b Response" where
  "into_response e =
     (case e of
        ApiAuthentication InvalidCredentials \<Rightarrow>
          envelope 401 ''unauthenticated'' (Text ''valid authentication credentials are required'') None
      | ApiAuthentication VerifierUnavailable \<Rightarrow>
          envelope 503 ''dependency_unavailable'' (Text ''a required service is unavailable'') None
      | ApiRejected status code message \<Rightarrow> envelope status code (Text message) None
      | ApiApplication a \<Rightarrow> (case application_envelope a of (status, code, message, field) \<Rightarrow> envelope status code message field))"

text \<open>\<open>extract.rs\<close>: the rejection of an extractor, by the status the framework gave it.\<close>

definition rejected :: "nat \<Rightarrow> bytes \<Rightarrow> ApiError" where
  "rejected status detail =
     (if status = 413 then ApiError_rejected status ''payload_too_large'' detail
      else if status = 415 then ApiError_rejected status ''unsupported_media_type'' detail
      else if 500 \<le> status \<and> status < 600 then ApiApplication AppInternal
      else ApiError_rejected 400 ''invalid_request'' detail)"

definition route_not_found :: ApiError where
  "route_not_found = ApiError_rejected 404 ''not_found'' ''no API route matches this path''"

definition method_not_allowed :: ApiError where
  "method_not_allowed = ApiError_rejected 405 ''method_not_allowed'' ''this route does not support the requested HTTP method''"

section \<open>Requests and layers\<close>

record HttpRequest =
  http_method :: bytes
  http_path :: bytes
  http_headers :: headers

definition CLIENT_REQUEST_ID_MAX_LEN :: nat where "CLIENT_REQUEST_ID_MAX_LEN = 128"

text \<open>\<open>HeaderMap::get\<close> reads the first value of a name, \<open>insert\<close> replaces all of them.\<close>

definition header_get :: "bytes \<Rightarrow> headers \<Rightarrow> bytes option" where
  "header_get n hs = (case get_all n hs of [] \<Rightarrow> None | v # _ \<Rightarrow> Some v)"

definition header_insert :: "bytes \<Rightarrow> bytes \<Rightarrow> headers \<Rightarrow> headers" where
  "header_insert n v hs = filter (\<lambda>h. fst h \<noteq> n) hs @ [(n, v)]"

definition client_request_id :: "(bytes \<Rightarrow> bytes option) \<Rightarrow> headers \<Rightarrow> bytes option" where
  "client_request_id to_str hs =
     (case header_get ''x-request-id'' hs of
        None \<Rightarrow> None
      | Some raw \<Rightarrow> (case to_str raw of
          None \<Rightarrow> None
        | Some v \<Rightarrow> if v \<noteq> [] \<and> length v \<le> CLIENT_REQUEST_ID_MAX_LEN then Some v else None))"

definition public_probe :: "HttpRequest \<Rightarrow> bool" where
  "public_probe r \<longleftrightarrow>
     (http_method r = ''GET'' \<or> http_method r = ''HEAD'') \<and>
     (http_path r = ''/live'' \<or> http_path r = ''/ready'' \<or> http_path r = ''/health'' \<or> http_path r = ''/metrics'')"

type_synonym ('s, 'b) handler = "RequestContext option \<Rightarrow> HttpRequest \<Rightarrow> 's \<Rightarrow> 's \<times> 'b Response"

text \<open>
  \<open>authentication::establish\<close>: \<open>rid\<close> is the correlation the outer layer attached; a protected
  handler runs only with the context of a verified caller.
\<close>

definition establish ::
  "(bytes \<Rightarrow> bytes option) \<Rightarrow> (RequestCredentials \<Rightarrow> (AuthenticationError, AuthenticatedCaller) result) \<Rightarrow> ('s, 'b) handler
     \<Rightarrow> uuid option \<Rightarrow> HttpRequest \<Rightarrow> 's \<Rightarrow> 's \<times> 'b Response" where
  "establish to_str verify next rid r s =
     (if public_probe r then next None r s
      else (case rid of
        None \<Rightarrow> (s, into_response (ApiApplication AppInternal))
      | Some i \<Rightarrow> (case and_then (credentials to_str (http_headers r)) verify of
          Inr caller \<Rightarrow> next (Some \<lparr> ctx_request_id = i, ctx_caller = caller \<rparr>) r s
        | Inl e \<Rightarrow> (s, into_response (ApiAuthentication e)))))"

abbreviation correlate :: "(uuid \<Rightarrow> bytes) \<Rightarrow> uuid \<Rightarrow> 'b Response \<Rightarrow> 'b Response" where
  "correlate uuid_str i resp \<equiv>
     resp\<lparr> resp_headers := header_insert ''x-request-id'' (uuid_str i) (resp_headers resp) \<rparr>"

text \<open>
  \<open>request_id::assign\<close> around the layers of \<open>with_transport_layers\<close>; \<open>i\<close> is the fresh UUIDv7 and
  \<open>uuid_str\<close> its text.
\<close>

definition assign :: "(uuid \<Rightarrow> bytes) \<Rightarrow> uuid \<Rightarrow> (uuid option \<Rightarrow> HttpRequest \<Rightarrow> 's \<Rightarrow> 's \<times> 'b Response) \<Rightarrow> HttpRequest \<Rightarrow> 's \<Rightarrow> 's \<times> 'b Response" where
  "assign uuid_str i next r s =
     (let (s', resp) = next (Some i) r s in
      (s', correlate uuid_str i resp))"

definition with_transport_layers ::
  "(uuid \<Rightarrow> bytes) \<Rightarrow> (bytes \<Rightarrow> bytes option) \<Rightarrow> (RequestCredentials \<Rightarrow> (AuthenticationError, AuthenticatedCaller) result)
     \<Rightarrow> ('s, 'b) handler \<Rightarrow> uuid \<Rightarrow> HttpRequest \<Rightarrow> 's \<Rightarrow> 's \<times> 'b Response" where
  "with_transport_layers uuid_str to_str verify router i = assign uuid_str i (establish to_str verify router)"

section \<open>What the layers guarantee\<close>

named_theorems http_simps \<open>evaluation of the transport layers\<close>

lemmas [http_simps] = with_transport_layers_def assign_def establish_def

text \<open>Whatever router is served, a protected request that does not verify is answered 401 or 503 without it.\<close>

lemma layers_refuse [http_simps]:
  assumes "\<not> public_probe r" "and_then (credentials to_str (http_headers r)) verify = Err e"
  shows "with_transport_layers uuid_str to_str verify router i r s =
    (s, correlate uuid_str i (into_response (ApiAuthentication e)))"
  using assms by (simp add: with_transport_layers_def assign_def establish_def)

text \<open>A state change of the layered router is a state change of the router for a verified caller or a probe.\<close>

lemma layers_change:
  assumes "with_transport_layers uuid_str to_str verify router i r s = (s', resp)" "s' \<noteq> s"
  shows "(public_probe r \<and> fst (router None r s) = s') \<or>
    (\<exists>c caller. credentials to_str (http_headers r) = Ok c \<and> verify c = Ok caller \<and>
       fst (router (Some \<lparr> ctx_request_id = i, ctx_caller = caller \<rparr>) r s) = s')"
  using assms by (auto simp: with_transport_layers_def assign_def establish_def and_then_Err split: if_splits sum.splits prod.splits)

lemma take_chars_count: "char_count (take_chars n v) \<le> n"
  by (induction n v rule: take_chars.induct) (auto simp: char_count_def split: nat.splits)

lemma rejected_status:
  "resp_status (into_response (rejected status detail)) \<in> {400, 413, 415, 500}"
  by (auto simp: rejected_def ApiError_rejected_def into_response_def envelope_def application_envelope_def)

lemma client_request_id_bounded: "client_request_id to_str hs = Some v \<Longrightarrow> v \<noteq> [] \<and> length v \<le> 128"
  by (auto simp: client_request_id_def CLIENT_REQUEST_ID_MAX_LEN_def split: option.splits if_splits)

end
