(* ===== verification/Resources.thy ===== *)
theory Resources
  imports WorkflowService Http
begin

text \<open>
  The public records of the API (\<open>crates/api/src/lib.rs\<close>, \<open>crates/api/src/workflow.rs\<close>) and their
  construction from application records (\<open>api/handlers/control_plane.rs\<close>,
  \<open>api/handlers/workflows.rs\<close>).  \<open>rfc3339\<close> stands for the formatter of the \<open>time\<close> crate.
\<close>

section \<open>Enumerations of the wire\<close>

datatype ApiExecutorKind = ApiNoop | ApiProcess | ApiShell
datatype ApiMisfirePolicy = ApiRunLate | ApiMisfireSkip | ApiGracePeriod
datatype ApiCatchupPolicy = ApiCatchupSkip | ApiRunOnce | ApiCatchUp

datatype ApiRunStatus =
    ApiPendingDispatch | ApiQueued | ApiRunning | ApiRetryWait | ApiSucceeded
  | ApiFailed | ApiDead | ApiSkipped | ApiCancelled | ApiUnknown

datatype AttemptStatus =
    AttemptPendingDispatch | AttemptQueued | AttemptRunning | AttemptSucceeded
  | AttemptSkipped | AttemptFailed | AttemptDead | AttemptUnknown

datatype RunTriggerSource = SourceUnknown | SourceApi | SourceScheduler | SourceRerun
datatype WorkerStatus = Online | Stale | Offline
datatype ApiDependencyCondition = ApiSuccess | ApiFailure | ApiAlways
datatype WorkflowRunState = WrPending | WrRunning | WrSucceeded | WrFailed | WrCancelled

datatype WorkflowNodeRunState =
    ApiNodePending | ApiNodeReady | ApiNodeRunning | ApiNodeSucceeded
  | ApiNodeFailed | ApiNodeSkipped | ApiNodeCancelled | ApiNodeUnknown

datatype ExecutionTarget = TargetId uuid | TargetSetId uuid
datatype ExecutionTargetResource = NamedTarget uuid bytes | NamedTargetSet uuid bytes

definition domain_executor :: "ApiExecutorKind \<Rightarrow> ExecutorKind" where
  "domain_executor v = (case v of ApiNoop \<Rightarrow> Noop | ApiProcess \<Rightarrow> Process | ApiShell \<Rightarrow> Shell)"

definition domain_target :: "ExecutionTarget \<Rightarrow> TargetSelection" where
  "domain_target v = (case v of TargetId i \<Rightarrow> SelectTarget i | TargetSetId i \<Rightarrow> SelectTargetSet i)"

definition domain_misfire :: "ApiMisfirePolicy \<Rightarrow> MisfirePolicy" where
  "domain_misfire v = (case v of ApiRunLate \<Rightarrow> RunLate | ApiMisfireSkip \<Rightarrow> MisfireSkip | ApiGracePeriod \<Rightarrow> GracePeriod)"

definition api_misfire :: "MisfirePolicy \<Rightarrow> ApiMisfirePolicy" where
  "api_misfire v = (case v of RunLate \<Rightarrow> ApiRunLate | MisfireSkip \<Rightarrow> ApiMisfireSkip | GracePeriod \<Rightarrow> ApiGracePeriod)"

definition domain_catchup :: "ApiCatchupPolicy \<Rightarrow> CatchupPolicy" where
  "domain_catchup v = (case v of ApiCatchupSkip \<Rightarrow> CatchupSkip | ApiRunOnce \<Rightarrow> RunOnce | ApiCatchUp \<Rightarrow> CatchUp)"

definition api_catchup :: "CatchupPolicy \<Rightarrow> ApiCatchupPolicy" where
  "api_catchup v = (case v of CatchupSkip \<Rightarrow> ApiCatchupSkip | RunOnce \<Rightarrow> ApiRunOnce | CatchUp \<Rightarrow> ApiCatchUp)"

definition domain_run_status :: "ApiRunStatus \<Rightarrow> RunStatus" where
  "domain_run_status v =
     (case v of ApiPendingDispatch \<Rightarrow> PendingDispatch | ApiQueued \<Rightarrow> Queued | ApiRunning \<Rightarrow> Running | ApiRetryWait \<Rightarrow> RetryWait
      | ApiSucceeded \<Rightarrow> Succeeded | ApiFailed \<Rightarrow> Failed | ApiDead \<Rightarrow> Dead | ApiSkipped \<Rightarrow> Skipped | ApiCancelled \<Rightarrow> Cancelled
      | ApiUnknown \<Rightarrow> Unknown)"

definition domain_condition :: "ApiDependencyCondition \<Rightarrow> DependencyCondition" where
  "domain_condition v = (case v of ApiSuccess \<Rightarrow> OnSuccess | ApiFailure \<Rightarrow> OnFailure | ApiAlways \<Rightarrow> Always)"

definition api_condition :: "DependencyCondition \<Rightarrow> ApiDependencyCondition" where
  "api_condition v = (case v of OnSuccess \<Rightarrow> ApiSuccess | OnFailure \<Rightarrow> ApiFailure | Always \<Rightarrow> ApiAlways)"

definition run_state :: "WorkflowState \<Rightarrow> WorkflowRunState" where
  "run_state v = (case v of WorkflowPending \<Rightarrow> WrPending | WorkflowRunning \<Rightarrow> WrRunning | WorkflowSucceeded \<Rightarrow> WrSucceeded | WorkflowFailed \<Rightarrow> WrFailed | WorkflowCancelled \<Rightarrow> WrCancelled)"

definition node_run_state :: "WorkflowNodeState \<Rightarrow> WorkflowNodeRunState" where
  "node_run_state v =
     (case v of NodePending \<Rightarrow> ApiNodePending | NodeReady \<Rightarrow> ApiNodeReady | NodeRunning \<Rightarrow> ApiNodeRunning | NodeSucceeded \<Rightarrow> ApiNodeSucceeded
      | NodeFailed \<Rightarrow> ApiNodeFailed | NodeSkipped \<Rightarrow> ApiNodeSkipped | NodeCancelled \<Rightarrow> ApiNodeCancelled | NodeUnknown \<Rightarrow> ApiNodeUnknown)"

section \<open>Timestamps and pages\<close>

definition timestamp_text :: "(timestamp \<Rightarrow> bytes option) \<Rightarrow> timestamp \<Rightarrow> (ApiError, bytes) result" where
  "timestamp_text rfc3339 t = ok_or (ApiApplication AppInternal) (rfc3339 t)"

fun opt_timestamp :: "(timestamp \<Rightarrow> bytes option) \<Rightarrow> timestamp option \<Rightarrow> (ApiError, bytes option) result" where
  "opt_timestamp rfc3339 None = Ok None"
| "opt_timestamp rfc3339 (Some t) = and_then (timestamp_text rfc3339 t) (\<lambda>v. Ok (Some v))"

definition map_page :: "'t Page \<Rightarrow> ('t \<Rightarrow> (ApiError, 'u) result) \<Rightarrow> (ApiError, 'u Page) result" where
  "map_page p mapper =
     and_then (traverse mapper (items p)) (\<lambda>us. Ok \<lparr> items = us, next_cursor = next_cursor p \<rparr>)"

section \<open>Catalog resources\<close>

record NamespaceResource =
  nsr_id :: uuid
  nsr_name :: bytes
  nsr_created_at :: bytes

record QueueResource =
  qr_id :: uuid
  qr_name :: bytes
  qr_description :: "bytes option"
  qr_enabled :: bool
  qr_system :: bool
  qr_created_at :: bytes
  qr_updated_at :: bytes

record JobResource =
  jr_id :: uuid
  jr_namespace_id :: uuid
  jr_namespace :: bytes
  jr_name :: bytes
  jr_qualified_name :: bytes
  jr_executor :: ApiExecutorKind
  jr_queue_id :: uuid
  jr_queue :: bytes
  jr_executable :: "bytes option"
  jr_shell_command :: "bytes option"
  jr_arguments :: "bytes list"
  jr_inputs :: json
  jr_idempotent :: bool
  jr_dry_run :: bool
  jr_max_attempts :: int
  jr_retry_initial_seconds :: int
  jr_retry_max_seconds :: int
  jr_retry_multiplier :: f64
  jr_retry_jitter :: f64
  jr_created_at :: bytes
  jr_updated_at :: bytes

record TargetResource =
  tr_id :: uuid
  tr_namespace_id :: uuid
  tr_namespace :: bytes
  tr_name :: bytes
  tr_qualified_name :: bytes
  tr_arguments :: "bytes list"
  tr_inputs :: json
  tr_created_at :: bytes
  tr_updated_at :: bytes

record TargetReference =
  tref_id :: uuid
  tref_name :: bytes

record TargetSetResource =
  tsr_id :: uuid
  tsr_namespace_id :: uuid
  tsr_namespace :: bytes
  tsr_name :: bytes
  tsr_qualified_name :: bytes
  tsr_targets :: "TargetReference list"
  tsr_inputs :: json
  tsr_created_at :: bytes
  tsr_updated_at :: bytes

definition namespace_resource :: "(timestamp \<Rightarrow> bytes option) \<Rightarrow> Namespace \<Rightarrow> (ApiError, NamespaceResource) result" where
  "namespace_resource rfc3339 n =
     and_then (timestamp_text rfc3339 (ns_created_at n)) (\<lambda>created.
     Ok \<lparr> nsr_id = ns_id n, nsr_name = namespace_str (ns_name n), nsr_created_at = created \<rparr>)"

definition queue_resource :: "(timestamp \<Rightarrow> bytes option) \<Rightarrow> Queue \<Rightarrow> (ApiError, QueueResource) result" where
  "queue_resource rfc3339 q =
     and_then (timestamp_text rfc3339 (queue_created_at q)) (\<lambda>created.
     and_then (timestamp_text rfc3339 (queue_updated_at q)) (\<lambda>updated.
     Ok \<lparr> qr_id = queue_id q, qr_name = queue_str (queue_name q), qr_description = queue_description q,
          qr_enabled = queue_enabled q, qr_system = queue_system q, qr_created_at = created, qr_updated_at = updated \<rparr>))"

abbreviation qualified_text :: "NamespaceName \<Rightarrow> ResourceName \<Rightarrow> bytes" where
  "qualified_text n r \<equiv> namespace_str n @ ''/'' @ resource_str r"

definition job_resource :: "(timestamp \<Rightarrow> bytes option) \<Rightarrow> JobRecord \<Rightarrow> (ApiError, JobResource) result" where
  "job_resource rfc3339 record =
     (let j = jrec_job record in
      and_then (timestamp_text rfc3339 (job_created_at j)) (\<lambda>created.
      and_then (timestamp_text rfc3339 (job_updated_at j)) (\<lambda>updated.
      Ok \<lparr> jr_id = job_id j, jr_namespace_id = job_namespace_id j, jr_namespace = namespace_str (jrec_namespace record),
           jr_name = resource_str (job_name j), jr_qualified_name = qualified_text (jrec_namespace record) (job_name j),
           jr_executor = (case job_executor j of Noop \<Rightarrow> ApiNoop | Process \<Rightarrow> ApiProcess | Shell \<Rightarrow> ApiShell),
           jr_queue_id = job_queue_id j, jr_queue = queue_str (jrec_queue_name record), jr_executable = job_executable j,
           jr_shell_command = job_shell_command j, jr_arguments = job_arguments j, jr_inputs = job_inputs j,
           jr_idempotent = job_idempotent j, jr_dry_run = job_dry_run j, jr_max_attempts = job_max_attempts j,
           jr_retry_initial_seconds = job_retry_initial_seconds j, jr_retry_max_seconds = job_retry_max_seconds j,
           jr_retry_multiplier = job_retry_multiplier j, jr_retry_jitter = job_retry_jitter j,
           jr_created_at = created, jr_updated_at = updated \<rparr>)))"

definition target_resource :: "(timestamp \<Rightarrow> bytes option) \<Rightarrow> TargetRecord \<Rightarrow> (ApiError, TargetResource) result" where
  "target_resource rfc3339 record =
     (let t = trec_target record in
      and_then (timestamp_text rfc3339 (target_created_at t)) (\<lambda>created.
      and_then (timestamp_text rfc3339 (target_updated_at t)) (\<lambda>updated.
      Ok \<lparr> tr_id = target_id t, tr_namespace_id = target_namespace_id t, tr_namespace = namespace_str (trec_namespace record),
           tr_name = resource_str (target_name t), tr_qualified_name = qualified_text (trec_namespace record) (target_name t),
           tr_arguments = target_arguments t, tr_inputs = target_inputs t, tr_created_at = created, tr_updated_at = updated \<rparr>)))"

definition target_set_resource :: "(timestamp \<Rightarrow> bytes option) \<Rightarrow> TargetSetRecord \<Rightarrow> (ApiError, TargetSetResource) result" where
  "target_set_resource rfc3339 record =
     (let s = tsrec_target_set record in
      and_then (timestamp_text rfc3339 (set_created_at s)) (\<lambda>created.
      and_then (timestamp_text rfc3339 (set_updated_at s)) (\<lambda>updated.
      Ok \<lparr> tsr_id = set_id s, tsr_namespace_id = set_namespace_id s, tsr_namespace = namespace_str (tsrec_namespace record),
           tsr_name = resource_str (set_name s), tsr_qualified_name = qualified_text (tsrec_namespace record) (set_name s),
           tsr_targets = map (\<lambda>t. \<lparr> tref_id = target_id t, tref_name = resource_str (target_name t) \<rparr>) (tsrec_targets record),
           tsr_inputs = set_inputs s, tsr_created_at = created, tsr_updated_at = updated \<rparr>)))"

section \<open>Schedules\<close>

record ScheduleResource =
  schr_id :: uuid
  schr_namespace_id :: uuid
  schr_namespace :: bytes
  schr_name :: bytes
  schr_job_id :: uuid
  schr_job :: bytes
  schr_target :: ExecutionTargetResource
  schr_inputs :: json
  schr_cron_expression :: "bytes option"
  schr_execute_at :: "bytes option"
  schr_timezone :: bytes
  schr_enabled :: bool
  schr_next_run_at :: "bytes option"
  schr_last_run_at :: "bytes option"
  schr_misfire_policy :: ApiMisfirePolicy
  schr_misfire_grace_seconds :: "int option"
  schr_catchup_policy :: ApiCatchupPolicy
  schr_max_catchup_runs :: nat
  schr_max_catchup_age_seconds :: int
  schr_revision :: int
  schr_created_at :: bytes
  schr_updated_at :: bytes

definition schedule_resource :: "(timestamp \<Rightarrow> bytes option) \<Rightarrow> ScheduleRecord \<Rightarrow> (ApiError, ScheduleResource) result" where
  "schedule_resource rfc3339 record =
     (let s = srec_schedule record; name = qualified_text (srec_namespace record) (srec_target_name record) in
      and_then (case sched_timing s of
          Cron expression timezone \<Rightarrow> Ok (Some expression, None, timezone)
        | Once t \<Rightarrow> and_then (timestamp_text rfc3339 t) (\<lambda>v. Ok (None, Some v, ''UTC''))) (\<lambda>(cron, once_at, timezone).
      and_then (opt_timestamp rfc3339 (sched_next_run_at s)) (\<lambda>next_run.
      and_then (opt_timestamp rfc3339 (sched_last_run_at s)) (\<lambda>last_run.
      and_then (timestamp_text rfc3339 (sched_created_at s)) (\<lambda>created.
      and_then (timestamp_text rfc3339 (sched_updated_at s)) (\<lambda>updated.
      Ok \<lparr> schr_id = sched_id s, schr_namespace_id = sched_namespace_id s, schr_namespace = namespace_str (srec_namespace record),
           schr_name = resource_str (sched_name s), schr_job_id = sched_job_id s,
           schr_job = qualified_text (srec_namespace record) (srec_job_name record),
           schr_target = (case sched_target s of SelectTarget i \<Rightarrow> NamedTarget i name | SelectTargetSet i \<Rightarrow> NamedTargetSet i name),
           schr_inputs = sched_inputs s, schr_cron_expression = cron, schr_execute_at = once_at, schr_timezone = timezone,
           schr_enabled = sched_enabled s, schr_next_run_at = next_run, schr_last_run_at = last_run,
           schr_misfire_policy = api_misfire (sched_misfire_policy s),
           schr_misfire_grace_seconds = sched_misfire_grace_seconds s,
           schr_catchup_policy = api_catchup (sched_catchup_policy s), schr_max_catchup_runs = sched_max_catchup_runs s,
           schr_max_catchup_age_seconds = sched_max_catchup_age_seconds s, schr_revision = sched_revision s,
           schr_created_at = created, schr_updated_at = updated \<rparr>))))))"

section \<open>Runs\<close>

record RunResource =
  runr_id :: uuid
  runr_request_id :: "uuid option"
  runr_schedule_id :: "uuid option"
  runr_job_id :: uuid
  runr_job :: bytes
  runr_namespace :: bytes
  runr_job_name :: bytes
  runr_target_id :: uuid
  runr_target :: bytes
  runr_target_name :: bytes
  runr_target_set :: "bytes option"
  runr_queue :: bytes
  runr_trigger_source :: RunTriggerSource
  runr_trigger_actor :: "bytes option"
  runr_rerun_of_run_id :: "uuid option"
  runr_rerunnable :: bool
  runr_status :: ApiRunStatus
  runr_scheduled_at :: bytes
  runr_created_at :: bytes
  runr_triggered_at :: bytes
  runr_queued_at :: "bytes option"
  runr_started_at :: "bytes option"
  runr_completed_at :: "bytes option"
  runr_duration_ms :: "int option"
  runr_attempt_count :: int
  runr_max_attempts :: int
  runr_lateness_seconds :: int
  runr_terminal_reason :: "bytes option"

text \<open>\<open>Duration::whole_milliseconds\<close> truncates towards zero; a negative duration is dropped.\<close>

definition whole_milliseconds :: "int \<Rightarrow> int" where
  "whole_milliseconds d = (if 0 \<le> d then d div 1000000 else - ((- d) div 1000000))"

definition duration_ms :: "timestamp option \<Rightarrow> timestamp option \<Rightarrow> int option" where
  "duration_ms started completed =
     (case (started, completed) of
        (Some s, Some f) \<Rightarrow>
          (let ms = whole_milliseconds (f - s) in if 0 \<le> ms \<and> ms \<le> u64_max then Some ms else None)
      | _ \<Rightarrow> None)"

definition api_run_status :: "RunStatus \<Rightarrow> ApiRunStatus" where
  "api_run_status v =
     (case v of PendingDispatch \<Rightarrow> ApiPendingDispatch | Queued \<Rightarrow> ApiQueued | Running \<Rightarrow> ApiRunning | RetryWait \<Rightarrow> ApiRetryWait
      | Succeeded \<Rightarrow> ApiSucceeded | Failed \<Rightarrow> ApiFailed | Dead \<Rightarrow> ApiDead | Skipped \<Rightarrow> ApiSkipped | Cancelled \<Rightarrow> ApiCancelled
      | Unknown \<Rightarrow> ApiUnknown)"

definition run_resource :: "(timestamp \<Rightarrow> bytes option) \<Rightarrow> RunRecord \<Rightarrow> (ApiError, RunResource) result" where
  "run_resource rfc3339 record =
     (let r = rrec_run record in
      and_then (timestamp_text rfc3339 (run_scheduled_at r)) (\<lambda>scheduled.
      and_then (timestamp_text rfc3339 (run_created_at r)) (\<lambda>created.
      and_then (timestamp_text rfc3339 (run_created_at r)) (\<lambda>triggered.
      and_then (opt_timestamp rfc3339 (run_queued_at r)) (\<lambda>queued.
      and_then (opt_timestamp rfc3339 (run_started_at r)) (\<lambda>started.
      and_then (opt_timestamp rfc3339 (run_completed_at r)) (\<lambda>completed.
      Ok \<lparr> runr_id = run_id r, runr_request_id = run_request_id r, runr_schedule_id = run_schedule_id r, runr_job_id = run_job_id r,
           runr_job = qualified_text (rrec_job_namespace record) (rrec_job_name record),
           runr_namespace = namespace_str (rrec_job_namespace record), runr_job_name = resource_str (rrec_job_name record),
           runr_target_id = run_target_id r, runr_target = qualified_text (rrec_target_namespace record) (rrec_target_name record),
           runr_target_name = resource_str (rrec_target_name record),
           runr_target_set = map_option resource_str (rrec_target_set_name record), runr_queue = queue_str (rrec_queue_name record),
           runr_trigger_source = (if run_rerun_of r \<noteq> None then SourceRerun
             else if run_schedule_id r \<noteq> None then SourceScheduler else SourceApi),
           runr_trigger_actor = None, runr_rerun_of_run_id = run_rerun_of r,
           runr_rerunnable = (run_is_repeatable (run_status r) \<and> rrec_has_snapshot record), runr_status = api_run_status (run_status r),
           runr_scheduled_at = scheduled, runr_created_at = created, runr_triggered_at = triggered, runr_queued_at = queued,
           runr_started_at = started, runr_completed_at = completed,
           runr_duration_ms = duration_ms (run_started_at r) (run_completed_at r), runr_attempt_count = run_attempt_count r,
           runr_max_attempts = run_max_attempts r, runr_lateness_seconds = run_lateness_seconds r,
           runr_terminal_reason = run_terminal_reason r \<rparr>)))))))"

record RunEventResource =
  rer_event_type :: bytes
  rer_created_at :: bytes

definition run_event_resource :: "(timestamp \<Rightarrow> bytes option) \<Rightarrow> bytes \<times> timestamp \<Rightarrow> (ApiError, RunEventResource) result" where
  "run_event_resource rfc3339 record =
     and_then (timestamp_text rfc3339 (snd record)) (\<lambda>created. Ok \<lparr> rer_event_type = fst record, rer_created_at = created \<rparr>)"

record RunAttemptResource =
  rar_id :: uuid
  rar_worker_id :: "bytes option"
  rar_attempt :: int
  rar_status :: AttemptStatus
  rar_started_at :: "bytes option"
  rar_completed_at :: "bytes option"
  rar_exit_code :: "int option"
  rar_stdout_tail :: "bytes option"
  rar_stderr_tail :: "bytes option"
  rar_error :: "bytes option"

text \<open>The status column is matched as text; a value the API has no name for is an internal error.\<close>

definition attempt_status :: "bytes \<Rightarrow> (ApiError, AttemptStatus) result" where
  "attempt_status v =
     (if v = ''pending_dispatch'' then Ok AttemptPendingDispatch
      else if v = ''queued'' then Ok AttemptQueued
      else if v = ''running'' then Ok AttemptRunning
      else if v = ''succeeded'' then Ok AttemptSucceeded
      else if v = ''skipped'' then Ok AttemptSkipped
      else if v = ''failed'' then Ok AttemptFailed
      else if v = ''dead'' then Ok AttemptDead
      else if v = ''unknown'' then Ok AttemptUnknown
      else Err (ApiApplication AppInternal))"

definition run_attempt_resource :: "(timestamp \<Rightarrow> bytes option) \<Rightarrow> RunAttemptRow \<Rightarrow> (ApiError, RunAttemptResource) result" where
  "run_attempt_resource rfc3339 a =
     and_then (attempt_status (run_status_name (att_status a))) (\<lambda>status.
     and_then (opt_timestamp rfc3339 (att_started_at a)) (\<lambda>started.
     and_then (opt_timestamp rfc3339 (att_completed_at a)) (\<lambda>completed.
     Ok \<lparr> rar_id = att_id a, rar_worker_id = att_worker_id a, rar_attempt = att_attempt a, rar_status = status,
          rar_started_at = started, rar_completed_at = completed, rar_exit_code = att_exit_code a,
          rar_stdout_tail = att_stdout_tail a, rar_stderr_tail = att_stderr_tail a, rar_error = att_error a \<rparr>)))"

record RunBatchResource =
  rbr_request_id :: uuid
  rbr_runs :: "RunResource list"

section \<open>Workers\<close>

record WorkerResource =
  wkr_worker_id :: bytes
  wkr_queue_id :: uuid
  wkr_queue :: bytes
  wkr_concurrency :: int
  wkr_version :: bytes
  wkr_status :: WorkerStatus
  wkr_started_at :: bytes
  wkr_last_seen_at :: bytes
  wkr_active_executions :: nat

record WorkerDetailsResource =
  wdr_worker :: WorkerResource
  wdr_diagnostics :: "json option"

definition worker_status :: "timestamp \<Rightarrow> timestamp \<Rightarrow> WorkerStatus" where
  "worker_status last_seen now =
     (let age = max (whole_seconds (now - last_seen)) 0 in
      if age \<le> 30 then Online else if age \<le> 120 then Stale else Offline)"

definition worker_resource :: "(timestamp \<Rightarrow> bytes option) \<Rightarrow> timestamp \<Rightarrow> WorkerRecord \<Rightarrow> (ApiError, WorkerResource) result" where
  "worker_resource rfc3339 now record =
     (let w = wkrec_worker record in
      and_then (timestamp_text rfc3339 (wk_started_at w)) (\<lambda>started.
      and_then (timestamp_text rfc3339 (wk_last_seen_at w)) (\<lambda>seen.
      Ok \<lparr> wkr_worker_id = wk_worker_id w, wkr_queue_id = wk_queue_id w, wkr_queue = queue_str (wkrec_queue record),
           wkr_concurrency = wk_concurrency w, wkr_version = wk_version w, wkr_status = worker_status (wk_last_seen_at w) now,
           wkr_started_at = started, wkr_last_seen_at = seen, wkr_active_executions = wkrec_active_executions record \<rparr>)))"

section \<open>Workflows\<close>

record WorkflowNodeResource =
  wnr_id :: uuid
  wnr_name :: bytes
  wnr_job_id :: uuid

record WorkflowEdgeResource =
  wer_from :: bytes
  wer_to :: bytes
  wer_condition :: ApiDependencyCondition

record WorkflowResource =
  wfr_id :: uuid
  wfr_namespace_id :: uuid
  wfr_namespace :: bytes
  wfr_name :: bytes
  wfr_description :: "bytes option"
  wfr_revision :: int
  wfr_nodes :: "WorkflowNodeResource list"
  wfr_edges :: "WorkflowEdgeResource list"
  wfr_created_at :: bytes
  wfr_updated_at :: bytes

definition workflow_resource :: "(timestamp \<Rightarrow> bytes option) \<Rightarrow> WorkflowRecord \<Rightarrow> (ApiError, WorkflowResource) result" where
  "workflow_resource rfc3339 record =
     (let d = wrec_definition record in
      and_then (traverse (\<lambda>n.
          and_then (ok_or (ApiApplication AppInternal) (bt_get (wrec_node_ids record) (resource_str (wn_name n)))) (\<lambda>i.
          Ok \<lparr> wnr_id = i, wnr_name = resource_str (wn_name n), wnr_job_id = wn_job_id n \<rparr>)) (wd_nodes d)) (\<lambda>nodes.
      and_then (timestamp_text rfc3339 (wrec_created_at record)) (\<lambda>created.
      and_then (timestamp_text rfc3339 (wrec_updated_at record)) (\<lambda>updated.
      Ok \<lparr> wfr_id = wrec_id record, wfr_namespace_id = wrec_namespace_id record,
           wfr_namespace = namespace_str (wrec_namespace record), wfr_name = resource_str (wd_name d),
           wfr_description = wd_description d, wfr_revision = wrec_revision record, wfr_nodes = nodes,
           wfr_edges = map (\<lambda>e. \<lparr> wer_from = resource_str (we_from e), wer_to = resource_str (we_to e),
             wer_condition = api_condition (we_condition e) \<rparr>) (wd_edges d),
           wfr_created_at = created, wfr_updated_at = updated \<rparr>))))"

record WorkflowChildRunResource =
  wcr_target_id :: uuid
  wcr_run_id :: uuid

record WorkflowNodeRunResource =
  wnrr_id :: uuid
  wnrr_workflow_node_id :: uuid
  wnrr_name :: bytes
  wnrr_job_id :: uuid
  wnrr_state :: WorkflowNodeRunState
  wnrr_runs :: "WorkflowChildRunResource list"
  wnrr_started_at :: "bytes option"
  wnrr_finished_at :: "bytes option"

record WorkflowRunResource =
  wrrs_id :: uuid
  wrrs_request_id :: uuid
  wrrs_workflow :: WorkflowResource
  wrrs_target :: ExecutionTarget
  wrrs_inputs :: json
  wrrs_state :: WorkflowRunState
  wrrs_cancellation_requested :: bool
  wrrs_nodes :: "WorkflowNodeRunResource list"
  wrrs_created_at :: bytes
  wrrs_started_at :: "bytes option"
  wrrs_finished_at :: "bytes option"

definition workflow_node_run_resource :: "(timestamp \<Rightarrow> bytes option) \<Rightarrow> WorkflowNodeRunRecord \<Rightarrow> (ApiError, WorkflowNodeRunResource) result" where
  "workflow_node_run_resource rfc3339 n =
     and_then (opt_timestamp rfc3339 (nrec_started_at n)) (\<lambda>started.
     and_then (opt_timestamp rfc3339 (nrec_finished_at n)) (\<lambda>finished.
     Ok \<lparr> wnrr_id = nrec_id n, wnrr_workflow_node_id = nrec_workflow_node_id n, wnrr_name = resource_str (nrec_name n),
          wnrr_job_id = nrec_job_id n, wnrr_state = node_run_state (nrec_state n),
          wnrr_runs = map (\<lambda>c. \<lparr> wcr_target_id = child_target_id c, wcr_run_id = child_run_id c \<rparr>) (nrec_runs n),
          wnrr_started_at = started, wnrr_finished_at = finished \<rparr>))"

definition workflow_run_resource :: "(timestamp \<Rightarrow> bytes option) \<Rightarrow> WorkflowRunRecord \<Rightarrow> (ApiError, WorkflowRunResource) result" where
  "workflow_run_resource rfc3339 record =
     and_then (traverse (workflow_node_run_resource rfc3339) (wrr_nodes record)) (\<lambda>nodes.
     and_then (workflow_resource rfc3339 (wrr_workflow record)) (\<lambda>workflow.
     and_then (timestamp_text rfc3339 (wrr_created_at record)) (\<lambda>created.
     and_then (opt_timestamp rfc3339 (wrr_started_at record)) (\<lambda>started.
     and_then (opt_timestamp rfc3339 (wrr_finished_at record)) (\<lambda>finished.
     Ok \<lparr> wrrs_id = wrr_id record, wrrs_request_id = wrr_request_id record, wrrs_workflow = workflow,
          wrrs_target = (case wrr_target record of SelectTarget i \<Rightarrow> TargetId i | SelectTargetSet i \<Rightarrow> TargetSetId i),
          wrrs_inputs = wrr_inputs record, wrrs_state = run_state (wrr_state record),
          wrrs_cancellation_requested = wrr_cancellation_requested record, wrrs_nodes = nodes,
          wrrs_created_at = created, wrrs_started_at = started, wrrs_finished_at = finished \<rparr>)))))"

section \<open>What conversions can fail with\<close>

lemma domain_api_roundtrip [simp]:
  "domain_misfire (api_misfire m) = m" "domain_catchup (api_catchup c) = c"
  "domain_run_status (api_run_status s) = s" "domain_condition (api_condition d) = d"
proof -
  show "domain_misfire (api_misfire m) = m" by (cases m) (simp_all add: domain_misfire_def api_misfire_def)
  show "domain_catchup (api_catchup c) = c" by (cases c) (simp_all add: domain_catchup_def api_catchup_def)
  show "domain_run_status (api_run_status s) = s" by (cases s) (simp_all add: domain_run_status_def api_run_status_def)
  show "domain_condition (api_condition d) = d" by (cases d) (simp_all add: domain_condition_def api_condition_def)
qed

definition only_internal :: "(ApiError, 'a) result \<Rightarrow> bool" where
  "only_internal r \<longleftrightarrow> (\<forall>e. r = Inl e \<longrightarrow> e = ApiApplication AppInternal)"

lemma only_internal_rules:
  "only_internal (Ok a)"
  "only_internal r \<Longrightarrow> (\<And>a. only_internal (f a)) \<Longrightarrow> only_internal (and_then r f)"
  "only_internal (ok_or (ApiApplication AppInternal) x)"
  "only_internal (timestamp_text rfc3339 t)"
  "(\<And>x. only_internal (g x)) \<Longrightarrow> only_internal (traverse g xs)"
  by (auto simp: only_internal_def and_then_Err timestamp_text_def dest: traverse_Err)

lemma opt_timestamp_internal: "only_internal (opt_timestamp rfc3339 x)"
  by (cases x) (auto intro!: only_internal_rules)

lemma attempt_status_internal: "only_internal (attempt_status v)"
  by (simp add: attempt_status_def only_internal_def)

lemmas internal_intros = only_internal_rules opt_timestamp_internal attempt_status_internal

lemma catalog_resources_internal:
  "only_internal (namespace_resource rfc3339 n)" "only_internal (queue_resource rfc3339 q)"
  "only_internal (job_resource rfc3339 j)" "only_internal (target_resource rfc3339 t)"
  "only_internal (target_set_resource rfc3339 s)"
  unfolding namespace_resource_def queue_resource_def job_resource_def target_resource_def target_set_resource_def Let_def
  by (intro internal_intros)+

lemma schedule_resource_internal: "only_internal (schedule_resource rfc3339 s)"
  unfolding schedule_resource_def Let_def
  by (intro internal_intros) (auto split: ScheduleTiming.splits prod.splits intro!: internal_intros)

lemma run_resources_internal:
  "only_internal (run_resource rfc3339 r)" "only_internal (run_event_resource rfc3339 ev)"
  "only_internal (run_attempt_resource rfc3339 a)" "only_internal (worker_resource rfc3339 now w)"
  unfolding run_resource_def run_event_resource_def run_attempt_resource_def worker_resource_def Let_def
  by (intro internal_intros)+

lemma workflow_resource_internal: "only_internal (workflow_resource rfc3339 w)"
  unfolding workflow_resource_def Let_def by (intro internal_intros)

lemma workflow_run_resource_internal: "only_internal (workflow_run_resource rfc3339 wr)"
  unfolding workflow_run_resource_def workflow_node_run_resource_def
  by (intro internal_intros workflow_resource_internal)

lemma map_page_internal: "(\<And>x. only_internal (f x)) \<Longrightarrow> only_internal (map_page p f)"
  unfolding map_page_def by (intro internal_intros)

lemmas resources_internal = catalog_resources_internal schedule_resource_internal run_resources_internal
  workflow_resource_internal workflow_run_resource_internal map_page_internal

end
