(* ===== verification/Monitor.thy ===== *)
theory Monitor
  imports Requests Resources
begin

text \<open>
  Operation of the server as it is observed: the metrics registry (\<open>metrics.rs\<close>), the aggregate
  queries of the store, the monitor of operators (\<open>api/handlers/monitor.rs\<close>) and the public probes
  (\<open>api/handlers/health.rs\<close>, \<open>api/state.rs\<close>).  The text encoding of the registry belongs to the
  \<open>prometheus-client\<close> crate.
\<close>

section \<open>Metrics\<close>

text \<open>Counters and gauges by their values, histograms by what was observed.\<close>

record Metrics =
  scheduler_due :: nat
  scheduler_misfire :: nat
  scheduler_skipped :: nat
  scheduler_last_poll_unix_seconds :: int
  outbox_publish :: nat
  outbox_publish_failure :: nat
  outbox_publish_latency :: "rat list"
  outbox_pending :: int
  outbox_oldest_seconds :: int
  outbox_last_poll_unix_seconds :: int
  execution_queued :: int
  execution_running :: int
  execution_lateness :: "int list"
  execution_success :: nat
  execution_skipped :: nat
  execution_failure :: nat
  execution_retry :: nat
  worker_lease_expired :: nat
  worker_active :: int
  nats_connected :: int

definition Metrics_new :: Metrics where
  "Metrics_new =
     \<lparr> scheduler_due = 0, scheduler_misfire = 0, scheduler_skipped = 0, scheduler_last_poll_unix_seconds = 0,
       outbox_publish = 0, outbox_publish_failure = 0, outbox_publish_latency = [], outbox_pending = 0,
       outbox_oldest_seconds = 0, outbox_last_poll_unix_seconds = 0, execution_queued = 0, execution_running = 0,
       execution_lateness = [], execution_success = 0, execution_skipped = 0, execution_failure = 0, execution_retry = 0,
       worker_lease_expired = 0, worker_active = 0, nats_connected = 0 \<rparr>"

section \<open>Aggregates of the store\<close>

record MetricsSnapshot =
  ms_outbox_pending :: int
  ms_outbox_oldest_seconds :: int
  ms_execution_queued :: int
  ms_execution_running :: int
  ms_worker_active :: int

definition count_rows :: "('r \<Rightarrow> bool) \<Rightarrow> 'r list \<Rightarrow> int" where
  "count_rows p rows = int (length (filter p rows))"

text \<open>\<open>extract(epoch FROM d)::bigint\<close> rounds half away from zero.\<close>

definition epoch_seconds :: "timestamp \<Rightarrow> int" where
  "epoch_seconds d = sgn d * ((2 * \<bar>d\<bar> + second) div (2 * second))"

definition outbox_open :: "OutboxRow \<Rightarrow> bool" where
  "outbox_open o' \<longleftrightarrow> ob_published_at o' = None \<and> ob_cancelled_at o' = None"

fun minimum :: "timestamp list \<Rightarrow> timestamp option" where
  "minimum [] = None"
| "minimum (t # ts) = Some (foldl min t ts)"

definition metrics_snapshot :: "timestamp \<Rightarrow> Db \<Rightarrow> MetricsSnapshot" where
  "metrics_snapshot now db =
     \<lparr> ms_outbox_pending = count_rows outbox_open (db_outbox db),
       ms_outbox_oldest_seconds =
         (case minimum (map ob_created_at (filter outbox_open (db_outbox db))) of
            None \<Rightarrow> 0
          | Some t \<Rightarrow> epoch_seconds (now - t)),
       ms_execution_queued = count_rows (\<lambda>r. run_status r = Queued) (db_runs db),
       ms_execution_running = count_rows (\<lambda>r. run_status r = Running) (db_runs db),
       ms_worker_active = count_rows (\<lambda>a. att_status a = Running \<and>
         (case att_lease_expires_at a of None \<Rightarrow> False | Some t \<Rightarrow> now < t)) (db_attempts db) \<rparr>"

text \<open>What PostgreSQL and the connection pool report of themselves; \<open>ds_backends\<close> is absent without a statistics row.\<close>

record DatabaseStatistics =
  ds_size_bytes :: int
  ds_backends :: "int option"
  ds_pool_size :: int
  ds_pool_idle :: int
  ds_pool_max :: int

record MonitorSnapshot =
  mn_database_size_bytes :: int
  mn_database_connections :: int
  mn_pool_connections :: int
  mn_pool_idle_connections :: int
  mn_pool_max_connections :: int
  mn_enabled_schedules :: int
  mn_due_schedules :: int
  mn_earliest_next_run_at :: "timestamp option"
  mn_online_workers :: int
  mn_metrics :: MetricsSnapshot

definition scheduled_at :: "ScheduleRow \<Rightarrow> timestamp option" where
  "scheduled_at row = (if sched_enabled (srow_schedule row) then sched_next_run_at (srow_schedule row) else None)"

text \<open>The sample has three seconds; \<open>None\<close> is a sample that took longer, an error one whose queries failed.\<close>

definition monitor_snapshot ::
  "(StoreError, DatabaseStatistics) result option \<Rightarrow> timestamp \<Rightarrow> Db \<Rightarrow> (StoreError, MonitorSnapshot) result" where
  "monitor_snapshot sample now db =
     and_then (case sample of None \<Rightarrow> Err StoreUnavailable | Some r \<Rightarrow> r) (\<lambda>s.
     if ds_pool_idle s > u32_max then Err StoreInternal
     else Ok \<lparr> mn_database_size_bytes = ds_size_bytes s,
       mn_database_connections = (case ds_backends s of None \<Rightarrow> 0 | Some n \<Rightarrow> n),
       mn_pool_connections = ds_pool_size s, mn_pool_idle_connections = min (ds_pool_idle s) (ds_pool_size s),
       mn_pool_max_connections = ds_pool_max s,
       mn_enabled_schedules = count_rows (\<lambda>row. scheduled_at row \<noteq> None) (db_schedules db),
       mn_due_schedules = count_rows (\<lambda>row. case scheduled_at row of None \<Rightarrow> False | Some t \<Rightarrow> t \<le> now) (db_schedules db),
       mn_earliest_next_run_at = minimum (List.map_filter scheduled_at (db_schedules db)),
       mn_online_workers = count_rows (\<lambda>w. now - 30 * second \<le> wk_last_seen_at w) (db_workers db),
       mn_metrics = metrics_snapshot now db \<rparr>)"

definition app_monitor_snapshot ::
  "GrantSet \<Rightarrow> (StoreError, MonitorSnapshot) result \<Rightarrow> Db \<Rightarrow> MonitorSnapshot option service" where
  "app_monitor_snapshot g r db =
     and_then (allow db g MonitorRead ControlPlane) (\<lambda>_. Ok (case r of Inl _ \<Rightarrow> None | Inr s \<Rightarrow> Some s))"

section \<open>The monitor\<close>

record DatabaseMonitorResource =
  dm_size_bytes :: int
  dm_connections :: int
  dm_pool_connections :: int
  dm_pool_idle_connections :: int
  dm_pool_max_connections :: int

record PipelineMonitorResource =
  pm_enabled_schedules :: int
  pm_due_schedules :: int
  pm_earliest_next_run_at :: "bytes option"
  pm_outbox_pending :: int
  pm_outbox_oldest_seconds :: int
  pm_runs_queued :: int
  pm_runs_running :: int
  pm_active_worker_leases :: int
  pm_online_workers :: int

record InstanceMonitorResource =
  im_scheduler_last_poll_at :: "bytes option"
  im_publisher_last_poll_at :: "bytes option"

record MonitorResource =
  mr_sampled_at :: bytes
  mr_database_available :: bool
  mr_nats_available :: bool
  mr_database :: "DatabaseMonitorResource option"
  mr_pipeline :: "PipelineMonitorResource option"
  mr_instance :: InstanceMonitorResource

definition nonnegative :: "int \<Rightarrow> (ApiError, int) result" where
  "nonnegative v = (if 0 \<le> v then Ok v else Err (ApiApplication AppInternal))"

definition database_resource :: "MonitorSnapshot \<Rightarrow> (ApiError, DatabaseMonitorResource) result" where
  "database_resource s =
     and_then (nonnegative (mn_database_size_bytes s)) (\<lambda>size_bytes.
     and_then (nonnegative (mn_database_connections s)) (\<lambda>connections.
     Ok \<lparr> dm_size_bytes = size_bytes, dm_connections = connections, dm_pool_connections = mn_pool_connections s,
          dm_pool_idle_connections = mn_pool_idle_connections s, dm_pool_max_connections = mn_pool_max_connections s \<rparr>))"

definition pipeline_resource ::
  "(timestamp \<Rightarrow> bytes option) \<Rightarrow> MonitorSnapshot \<Rightarrow> (ApiError, PipelineMonitorResource) result" where
  "pipeline_resource rfc3339 s =
     (let m = mn_metrics s in
      and_then (nonnegative (mn_enabled_schedules s)) (\<lambda>enabled.
      and_then (nonnegative (mn_due_schedules s)) (\<lambda>due.
      and_then (opt_timestamp rfc3339 (mn_earliest_next_run_at s)) (\<lambda>earliest.
      and_then (nonnegative (ms_outbox_pending m)) (\<lambda>pending.
      and_then (nonnegative (ms_outbox_oldest_seconds m)) (\<lambda>oldest.
      and_then (nonnegative (ms_execution_queued m)) (\<lambda>queued.
      and_then (nonnegative (ms_execution_running m)) (\<lambda>running.
      and_then (nonnegative (ms_worker_active m)) (\<lambda>active.
      and_then (nonnegative (mn_online_workers s)) (\<lambda>online.
      Ok \<lparr> pm_enabled_schedules = enabled, pm_due_schedules = due, pm_earliest_next_run_at = earliest,
           pm_outbox_pending = pending, pm_outbox_oldest_seconds = oldest, pm_runs_queued = queued,
           pm_runs_running = running, pm_active_worker_leases = active, pm_online_workers = online \<rparr>))))))))))"

text \<open>\<open>OffsetDateTime::from_unix_timestamp\<close> accepts the years -9999 to 9999.\<close>

definition poll_timestamp :: "(timestamp \<Rightarrow> bytes option) \<Rightarrow> int \<Rightarrow> (ApiError, bytes option) result" where
  "poll_timestamp rfc3339 unix_seconds =
     (if unix_seconds = 0 then Ok None
      else if unix_seconds < - 377705116800 \<or> unix_seconds > 253402300799 then Err (ApiApplication AppInternal)
      else and_then (timestamp_text rfc3339 (unix_seconds * second)) (\<lambda>v. Ok (Some v)))"

definition monitor_resource ::
  "(timestamp \<Rightarrow> bytes option) \<Rightarrow> Metrics \<Rightarrow> MonitorSnapshot option \<Rightarrow> bool \<Rightarrow> bool \<Rightarrow> bytes \<Rightarrow> (ApiError, MonitorResource) result" where
  "monitor_resource rfc3339 metrics snapshot database_available nats_available sampled_at =
     and_then (case snapshot of
         None \<Rightarrow> Ok (None, None)
       | Some s \<Rightarrow>
           and_then (database_resource s) (\<lambda>database.
           and_then (pipeline_resource rfc3339 s) (\<lambda>pipeline. Ok (Some database, Some pipeline)))) (\<lambda>(database, pipeline).
     and_then (poll_timestamp rfc3339 (scheduler_last_poll_unix_seconds metrics)) (\<lambda>scheduler.
     and_then (poll_timestamp rfc3339 (outbox_last_poll_unix_seconds metrics)) (\<lambda>publisher.
     Ok \<lparr> mr_sampled_at = sampled_at, mr_database_available = database_available, mr_nats_available = nats_available,
          mr_database = database, mr_pipeline = pipeline,
          mr_instance = \<lparr> im_scheduler_last_poll_at = scheduler, im_publisher_last_poll_at = publisher \<rparr> \<rparr>)))"

text \<open>
  The dependencies of one request: the statistics sample, the answers of the two readiness checks and
  whether each came within three seconds, the failure of the metrics query if it fails, and the registry of the process.
\<close>

record Dependencies =
  dep_statistics :: "(StoreError, DatabaseStatistics) result option"
  dep_ready :: bool
  dep_ready_timely :: bool
  dep_nats_ready :: bool
  dep_nats_timely :: bool
  dep_query_failure :: "StoreError option"
  dep_metrics :: Metrics

definition monitor ::
  "(timestamp \<Rightarrow> bytes option) \<Rightarrow> Dependencies \<Rightarrow> timestamp \<Rightarrow> timestamp \<Rightarrow> GrantSet \<Rightarrow> Db \<Rightarrow> (ApiError, MonitorResource) result" where
  "monitor rfc3339 D now utc g db =
     and_then (map_err ApiApplication (app_monitor_snapshot g (monitor_snapshot (dep_statistics D) now db) db)) (\<lambda>snapshot.
     let database_available = (dep_ready_timely D \<and> dep_ready D); nats_available = (dep_nats_timely D \<and> dep_nats_ready D) in
     and_then (timestamp_text rfc3339 utc) (\<lambda>sampled_at.
     monitor_resource rfc3339 (dep_metrics D) (if database_available then snapshot else None)
       database_available nats_available sampled_at))"

section \<open>Probes\<close>

record Health =
  health_commit :: bytes
  health_name :: bytes
  health_version :: bytes
  health_database :: bytes
  health_nats :: bytes

text \<open>
  What the build embeds, which texts the \<open>http\<close> crate accepts as a header value, and the encoded
  registry, whose encoder may fail.
\<close>

record ProbeEnv =
  build_commit :: "bytes option"
  build_name :: bytes
  build_version :: bytes
  header_value_ok :: "bytes \<Rightarrow> bool"
  encode_metrics :: "Metrics \<Rightarrow> bytes option"

definition live_probe :: "'b Response" where
  "live_probe = \<lparr> resp_status = 200, resp_headers = [], resp_body = Empty \<rparr>"

definition ready_probe :: "bool \<Rightarrow> 'b Response" where
  "ready_probe ready = \<lparr> resp_status = (if ready then 200 else 503), resp_headers = [], resp_body = Empty \<rparr>"

definition commit_hash :: "ProbeEnv \<Rightarrow> bytes" where
  "commit_hash P = (case build_commit P of None \<Rightarrow> ''unknown'' | Some h \<Rightarrow> h)"

definition x_app_headers :: "ProbeEnv \<Rightarrow> Health \<Rightarrow> headers" where
  "x_app_headers P h =
     (let v = health_name h @ '':'' @ health_version h @ '':'' @ take_chars 7 (health_commit h) in
      if header_value_ok P v then [(''x-app'', v)] else [])"

definition health_probe :: "(Health \<Rightarrow> 'b) \<Rightarrow> ProbeEnv \<Rightarrow> bool \<Rightarrow> bool \<Rightarrow> 'b Response" where
  "health_probe body P database_ready nats_ready =
     (let h = \<lparr> health_commit = commit_hash P, health_name = build_name P, health_version = build_version P,
                health_database = (if database_ready then ''available'' else ''unavailable''),
                health_nats = (if nats_ready then ''available'' else ''degraded'') \<rparr> in
      \<lparr> resp_status = 200, resp_headers = x_app_headers P h, resp_body = Json (body h) \<rparr>)"

text \<open>\<open>AppState::refresh_metrics\<close>: a failed query leaves the gauges as they are.\<close>

definition refresh_metrics :: "(StoreError, MetricsSnapshot) result \<Rightarrow> Metrics \<Rightarrow> Metrics \<times> bool" where
  "refresh_metrics r m =
     (case r of
        Inl _ \<Rightarrow> (m, False)
      | Inr s \<Rightarrow> (m\<lparr> outbox_pending := ms_outbox_pending s, outbox_oldest_seconds := ms_outbox_oldest_seconds s,
                       execution_queued := ms_execution_queued s, execution_running := ms_execution_running s,
                       worker_active := ms_worker_active s \<rparr>, True))"

definition metrics_probe :: "ProbeEnv \<Rightarrow> (StoreError, MetricsSnapshot) result \<Rightarrow> Metrics \<Rightarrow> Metrics \<times> 'b Response" where
  "metrics_probe P r m =
     (let m' = fst (refresh_metrics r m) in
      (m', case encode_metrics P m' of
             Some text \<Rightarrow> \<lparr> resp_status = 200,
               resp_headers = [(''content-type'', ''application/openmetrics-text; version=1.0.0; charset=utf-8'')], resp_body = Plain text \<rparr>
           | None \<Rightarrow> \<lparr> resp_status = 500, resp_headers = [(''content-type'', ''text/plain; charset=utf-8'')],
               resp_body = Plain ''metrics encoding failed'' \<rparr>))"

end
