(* ===== verification/Handlers.thy ===== *)
theory Handlers
  imports Monitor
begin

text \<open>
  The handlers of the API (\<open>api/handlers/control_plane.rs\<close>, \<open>api/handlers/workflows.rs\<close>,
  the probes and the monitor included) and the service they compose behind the transport layers
  (\<open>build_router\<close> of \<open>api/mod.rs\<close>).  Route matching and the decoding of paths, query strings and
  JSON bodies belong to axum and serde: a call carries the values a handler's extractors produced.
\<close>

section \<open>Request bodies and queries\<close>

record CreateNamespaceRequest =
  cnr_name :: bytes

record CreateQueueRequest =
  cqr_name :: bytes
  cqr_description :: "bytes option"

record UpdateQueueRequest =
  uqr_name :: bytes
  uqr_description :: "bytes option"
  uqr_enabled :: bool

record CreateJobRequest =
  cjr_name :: bytes
  cjr_queue_id :: uuid
  cjr_executor :: ApiExecutorKind
  cjr_executable :: "bytes option"
  cjr_shell_command :: "bytes option"
  cjr_arguments :: "bytes list"
  cjr_inputs :: json
  cjr_idempotent :: bool
  cjr_dry_run :: bool
  cjr_max_attempts :: int
  cjr_retry_initial_seconds :: int
  cjr_retry_max_seconds :: int
  cjr_retry_multiplier :: f64
  cjr_retry_jitter :: f64

type_synonym UpdateJobRequest = CreateJobRequest

record CreateTargetRequest =
  ctr_name :: bytes
  ctr_arguments :: "bytes list"
  ctr_inputs :: json

type_synonym UpdateTargetRequest = CreateTargetRequest

record CreateTargetSetRequest =
  ctsr_name :: bytes
  ctsr_target_ids :: "uuid list"
  ctsr_inputs :: json

type_synonym UpdateTargetSetRequest = CreateTargetSetRequest

record CreateScheduleRequest =
  csr_name :: bytes
  csr_job_id :: uuid
  csr_target :: ExecutionTarget
  csr_inputs :: json
  csr_cron_expression :: "bytes option"
  csr_execute_at :: "bytes option"
  csr_timezone :: bytes
  csr_misfire_policy :: ApiMisfirePolicy
  csr_misfire_grace_seconds :: "int option"
  csr_catchup_policy :: ApiCatchupPolicy
  csr_max_catchup_runs :: nat
  csr_max_catchup_age_seconds :: int

record UpdateScheduleRequest =
  usr_revision :: int
  usr_enabled :: bool

record CreateRunRequest =
  crr_request_id :: uuid
  crr_job_id :: uuid
  crr_target :: ExecutionTarget
  crr_inputs :: json

record RerunRequest =
  rrr_request_id :: uuid

record WorkflowNodeRequest =
  wnq_name :: bytes
  wnq_job_id :: uuid

record WorkflowEdgeRequest =
  weq_from :: bytes
  weq_to :: bytes
  weq_condition :: ApiDependencyCondition

record CreateWorkflowRequest =
  cwr_name :: bytes
  cwr_description :: "bytes option"
  cwr_nodes :: "WorkflowNodeRequest list"
  cwr_edges :: "WorkflowEdgeRequest list"

record UpdateWorkflowRequest =
  uwr_revision :: int
  uwr_name :: bytes
  uwr_description :: "bytes option"
  uwr_nodes :: "WorkflowNodeRequest list"
  uwr_edges :: "WorkflowEdgeRequest list"

record StartWorkflowRequest =
  swr_request_id :: uuid
  swr_target :: ExecutionTarget
  swr_inputs :: json

record PageQuery =
  pq_limit :: "nat option"
  pq_after :: "bytes option"

record RunPageQuery =
  rpq_limit :: "nat option"
  rpq_before :: "uuid option"
  rpq_namespace_id :: "uuid option"
  rpq_status :: "ApiRunStatus option"
  rpq_job_id :: "uuid option"
  rpq_target_id :: "uuid option"
  rpq_target_set_id :: "uuid option"

record WorkflowRunQuery =
  wrq_limit :: "nat option"
  wrq_before :: "uuid option"

section \<open>Answers\<close>

datatype ApiBody =
    OneNamespace NamespaceResource | NamespacePage "NamespaceResource Page"
  | OneQueue QueueResource | QueuePage "QueueResource Page"
  | OneJob JobResource | JobPage "JobResource Page"
  | OneTarget TargetResource | TargetPage "TargetResource Page"
  | OneTargetSet TargetSetResource | TargetSetPage "TargetSetResource Page"
  | OneSchedule ScheduleResource | SchedulePage "ScheduleResource Page"
  | RunBatch RunBatchResource | OneRun RunResource | RunPage "RunResource Page"
  | RunEvents "RunEventResource list" | RunAttempts "RunAttemptResource list"
  | OneWorker WorkerDetailsResource | WorkerPage "WorkerResource Page"
  | OverviewBody Overview | MonitorBody MonitorResource | HealthBody Health
  | OneWorkflow WorkflowResource | WorkflowPage "WorkflowResource Page"
  | OneWorkflowRun WorkflowRunResource | WorkflowRunPage "WorkflowRunResource Page"

type_synonym outcome = "(ApiError, nat \<times> ApiBody option) result"

definition respond :: "nat \<Rightarrow> ('r \<Rightarrow> ApiBody) \<Rightarrow> (ApiError, 'r) result \<Rightarrow> outcome" where
  "respond status body r = and_then r (\<lambda>x. Ok (status, Some (body x)))"

text \<open>
  A read leaves the store alone; a write has committed when its application operation returns, and
  only then its result is turned into a public record.
\<close>

definition reads :: "Db \<Rightarrow> 'a service \<Rightarrow> ('a \<Rightarrow> outcome) \<Rightarrow> Db \<times> outcome" where
  "reads db r f = (db, and_then (map_err ApiApplication r) f)"

definition writes :: "Db \<Rightarrow> (Db \<times> 'a) service \<Rightarrow> ('a \<Rightarrow> outcome) \<Rightarrow> Db \<times> outcome" where
  "writes db r f = (case r of Inl e \<Rightarrow> (db, Err (ApiApplication e)) | Inr (db', a) \<Rightarrow> (db', f a))"

record 'tz ApiEnv =
  ae_service :: "'tz ServiceEnv"
  ae_rfc3339 :: "timestamp \<Rightarrow> bytes option"
  ae_parse_rfc3339 :: "bytes \<Rightarrow> timestamp option"
  ae_uuid_str :: "uuid \<Rightarrow> bytes"
  ae_dependencies :: Dependencies
  ae_probes :: ProbeEnv

definition no_content :: "unit \<Rightarrow> outcome" where
  "no_content u = Ok (204, None)"

section \<open>Namespaces, Queues and Jobs\<close>

definition h_create_namespace :: "'tz ApiEnv \<Rightarrow> timestamp \<Rightarrow> GrantSet \<Rightarrow> CreateNamespaceRequest \<Rightarrow> Db \<Rightarrow> Db \<times> outcome" where
  "h_create_namespace E now g request db =
     writes db (app_create_namespace now g (cnr_name request) db) (\<lambda>n. respond 201 OneNamespace (namespace_resource (ae_rfc3339 E) n))"

definition h_list_namespaces :: "'tz ApiEnv \<Rightarrow> GrantSet \<Rightarrow> PageQuery \<Rightarrow> Db \<Rightarrow> Db \<times> outcome" where
  "h_list_namespaces E g query db =
     reads db (app_list_namespaces g (pq_limit query) (pq_after query) db)
       (\<lambda>p. respond 200 NamespacePage (map_page p (namespace_resource (ae_rfc3339 E))))"

definition h_get_namespace :: "'tz ApiEnv \<Rightarrow> GrantSet \<Rightarrow> uuid \<Rightarrow> Db \<Rightarrow> Db \<times> outcome" where
  "h_get_namespace E g i db =
     reads db (app_get_namespace g i db) (\<lambda>n. respond 200 OneNamespace (namespace_resource (ae_rfc3339 E) n))"

definition h_delete_namespace :: "GrantSet \<Rightarrow> uuid \<Rightarrow> Db \<Rightarrow> Db \<times> outcome" where
  "h_delete_namespace g i db = writes db (app_delete_namespace g i db) no_content"

definition h_create_queue :: "'tz ApiEnv \<Rightarrow> timestamp \<Rightarrow> GrantSet \<Rightarrow> CreateQueueRequest \<Rightarrow> Db \<Rightarrow> Db \<times> outcome" where
  "h_create_queue E now g request db =
     writes db (app_create_queue now g (cqr_name request) (cqr_description request) db)
       (\<lambda>q. respond 201 OneQueue (queue_resource (ae_rfc3339 E) q))"

definition h_list_queues :: "'tz ApiEnv \<Rightarrow> GrantSet \<Rightarrow> PageQuery \<Rightarrow> Db \<Rightarrow> Db \<times> outcome" where
  "h_list_queues E g query db =
     reads db (app_list_queues g (pq_limit query) (pq_after query) db)
       (\<lambda>p. respond 200 QueuePage (map_page p (queue_resource (ae_rfc3339 E))))"

definition h_get_queue :: "'tz ApiEnv \<Rightarrow> GrantSet \<Rightarrow> uuid \<Rightarrow> Db \<Rightarrow> Db \<times> outcome" where
  "h_get_queue E g i db = reads db (app_get_queue g i db) (\<lambda>q. respond 200 OneQueue (queue_resource (ae_rfc3339 E) q))"

definition h_update_queue :: "'tz ApiEnv \<Rightarrow> timestamp \<Rightarrow> GrantSet \<Rightarrow> uuid \<Rightarrow> UpdateQueueRequest \<Rightarrow> Db \<Rightarrow> Db \<times> outcome" where
  "h_update_queue E now g i request db =
     writes db (app_update_queue now g i (uqr_name request) (uqr_description request) (uqr_enabled request) db)
       (\<lambda>q. respond 200 OneQueue (queue_resource (ae_rfc3339 E) q))"

definition h_delete_queue :: "GrantSet \<Rightarrow> uuid \<Rightarrow> Db \<Rightarrow> Db \<times> outcome" where
  "h_delete_queue g i db = writes db (app_delete_queue g i db) no_content"

definition job_input :: "CreateJobRequest \<Rightarrow> CreateJobInput" where
  "job_input request =
     \<lparr> ji_name = cjr_name request,
       ji_definition = \<lparr> jd_executor = domain_executor (cjr_executor request), jd_queue_id = cjr_queue_id request,
         jd_executable = cjr_executable request, jd_shell_command = cjr_shell_command request,
         jd_arguments = cjr_arguments request, jd_inputs = cjr_inputs request, jd_idempotent = cjr_idempotent request,
         jd_dry_run = cjr_dry_run request, jd_max_attempts = cjr_max_attempts request,
         jd_retry_initial_seconds = cjr_retry_initial_seconds request, jd_retry_max_seconds = cjr_retry_max_seconds request,
         jd_retry_multiplier = cjr_retry_multiplier request, jd_retry_jitter = cjr_retry_jitter request \<rparr> \<rparr>"

definition h_create_job :: "'tz ApiEnv \<Rightarrow> timestamp \<Rightarrow> GrantSet \<Rightarrow> uuid \<Rightarrow> CreateJobRequest \<Rightarrow> Db \<Rightarrow> Db \<times> outcome" where
  "h_create_job E now g n request db =
     writes db (app_create_job (se_encode (ae_service E)) now g n (job_input request) db)
       (\<lambda>j. respond 201 OneJob (job_resource (ae_rfc3339 E) j))"

definition h_list_jobs :: "'tz ApiEnv \<Rightarrow> GrantSet \<Rightarrow> uuid \<Rightarrow> PageQuery \<Rightarrow> Db \<Rightarrow> Db \<times> outcome" where
  "h_list_jobs E g n query db =
     reads db (app_list_jobs g n (pq_limit query) (pq_after query) db)
       (\<lambda>p. respond 200 JobPage (map_page p (job_resource (ae_rfc3339 E))))"

definition h_get_job :: "'tz ApiEnv \<Rightarrow> GrantSet \<Rightarrow> uuid \<Rightarrow> Db \<Rightarrow> Db \<times> outcome" where
  "h_get_job E g i db = reads db (app_get_job g i db) (\<lambda>j. respond 200 OneJob (job_resource (ae_rfc3339 E) j))"

definition h_update_job :: "'tz ApiEnv \<Rightarrow> timestamp \<Rightarrow> GrantSet \<Rightarrow> uuid \<Rightarrow> UpdateJobRequest \<Rightarrow> Db \<Rightarrow> Db \<times> outcome" where
  "h_update_job E now g i request db =
     writes db (app_update_job (se_encode (ae_service E)) now g i (job_input request) db)
       (\<lambda>j. respond 200 OneJob (job_resource (ae_rfc3339 E) j))"

section \<open>Targets and Target Sets\<close>

definition h_create_target :: "'tz ApiEnv \<Rightarrow> timestamp \<Rightarrow> GrantSet \<Rightarrow> uuid \<Rightarrow> CreateTargetRequest \<Rightarrow> Db \<Rightarrow> Db \<times> outcome" where
  "h_create_target E now g n request db =
     writes db (app_create_target (se_encode (ae_service E)) now g n (ctr_name request) (ctr_arguments request) (ctr_inputs request) db)
       (\<lambda>t. respond 201 OneTarget (target_resource (ae_rfc3339 E) t))"

definition h_list_targets :: "'tz ApiEnv \<Rightarrow> GrantSet \<Rightarrow> uuid \<Rightarrow> PageQuery \<Rightarrow> Db \<Rightarrow> Db \<times> outcome" where
  "h_list_targets E g n query db =
     reads db (app_list_targets g n (pq_limit query) (pq_after query) db)
       (\<lambda>p. respond 200 TargetPage (map_page p (target_resource (ae_rfc3339 E))))"

definition h_get_target :: "'tz ApiEnv \<Rightarrow> GrantSet \<Rightarrow> uuid \<Rightarrow> Db \<Rightarrow> Db \<times> outcome" where
  "h_get_target E g i db = reads db (app_get_target g i db) (\<lambda>t. respond 200 OneTarget (target_resource (ae_rfc3339 E) t))"

definition h_update_target :: "'tz ApiEnv \<Rightarrow> timestamp \<Rightarrow> GrantSet \<Rightarrow> uuid \<Rightarrow> UpdateTargetRequest \<Rightarrow> Db \<Rightarrow> Db \<times> outcome" where
  "h_update_target E now g i request db =
     writes db (app_update_target (se_encode (ae_service E)) now g i (ctr_name request) (ctr_arguments request) (ctr_inputs request) db)
       (\<lambda>t. respond 200 OneTarget (target_resource (ae_rfc3339 E) t))"

definition h_delete_target :: "GrantSet \<Rightarrow> uuid \<Rightarrow> Db \<Rightarrow> Db \<times> outcome" where
  "h_delete_target g i db = writes db (app_delete_target g i db) no_content"

definition h_create_target_set :: "'tz ApiEnv \<Rightarrow> timestamp \<Rightarrow> GrantSet \<Rightarrow> uuid \<Rightarrow> CreateTargetSetRequest \<Rightarrow> Db \<Rightarrow> Db \<times> outcome" where
  "h_create_target_set E now g n request db =
     writes db (app_create_target_set (se_encode (ae_service E)) now g n (ctsr_name request) (ctsr_target_ids request) (ctsr_inputs request) db)
       (\<lambda>s. respond 201 OneTargetSet (target_set_resource (ae_rfc3339 E) s))"

definition h_list_target_sets :: "'tz ApiEnv \<Rightarrow> GrantSet \<Rightarrow> uuid \<Rightarrow> PageQuery \<Rightarrow> Db \<Rightarrow> Db \<times> outcome" where
  "h_list_target_sets E g n query db =
     reads db (app_list_target_sets g n (pq_limit query) (pq_after query) db)
       (\<lambda>p. respond 200 TargetSetPage (map_page p (target_set_resource (ae_rfc3339 E))))"

definition h_get_target_set :: "'tz ApiEnv \<Rightarrow> GrantSet \<Rightarrow> uuid \<Rightarrow> Db \<Rightarrow> Db \<times> outcome" where
  "h_get_target_set E g i db =
     reads db (app_get_target_set g i db) (\<lambda>s. respond 200 OneTargetSet (target_set_resource (ae_rfc3339 E) s))"

definition h_update_target_set :: "'tz ApiEnv \<Rightarrow> timestamp \<Rightarrow> GrantSet \<Rightarrow> uuid \<Rightarrow> UpdateTargetSetRequest \<Rightarrow> Db \<Rightarrow> Db \<times> outcome" where
  "h_update_target_set E now g i request db =
     writes db (app_update_target_set (se_encode (ae_service E)) now g i (ctsr_name request) (ctsr_target_ids request) (ctsr_inputs request) db)
       (\<lambda>s. respond 200 OneTargetSet (target_set_resource (ae_rfc3339 E) s))"

section \<open>Schedules\<close>

text \<open>Exactly one of the recurrence and the instant, the latter as RFC 3339 text.\<close>

definition request_timing :: "'tz ApiEnv \<Rightarrow> CreateScheduleRequest \<Rightarrow> ScheduleTiming service" where
  "request_timing E request =
     (case (csr_cron_expression request, csr_execute_at request) of
        (Some expression, None) \<Rightarrow> Ok (Cron expression (csr_timezone request))
      | (None, Some instant) \<Rightarrow>
          and_then (ok_or (app_invalid ''execute_at'') (ae_parse_rfc3339 E (trim instant))) (\<lambda>t. Ok (Once t))
      | _ \<Rightarrow> Err app_invalid_request)"

definition schedule_input :: "CreateScheduleRequest \<Rightarrow> ScheduleTiming \<Rightarrow> CreateScheduleInput" where
  "schedule_input request timing =
     \<lparr> si_name = csr_name request, si_job_id = csr_job_id request, si_target = domain_target (csr_target request),
       si_inputs = csr_inputs request, si_timing = timing, si_misfire_policy = domain_misfire (csr_misfire_policy request),
       si_misfire_grace_seconds = csr_misfire_grace_seconds request,
       si_catchup_policy = domain_catchup (csr_catchup_policy request), si_max_catchup_runs = csr_max_catchup_runs request,
       si_max_catchup_age_seconds = csr_max_catchup_age_seconds request \<rparr>"

definition h_create_schedule :: "'tz ApiEnv \<Rightarrow> timestamp \<Rightarrow> timestamp \<Rightarrow> GrantSet \<Rightarrow> uuid \<Rightarrow> CreateScheduleRequest \<Rightarrow> Db \<Rightarrow> Db \<times> outcome" where
  "h_create_schedule E now utc g n request db =
     writes db (and_then (request_timing E request) (\<lambda>timing.
         app_create_schedule (se_encode (ae_service E)) (se_cron (ae_service E)) now utc g n (schedule_input request timing) db))
       (\<lambda>s. respond 201 OneSchedule (schedule_resource (ae_rfc3339 E) s))"

definition h_list_schedules :: "'tz ApiEnv \<Rightarrow> GrantSet \<Rightarrow> uuid \<Rightarrow> PageQuery \<Rightarrow> Db \<Rightarrow> Db \<times> outcome" where
  "h_list_schedules E g n query db =
     reads db (app_list_schedules g n (pq_limit query) (pq_after query) db)
       (\<lambda>p. respond 200 SchedulePage (map_page p (schedule_resource (ae_rfc3339 E))))"

definition h_get_schedule :: "'tz ApiEnv \<Rightarrow> GrantSet \<Rightarrow> uuid \<Rightarrow> Db \<Rightarrow> Db \<times> outcome" where
  "h_get_schedule E g i db =
     reads db (app_get_schedule g i db) (\<lambda>s. respond 200 OneSchedule (schedule_resource (ae_rfc3339 E) s))"

definition h_update_schedule :: "'tz ApiEnv \<Rightarrow> timestamp \<Rightarrow> timestamp \<Rightarrow> GrantSet \<Rightarrow> uuid \<Rightarrow> UpdateScheduleRequest \<Rightarrow> Db \<Rightarrow> Db \<times> outcome" where
  "h_update_schedule E now utc g i request db =
     writes db (app_set_schedule_enabled (se_cron (ae_service E)) now utc g i (usr_revision request) (usr_enabled request) db)
       (\<lambda>s. respond 200 OneSchedule (schedule_resource (ae_rfc3339 E) s))"

section \<open>Runs, workers and the overview\<close>

text \<open>The records of created Runs are read in the transaction that created them.\<close>

definition with_records :: "(Db \<times> RunRow list \<times> bool) service \<Rightarrow> (Db \<times> RunRecord list \<times> bool) service" where
  "with_records r =
     and_then r (\<lambda>(db', rows, created).
     and_then (store_call (traverse (run_record db') rows)) (\<lambda>records. Ok (db', records, created)))"

definition created_status :: "bool \<Rightarrow> nat" where
  "created_status created = (if created then 201 else 200)"

definition h_create_run :: "'tz ApiEnv \<Rightarrow> timestamp \<Rightarrow> GrantSet \<Rightarrow> CreateRunRequest \<Rightarrow> Db \<Rightarrow> Db \<times> outcome" where
  "h_create_run E now g request db =
     writes db (with_records (app_create_run (se_encode (ae_service E)) (se_jsonb_eq (ae_service E)) now g (crr_request_id request)
         (crr_job_id request) (domain_target (crr_target request)) (crr_inputs request) db))
       (\<lambda>(records, created). respond (created_status created) RunBatch
          (and_then (traverse (run_resource (ae_rfc3339 E)) records) (\<lambda>runs.
           Ok \<lparr> rbr_request_id = crr_request_id request, rbr_runs = runs \<rparr>)))"

definition h_list_runs :: "'tz ApiEnv \<Rightarrow> GrantSet \<Rightarrow> RunPageQuery \<Rightarrow> Db \<Rightarrow> Db \<times> outcome" where
  "h_list_runs E g query db =
     reads db (app_list_runs (ae_uuid_str E) g \<lparr> rf_namespace_id = rpq_namespace_id query,
         rf_status = map_option domain_run_status (rpq_status query), rf_job_id = rpq_job_id query,
         rf_target_id = rpq_target_id query, rf_target_set_id = rpq_target_set_id query \<rparr> (rpq_limit query) (rpq_before query) db)
       (\<lambda>p. respond 200 RunPage (map_page p (run_resource (ae_rfc3339 E))))"

definition h_get_run :: "'tz ApiEnv \<Rightarrow> GrantSet \<Rightarrow> uuid \<Rightarrow> Db \<Rightarrow> Db \<times> outcome" where
  "h_get_run E g i db = reads db (app_get_run g i db) (\<lambda>r. respond 200 OneRun (run_resource (ae_rfc3339 E) r))"

definition h_rerun_run :: "'tz ApiEnv \<Rightarrow> timestamp \<Rightarrow> GrantSet \<Rightarrow> uuid \<Rightarrow> RerunRequest \<Rightarrow> Db \<Rightarrow> Db \<times> outcome" where
  "h_rerun_run E now g i request db =
     writes db (with_records (and_then (app_rerun_run now g i (rrr_request_id request) db) (\<lambda>(db', row, created). Ok (db', [row], created))))
       (\<lambda>(records, created). case records of
          [] \<Rightarrow> Err (ApiApplication AppInternal)
        | run # _ \<Rightarrow> respond (created_status created) OneRun (run_resource (ae_rfc3339 E) run))"

definition h_list_run_events :: "'tz ApiEnv \<Rightarrow> GrantSet \<Rightarrow> uuid \<Rightarrow> Db \<Rightarrow> Db \<times> outcome" where
  "h_list_run_events E g i db =
     reads db (app_list_run_events g i db) (\<lambda>evs. respond 200 RunEvents (traverse (run_event_resource (ae_rfc3339 E)) evs))"

definition h_list_run_attempts :: "'tz ApiEnv \<Rightarrow> GrantSet \<Rightarrow> uuid \<Rightarrow> Db \<Rightarrow> Db \<times> outcome" where
  "h_list_run_attempts E g i db =
     reads db (app_list_run_attempts g i db) (\<lambda>as. respond 200 RunAttempts (traverse (run_attempt_resource (ae_rfc3339 E)) as))"

definition h_list_workers :: "'tz ApiEnv \<Rightarrow> timestamp \<Rightarrow> timestamp \<Rightarrow> GrantSet \<Rightarrow> PageQuery \<Rightarrow> Db \<Rightarrow> Db \<times> outcome" where
  "h_list_workers E now utc g query db =
     reads db (app_list_workers now g (pq_limit query) (pq_after query) db)
       (\<lambda>p. respond 200 WorkerPage (map_page p (worker_resource (ae_rfc3339 E) utc)))"

definition h_get_worker :: "'tz ApiEnv \<Rightarrow> timestamp \<Rightarrow> timestamp \<Rightarrow> GrantSet \<Rightarrow> bytes \<Rightarrow> Db \<Rightarrow> Db \<times> outcome" where
  "h_get_worker E now utc g wid db =
     reads db (app_get_worker now g wid db)
       (\<lambda>record. respond 200 OneWorker (and_then (worker_resource (ae_rfc3339 E) utc record) (\<lambda>w.
          Ok \<lparr> wdr_worker = w, wdr_diagnostics = wk_diagnostics (wkrec_worker record) \<rparr>)))"

definition h_overview :: "GrantSet \<Rightarrow> Db \<Rightarrow> Db \<times> outcome" where
  "h_overview g db = reads db (app_overview g db) (\<lambda>o'. respond 200 OverviewBody (Ok o'))"

definition h_monitor :: "'tz ApiEnv \<Rightarrow> timestamp \<Rightarrow> timestamp \<Rightarrow> GrantSet \<Rightarrow> Db \<Rightarrow> Db \<times> outcome" where
  "h_monitor E now utc g db = (db, respond 200 MonitorBody (monitor (ae_rfc3339 E) (ae_dependencies E) now utc g db))"

section \<open>Workflows\<close>

definition definition_input :: "CreateWorkflowRequest \<Rightarrow> WorkflowInput" where
  "definition_input request =
     \<lparr> wi_name = cwr_name request, wi_description = cwr_description request,
       wi_nodes = map (\<lambda>n. (wnq_name n, wnq_job_id n)) (cwr_nodes request),
       wi_edges = map (\<lambda>e. (weq_from e, weq_to e, domain_condition (weq_condition e))) (cwr_edges request) \<rparr>"

definition h_create_workflow :: "'tz ApiEnv \<Rightarrow> timestamp \<Rightarrow> GrantSet \<Rightarrow> uuid \<Rightarrow> CreateWorkflowRequest \<Rightarrow> Db \<Rightarrow> Db \<times> outcome" where
  "h_create_workflow E now g n request db =
     writes db (app_create_workflow now g n (definition_input request) db)
       (\<lambda>w. respond 201 OneWorkflow (workflow_resource (ae_rfc3339 E) w))"

definition h_list_workflows :: "'tz ApiEnv \<Rightarrow> GrantSet \<Rightarrow> uuid \<Rightarrow> PageQuery \<Rightarrow> Db \<Rightarrow> Db \<times> outcome" where
  "h_list_workflows E g n query db =
     reads db (app_list_workflows g n (pq_limit query) (pq_after query) db)
       (\<lambda>p. respond 200 WorkflowPage (map_page p (workflow_resource (ae_rfc3339 E))))"

definition h_get_workflow :: "'tz ApiEnv \<Rightarrow> GrantSet \<Rightarrow> uuid \<Rightarrow> Db \<Rightarrow> Db \<times> outcome" where
  "h_get_workflow E g i db =
     reads db (app_get_workflow g i db) (\<lambda>w. respond 200 OneWorkflow (workflow_resource (ae_rfc3339 E) w))"

definition h_update_workflow :: "'tz ApiEnv \<Rightarrow> timestamp \<Rightarrow> GrantSet \<Rightarrow> uuid \<Rightarrow> UpdateWorkflowRequest \<Rightarrow> Db \<Rightarrow> Db \<times> outcome" where
  "h_update_workflow E now g i request db =
     writes db (app_update_workflow now g i (uwr_revision request) (definition_input
         \<lparr> cwr_name = uwr_name request, cwr_description = uwr_description request, cwr_nodes = uwr_nodes request,
           cwr_edges = uwr_edges request \<rparr>) db)
       (\<lambda>w. respond 200 OneWorkflow (workflow_resource (ae_rfc3339 E) w))"

definition h_delete_workflow :: "GrantSet \<Rightarrow> uuid \<Rightarrow> Db \<Rightarrow> Db \<times> outcome" where
  "h_delete_workflow g i db = writes db (app_delete_workflow g i db) no_content"

definition h_start_workflow :: "'tz ApiEnv \<Rightarrow> timestamp \<Rightarrow> GrantSet \<Rightarrow> uuid \<Rightarrow> StartWorkflowRequest \<Rightarrow> Db \<Rightarrow> Db \<times> outcome" where
  "h_start_workflow E now g i request db =
     writes db (app_start_workflow (se_encode (ae_service E)) (se_snapshot_bytes (ae_service E)) (se_jsonb_eq (ae_service E)) now g i
         (swr_request_id request) (domain_target (swr_target request)) (swr_inputs request) db)
       (\<lambda>(record, created). respond (created_status created) OneWorkflowRun (workflow_run_resource (ae_rfc3339 E) record))"

definition h_list_workflow_runs :: "'tz ApiEnv \<Rightarrow> GrantSet \<Rightarrow> uuid \<Rightarrow> WorkflowRunQuery \<Rightarrow> Db \<Rightarrow> Db \<times> outcome" where
  "h_list_workflow_runs E g i query db =
     reads db (app_list_workflow_runs (ae_uuid_str E) g i (wrq_limit query) (wrq_before query) db)
       (\<lambda>p. respond 200 WorkflowRunPage (map_page p (workflow_run_resource (ae_rfc3339 E))))"

definition h_get_workflow_run :: "'tz ApiEnv \<Rightarrow> GrantSet \<Rightarrow> uuid \<Rightarrow> Db \<Rightarrow> Db \<times> outcome" where
  "h_get_workflow_run E g i db =
     reads db (app_get_workflow_run g i db) (\<lambda>r. respond 200 OneWorkflowRun (workflow_run_resource (ae_rfc3339 E) r))"

definition h_cancel_workflow_run :: "'tz ApiEnv \<Rightarrow> timestamp \<Rightarrow> GrantSet \<Rightarrow> uuid \<Rightarrow> Db \<Rightarrow> Db \<times> outcome" where
  "h_cancel_workflow_run E now g i db =
     writes db (app_cancel_workflow_run now g i db) (\<lambda>r. respond 200 OneWorkflowRun (workflow_run_resource (ae_rfc3339 E) r))"

section \<open>The service behind the layers\<close>

text \<open>What routing and extraction make of a request: \<open>api_router\<close> registers one call per handler.\<close>

datatype ApiCall =
    CreateNamespace CreateNamespaceRequest | ListNamespaces PageQuery | GetNamespace uuid | DeleteNamespace uuid
  | CreateQueue CreateQueueRequest | ListQueues PageQuery | GetQueue uuid | UpdateQueue uuid UpdateQueueRequest | DeleteQueue uuid
  | CreateJob uuid CreateJobRequest | ListJobs uuid PageQuery | GetJob uuid | UpdateJob uuid UpdateJobRequest
  | CreateTarget uuid CreateTargetRequest | ListTargets uuid PageQuery | GetTarget uuid | UpdateTarget uuid UpdateTargetRequest
  | DeleteTarget uuid
  | CreateTargetSet uuid CreateTargetSetRequest | ListTargetSets uuid PageQuery | GetTargetSet uuid
  | UpdateTargetSet uuid UpdateTargetSetRequest
  | CreateSchedule uuid CreateScheduleRequest | ListSchedules uuid PageQuery | GetSchedule uuid
  | UpdateSchedule uuid UpdateScheduleRequest
  | CreateRun CreateRunRequest | ListRuns RunPageQuery | GetRun uuid | RerunRun uuid RerunRequest
  | ListRunEvents uuid | ListRunAttempts uuid
  | ListWorkers PageQuery | GetWorker bytes | GetOverview | GetMonitor
  | CreateWorkflow uuid CreateWorkflowRequest | ListWorkflows uuid PageQuery | GetWorkflow uuid
  | UpdateWorkflow uuid UpdateWorkflowRequest | DeleteWorkflow uuid | StartWorkflow uuid StartWorkflowRequest
  | ListWorkflowRuns uuid WorkflowRunQuery | GetWorkflowRun uuid | CancelWorkflowRun uuid

fun handle :: "'tz ApiEnv \<Rightarrow> timestamp \<Rightarrow> timestamp \<Rightarrow> GrantSet \<Rightarrow> ApiCall \<Rightarrow> Db \<Rightarrow> Db \<times> outcome" where
  "handle E now utc g (CreateNamespace r) db = h_create_namespace E now g r db"
| "handle E now utc g (ListNamespaces q) db = h_list_namespaces E g q db"
| "handle E now utc g (GetNamespace i) db = h_get_namespace E g i db"
| "handle E now utc g (DeleteNamespace i) db = h_delete_namespace g i db"
| "handle E now utc g (CreateQueue r) db = h_create_queue E now g r db"
| "handle E now utc g (ListQueues q) db = h_list_queues E g q db"
| "handle E now utc g (GetQueue i) db = h_get_queue E g i db"
| "handle E now utc g (UpdateQueue i r) db = h_update_queue E now g i r db"
| "handle E now utc g (DeleteQueue i) db = h_delete_queue g i db"
| "handle E now utc g (CreateJob n r) db = h_create_job E now g n r db"
| "handle E now utc g (ListJobs n q) db = h_list_jobs E g n q db"
| "handle E now utc g (GetJob i) db = h_get_job E g i db"
| "handle E now utc g (UpdateJob i r) db = h_update_job E now g i r db"
| "handle E now utc g (CreateTarget n r) db = h_create_target E now g n r db"
| "handle E now utc g (ListTargets n q) db = h_list_targets E g n q db"
| "handle E now utc g (GetTarget i) db = h_get_target E g i db"
| "handle E now utc g (UpdateTarget i r) db = h_update_target E now g i r db"
| "handle E now utc g (DeleteTarget i) db = h_delete_target g i db"
| "handle E now utc g (CreateTargetSet n r) db = h_create_target_set E now g n r db"
| "handle E now utc g (ListTargetSets n q) db = h_list_target_sets E g n q db"
| "handle E now utc g (GetTargetSet i) db = h_get_target_set E g i db"
| "handle E now utc g (UpdateTargetSet i r) db = h_update_target_set E now g i r db"
| "handle E now utc g (CreateSchedule n r) db = h_create_schedule E now utc g n r db"
| "handle E now utc g (ListSchedules n q) db = h_list_schedules E g n q db"
| "handle E now utc g (GetSchedule i) db = h_get_schedule E g i db"
| "handle E now utc g (UpdateSchedule i r) db = h_update_schedule E now utc g i r db"
| "handle E now utc g (CreateRun r) db = h_create_run E now g r db"
| "handle E now utc g (ListRuns q) db = h_list_runs E g q db"
| "handle E now utc g (GetRun i) db = h_get_run E g i db"
| "handle E now utc g (RerunRun i r) db = h_rerun_run E now g i r db"
| "handle E now utc g (ListRunEvents i) db = h_list_run_events E g i db"
| "handle E now utc g (ListRunAttempts i) db = h_list_run_attempts E g i db"
| "handle E now utc g (ListWorkers q) db = h_list_workers E now utc g q db"
| "handle E now utc g (GetWorker w) db = h_get_worker E now utc g w db"
| "handle E now utc g GetOverview db = h_overview g db"
| "handle E now utc g GetMonitor db = h_monitor E now utc g db"
| "handle E now utc g (CreateWorkflow n r) db = h_create_workflow E now g n r db"
| "handle E now utc g (ListWorkflows n q) db = h_list_workflows E g n q db"
| "handle E now utc g (GetWorkflow i) db = h_get_workflow E g i db"
| "handle E now utc g (UpdateWorkflow i r) db = h_update_workflow E now g i r db"
| "handle E now utc g (DeleteWorkflow i) db = h_delete_workflow g i db"
| "handle E now utc g (StartWorkflow i r) db = h_start_workflow E now g i r db"
| "handle E now utc g (ListWorkflowRuns i q) db = h_list_workflow_runs E g i q db"
| "handle E now utc g (GetWorkflowRun i) db = h_get_workflow_run E g i db"
| "handle E now utc g (CancelWorkflowRun i) db = h_cancel_workflow_run E now g i db"

definition reply :: "outcome \<Rightarrow> ApiBody Response" where
  "reply r =
     (case r of
        Inl e \<Rightarrow> into_response e
      | Inr (status, body) \<Rightarrow> \<lparr> resp_status = status, resp_headers = [],
          resp_body = (case body of None \<Rightarrow> Empty | Some b \<Rightarrow> Json b) \<rparr>)"

text \<open>
  A routed request: a probe, a call of a handler, or the refusal of an extractor with its status
  and text.  Handlers read the context the authentication layer attached; without it axum's extension
  extractor fails with status 500, whose text is axum's.
\<close>

datatype ProbeCall = LiveProbe | ReadyProbe | HealthProbe | MetricsProbe

datatype Routed = NoRoute | NoMethod | Refused nat bytes | Probe ProbeCall | Call ApiCall

text \<open>The gauges that the metrics probe refreshes belong to the process, not to the store.\<close>

fun probe :: "'tz ApiEnv \<Rightarrow> timestamp \<Rightarrow> ProbeCall \<Rightarrow> Db \<Rightarrow> ApiBody Response" where
  "probe E now LiveProbe db = live_probe"
| "probe E now ReadyProbe db = ready_probe (dep_ready (ae_dependencies E))"
| "probe E now HealthProbe db =
     health_probe HealthBody (ae_probes E) (dep_ready (ae_dependencies E)) (dep_nats_ready (ae_dependencies E))"
| "probe E now MetricsProbe db =
     snd (metrics_probe (ae_probes E)
       (case dep_query_failure (ae_dependencies E) of Some e \<Rightarrow> Err e | None \<Rightarrow> Ok (metrics_snapshot now db))
       (dep_metrics (ae_dependencies E)))"

definition router ::
  "'tz ApiEnv \<Rightarrow> (HttpRequest \<Rightarrow> Routed) \<Rightarrow> timestamp \<Rightarrow> timestamp \<Rightarrow> (Db, ApiBody) handler" where
  "router E route now utc ctx r db =
     (case route r of
        NoRoute \<Rightarrow> (db, into_response route_not_found)
      | NoMethod \<Rightarrow> (db, into_response method_not_allowed)
      | Refused status detail \<Rightarrow> (db, into_response (rejected status detail))
      | Probe p \<Rightarrow> (db, probe E now p db)
      | Call c \<Rightarrow>
          (case ctx of
             None \<Rightarrow> (db, \<lparr> resp_status = 500, resp_headers = [], resp_body = Empty \<rparr>)
           | Some x \<Rightarrow> (let (db', r') = handle E now utc (caller_grants (ctx_caller x)) c db in (db', reply r'))))"

definition http_service ::
  "'tz ApiEnv \<Rightarrow> (HttpRequest \<Rightarrow> Routed) \<Rightarrow> (bytes \<Rightarrow> bytes option)
     \<Rightarrow> (RequestCredentials \<Rightarrow> (AuthenticationError, AuthenticatedCaller) result) \<Rightarrow> timestamp \<Rightarrow> timestamp \<Rightarrow> uuid
     \<Rightarrow> HttpRequest \<Rightarrow> Db \<Rightarrow> Db \<times> ApiBody Response" where
  "http_service E route to_str verify now utc =
     with_transport_layers (ae_uuid_str E) to_str verify (router E route now utc)"

end
