(* ===== verification/Api.thy ===== *)
theory Api
  imports Handlers
begin

text \<open>
  Properties of the API as a whole: which requests are authenticated, that a request changes the
  store only with the authority of its verified caller, and that protected history is answered as
  if it did not exist.
\<close>

section \<open>Calls and service requests\<close>

text \<open>The application request a call performs, when the call may write.\<close>

fun request_of :: "'tz ApiEnv \<Rightarrow> ApiCall \<Rightarrow> Request option" where
  "request_of E (CreateNamespace r) = Some (ReqCreateNamespace (cnr_name r))"
| "request_of E (DeleteNamespace i) = Some (ReqDeleteNamespace i)"
| "request_of E (CreateQueue r) = Some (ReqCreateQueue (cqr_name r) (cqr_description r))"
| "request_of E (UpdateQueue i r) = Some (ReqUpdateQueue i (uqr_name r) (uqr_description r) (uqr_enabled r))"
| "request_of E (DeleteQueue i) = Some (ReqDeleteQueue i)"
| "request_of E (CreateJob n r) = Some (ReqCreateJob n (job_input r))"
| "request_of E (UpdateJob i r) = Some (ReqUpdateJob i (job_input r))"
| "request_of E (CreateTarget n r) = Some (ReqCreateTarget n (ctr_name r) (ctr_arguments r) (ctr_inputs r))"
| "request_of E (UpdateTarget i r) = Some (ReqUpdateTarget i (ctr_name r) (ctr_arguments r) (ctr_inputs r))"
| "request_of E (DeleteTarget i) = Some (ReqDeleteTarget i)"
| "request_of E (CreateTargetSet n r) = Some (ReqCreateTargetSet n (ctsr_name r) (ctsr_target_ids r) (ctsr_inputs r))"
| "request_of E (UpdateTargetSet i r) = Some (ReqUpdateTargetSet i (ctsr_name r) (ctsr_target_ids r) (ctsr_inputs r))"
| "request_of E (CreateSchedule n r) =
     (case request_timing E r of Inl _ \<Rightarrow> None | Inr timing \<Rightarrow> Some (ReqCreateSchedule n (schedule_input r timing)))"
| "request_of E (UpdateSchedule i r) = Some (ReqSetScheduleEnabled i (usr_revision r) (usr_enabled r))"
| "request_of E (CreateRun r) = Some (ReqCreateRun (crr_request_id r) (crr_job_id r) (domain_target (crr_target r)) (crr_inputs r))"
| "request_of E (RerunRun i r) = Some (ReqRerunRun i (rrr_request_id r))"
| "request_of E (CreateWorkflow n r) = Some (ReqCreateWorkflow n (definition_input r))"
| "request_of E (UpdateWorkflow i r) = Some (ReqUpdateWorkflow i (uwr_revision r) (definition_input
     \<lparr> cwr_name = uwr_name r, cwr_description = uwr_description r, cwr_nodes = uwr_nodes r, cwr_edges = uwr_edges r \<rparr>))"
| "request_of E (DeleteWorkflow i) = Some (ReqDeleteWorkflow i)"
| "request_of E (StartWorkflow i r) = Some (ReqStartWorkflow i (swr_request_id r) (domain_target (swr_target r)) (swr_inputs r))"
| "request_of E (CancelWorkflowRun i) = Some (ReqCancelWorkflowRun i)"
| "request_of E _ = None"

lemmas read_handlers = h_list_namespaces_def h_get_namespace_def h_list_queues_def h_get_queue_def h_list_jobs_def
  h_get_job_def h_list_targets_def h_get_target_def h_list_target_sets_def h_get_target_set_def h_list_schedules_def
  h_get_schedule_def h_list_runs_def h_get_run_def h_list_run_events_def h_list_run_attempts_def h_list_workers_def
  h_get_worker_def h_overview_def h_monitor_def h_list_workflows_def h_get_workflow_def h_list_workflow_runs_def h_get_workflow_run_def
  reads_def

lemmas write_handlers = h_create_namespace_def h_delete_namespace_def h_create_queue_def h_update_queue_def h_delete_queue_def
  h_create_job_def h_update_job_def h_create_target_def h_update_target_def h_delete_target_def h_create_target_set_def
  h_update_target_set_def h_create_schedule_def h_update_schedule_def h_create_run_def h_rerun_run_def
  h_create_workflow_def h_update_workflow_def h_delete_workflow_def h_start_workflow_def h_cancel_workflow_run_def

lemma writes_changed: "writes db r f = (db', out) \<Longrightarrow> db' \<noteq> db \<Longrightarrow> \<exists>a. r = Inr (db', a)"
  by (auto simp: writes_def split: sum.splits)

lemma handle_serves:
  assumes "handle E now utc g c db = (db', out)" "db' \<noteq> db"
  shows "\<exists>q. request_of E c = Some q \<and> serve (ae_service E) now utc g q db = Inr db'"
  using assms(1)
  by (cases c) (use assms(2) in \<open>auto simp: read_handlers write_handlers with_records_def
      split: sum.splits dest!: writes_changed [OF _ assms(2)]\<close>)

section \<open>Authority\<close>

lemma router_change:
  assumes "fst (router E route now utc (Some x) r db) = db'" "db' \<noteq> db"
  shows "\<exists>c out. route r = Call c \<and> handle E now utc (caller_grants (ctx_caller x)) c db = (db', out)"
  using assms by (auto simp: router_def Let_def split: Routed.splits prod.splits)

text \<open>
  C3. Every change of the store through the API has an authority: the request carried one
  credential that the provider verified, it was routed to a call that writes, and the grants of the
  verified caller allow every decision the request requires on the resources as the store owns them.
\<close>

theorem http_writes_authorized:
  assumes "http_service E route to_str verify now utc i r db = (db', resp)" "db' \<noteq> db"
    and "distinct (map run_id (db_runs db))"
  shows "\<exists>credential caller c req.
    credentials to_str (http_headers r) = Inr credential \<and> verify credential = Inr caller \<and>
    route r = Call c \<and> request_of E c = Some req \<and>
    serve (ae_service E) now utc (caller_grants caller) req db = Inr db' \<and>
    (\<forall>(cap, scope) \<in> set (required req db). authorize (namespace_for db) (caller_grants caller) cap scope = Inr ())"
proof -
  have "fst (router E route now utc None r db) = db"
    by (auto simp: router_def split: Routed.splits)
  then obtain credential caller where v: "credentials to_str (http_headers r) = Inr credential" "verify credential = Inr caller"
      and run: "fst (router E route now utc (Some \<lparr> ctx_request_id = i, ctx_caller = caller \<rparr>) r db) = db'"
    using layers_change [OF assms(1) [unfolded http_service_def] assms(2)] assms(2) by auto
  from router_change [OF run assms(2)]
  obtain c out where c: "route r = Call c" "handle E now utc (caller_grants caller) c db = (db', out)" by auto
  obtain req where req: "request_of E c = Some req" "serve (ae_service E) now utc (caller_grants caller) req db = Inr db'"
    using handle_serves [OF c(2) assms(2)] by blast
  then show ?thesis using v c serve_granted [OF req(2) assms(3,2)] by blast
qed

section \<open>Authentication\<close>

definition carries_token :: "(bytes \<Rightarrow> bytes option) \<Rightarrow> bytes \<Rightarrow> HttpRequest \<Rightarrow> bool" where
  "carries_token to_str secret r \<longleftrightarrow>
     (\<exists>raw scheme n. get_all ''authorization'' (http_headers r) = [raw] \<and> eq_ignore_ascii_case scheme ''Bearer'' \<and>
        to_str raw = Some (scheme @ replicate (Suc n) (CHR '' '') @ secret))"

lemma verified_iff:
  assumes "\<And>a b. ct_eq a b \<longleftrightarrow> a = b" "auth_config_from_env var mode = Ok p"
  shows "and_then (credentials to_str (http_headers r)) (authenticate ct_eq p) =
    (if carries_token to_str (expose_secret (dev_token p)) r then Ok development_caller else Err InvalidCredentials)"
proof -
  let ?t = "dev_token p"
  have tok: "BearerToken_new (expose_secret ?t) = Ok ?t" using configured_token [OF assms(2)] by blast
  have iff: "credentials to_str (http_headers r) = Ok (Bearer ?t) \<longleftrightarrow> carries_token to_str (expose_secret ?t) r"
    using tok by (simp only: credentials_exact carries_token_def) blast
  show ?thesis
  proof (cases "credentials to_str (http_headers r)")
    case (Inl e)
    then show ?thesis using iff credentials_Err [OF Inl] by auto
  next
    case (Inr c)
    obtain t where t: "c = Bearer t" by (cases c)
    have "expose_secret t = expose_secret ?t \<longleftrightarrow> t = ?t" by (cases t, cases ?t) auto
    then show ?thesis using Inr iff t assms(1) by (auto simp: authenticate_def)
  qed
qed

text \<open>
  C4. Authentication is exact: with the configured development provider, a request to anything but
  the public probes reaches the routes exactly when its only Authorization header is the Bearer
  scheme, in any case, and the configured secret after one or more spaces; any other request gets
  the same 401 envelope with its challenge and correlation, whatever its path, and changes nothing.
\<close>

theorem authentication_exact:
  assumes "\<And>a b. ct_eq a b \<longleftrightarrow> a = b" "auth_config_from_env var mode = Inr p" "\<not> public_probe r"
  shows "http_service E route to_str (authenticate ct_eq p) now utc i r db =
    (if carries_token to_str (expose_secret (dev_token p)) r
     then map_prod id (\<lambda>resp. correlate (ae_uuid_str E) i resp)
       (router E route now utc (Some \<lparr> ctx_request_id = i, ctx_caller = development_caller \<rparr>) r db)
     else (db, \<lparr> resp_status = 401,
       resp_headers = [(''www-authenticate'', ''Bearer realm=\"crono\"''), (''x-request-id'', ae_uuid_str E i)],
       resp_body = ErrorEnvelope \<lparr> error_code = ''unauthenticated'',
         error_message = Text ''valid authentication credentials are required'', error_field = None \<rparr> \<rparr>))"
proof (cases "carries_token to_str (expose_secret (dev_token p)) r")
  case True
  then show ?thesis using assms(3)
    by (simp add: http_service_def with_transport_layers_def assign_def establish_def verified_iff [OF assms(1,2)] split_beta map_prod_def)
next
  case False
  then show ?thesis
    by (simp add: http_service_def layers_refuse [OF assms(3)] verified_iff [OF assms(1,2)] into_response_def envelope_def
        header_insert_def)
qed

section \<open>Hidden history\<close>

abbreviation not_found :: "ApiBody Response" where
  "not_found \<equiv> \<lparr> resp_status = 404, resp_headers = [], resp_body = ErrorEnvelope
     \<lparr> error_code = ''not_found'', error_message = Text ''resource was not found'', error_field = None \<rparr> \<rparr>"

text \<open>The reading decision that every call on the history of a Run or Workflow makes first.\<close>

fun history_read :: "ApiCall \<Rightarrow> (Capability \<times> ResourceScope) option" where
  "history_read (GetRun i) = Some (RunRead, RunScope i)"
| "history_read (ListRunEvents i) = Some (RunRead, RunScope i)"
| "history_read (ListRunAttempts i) = Some (RunRead, RunScope i)"
| "history_read (RerunRun i r) = Some (RunRead, RunScope i)"
| "history_read (GetWorkflow i) = Some (WorkflowRead, WorkflowScope i)"
| "history_read (ListWorkflowRuns i q) = Some (WorkflowRunRead, WorkflowScope i)"
| "history_read (GetWorkflowRun i) = Some (WorkflowRunRead, WorkflowRunScope i)"
| "history_read (CancelWorkflowRun i) = Some (WorkflowRunRead, WorkflowRunScope i)"
| "history_read _ = None"

definition respond_to :: "'tz ApiEnv \<Rightarrow> timestamp \<Rightarrow> timestamp \<Rightarrow> GrantSet \<Rightarrow> ApiCall \<Rightarrow> Db \<Rightarrow> Db \<times> ApiBody Response" where
  "respond_to E now utc g c db = map_prod id reply (handle E now utc g c db)"

lemma not_found_replies:
  "reply (Inl (ApiApplication AppNotFound)) = not_found" "reply (Inl (ApiApplication (AppAuthorization AuthNotFound))) = not_found"
  by (simp_all add: reply_def into_response_def application_envelope_def envelope_def)

lemmas history_ops = respond_to_def read_handlers write_handlers writes_def with_records_def
  app_get_run_def app_list_run_events_def app_list_run_attempts_def app_rerun_run_def app_get_workflow_def
  app_list_workflow_runs_def app_get_workflow_run_def app_cancel_workflow_run_def

lemma refused_first:
  assumes "history_read c = Some (cap, scope)" "allow db g cap scope = Inl e"
  shows "respond_to E now utc g c db = (db, reply (Inl (ApiApplication e)))"
  using assms by (cases c) (auto simp: history_ops)

lemma see_read: "c \<in> {RunRead, WorkflowRead, WorkflowRunRead} \<Longrightarrow> see g c = Inr (grants_visibility g c)"
  by (auto simp: see_def visibility_def permission_def last_segment_def)

lemma run_absent:
  assumes "namespace_for db (RunScope i) = Inr None" "distinct (map run_id (db_runs db))"
  shows "get_run vis i db = Inl StoreNotFound"
proof (cases "find (\<lambda>r. run_id r = i \<and> run_visible vis db r) (db_runs db)")
  case None
  then show ?thesis by (simp add: get_run_def)
next
  case (Some r)
  then have "r \<in> set (db_runs db)" "run_id r = i" using find_Some_in [OF Some] by auto
  then have "find (\<lambda>x. run_id x = i) (db_runs db) = Some r"
    using assms(2) by (auto simp: find_Some_iff distinct_conv_nth in_set_conv_nth)
  then have "find (\<lambda>j. job_id j = run_job_id r) (db_jobs db) = None"
    using assms(1) by (simp add: namespace_for_def)
  then show ?thesis using Some by (simp add: get_run_def run_record_def)
qed

lemma workflow_absent: "namespace_for db (WorkflowScope i) = Inr None \<Longrightarrow> catalog_record db i = Inl StoreNotFound"
  by (simp add: namespace_for_def catalog_record_def catalog_def)

lemma invocation_absent: "namespace_for db (WorkflowRunScope i) = Inr None \<Longrightarrow> invocation db vis i = Inl StoreNotFound"
  by (simp add: namespace_for_def invocation_def)

lemma absent_resource:
  assumes "history_read c = Some (cap, scope)" "namespace_for db scope = Inr None" "allow db g cap scope = Inr ()"
    and "distinct (map run_id (db_runs db))"
  shows "respond_to E now utc g c db = (db, not_found)"
  using assms(1-3)
  by (cases c) (auto simp del: allow_Ok simp: history_ops not_found_replies see_read list_run_events_def list_run_attempts_def
      run_absent [OF _ assms(4)] workflow_absent invocation_absent app_error_def)

text \<open>
  C5. Hidden and absent history cannot be told apart: a call on the history of a Run, a Workflow or
  an invocation that the caller may not read is answered with exactly the response, byte for byte
  the same 404 envelope, that it gets when the resource does not exist, and changes nothing.
\<close>

theorem history_hidden:
  assumes "history_read c = Some (cap, scope)" "distinct (map run_id (db_runs db))"
    and "authorize (namespace_for db) g cap scope \<noteq> Inr () \<or> namespace_for db scope = Inr None"
  shows "respond_to E now utc g c db = (db, not_found)"
proof (cases "authorize (namespace_for db) g cap scope = Inr ()")
  case True
  then have "allow db g cap scope = Inr ()" by simp
  then show ?thesis using assms absent_resource True by blast
next
  case False
  have ok: "cap \<in> {RunRead, WorkflowRead, WorkflowRunRead} \<and> accepts_resource cap scope \<and> (\<exists>x. namespace_for db scope = Inr x)"
    using assms(1) by (cases c) (auto simp: accepts_resource_def permission_def namespace_for_def)
  then have "authorize (namespace_for db) g cap scope = Inl AuthNotFound" using store.authorize_hides False by blast
  then have "allow db g cap scope = Inl (AppAuthorization AuthNotFound)" by (simp add: allow_def)
  from refused_first [OF assms(1) this] show ?thesis by (simp add: not_found_replies)
qed

section \<open>Instances\<close>

definition sample_dependencies :: Dependencies where
  "sample_dependencies = \<lparr> dep_statistics = Some (Ok \<lparr> ds_size_bytes = 8192, ds_backends = Some 3, ds_pool_size = 2,
       ds_pool_idle = 5, ds_pool_max = 20 \<rparr>),
     dep_ready = True, dep_ready_timely = True, dep_nats_ready = False, dep_nats_timely = True, dep_query_failure = None,
     dep_metrics = Metrics_new \<rparr>"

definition sample_probes :: ProbeEnv where
  "sample_probes = \<lparr> build_commit = None, build_name = ''crono-server'', build_version = ''0.1.0'',
     header_value_ok = (\<lambda>_. True), encode_metrics = (\<lambda>_. Some ''# EOF'') \<rparr>"

definition sample_api_env :: "unit ApiEnv" where
  "sample_api_env = \<lparr> ae_service = sample_service_env, ae_rfc3339 = (\<lambda>t. Some ''1970-01-01T00:00:00Z''),
     ae_parse_rfc3339 = (\<lambda>v. None), ae_uuid_str = (\<lambda>i. ''0192''),
     ae_dependencies = sample_dependencies, ae_probes = sample_probes \<rparr>"

definition sample_secret :: bytes where
  "sample_secret = ''0123456789abcdef0123456789abcdef''"

definition sample_provider :: DevelopmentAuthProvider where
  "sample_provider = \<lparr> dev_token = BearerToken sample_secret \<rparr>"

definition sample_delete :: "headers \<Rightarrow> HttpRequest" where
  "sample_delete hs = \<lparr> http_method = ''DELETE'', http_path = ''/api/targets/4'', http_headers = hs \<rparr>"

text \<open>A provider that verifies one token for a caller with one grant.\<close>

definition sample_verify :: "RequestCredentials \<Rightarrow> (AuthenticationError, AuthenticatedCaller) result" where
  "sample_verify c =
     (if c = Bearer (BearerToken ''token'')
      then Inr \<lparr> caller_principal = Principal_new ''alice'' HumanKind, caller_grants = [(GrantNamespace 1, [TargetDelete])] \<rparr>
      else Inl InvalidCredentials)"

abbreviation sample_http :: "(RequestCredentials \<Rightarrow> (AuthenticationError, AuthenticatedCaller) result) \<Rightarrow> headers \<Rightarrow> Db \<times> ApiBody Response" where
  "sample_http verify hs \<equiv> http_service sample_api_env (\<lambda>r. Call (DeleteTarget 4)) Some verify 0 0 7
     (sample_delete hs) sample_installation"

lemma sample_configured: "auth_config_from_env (Some sample_secret) ModeDevelopment = Inr sample_provider"
  by code_simp

lemma sample_credentials:
  "credentials Some (http_headers (sample_delete [(''authorization'', ''bearer  token'')])) = Inr (Bearer (BearerToken ''token''))"
  by code_simp

lemma sample_deletion:
  "app_delete_target [(GrantNamespace 1, [TargetDelete])] 4 sample_installation = Inr (sample_installation\<lparr> db_targets := [] \<rparr>, ())"
  by code_simp

text \<open>A verified caller with the grant deletes a Target; a request without the secret is refused.\<close>

theorem http_writes_authorized_witness:
  "\<exists>db' resp caller. sample_http sample_verify [(''authorization'', ''bearer  token'')] = (db', resp) \<and> db_targets db' = [] \<and>
     sample_verify (Bearer (BearerToken ''token'')) = Inr caller \<and>
     authorize (namespace_for sample_installation) (caller_grants caller) TargetDelete (TargetScope 4) = Inr ()"
proof -
  let ?hs = "[(''authorization'', ''bearer  token'')]"
  have gone: "db_targets (fst (sample_http sample_verify ?hs)) = []"
    using sample_credentials
    by (simp del: One_nat_def add: http_service_def with_transport_layers_def assign_def establish_def public_probe_def sample_delete_def router_def
        h_delete_target_def writes_def sample_deletion sample_verify_def split_beta)
  then have changed: "fst (sample_http sample_verify ?hs) \<noteq> sample_installation" by (auto simp: sample_installation_def)
  have runs: "distinct (map run_id (db_runs sample_installation))" by (simp add: sample_installation_def)
  from http_writes_authorized [OF prod.collapse [symmetric] changed runs] sample_credentials
  obtain caller where "sample_verify (Bearer (BearerToken ''token'')) = Inr caller"
      "authorize (namespace_for sample_installation) (caller_grants caller) TargetDelete (TargetScope 4) = Inr ()"
    by auto
  then show ?thesis using gone prod.collapse [symmetric] by blast
qed

theorem authentication_exact_witness:
  "sample_http (authenticate (=) sample_provider) [] = (sample_installation, \<lparr> resp_status = 401,
     resp_headers = [(''www-authenticate'', ''Bearer realm=\"crono\"''), (''x-request-id'', ''0192'')],
     resp_body = ErrorEnvelope \<lparr> error_code = ''unauthenticated'',
       error_message = Text ''valid authentication credentials are required'', error_field = None \<rparr> \<rparr>)"
  by (subst authentication_exact [OF refl sample_configured])
    (simp_all add: public_probe_def sample_delete_def carries_token_def get_all_def sample_api_env_def)

theorem history_hidden_witness:
  "respond_to sample_api_env 0 0 [(GrantNamespace 6, [WorkflowRunRead])] (GetWorkflowRun 8) sample_auth_db = (sample_auth_db, not_found)"
  by (rule history_hidden [of _ WorkflowRunRead "WorkflowRunScope 8"])
    (simp_all add: accepts_resource_def permission_def namespace_for_def sample_auth_db_def authorize_def grants_visibility_def
      grants_contains_def granted_namespaces_def bset_of_def bset_insert_def allows_namespace_def)

end
