(* ===== verification/RunInvariant.thy ===== *)
theory RunInvariant
  imports RunStore
begin

text \<open>
  The consistency of the Run tables: which Attempt states go with which Run states, how Attempts
  are numbered, and which outbox messages are still to be sent.  One preservation lemma per
  transaction of \<open>RunStore\<close>, over three building blocks: a joint transition of a Run and its live
  Attempt, the insertion of a Run, and the attachment of a new Attempt.
\<close>

section \<open>The invariant\<close>

definition live :: "RunStatus \<Rightarrow> bool" where
  "live s \<longleftrightarrow> s = PendingDispatch \<or> s = Queued \<or> s = Running"

definition unsent :: "OutboxRow \<Rightarrow> bool" where
  "unsent o' \<longleftrightarrow> ob_published_at o' = None \<and> ob_cancelled_at o' = None"

definition keys_ok :: "Db \<Rightarrow> bool" where
  "keys_ok db \<longleftrightarrow>
     distinct (map run_id (db_runs db)) \<and> distinct (map att_id (db_attempts db)) \<and>
     distinct (map ob_id (db_outbox db)) \<and> distinct (map ob_attempt_id (db_outbox db)) \<and>
     (\<forall>i \<in> set (map run_id (db_runs db)). i < db_next_id db) \<and>
     (\<forall>i \<in> set (map att_id (db_attempts db)). i < db_next_id db) \<and>
     (\<forall>i \<in> set (map ob_id (db_outbox db)). i < db_next_id db)"

definition bounds_ok :: "RunRow \<Rightarrow> bool" where
  "bounds_ok r \<longleftrightarrow> 1 \<le> run_max_attempts r \<and> 0 \<le> run_attempt_count r \<and> run_attempt_count r \<le> run_max_attempts r \<and> run_max_attempts r \<le> 100"

text \<open>An Attempt fits its Run: its number is in range, and a live Attempt is the Run's latest and shares its state.\<close>

definition fits :: "RunRow \<Rightarrow> RunAttemptRow \<Rightarrow> bool" where
  "fits r a \<longleftrightarrow> run_id r = att_run_id a \<and> 1 \<le> att_attempt a \<and> att_attempt a \<le> run_attempt_count r \<and>
     (live (att_status a) \<longrightarrow> att_attempt a = run_attempt_count r \<and> att_status a = run_status r)"

definition lease_ok :: "RunAttemptRow \<Rightarrow> bool" where
  "lease_ok a \<longleftrightarrow> (att_status a = Running \<longleftrightarrow> att_lease_expires_at a \<noteq> None) \<and>
     (att_status a = Running \<longrightarrow> att_worker_id a \<noteq> None)"

definition settled :: "OutboxRow \<Rightarrow> bool" where
  "settled o' \<longleftrightarrow> (ob_cancelled_at o' \<noteq> None \<longrightarrow> ob_claimed_by o' = None) \<and>
     env_run_id (ob_payload o') = ob_run_id o' \<and> env_attempt_id (ob_payload o') = ob_attempt_id o'"

definition message_ok :: "RunAttemptRow list \<Rightarrow> OutboxRow \<Rightarrow> bool" where
  "message_ok attempts o' \<longleftrightarrow> settled o' \<and>
     (\<exists>a \<in> set attempts. att_id a = ob_attempt_id o' \<and> att_run_id a = ob_run_id o' \<and>
        (unsent o' \<longrightarrow> att_status a = PendingDispatch))"

text \<open>\<open>X\<close> exempts Runs that are between two Attempts inside a transaction.\<close>

definition run_inv_except :: "uuid set \<Rightarrow> Db \<Rightarrow> bool" where
  "run_inv_except X db \<longleftrightarrow>
     keys_ok db \<and>
     (\<forall>r \<in> set (db_runs db). bounds_ok r) \<and>
     (\<forall>a \<in> set (db_attempts db). lease_ok a \<and>
        (\<exists>r \<in> set (db_runs db). fits r a)) \<and>
     distinct (map (\<lambda>a. (att_run_id a, att_attempt a)) (db_attempts db)) \<and>
     (\<forall>r \<in> set (db_runs db). live (run_status r) \<and> run_id r \<notin> X \<longrightarrow>
        (\<exists>a \<in> set (db_attempts db). att_run_id a = run_id r \<and> att_status a = run_status r)) \<and>
     (\<forall>o' \<in> set (db_outbox db). message_ok (db_attempts db) o') \<and>
     (\<forall>a \<in> set (db_attempts db). att_status a = PendingDispatch \<longrightarrow>
        (\<exists>o' \<in> set (db_outbox db). ob_attempt_id o' = att_id a \<and> unsent o'))"

abbreviation run_inv :: "Db \<Rightarrow> bool" where
  "run_inv \<equiv> run_inv_except {}"

lemma live_simps [simp]:
  "live PendingDispatch" "live Queued" "live Running" "\<not> live RetryWait" "\<not> live Succeeded"
  "\<not> live Failed" "\<not> live Dead" "\<not> live Skipped" "\<not> live Cancelled" "\<not> live Unknown"
  by (simp_all add: live_def)

lemma live_not_terminal: "live s \<Longrightarrow> \<not> run_is_terminal s"
  by (cases s) (simp_all add: run_is_terminal_def)

lemma run_by_key: "keys_ok db \<Longrightarrow> r \<in> set (db_runs db) \<Longrightarrow> r' \<in> set (db_runs db) \<Longrightarrow> run_id r = run_id r' \<Longrightarrow> r = r'"
  by (auto simp: keys_ok_def distinct_map dest: inj_onD)

lemma attempt_by_key:
  "keys_ok db \<Longrightarrow> a \<in> set (db_attempts db) \<Longrightarrow> a' \<in> set (db_attempts db) \<Longrightarrow> att_id a = att_id a' \<Longrightarrow> a = a'"
  by (auto simp: keys_ok_def distinct_map dest: inj_onD)

lemma message_by_key:
  "keys_ok db \<Longrightarrow> x \<in> set (db_outbox db) \<Longrightarrow> y \<in> set (db_outbox db) \<Longrightarrow> ob_id x = ob_id y \<Longrightarrow> x = y"
  by (auto simp: keys_ok_def distinct_map dest: inj_onD)

lemma message_by_attempt:
  "keys_ok db \<Longrightarrow> x \<in> set (db_outbox db) \<Longrightarrow> y \<in> set (db_outbox db) \<Longrightarrow>
     ob_attempt_id x = ob_attempt_id y \<Longrightarrow> x = y"
  by (auto simp: keys_ok_def distinct_map dest: inj_onD)

lemma inv_fits:
  "run_inv_except X db \<Longrightarrow> a \<in> set (db_attempts db) \<Longrightarrow> \<exists>r \<in> set (db_runs db). fits r a"
  by (simp add: run_inv_except_def)

lemma inv_fits_run:
  assumes "run_inv_except X db" "a \<in> set (db_attempts db)" "r \<in> set (db_runs db)" "run_id r = att_run_id a"
  shows "fits r a"
proof -
  obtain r' where r': "r' \<in> set (db_runs db)" "fits r' a" using inv_fits [OF assms(1,2)] by blast
  have keys: "keys_ok db" using assms(1) by (simp add: run_inv_except_def)
  have "run_id r' = run_id r" using r'(2) assms(4) by (simp add: fits_def)
  then have "r' = r" by (rule run_by_key [OF keys r'(1) assms(3)])
  then show ?thesis using r'(2) by simp
qed

text \<open>Two live Attempts of one Run are the same Attempt.\<close>

lemma live_attempt_unique:
  assumes inv: "run_inv_except X db"
    and "a \<in> set (db_attempts db)" "b \<in> set (db_attempts db)"
    and "att_run_id a = att_run_id b" "live (att_status a)" "live (att_status b)"
  shows "a = b"
proof -
  obtain r where r: "r \<in> set (db_runs db)" "fits r a" using inv_fits [OF inv assms(2)] by blast
  have "fits r b" using inv_fits_run [OF inv assms(3) r(1)] r(2) assms(4) by (simp add: fits_def)
  then have "att_attempt a = att_attempt b" using r(2) assms(5,6) by (simp add: fits_def)
  then show ?thesis
    using inv assms(2-4) by (auto simp: run_inv_except_def distinct_map dest: inj_onD)
qed

section \<open>Building blocks\<close>

text \<open>What a state transition leaves of a row.\<close>

definition same_attempt :: "RunAttemptRow \<Rightarrow> RunAttemptRow \<Rightarrow> bool" where
  "same_attempt a b \<longleftrightarrow> att_id a = att_id b \<and> att_run_id a = att_run_id b \<and> att_attempt a = att_attempt b"

definition same_run :: "RunRow \<Rightarrow> RunRow \<Rightarrow> bool" where
  "same_run r s \<longleftrightarrow> run_id r = run_id s \<and> run_attempt_count r = run_attempt_count s \<and>
     run_max_attempts r = run_max_attempts s"

definition same_message :: "OutboxRow \<Rightarrow> OutboxRow \<Rightarrow> bool" where
  "same_message x y \<longleftrightarrow> ob_id x = ob_id y \<and> ob_attempt_id x = ob_attempt_id y \<and> ob_run_id x = ob_run_id y"

lemma transition:
  assumes inv: "run_inv_except X db"
    and att: "a \<in> set (db_attempts db)" "att_status a = S" "live S"
    and f: "\<And>b. same_attempt (f b) b" "\<And>b. att_status (f b) = Sa" "lease_ok (f a)"
    and g: "\<And>r. same_run (g r) r" "\<And>r. run_status (g r) = Sr"
    and S': "Sa = Sr \<or> (\<not> live Sa \<and> \<not> live Sr)" "Sa \<noteq> PendingDispatch"
    and pa: "\<And>b. b \<in> set (db_attempts db) \<Longrightarrow> p b \<longleftrightarrow> b = a"
    and pr: "\<And>r. r \<in> set (db_runs db) \<Longrightarrow> q r \<longleftrightarrow> run_id r = att_run_id a"
    and h: "\<And>x. same_message (h x) x" "\<And>x. unsent (h x) \<Longrightarrow> unsent x" "\<And>x. w x \<Longrightarrow> settled x \<Longrightarrow> settled (h x)"
    and po: "\<And>x. x \<in> set (db_outbox db) \<Longrightarrow> unsent x \<Longrightarrow> ob_attempt_id x \<noteq> att_id a \<Longrightarrow> \<not> w x"
      "\<And>x. x \<in> set (db_outbox db) \<Longrightarrow> ob_attempt_id x = att_id a \<Longrightarrow> unsent x \<Longrightarrow> w x \<and> \<not> unsent (h x)"
    and db': "db_attempts db' = update_where p f (db_attempts db)"
      "db_runs db' = update_where q g (db_runs db)" "db_outbox db' = update_where w h (db_outbox db)"
      "db_next_id db' = db_next_id db"
  shows "run_inv_except X db'"
proof -
  have keys: "keys_ok db" using inv by (simp add: run_inv_except_def)
  have f': "att_id (f b) = att_id b" "att_run_id (f b) = att_run_id b" "att_attempt (f b) = att_attempt b" for b
    using f(1) by (simp_all add: same_attempt_def)
  have g': "run_id (g r) = run_id r" "run_attempt_count (g r) = run_attempt_count r"
      "run_max_attempts (g r) = run_max_attempts r" for r
    using g(1) by (simp_all add: same_run_def)
  have h': "ob_id (h x) = ob_id x" "ob_attempt_id (h x) = ob_attempt_id x" "ob_run_id (h x) = ob_run_id x" for x
    using h(1) by (simp_all add: same_message_def)
  have maps: "map att_id (db_attempts db') = map att_id (db_attempts db)"
      "map (\<lambda>a. (att_run_id a, att_attempt a)) (db_attempts db') = map (\<lambda>a. (att_run_id a, att_attempt a)) (db_attempts db)"
      "map run_id (db_runs db') = map run_id (db_runs db)" "map ob_id (db_outbox db') = map ob_id (db_outbox db)"
      "map ob_attempt_id (db_outbox db') = map ob_attempt_id (db_outbox db)"
    unfolding db' by (auto intro!: update_where_map_key simp: f' g' h')
  have keys': "keys_ok db'" using keys unfolding keys_ok_def maps db'(4) .
  have A: "b' \<in> set (db_attempts db') \<longleftrightarrow> (\<exists>b \<in> set (db_attempts db). b' = (if b = a then f a else b))" for b'
    unfolding db'(1) set_update_where using pa by (auto simp: image_iff)
  have R: "r' \<in> set (db_runs db') \<longleftrightarrow> (\<exists>r \<in> set (db_runs db). r' = (if run_id r = att_run_id a then g r else r))" for r'
    unfolding db'(2) set_update_where using pr by (auto simp: image_iff)
  have O: "x' \<in> set (db_outbox db') \<longleftrightarrow> (\<exists>x \<in> set (db_outbox db). x' = (if w x then h x else x))" for x'
    unfolding db'(3) set_update_where by (auto simp: image_iff)
  have other: "b = a" if "b \<in> set (db_attempts db)" "att_run_id b = att_run_id a" "live (att_status b)" for b
    using live_attempt_unique [OF inv that(1) att(1) that(2) that(3)] att(2,3) by simp
  have attempts: "lease_ok b' \<and> (\<exists>r' \<in> set (db_runs db'). fits r' b')" if b': "b' \<in> set (db_attempts db')" for b'
  proof -
    from b' obtain b where b: "b \<in> set (db_attempts db)" "b' = (if b = a then f a else b)" using A by blast
    obtain r where r: "r \<in> set (db_runs db)" "fits r b" using inv_fits [OF inv b(1)] by blast
    let ?r = "if run_id r = att_run_id a then g r else r"
    have "?r \<in> set (db_runs db')" using R r(1) by blast
    moreover have "fits ?r b'"
      using r(2) b other [OF b(1)] S'(1) f(2) g(2) att(2,3) by (auto simp: fits_def f' g')
    moreover have "lease_ok b'" using b f(3) inv by (auto simp: run_inv_except_def)
    ultimately show ?thesis by blast
  qed
  have runs: "\<exists>b' \<in> set (db_attempts db'). att_run_id b' = run_id r' \<and> att_status b' = run_status r'"
    if r': "r' \<in> set (db_runs db')" "live (run_status r')" "run_id r' \<notin> X" for r'
  proof -
    from r'(1) obtain r where r: "r \<in> set (db_runs db)" "r' = (if run_id r = att_run_id a then g r else r)"
      using R by blast
    show ?thesis
    proof (cases "run_id r = att_run_id a")
      case True
      then have "Sa = Sr" using S'(1) r'(2) r(2) g(2) by auto
      moreover have "f a \<in> set (db_attempts db')" using A att(1) by fastforce
      ultimately show ?thesis using True r(2) by (intro bexI [of _ "f a"]) (simp_all add: f' g' f(2) g(2))
    next
      case False
      with r r' inv obtain b where "b \<in> set (db_attempts db)" "att_run_id b = run_id r" "att_status b = run_status r"
        by (auto simp: run_inv_except_def)
      then show ?thesis using A False r(2) by (auto intro!: bexI [of _ b])
    qed
  qed
  have messages: "message_ok (db_attempts db') x'" if x': "x' \<in> set (db_outbox db')" for x'
  proof -
    from x' obtain x where x: "x \<in> set (db_outbox db)" "x' = (if w x then h x else x)" using O by blast
    then obtain b where b: "b \<in> set (db_attempts db)" "att_id b = ob_attempt_id x" "att_run_id b = ob_run_id x"
        "unsent x \<Longrightarrow> att_status b = PendingDispatch"
      using inv by (auto simp: run_inv_except_def message_ok_def)
    have "unsent x' \<Longrightarrow> unsent x \<and> b \<noteq> a"
      using x po(1) [OF x(1)] po(2) [OF x(1)] h(2) b(2) by (auto split: if_splits)
    moreover have "settled x'" using x inv h(3) by (auto simp: run_inv_except_def message_ok_def)
    ultimately show ?thesis
      unfolding message_ok_def using A b x(2)
      by (intro conjI bexI [of _ "if b = a then f a else b"]) (auto simp: f' h')
  qed
  have pending: "\<exists>x' \<in> set (db_outbox db'). ob_attempt_id x' = att_id b' \<and> unsent x'"
    if b': "b' \<in> set (db_attempts db')" "att_status b' = PendingDispatch" for b'
  proof -
    from b'(1) obtain b0 where b0: "b0 \<in> set (db_attempts db)" "b' = (if b0 = a then f a else b0)" using A by blast
    have "b0 \<noteq> a" using b0(2) b'(2) S'(2) f(2) [of a] by auto
    then have b: "b' \<in> set (db_attempts db)" "b' \<noteq> a" using b0 by auto
    with inv b'(2) obtain x where x: "x \<in> set (db_outbox db)" "ob_attempt_id x = att_id b'" "unsent x"
      by (auto simp: run_inv_except_def)
    have "att_id b' \<noteq> att_id a" using attempt_by_key [OF keys b(1) att(1)] b(2) by blast
    then have "\<not> w x" using po(1) x by simp
    then show ?thesis using O x by (auto intro!: bexI [of _ x])
  qed
  have "distinct (map (\<lambda>a. (att_run_id a, att_attempt a)) (db_attempts db'))"
      "\<forall>r' \<in> set (db_runs db'). bounds_ok r'"
    using inv R by (auto simp: maps run_inv_except_def bounds_ok_def g')
  then show ?thesis
    using keys' attempts runs messages pending unfolding run_inv_except_def by blast
qed

text \<open>The invariant reads three tables and the identity counter.\<close>

lemma inv_cong:
  assumes "run_inv_except X db" "db_runs db' = db_runs db" "db_attempts db' = db_attempts db"
    "db_outbox db' = db_outbox db" "db_next_id db \<le> db_next_id db'"
  shows "run_inv_except X db'"
proof -
  have "keys_ok db'"
    using assms(1-4) unfolding run_inv_except_def keys_ok_def by (auto intro: less_le_trans [OF _ assms(5)])
  then show ?thesis using assms by (simp add: run_inv_except_def)
qed

text \<open>Claims, releases and publication failures change messages without sending or cancelling one.\<close>

lemma inv_messages:
  assumes inv: "run_inv_except X db"
    and h: "\<And>x. same_message (h x) x" "\<And>x. unsent (h x) = unsent x" "\<And>x. w x \<Longrightarrow> settled x \<Longrightarrow> settled (h x)"
  shows "run_inv_except X (update_outbox w h db)"
proof -
  have h': "ob_id (h x) = ob_id x" "ob_attempt_id (h x) = ob_attempt_id x" "ob_run_id (h x) = ob_run_id x" for x
    using h(1) by (simp_all add: same_message_def)
  let ?db = "update_outbox w h db"
  have O: "x' \<in> set (db_outbox ?db) \<longleftrightarrow> (\<exists>x \<in> set (db_outbox db). x' = (if w x then h x else x))" for x'
    by (auto simp: set_update_where image_iff)
  have "map ob_id (update_where w h (db_outbox db)) = map ob_id (db_outbox db)"
      "map ob_attempt_id (update_where w h (db_outbox db)) = map ob_attempt_id (db_outbox db)"
    by (auto intro!: update_where_map_key simp: h')
  then have "keys_ok ?db" using inv by (simp add: run_inv_except_def keys_ok_def del: set_map)
  moreover have "message_ok (db_attempts db) x'" if mem: "x' \<in> set (db_outbox ?db)" for x'
  proof -
    obtain x where x: "x \<in> set (db_outbox db)" "x' = (if w x then h x else x)" using O mem by blast
    then have "message_ok (db_attempts db) x" using inv by (simp add: run_inv_except_def)
    then show ?thesis using x(2) h(3) by (auto simp: message_ok_def h' h(2))
  qed
  moreover have "\<exists>x' \<in> set (db_outbox ?db). ob_attempt_id x' = att_id a \<and> unsent x'"
    if a: "a \<in> set (db_attempts db)" "att_status a = PendingDispatch" for a
  proof -
    from a inv obtain x where x: "x \<in> set (db_outbox db)" "ob_attempt_id x = att_id a" "unsent x"
      by (auto simp: run_inv_except_def)
    then show ?thesis using O by (intro bexI [of _ "if w x then h x else x"]) (auto simp: h' h(2))
  qed
  ultimately show ?thesis using inv unfolding run_inv_except_def by simp
qed

text \<open>Lease renewal and live output change an Attempt within its state.\<close>

lemma inv_attempts:
  assumes inv: "run_inv_except X db"
    and f: "\<And>a. same_attempt (f a) a" "\<And>a. att_status (f a) = att_status a"
      "\<And>a. w a \<Longrightarrow> lease_ok a \<Longrightarrow> lease_ok (f a)"
  shows "run_inv_except X (update_attempts w f db)"
proof -
  have f': "att_id (f a) = att_id a" "att_run_id (f a) = att_run_id a" "att_attempt (f a) = att_attempt a" for a
    using f(1) by (simp_all add: same_attempt_def)
  let ?db = "update_attempts w f db"
  have A: "a' \<in> set (db_attempts ?db) \<longleftrightarrow> (\<exists>a \<in> set (db_attempts db). a' = (if w a then f a else a))" for a'
    by (auto simp: set_update_where image_iff)
  have maps: "map att_id (update_where w f (db_attempts db)) = map att_id (db_attempts db)"
      "map (\<lambda>a. (att_run_id a, att_attempt a)) (update_where w f (db_attempts db)) =
       map (\<lambda>a. (att_run_id a, att_attempt a)) (db_attempts db)"
    by (auto intro!: update_where_map_key simp: f')
  have image: "P a'" if mem: "a' \<in> set (db_attempts ?db)"
      and all: "\<And>a. a \<in> set (db_attempts db) \<Longrightarrow> P (if w a then f a else a)" for P a'
  proof -
    obtain a where a: "a \<in> set (db_attempts db)" "a' = (if w a then f a else a)" using A mem by blast
    show ?thesis unfolding a(2) by (rule all [OF a(1)])
  qed
  have keys: "keys_ok ?db" using inv by (simp add: run_inv_except_def keys_ok_def maps del: set_map)
  have fits: "fits r (if w a then f a else a) \<longleftrightarrow> fits r a" for r a by (simp add: fits_def f' f(2))
  have attempts: "lease_ok a' \<and> (\<exists>r \<in> set (db_runs db). fits r a')" if "a' \<in> set (db_attempts ?db)" for a'
    using that by (rule image) (use inv f(3) in \<open>auto simp: run_inv_except_def fits\<close>)
  have carry: "\<exists>a' \<in> set (db_attempts ?db). P a'"
    if ex: "\<exists>a \<in> set (db_attempts db). P a" and same: "\<And>a. P (if w a then f a else a) \<longleftrightarrow> P a" for P
  proof -
    obtain a where a: "a \<in> set (db_attempts db)" "P a" using ex by blast
    then have "P (if w a then f a else a)" using same by blast
    moreover have "(if w a then f a else a) \<in> set (db_attempts ?db)" using A a(1) by blast
    ultimately show ?thesis by blast
  qed
  have "\<exists>a' \<in> set (db_attempts ?db). att_run_id a' = run_id r \<and> att_status a' = run_status r"
    if "r \<in> set (db_runs db)" "live (run_status r)" "run_id r \<notin> X" for r
    by (rule carry) (use inv that in \<open>auto simp: run_inv_except_def f' f(2)\<close>)
  moreover have "message_ok (db_attempts ?db) x" if "x \<in> set (db_outbox db)" for x
    unfolding message_ok_def
    by (rule conjI [OF _ carry]) (use inv that in \<open>auto simp: run_inv_except_def message_ok_def f' f(2)\<close>)
  moreover have "\<exists>x \<in> set (db_outbox db). ob_attempt_id x = att_id a' \<and> unsent x"
    if mem: "a' \<in> set (db_attempts ?db)" and pend: "att_status a' = PendingDispatch" for a'
  proof -
    obtain a where a: "a \<in> set (db_attempts db)" "a' = (if w a then f a else a)" using A mem by blast
    have "att_status a' = att_status a" "att_id a' = att_id a" using a(2) f(2) [of a] f'(1) [of a] by simp_all
    then have "att_status a = PendingDispatch" "att_id a' = att_id a" using pend by simp_all
    then show ?thesis using inv a(1) by (simp add: run_inv_except_def)
  qed
  ultimately show ?thesis
    using inv keys attempts unfolding run_inv_except_def by (simp add: maps)
qed

text \<open>A Run with a fresh identity and no Attempt yet.\<close>

lemma inv_insert_run:
  assumes inv: "run_inv_except X db" and ins: "insert_run r db = Inr db'" and fresh: "run_id r < db_next_id db"
  shows "run_inv_except (insert (run_id r) X) db'"
    "\<not> live (run_status r) \<Longrightarrow> run_inv_except X db'"
    "r \<in> set (db_runs db')" "\<forall>a \<in> set (db_attempts db'). att_run_id a \<noteq> run_id r"
    "db_next_id db' = db_next_id db"
proof -
  from ins have new: "\<forall>r' \<in> set (db_runs db). run_id r' \<noteq> run_id r" "bounds_ok r"
      "db' = db\<lparr> db_runs := db_runs db @ [r] \<rparr>"
    by (auto simp: insert_run_def bounds_ok_def split: if_splits)
  show "db_next_id db' = db_next_id db" "r \<in> set (db_runs db')" by (simp_all add: new)
  have none: "\<forall>a \<in> set (db_attempts db). att_run_id a \<noteq> run_id r"
    using inv new(1) by (force simp: run_inv_except_def fits_def)
  then show "\<forall>a \<in> set (db_attempts db'). att_run_id a \<noteq> run_id r" by (simp add: new)
  have keys: "keys_ok db'" using inv new fresh by (auto simp: run_inv_except_def keys_ok_def)
  show "run_inv_except (insert (run_id r) X) db'"
    using inv keys new by (auto simp: run_inv_except_def)
  show "run_inv_except X db'" if "\<not> live (run_status r)"
    using inv keys new that by (auto simp: run_inv_except_def)
qed

text \<open>The next Attempt of a Run that has no live one.\<close>

lemma inv_create_attempt:
  assumes inv: "run_inv_except (insert rid X) db"
    and create: "create_attempt_and_outbox now rid n q d db = Inr db'"
    and run: "r \<in> set (db_runs db)" "run_id r = rid" "run_status r = PendingDispatch"
      "run_attempt_count r = n" "1 \<le> n"
    and idle: "\<forall>a \<in> set (db_attempts db). att_run_id a = rid \<longrightarrow> \<not> live (att_status a)"
  shows "run_inv_except X db'"
proof -
  let ?i = "db_next_id db"
  obtain a o' where new: "db_attempts db' = db_attempts db @ [a]" "db_outbox db' = db_outbox db @ [o']"
      "db_runs db' = db_runs db" "db_next_id db' = ?i + 2"
      "att_id a = ?i" "att_run_id a = rid" "att_attempt a = n" "att_status a = PendingDispatch"
      "att_lease_expires_at a = None" "ob_id o' = ?i + 1" "ob_attempt_id o' = ?i" "ob_run_id o' = rid" "unsent o'" "settled o'"
      and uniq: "\<forall>b \<in> set (db_attempts db). \<not> (att_run_id b = rid \<and> att_attempt b = n)"
    using create by (auto simp: create_attempt_and_outbox_def Let_def unsent_def settled_def split: if_splits)
  have below: "\<forall>b \<in> set (db_attempts db). att_id b < ?i" "\<forall>x \<in> set (db_outbox db). ob_id x < ?i"
      "\<forall>r \<in> set (db_runs db). run_id r < ?i"
    using inv by (auto simp: run_inv_except_def keys_ok_def)
  have obsolete: "\<forall>x \<in> set (db_outbox db). ob_attempt_id x < ?i"
    using inv below(1) by (force simp: run_inv_except_def message_ok_def)
  have keys: "keys_ok db'"
    using inv below obsolete by (auto simp: run_inv_except_def keys_ok_def new)
  have fit: "fits r a" using run by (simp add: fits_def new)
  have lease: "lease_ok a" by (simp add: lease_ok_def new)
  have "message_ok (db_attempts db') x" if "x \<in> set (db_outbox db')" for x
    using that inv new unfolding run_inv_except_def message_ok_def by auto
  moreover have "\<exists>b \<in> set (db_attempts db'). att_run_id b = run_id s \<and> att_status b = run_status s"
    if s: "s \<in> set (db_runs db)" "live (run_status s)" "run_id s \<notin> X" for s
  proof (cases "run_id s = rid")
    case True
    then have "s = r" using run_by_key [of db s r] s(1) run(1,2) inv by (simp add: run_inv_except_def)
    then show ?thesis using run new by auto
  next
    case False
    then show ?thesis using s inv unfolding run_inv_except_def new(1) by auto
  qed
  moreover have "distinct (map (\<lambda>a. (att_run_id a, att_attempt a)) (db_attempts db'))"
    using inv uniq by (auto simp: run_inv_except_def new)
  moreover have "\<exists>x \<in> set (db_outbox db'). ob_attempt_id x = att_id b \<and> unsent x"
    if "b \<in> set (db_attempts db')" "att_status b = PendingDispatch" for b
    using that inv unfolding run_inv_except_def new(1,2) by (auto simp: new)
  moreover have "\<forall>b \<in> set (db_attempts db'). lease_ok b \<and> (\<exists>s \<in> set (db_runs db'). fits s b)"
    using inv fit lease run(1) by (auto simp: run_inv_except_def new(1,3))
  moreover have "\<forall>s \<in> set (db_runs db'). bounds_ok s" using inv by (simp add: run_inv_except_def new(3))
  ultimately show ?thesis
    using keys unfolding run_inv_except_def new(3) by blast
qed

section \<open>Transactions\<close>

lemma inv_weaken: "run_inv_except X db \<Longrightarrow> run_inv_except (X \<union> Y) db"
  by (auto simp: run_inv_except_def)

lemma create_attempt_next: "create_attempt_and_outbox now rid n q d db = Inr db' \<Longrightarrow> db_next_id db' = db_next_id db + 2"
  by (auto simp: create_attempt_and_outbox_def Let_def split: if_splits)

lemma insert_event_inv [simp]: "run_inv_except X (insert_run_event now rid t db) = run_inv_except X db"
  by (simp add: run_inv_except_def keys_ok_def)

lemma create_first_attempt_inv:
  assumes inv: "run_inv db" and ins: "insert_run r db = Inr db1" and r: "run_id r < db_next_id db"
      "run_status r = PendingDispatch" "run_attempt_count r = 1"
    and create: "create_attempt_and_outbox now (run_id r) 1 q d db1 = Inr db2"
  shows "run_inv db2"
proof -
  note steps = inv_insert_run [OF inv ins r(1)]
  show ?thesis
    by (rule inv_create_attempt [OF steps(1) create steps(3) refl r(2,3)]) (use steps(4) in auto)
qed

lemma create_normal_run_inv:
  assumes "run_inv db" "create_normal_run now p db = Inr db'" "pr_id p < db_next_id db"
  shows "run_inv db'" "db_next_id db' = db_next_id db + 2"
proof -
  from assms(2) obtain db1 db2 where steps: "insert_run (normal_run now None p) db = Inr db1"
      "create_attempt_and_outbox now (pr_id p) 1 (pr_queue_id p) None db1 = Inr db2"
      "db' = insert_run_event now (pr_id p) ''created'' db2"
    by (auto simp: create_normal_run_def)
  have id: "run_id (normal_run now None p) = pr_id p" by (simp add: normal_run_def)
  have "run_inv db2"
    by (rule create_first_attempt_inv [OF assms(1) steps(1) _ _ _ steps(2) [folded id]])
      (use assms(3) in \<open>simp_all add: normal_run_def\<close>)
  then show "run_inv db'" using steps(3) by simp
  show "db_next_id db' = db_next_id db + 2"
    using steps create_attempt_next inv_insert_run(5) [OF assms(1) steps(1)] assms(3) id by simp
qed

lemma create_normal_runs_inv:
  "run_inv db \<Longrightarrow> create_normal_runs now ps db = Inr db' \<Longrightarrow> \<forall>p \<in> set ps. pr_id p < db_next_id db \<Longrightarrow> run_inv db'"
proof (induction now ps db arbitrary: db' rule: create_normal_runs.induct)
  case (2 now p ps db)
  then obtain db1 where "create_normal_run now p db = Inr db1" "create_normal_runs now ps db1 = Inr db'" by auto
  note steps = this and next_id = create_normal_run_inv [OF 2(2) this(1)]
  have "pr_id p < db_next_id db" "\<forall>p \<in> set ps. pr_id p < db_next_id db" using 2(4) by simp_all
  then have "run_inv db1" "\<forall>p \<in> set ps. pr_id p < db_next_id db1" using next_id by auto
  then show ?case using 2(1) steps(2) by blast
qed simp

lemma prepare_snapshots_ids:
  "prepare_snapshots encode n s i es = Inr ss \<Longrightarrow> map fst ss = [n..<n + length es]"
proof (induction encode n s i es arbitrary: ss rule: prepare_snapshots.induct)
  case (2 encode n s i e es)
  then show ?case by (auto simp: upt_conv_Cons simp del: upt_Suc)
qed simp

lemma create_runs_inv:
  assumes "run_inv db" "create_runs encode jeq now rid jid target inputs db = Inr (db', res)"
  shows "run_inv db'"
proof (cases "find_run_request db rid")
  case (Some e)
  then show ?thesis using assms by (auto simp: create_runs_def)
next
  case None
  then obtain es shared ss req where
    load: "load_selection_executions db jid target = Inr (es, shared)"
    and prep: "prepare_snapshots encode (db_next_id db) shared inputs es = Inr ss"
    and run: "create_normal_runs now (map (prepared_run rid) (zip es ss))
        (db\<lparr> db_next_id := db_next_id db + length ss, db_requests := db_requests db @ [req] \<rparr>) = Inr db'"
    using assms(2) by (auto simp: create_runs_def Let_def)
  have "\<forall>p \<in> set (map (prepared_run rid) (zip es ss)). pr_id p < db_next_id db + length ss"
  proof
    fix p assume "p \<in> set (map (prepared_run rid) (zip es ss))"
    then obtain x i sn where p: "(x, i, sn) \<in> set (zip es ss)" "pr_id p = i" by (auto simp: prepared_run_def)
    have "i \<in> set (map fst ss)" using p(1) by (metis fst_conv image_eqI list.set_map set_zip_rightD)
    moreover have "length ss = length es"
      using prepare_snapshots_ids [OF prep] by (metis length_map length_upt diff_add_inverse)
    ultimately show "pr_id p < db_next_id db + length ss"
      using prepare_snapshots_ids [OF prep] p(2) by auto
  qed
  moreover have "run_inv (db\<lparr> db_next_id := db_next_id db + length ss, db_requests := db_requests db @ [req] \<rparr>)"
    by (rule inv_cong [OF assms(1)]) simp_all
  ultimately show ?thesis using create_normal_runs_inv run by auto
qed

lemma insert_rerun_inv:
  assumes "run_inv db" "insert_rerun now src rid db = Inr (db', res)"
  shows "run_inv db'"
proof (cases "existing_rerun db rid src = Inr None")
  case False
  then show ?thesis using assms by (auto simp: insert_rerun_def split: option.splits)
next
  case True
  let ?id = "db_next_id db"
  from assms(2) True have "and_then (rerun_source db src) (\<lambda>x.
      and_then (insert_run (normal_run now (Some src) (rerun_prepared ?id rid (fst x) (snd (snd x))))
        (db\<lparr> db_next_id := ?id + 1, db_requests := db_requests db @ [rerun_request db rid (fst (snd x)) (fst x)] \<rparr>)) (\<lambda>db2.
      and_then (create_attempt_and_outbox now ?id 1 (run_queue_id (fst x)) None db2) (\<lambda>db3.
      and_then (existing_rerun (insert_run_event now ?id ''created'' db3) rid src) (\<lambda>found.
      and_then (ok_or StoreInternal found) (\<lambda>run. Ok (insert_run_event now ?id ''created'' db3, run, True)))))) =
      Inr (db', res)"
    by (simp add: insert_rerun_def Let_def case_prod_unfold del: and_then_Ok)
  then obtain x db2 db3 where
    ins: "insert_run (normal_run now (Some src) (rerun_prepared ?id rid (fst x) (snd (snd x))))
        (db\<lparr> db_next_id := ?id + 1, db_requests := db_requests db @ [rerun_request db rid (fst (snd x)) (fst x)] \<rparr>) = Inr db2"
    and create: "create_attempt_and_outbox now ?id 1 (run_queue_id (fst x)) None db2 = Inr db3"
    and db': "insert_run_event now ?id ''created'' db3 = db'"
    by (elim and_thenE) (rule that, assumption, assumption, simp only: sum.inject prod.inject)
  define db1 where db1: "db1 = db\<lparr> db_next_id := ?id + 1, db_requests := db_requests db @ [rerun_request db rid (fst (snd x)) (fst x)] \<rparr>"
  note ins = ins [folded db1]
  have inv1: "run_inv db1" unfolding db1 by (rule inv_cong [OF assms(1)]) simp_all
  have id: "run_id (normal_run now (Some src) (rerun_prepared ?id rid (fst x) (snd (snd x)))) = ?id"
    by (simp add: normal_run_def rerun_prepared_def)
  have create': "create_attempt_and_outbox now (run_id (normal_run now (Some src) (rerun_prepared ?id rid (fst x) (snd (snd x)))))
      1 (run_queue_id (fst x)) None db2 = Inr db3" unfolding id by (rule create)
  have "run_inv db3"
    by (rule create_first_attempt_inv [OF inv1 ins _ _ _ create'])
      (simp add: id db1, simp_all add: normal_run_def)
  then show ?thesis using db' [symmetric] by simp
qed

lemma claim_due_schedules_inv:
  "run_inv db \<Longrightarrow> claim_due_schedules now locked owner n l db = Inr (db', res) \<Longrightarrow> run_inv db'"
  by (erule inv_cong) (auto simp: claim_due_schedules_def Let_def)

text \<open>What one planned occurrence adds for one Target.\<close>

lemma insert_scheduled_occurrence_cases:
  assumes "insert_scheduled_occurrence encode now sid occ e si ii db = Inr db'"
  obtains (duplicate) r where "r \<in> set (db_runs db)" "run_schedule_id r = Some sid"
      "run_scheduled_at r = occ_scheduled_at occ" "run_target_id r = ex_target_id e"
      "db' = db\<lparr> db_next_id := db_next_id db + 1 \<rparr>"
  | (inserted) r db1 db2 where "insert_run r (db\<lparr> db_next_id := db_next_id db + 1 \<rparr>) = Inr db1"
      "run_id r = db_next_id db" "run_schedule_id r = Some sid" "run_scheduled_at r = occ_scheduled_at occ"
      "run_target_id r = ex_target_id e"
      "\<not> (\<exists>r' \<in> set (db_runs db). run_schedule_id r' = Some sid \<and>
           run_scheduled_at r' = occ_scheduled_at occ \<and> run_target_id r' = ex_target_id e)"
      "(run_status r = PendingDispatch \<and> run_attempt_count r = 1 \<and> occ_execute occ \<and>
          create_attempt_and_outbox now (run_id r) 1 (ex_queue_id e) (occ_dispatch_deadline occ) db1 = Inr db2) \<or>
       ((run_status r = Skipped \<or> run_status r = Failed) \<and> run_attempt_count r = 0 \<and> db2 = db1)"
      "db_runs db' = db_runs db2" "db_attempts db' = db_attempts db2" "db_outbox db' = db_outbox db2"
      "db_next_id db' = db_next_id db2" "db_schedules db' = db_schedules db2"
proof (cases "\<exists>r' \<in> set (db_runs db). run_schedule_id r' = Some sid \<and>
           run_scheduled_at r' = occ_scheduled_at occ \<and> run_target_id r' = ex_target_id e")
  case True
  then show thesis
    using assms duplicate by (auto simp: insert_scheduled_occurrence_def Let_def split: prod.splits)
next
  case False
  define x where "x = (case scheduled_snapshot encode (db_next_id db) e si ii (occ_scheduled_at occ) of
       Inr s \<Rightarrow> if occ_execute occ then (Rendered s, PendingDispatch, None) else (Rendered s, Skipped, occ_reason occ)
     | Inl m \<Rightarrow> (RenderFailed m (case merge_inputs encode (execution_layers e si ii) of Inr v \<Rightarrow> v | Inl _ \<Rightarrow> empty_object),
                  Failed, Some ''execution template could not be rendered''))"
  obtain snapshot status reason where x: "x = (snapshot, status, reason)" by (cases x)
  have st: "status = PendingDispatch \<and> occ_execute occ \<or> status = Skipped \<or> status = Failed"
    using x unfolding x_def by (auto split: sum.splits if_splits)
  define r where "r = \<lparr> run_id = db_next_id db, run_request_id = None, run_rerun_of = None, run_schedule_id = Some sid,
                run_job_id = ex_job_id e, run_target_id = ex_target_id e, run_queue_id = ex_queue_id e,
                run_scheduled_at = occ_scheduled_at occ, run_status = status, run_snapshot = snapshot,
                run_attempt_count = (if status = PendingDispatch then 1 else 0), run_max_attempts = ex_max_attempts e,
                run_next_retry_at = None, run_lateness_seconds = min (occ_lateness_seconds occ) i64_max,
                run_terminal_reason = reason, run_created_at = now, run_queued_at = None,
                run_started_at = None,
                run_completed_at = (if status = Skipped \<or> status = Failed then Some now else None) \<rparr>"
  define finish where "finish db2 = (let event = (if status = PendingDispatch then ''created'' else if status = Failed then ''failed'' else ''skipped'');
               db3 = insert_run_event now (db_next_id db) event db2 in
           db3\<lparr> db_schedule_events := db_schedule_events db3 @
             [\<lparr> sev_schedule_id = sid, sev_type = event, sev_scheduled_at = occ_scheduled_at occ,
                sev_run_id = db_next_id db, sev_target_id = ex_target_id e \<rparr>] \<rparr>)" for db2
  have "and_then (insert_run r (db\<lparr> db_next_id := db_next_id db + 1 \<rparr>)) (\<lambda>db1.
      and_then (if status = PendingDispatch
                then create_attempt_and_outbox now (db_next_id db) 1 (ex_queue_id e) (occ_dispatch_deadline occ) db1
                else Ok db1) (\<lambda>db2. Ok (finish db2))) = Inr db'"
    using assms False x unfolding insert_scheduled_occurrence_def x_def r_def finish_def Let_def by simp
  then obtain db1 db2 where ins: "insert_run r (db\<lparr> db_next_id := db_next_id db + 1 \<rparr>) = Inr db1"
    and att: "(if status = PendingDispatch
                then create_attempt_and_outbox now (db_next_id db) 1 (ex_queue_id e) (occ_dispatch_deadline occ) db1
                else Ok db1) = Inr db2" and fin: "finish db2 = db'"
    by (elim and_thenE) (rule that, assumption, assumption, simp only: sum.inject)
  have frame: "db_runs db' = db_runs db2" "db_attempts db' = db_attempts db2" "db_outbox db' = db_outbox db2"
      "db_next_id db' = db_next_id db2" "db_schedules db' = db_schedules db2"
    unfolding fin [symmetric] finish_def Let_def by (simp_all add: insert_run_event_def)
  show thesis
    by (rule inserted [OF ins _ _ _ _ False _ frame]) (use st att in \<open>auto simp: r_def split: if_splits\<close>)
qed

lemma insert_scheduled_occurrence_inv:
  assumes "run_inv db" "insert_scheduled_occurrence encode now sid occ e si ii db = Inr db'"
  shows "run_inv db'"
  using assms(2)
proof (cases rule: insert_scheduled_occurrence_cases)
  case (duplicate r)
  then show ?thesis using inv_cong [OF assms(1)] by simp
next
  case (inserted r db1 db2)
  let ?db0 = "db\<lparr> db_next_id := db_next_id db + 1 \<rparr>"
  have inv0: "run_inv ?db0" by (rule inv_cong [OF assms(1)]) simp_all
  have fresh: "run_id r < db_next_id ?db0" using inserted(2) by simp
  have "run_inv db2"
    using inserted(7)
  proof (elim disjE conjE)
    assume "run_status r = PendingDispatch" "run_attempt_count r = 1"
      "create_attempt_and_outbox now (run_id r) 1 (ex_queue_id e) (occ_dispatch_deadline occ) db1 = Inr db2"
    then show ?thesis using create_first_attempt_inv [OF inv0 inserted(1) fresh] by blast
  qed (use inv_insert_run(2) [OF inv0 inserted(1) fresh] in auto)
  then show ?thesis by (rule inv_cong) (simp_all add: inserted(8-11))
qed

lemma insert_occurrence_executions_inv:
  "run_inv db \<Longrightarrow> insert_occurrence_executions encode now sid occ es si ii db = Inr db' \<Longrightarrow> run_inv db'"
proof (induction es arbitrary: db)
  case (Cons e es)
  from Cons.prems(2) obtain db1 where
    "insert_scheduled_occurrence encode now sid occ e si ii db = Inr db1"
    "insert_occurrence_executions encode now sid occ es si ii db1 = Inr db'"
    unfolding insert_occurrence_executions.simps by (rule and_thenE)
  then show ?case using Cons.IH insert_scheduled_occurrence_inv [OF Cons.prems(1)] by blast
qed simp

lemma insert_occurrences_inv:
  "run_inv db \<Longrightarrow> insert_occurrences encode now sid occs es si ii db = Inr db' \<Longrightarrow> run_inv db'"
proof (induction occs arbitrary: db)
  case (Cons occ occs)
  from Cons.prems(2) obtain db1 where
    "insert_occurrence_executions encode now sid occ es si ii db = Inr db1"
    "insert_occurrences encode now sid occs es si ii db1 = Inr db'"
    unfolding insert_occurrences.simps by (rule and_thenE)
  then show ?case using Cons.IH insert_occurrence_executions_inv [OF Cons.prems(1)] by blast
qed simp

text \<open>A committed plan: the claim was held, the occurrences were inserted, and the Schedule row moved on.\<close>

lemma commit_schedule_plan_cases:
  assumes "commit_schedule_plan encode now p db = Inr (db', u)"
  obtains row es si db1 where "row \<in> set (db_schedules db)" "sched_id (srow_schedule row) = plan_schedule_id p"
    "srow_claim_owner row = Some (plan_owner p)"
    "load_selection_executions db (sched_job_id (srow_schedule row)) (sched_target (srow_schedule row)) = Inr (es, si)"
    "insert_occurrences encode now (plan_schedule_id p) (plan_occurrences p) es si (sched_inputs (srow_schedule row)) db = Inr db1"
    "db_runs db' = db_runs db1" "db_attempts db' = db_attempts db1" "db_outbox db' = db_outbox db1"
    "db_next_id db' = db_next_id db1"
proof -
  from assms obtain row where row: "find (\<lambda>row. sched_id (srow_schedule row) = plan_schedule_id p \<and>
                  srow_claim_owner row = Some (plan_owner p) \<and>
                  (case srow_claim_expires_at row of None \<Rightarrow> False | Some t \<Rightarrow> now < t)) (db_schedules db) = Some row"
    by (simp add: commit_schedule_plan_def split: option.splits)
  from assms obtain x where x: "load_selection_executions db (sched_job_id (srow_schedule row)) (sched_target (srow_schedule row)) = Inr x"
    unfolding commit_schedule_plan_def row option.case by (rule and_thenE)
  from assms obtain db1 where db1: "insert_occurrences encode now (plan_schedule_id p) (plan_occurrences p)
        (fst x) (snd x) (sched_inputs (srow_schedule row)) db = Inr db1"
      "\<exists>rows. db' = db1\<lparr> db_schedules := rows \<rparr>"
    unfolding commit_schedule_plan_def row option.case x and_then.simps case_prod_unfold Let_def
    by (elim and_thenE) (auto split: if_splits)
  show thesis
    by (rule that [of row "fst x" "snd x" db1]) (use find_Some_in [OF row] x db1 in auto)
qed

lemma commit_schedule_plan_inv:
  assumes "run_inv db" "commit_schedule_plan encode now p db = Inr (db', u)"
  shows "run_inv db'"
  using assms(2)
proof (cases rule: commit_schedule_plan_cases)
  case (1 row es si db1)
  from insert_occurrences_inv [OF assms(1) 1(5)] show ?thesis
    by (rule inv_cong) (simp_all add: 1)
qed

lemma claim_outbox_inv:
  assumes "run_inv db" "claim_outbox now locked owner n l db = Inr (db', res)"
  shows "run_inv db'"
proof -
  define ids where "ids = map ob_id (select_batch (\<lambda>o'. (ob_next_attempt_at o', ob_id o')) (\<lambda>o'. locked (ob_id o'))
           (outbox_claimable now) n (db_outbox db))"
  have db': "\<exists>t. db' = update_outbox (\<lambda>o'. ob_id o' \<in> set ids)
      (\<lambda>o'. o'\<lparr> ob_claimed_by := Some owner, ob_claim_expires_at := Some t \<rparr>) db"
    using assms(2) unfolding claim_outbox_def Let_def ids_def by (elim and_thenE) auto
  have open': "ob_cancelled_at x = None" if "x \<in> set (db_outbox db)" "ob_id x \<in> set ids" for x
  proof -
    obtain y where y: "y \<in> set (db_outbox db)" "ob_id y = ob_id x" "outbox_claimable now y"
      using \<open>ob_id x \<in> set ids\<close> select_batch_set unfolding ids_def by fastforce
    have "y = x" using y(1,2) \<open>x \<in> set (db_outbox db)\<close> assms(1)
      by (auto simp: run_inv_except_def keys_ok_def distinct_map dest: inj_onD)
    then show ?thesis using y(3) by (simp add: outbox_claimable_def)
  qed
  obtain t where t: "db' = update_outbox (\<lambda>o'. ob_id o' \<in> set ids)
      (\<lambda>o'. o'\<lparr> ob_claimed_by := Some owner, ob_claim_expires_at := Some t \<rparr>) db" using db' by blast
  have "db' = update_outbox (\<lambda>o'. ob_id o' \<in> set ids \<and> ob_cancelled_at o' = None)
      (\<lambda>o'. o'\<lparr> ob_claimed_by := Some owner, ob_claim_expires_at := Some t \<rparr>) db"
    unfolding t update_outbox_def update_where_def using open' by (auto intro!: arg_cong [of _ _ "\<lambda>x. db_outbox_update x db"])
  then show ?thesis
    by (simp only:) (rule inv_messages [OF assms(1)]; simp add: same_message_def unsent_def settled_def)
qed

lemma update_where_False [simp]: "update_where (\<lambda>_. False) h xs = xs"
  by (simp add: update_where_def)

lemma record_publish_failure_inv:
  assumes "run_inv db" "record_publish_failure owner i m t db = Inr (db', u)"
  shows "run_inv db'"
proof -
  have db': "db' = update_outbox (\<lambda>o'. ob_id o' = i \<and> ob_claimed_by o' = Some owner \<and> ob_published_at o' = None)
      (\<lambda>o'. o'\<lparr> ob_attempt_count := ob_attempt_count o' + 1, ob_last_error := Some (take_chars 1024 m),
                ob_next_attempt_at := t, ob_claimed_by := None, ob_claim_expires_at := None \<rparr>) db"
    using assms(2) by (simp add: record_publish_failure_def)
  show ?thesis unfolding db'
    by (rule inv_messages [OF assms(1)]; simp add: same_message_def unsent_def settled_def)
qed

lemma release_expired_claims_inv: "run_inv db \<Longrightarrow> run_inv (release_expired_claims now db)"
  unfolding release_expired_claims_def
  by (rule inv_messages; simp add: same_message_def unsent_def settled_def)

lemma filter_singleton:
  "length (filter p xs) = 1 \<Longrightarrow> \<exists>x \<in> set xs. p x \<and> (\<forall>y \<in> set xs. p y \<longrightarrow> y = x)"
proof -
  assume "length (filter p xs) = 1"
  then obtain x where x: "filter p xs = [x]" by (auto simp: length_Suc_conv)
  then have "set (filter p xs) = {x}" by simp
  then show ?thesis by auto
qed

lemma status_of_live_attempt:
  assumes "run_inv_except X db" "a \<in> set (db_attempts db)" "live (att_status a)"
  shows "r \<in> set (db_runs db) \<Longrightarrow> run_id r = att_run_id a \<Longrightarrow> run_status r = att_status a"
  using inv_fits_run [OF assms(1,2)] assms(3) by (simp add: fits_def)

lemma mark_published_inv:
  assumes inv: "run_inv db" and pub: "mark_published now owner rec seq db = Inr (db', u)"
    and rec: "\<exists>x \<in> set (db_outbox db). ob_id x = rec_id rec \<and> ob_attempt_id x = rec_attempt_id rec"
  shows "run_inv db'"
proof -
  define mine :: "OutboxRow \<Rightarrow> bool" where "mine = (\<lambda>o'. ob_id o' = rec_id rec \<and> ob_run_id o' = rec_run_id rec \<and>
                 ob_claimed_by o' = Some owner \<and> ob_published_at o' = None)"
  define h :: "OutboxRow \<Rightarrow> OutboxRow" where "h = (\<lambda>o'. o'\<lparr> ob_published_at := Some now, ob_stream_sequence := Some seq,
                            ob_claimed_by := None, ob_claim_expires_at := None, ob_last_error := None \<rparr>)"
  have one: "length (filter mine (db_outbox db)) = 1"
    and db': "db' = insert_run_event now (rec_run_id rec) ''queued''
               (update_runs (\<lambda>r. run_id r = rec_run_id rec \<and> run_status r = PendingDispatch)
                  (\<lambda>r. r\<lparr> run_status := Queued, run_queued_at := Some now \<rparr>)
               (update_attempts (\<lambda>a. att_id a = rec_attempt_id rec \<and> att_status a = PendingDispatch)
                  (\<lambda>a. a\<lparr> att_status := Queued \<rparr>) (update_outbox mine h db)))"
    using pub unfolding mark_published_def mine_def h_def Let_def by (auto split: if_splits)
  obtain x where x: "x \<in> set (db_outbox db)" "mine x" using filter_singleton [OF one] by blast
  obtain y where y: "y \<in> set (db_outbox db)" "ob_id y = rec_id rec" "ob_attempt_id y = rec_attempt_id rec" using rec by blast
  have keys: "keys_ok db" using inv by (simp add: run_inv_except_def)
  have "y = x" using message_by_key [OF keys y(1) x(1)] x(2) y(2) by (simp add: mine_def)
  have mok: "message_ok (db_attempts db) x" using inv x(1) by (simp add: run_inv_except_def)
  have "unsent x" using mok x(2) by (auto simp: message_ok_def settled_def mine_def unsent_def)
  with mok obtain a where a: "a \<in> set (db_attempts db)" "att_id a = rec_attempt_id rec" "att_run_id a = rec_run_id rec"
      "att_status a = PendingDispatch"
    using y(3) x(2) unfolding \<open>y = x\<close> message_ok_def mine_def by auto
  show ?thesis
  proof (rule transition [OF inv a(1) a(4), where p = "\<lambda>b. att_id b = rec_attempt_id rec \<and> att_status b = PendingDispatch"
        and q = "\<lambda>r. run_id r = rec_run_id rec \<and> run_status r = PendingDispatch" and w = mine and h = h
        and f = "\<lambda>a. a\<lparr> att_status := Queued \<rparr>" and g = "\<lambda>r. r\<lparr> run_status := Queued, run_queued_at := Some now \<rparr>"
        and Sa = Queued and Sr = Queued])
    have "lease_ok a" using inv a(1) by (simp add: run_inv_except_def)
    then show "lease_ok (a\<lparr> att_status := Queued \<rparr>)" using a(4) by (simp add: lease_ok_def)
    show "(att_id b = rec_attempt_id rec \<and> att_status b = PendingDispatch) = (b = a)"
      if "b \<in> set (db_attempts db)" for b
      using attempt_by_key [OF keys that a(1)] a by auto
    show "(run_id r = rec_run_id rec \<and> run_status r = PendingDispatch) = (run_id r = att_run_id a)"
      if "r \<in> set (db_runs db)" for r
      using status_of_live_attempt [OF inv a(1) _ that] a by auto
    show "\<not> mine z" if "z \<in> set (db_outbox db)" "unsent z" "ob_attempt_id z \<noteq> att_id a" for z
      using message_by_key [OF keys that(1) x(1)] that(3) x(2) y(3) \<open>y = x\<close> a(2) by (auto simp: mine_def)
    show "mine z \<and> \<not> unsent (h z)" if "z \<in> set (db_outbox db)" "ob_attempt_id z = att_id a" "unsent z" for z
    proof -
      have "z = x" using message_by_attempt [OF keys that(1) x(1)] that(2) a(2) y(3) \<open>y = x\<close> by simp
      then show ?thesis using x(2) by (simp add: h_def unsent_def)
    qed
  qed (simp_all add: db' same_attempt_def same_run_def same_message_def h_def unsent_def settled_def)
qed

lemma claim_attempt_cases:
  assumes "claim_attempt now req db = (db', res)"
  obtains (refused) "db' = db" "res = Inr \<lparr> claimed = False, lease_seconds = 60, execution = None \<rparr>"
  | (failed) e where "db' = db" "res = Inl e"
  | (claimed) a r where "a \<in> set (db_attempts db)" "att_id a = cr_attempt_id req" "att_run_id a = cr_run_id req"
      "att_status a = Queued" "r \<in> set (db_runs db)" "run_id r = att_run_id a" "run_status r = Queued"
      "\<exists>r \<in> set (db_runs db). run_id r = att_run_id a \<and> run_queue_id r = cr_queue_id req"
      "db_attempts db' = update_where (\<lambda>b. att_id b = cr_attempt_id req \<and> att_run_id b = cr_run_id req \<and> att_status b = Queued \<and>
          (\<exists>r \<in> set (db_runs db). run_id r = att_run_id b \<and> run_queue_id r = cr_queue_id req))
        (\<lambda>a. a\<lparr> att_status := Running, att_worker_id := Some (cr_worker_id req), att_started_at := Some now,
                att_heartbeat_at := Some now, att_lease_expires_at := Some (now + 60 * second) \<rparr>) (db_attempts db)"
      "db_runs db' = update_where (\<lambda>r. run_id r = att_run_id a \<and> run_status r = Queued)
        (\<lambda>r. r\<lparr> run_status := Running,
               run_started_at := (case run_started_at r of None \<Rightarrow> Some now | Some t \<Rightarrow> Some t) \<rparr>) (db_runs db)"
      "db_outbox db' = db_outbox db" "db_next_id db' = db_next_id db"
      "res = (case run_snapshot r of Rendered s \<Rightarrow> Inr \<lparr> claimed = True, lease_seconds = 60, execution = Some s \<rparr>
               | RenderFailed _ _ \<Rightarrow> Inl StoreInternal)"
proof -
  define mine :: "RunAttemptRow \<Rightarrow> bool" where "mine = (\<lambda>a. att_id a = cr_attempt_id req \<and> att_run_id a = cr_run_id req \<and> att_status a = Queued \<and>
            (\<exists>r \<in> set (db_runs db). run_id r = att_run_id a \<and> run_queue_id r = cr_queue_id req))"
  consider "\<not> text_storable (cr_worker_id req)" | "text_storable (cr_worker_id req)" by blast
  then show thesis
  proof cases
    case 1
    then show thesis using assms failed unfolding claim_attempt_def by auto
  next
    case storable: 2
    show thesis
    proof (cases "find mine (db_attempts db)")
      case None
      then show thesis using assms refused storable unfolding claim_attempt_def mine_def Let_def by simp
    next
      case (Some a)
      show thesis
      proof (cases "find (\<lambda>r. run_id r = att_run_id a \<and> run_status r = Queued) (db_runs db)")
        case None
        then show thesis using assms failed storable Some unfolding claim_attempt_def mine_def Let_def by auto
      next
        case run: (Some r)
        have a: "a \<in> set (db_attempts db)" "mine a" using find_Some_in [OF Some] by auto
        have r: "r \<in> set (db_runs db)" "run_id r = att_run_id a" "run_status r = Queued" using find_Some_in [OF run] by auto
        have step: "claim_attempt now req db =
            (insert_run_event now (att_run_id a) ''running''
              (update_runs (\<lambda>r. run_id r = att_run_id a \<and> run_status r = Queued)
                 (\<lambda>r. r\<lparr> run_status := Running,
                         run_started_at := (case run_started_at r of None \<Rightarrow> Some now | Some t \<Rightarrow> Some t) \<rparr>)
              (update_attempts mine
                 (\<lambda>a. a\<lparr> att_status := Running, att_worker_id := Some (cr_worker_id req), att_started_at := Some now,
                         att_heartbeat_at := Some now, att_lease_expires_at := Some (now + 60 * second) \<rparr>) db)),
             (case run_snapshot r of
                Rendered s \<Rightarrow> Inr \<lparr> claimed = True, lease_seconds = 60, execution = Some s \<rparr>
              | RenderFailed _ _ \<Rightarrow> Inl StoreInternal))"
          by (simp only: claim_attempt_def mine_def [symmetric] Let_def Some option.case run storable not_True_eq_False if_False)
        have eqs: "db' = fst (claim_attempt now req db)" "res = snd (claim_attempt now req db)" using assms by simp_all
        show thesis
        proof (rule claimed [of a r])
          show "db_attempts db' = update_where (\<lambda>b. att_id b = cr_attempt_id req \<and> att_run_id b = cr_run_id req \<and> att_status b = Queued \<and>
            (\<exists>r \<in> set (db_runs db). run_id r = att_run_id b \<and> run_queue_id r = cr_queue_id req))
          (\<lambda>a. a\<lparr> att_status := Running, att_worker_id := Some (cr_worker_id req), att_started_at := Some now,
                  att_heartbeat_at := Some now, att_lease_expires_at := Some (now + 60 * second) \<rparr>) (db_attempts db)"
            unfolding eqs step by (simp add: mine_def)
        qed (use a r in \<open>simp_all add: eqs step, simp_all add: mine_def\<close>)
      qed
    qed
  qed
qed

text \<open>A message of an Attempt past dispatch is no longer waiting to be sent.\<close>

lemma not_unsent_of_attempt:
  assumes "run_inv_except X db" "a \<in> set (db_attempts db)" "att_status a \<noteq> PendingDispatch"
    "x \<in> set (db_outbox db)" "ob_attempt_id x = att_id a"
  shows "\<not> unsent x"
proof
  assume "unsent x"
  then obtain b where "b \<in> set (db_attempts db)" "att_id b = att_id a" "att_status b = PendingDispatch"
    using assms(1,4,5) by (auto simp: run_inv_except_def message_ok_def)
  then show False using attempt_by_key [of db b a] assms by (auto simp: run_inv_except_def)
qed

text \<open>A transition after dispatch touches no message.\<close>

lemma transition_dispatched:
  assumes inv: "run_inv_except X db"
    and att: "a \<in> set (db_attempts db)" "att_status a = S" "live S" "S \<noteq> PendingDispatch"
    and f: "\<And>b. same_attempt (f b) b" "\<And>b. att_status (f b) = Sa" "lease_ok (f a)"
    and g: "\<And>r. same_run (g r) r" "\<And>r. run_status (g r) = Sr"
    and S': "Sa = Sr \<or> (\<not> live Sa \<and> \<not> live Sr)" "Sa \<noteq> PendingDispatch"
    and pa: "\<And>b. b \<in> set (db_attempts db) \<Longrightarrow> p b \<longleftrightarrow> b = a"
    and pr: "\<And>r. r \<in> set (db_runs db) \<Longrightarrow> q r \<longleftrightarrow> run_id r = att_run_id a"
    and db': "db_attempts db' = update_where p f (db_attempts db)"
      "db_runs db' = update_where q g (db_runs db)" "db_outbox db' = db_outbox db" "db_next_id db' = db_next_id db"
  shows "run_inv_except X db'"
proof (rule transition [OF inv att(1-3) f g S' pa pr, where h = id and w = "\<lambda>_. False"])
  show "db_outbox db' = update_where (\<lambda>_. False) id (db_outbox db)" by (simp add: db' update_where_none)
  show "False \<and> \<not> unsent (id x)" if "x \<in> set (db_outbox db)" "ob_attempt_id x = att_id a" "unsent x" for x
    using not_unsent_of_attempt [OF inv att(1) _ that(1,2)] att(2,4) that(3) by blast
qed (simp_all add: same_message_def db')

lemma claim_attempt_inv:
  assumes inv: "run_inv db" and claim: "claim_attempt now req db = (db', res)"
  shows "run_inv db'"
  using claim
proof (cases rule: claim_attempt_cases)
  case (claimed a r)
  note c = this
  have keys: "keys_ok db" using inv by (simp add: run_inv_except_def)
  show ?thesis
  proof (rule transition_dispatched [OF inv c(1,4) _ _ _ _ _ _ _ _ _ _ _ c(9,10,11,12), where Sa = Running and Sr = Running])
    show "(att_id b = cr_attempt_id req \<and> att_run_id b = cr_run_id req \<and> att_status b = Queued \<and>
        (\<exists>r \<in> set (db_runs db). run_id r = att_run_id b \<and> run_queue_id r = cr_queue_id req)) = (b = a)"
      if "b \<in> set (db_attempts db)" for b
      using attempt_by_key [OF keys that c(1)] c(2,3,4,8) by auto
    show "(run_id s = att_run_id a \<and> run_status s = Queued) = (run_id s = att_run_id a)"
      if "s \<in> set (db_runs db)" for s
      using run_by_key [OF keys that c(5)] c(6,7) by auto
    show "lease_ok (a\<lparr> att_status := Running, att_worker_id := Some (cr_worker_id req), att_started_at := Some now,
                att_heartbeat_at := Some now, att_lease_expires_at := Some (now + 60 * second) \<rparr>)"
      by (simp add: lease_ok_def)
  qed (simp_all add: same_attempt_def same_run_def)
qed (use inv in simp_all)

lemma renew_lease_inv: "run_inv db \<Longrightarrow> renew_lease now aid wid db = Inr (db', res) \<Longrightarrow> run_inv db'"
  unfolding renew_lease_def
  by (auto intro!: inv_attempts simp: same_attempt_def lease_ok_def holds_lease_def split: if_splits)

lemma record_attempt_output_inv:
  "run_inv db \<Longrightarrow> record_attempt_output now req db = Inr (db', res) \<Longrightarrow> run_inv db'"
  unfolding record_attempt_output_def Let_def
  by (auto intro!: inv_attempts simp: same_attempt_def lease_ok_def split: if_splits)

end
