(* ===== verification/RunLifecycle.thy ===== *)
theory RunLifecycle
  imports RunInvariant
begin

text \<open>
  Completion and reconciliation keep the invariant of the Run tables; the transactions as one step
  relation; what no step undoes: identity, attempt counts, terminal states, finished Attempts.
\<close>

section \<open>Completion\<close>

lemma complete_attempt_cases:
  assumes "complete_attempt delay now utc req db = Inr (db', res)"
  obtains (stale) "db' = db" "\<not> res" "\<forall>a \<in> set (db_attempts db). \<not> holds_lease now (comp_attempt_id req) (comp_worker_id req) a"
  | (completed) a r retry where "a \<in> set (db_attempts db)" "holds_lease now (comp_attempt_id req) (comp_worker_id req) a"
      "r \<in> set (db_runs db)" "run_id r = att_run_id a" "retry_row r = Inr retry" "res"
      "\<not> (comp_skipped req \<and> \<not> comp_succeeded req)"
      "db' = (let again = should_retry req retry; status = completed_run_status req again in
         insert_run_event now (att_run_id a) (run_status_name status)
                     (update_runs (\<lambda>r. run_id r = att_run_id a \<and> run_status r = Running)
                        (\<lambda>r. r\<lparr> run_status := status,
                                run_completed_at := (if status = RetryWait then None else Some now),
                                run_next_retry_at := (if again then Some (utc + delay r retry) else None),
                                run_terminal_reason := (if comp_skipped req then Some ''dry run''
                                  else map_option bounded_error (comp_error req)) \<rparr>)
                     (update_attempts (holds_lease now (comp_attempt_id req) (comp_worker_id req))
                        (\<lambda>a. a\<lparr> att_status := completion_status req, att_completed_at := Some now,
                                att_lease_expires_at := None, att_exit_code := comp_exit_code req,
                                att_stdout_tail := Some (bounded_tail (comp_stdout_tail req)),
                                att_stderr_tail := Some (bounded_tail (comp_stderr_tail req)),
                                att_error := map_option bounded_error (comp_error req) \<rparr>) db)))"
proof (cases "find (holds_lease now (comp_attempt_id req) (comp_worker_id req)) (db_attempts db)")
  case None
  then have "db' = db" "\<not> res" using assms by (auto simp: complete_attempt_def Let_def split: if_splits)
  then show thesis by (rule stale) (use None in \<open>simp add: find_None_iff\<close>)
next
  case (Some a)
  have a: "a \<in> set (db_attempts db)" "holds_lease now (comp_attempt_id req) (comp_worker_id req) a"
    using find_Some_in [OF Some] by auto
  show thesis
  proof (cases "find (\<lambda>r. run_id r = att_run_id a) (db_runs db)")
    case None
    then show thesis using assms Some by (simp add: complete_attempt_def Let_def split: if_splits)
  next
    case run: (Some r)
    have r: "r \<in> set (db_runs db)" "run_id r = att_run_id a" using find_Some_in [OF run] by auto
    have guard: "\<not> (comp_skipped req \<and> \<not> comp_succeeded req)" using assms by (auto simp: complete_attempt_def split: if_splits)
    have storable: "list_all text_storable (completion_texts req)" using assms by (auto simp: complete_attempt_def split: if_splits)
    show thesis
    proof (cases "retry_row r")
      case (Inl e)
      then show thesis using assms Some run guard storable by (simp add: complete_attempt_def Let_def)
    next
      case (Inr retry)
      show thesis
        by (rule completed [OF a r Inr _ guard]) (use assms Some run Inr guard storable in \<open>simp_all add: complete_attempt_def Let_def\<close>)
    qed
  qed
qed

lemma complete_attempt_inv:
  assumes inv: "run_inv db" and comp: "complete_attempt delay now utc req db = Inr (db', res)"
  shows "run_inv db'"
  using comp
proof (cases rule: complete_attempt_cases)
  case (completed a r retry)
  note c = this
  have keys: "keys_ok db" using inv by (simp add: run_inv_except_def)
  have running: "att_status a = Running" "att_id a = comp_attempt_id req" using c(2) by (auto simp: holds_lease_def)
  show ?thesis
  proof (rule transition_dispatched [OF inv c(1) running(1), where Sa = "completion_status req"
        and Sr = "completed_run_status req (should_retry req retry)"
        and p = "holds_lease now (comp_attempt_id req) (comp_worker_id req)"
        and q = "\<lambda>r. run_id r = att_run_id a \<and> run_status r = Running"])
    show "holds_lease now (comp_attempt_id req) (comp_worker_id req) b = (b = a)" if "b \<in> set (db_attempts db)" for b
      using attempt_by_key [OF keys that c(1)] c(2) running by (auto simp: holds_lease_def)
    show "(run_id s = att_run_id a \<and> run_status s = Running) = (run_id s = att_run_id a)"
      if "s \<in> set (db_runs db)" for s
      using inv_fits_run [OF inv c(1) that] running by (auto simp: fits_def)
    show "completion_status req = completed_run_status req (should_retry req retry) \<or>
        \<not> live (completion_status req) \<and> \<not> live (completed_run_status req (should_retry req retry))"
        "completion_status req \<noteq> PendingDispatch"
      by (simp_all add: completion_status_def completed_run_status_def)
  qed (simp_all add: c(8) Let_def same_attempt_def same_run_def lease_ok_def completion_status_def)
qed (use inv in simp_all)

section \<open>Reconciliation\<close>

lemma expire_dispatch_inv:
  assumes inv: "run_inv db" and x: "x \<in> set (db_outbox db)" "unsent x"
  shows "run_inv (expire_dispatch now x db)"
proof -
  have keys: "keys_ok db" using inv by (simp add: run_inv_except_def)
  from inv x obtain a where a: "a \<in> set (db_attempts db)" "att_id a = ob_attempt_id x" "att_run_id a = ob_run_id x"
      "att_status a = PendingDispatch"
    by (auto simp: run_inv_except_def message_ok_def)
  show ?thesis
  proof (rule transition [OF inv a(1,4), where Sa = Dead and Sr = Skipped
        and p = "\<lambda>b. att_id b = ob_attempt_id x \<and> att_status b = PendingDispatch"
        and q = "\<lambda>r. run_id r = ob_run_id x \<and> run_status r = PendingDispatch"
        and w = "\<lambda>y. ob_id y = ob_id x \<and> ob_published_at y = None \<and> ob_cancelled_at y = None"
        and h = "\<lambda>x. x\<lparr> ob_cancelled_at := Some now, ob_claimed_by := None, ob_claim_expires_at := None,
                ob_last_error := Some ''misfire dispatch deadline expired'' \<rparr>"])
    show "(att_id b = ob_attempt_id x \<and> att_status b = PendingDispatch) = (b = a)" if "b \<in> set (db_attempts db)" for b
      using attempt_by_key [OF keys that a(1)] a by auto
    show "(run_id s = ob_run_id x \<and> run_status s = PendingDispatch) = (run_id s = att_run_id a)"
      if "s \<in> set (db_runs db)" for s
      using inv_fits_run [OF inv a(1) that] a by (auto simp: fits_def)
    have lease: "lease_ok a" using inv a(1) by (simp add: run_inv_except_def)
    show "lease_ok (a\<lparr> att_status := Dead, att_completed_at := Some now, att_error := Some ''misfire dispatch deadline expired'' \<rparr>)"
      using lease a(4) by (simp add: lease_ok_def)
    show "\<not> (ob_id y = ob_id x \<and> ob_published_at y = None \<and> ob_cancelled_at y = None)"
      if "y \<in> set (db_outbox db)" "unsent y" "ob_attempt_id y \<noteq> att_id a" for y
      using message_by_key [OF keys that(1) x(1)] that(3) a(2) by auto
    show "(ob_id y = ob_id x \<and> ob_published_at y = None \<and> ob_cancelled_at y = None) \<and>
        \<not> unsent (y\<lparr> ob_cancelled_at := Some now, ob_claimed_by := None, ob_claim_expires_at := None,
                ob_last_error := Some ''misfire dispatch deadline expired'' \<rparr>)"
      if "y \<in> set (db_outbox db)" "ob_attempt_id y = att_id a" "unsent y" for y
      using message_by_attempt [OF keys that(1) x(1)] that(2,3) a(2) by (simp add: unsent_def)
  qed (simp_all add: expire_dispatch_def same_attempt_def same_run_def same_message_def unsent_def settled_def)
qed

lemma expire_dispatch_outbox:
  "y \<in> set (db_outbox db) \<Longrightarrow> ob_id y \<noteq> ob_id x \<Longrightarrow> y \<in> set (db_outbox (expire_dispatch now x db))"
  by (auto simp: expire_dispatch_def set_update_where image_iff)

lemma expire_dispatches_inv:
  "run_inv db \<Longrightarrow> set xs \<subseteq> set (db_outbox db) \<Longrightarrow> \<forall>x \<in> set xs. unsent x \<Longrightarrow> distinct (map ob_id xs) \<Longrightarrow>
   run_inv (fold (expire_dispatch now) xs db)"
proof (induction xs arbitrary: db)
  case (Cons x xs)
  have "run_inv (expire_dispatch now x db)" using Cons.prems by (intro expire_dispatch_inv) auto
  moreover have "set xs \<subseteq> set (db_outbox (expire_dispatch now x db))"
  proof
    fix y assume y: "y \<in> set xs"
    then have "ob_id y \<noteq> ob_id x" using Cons.prems(4) by (auto simp: image_iff)
    then show "y \<in> set (db_outbox (expire_dispatch now x db))" using y Cons.prems(2) by (intro expire_dispatch_outbox) auto
  qed
  ultimately show ?case using Cons.IH Cons.prems by simp
qed simp

lemma reconcile_expired_dispatches_inv:
  assumes "run_inv db"
  shows "run_inv (fst (reconcile_expired_dispatches now locked limit db))"
proof -
  have "distinct (map ob_id (db_outbox db))" using assms by (simp add: run_inv_except_def keys_ok_def)
  then show ?thesis
    unfolding reconcile_expired_dispatches_def Let_def fst_conv
    using select_batch_set [where p = "dispatch_expired now" and rows = "db_outbox db"]
    by (intro expire_dispatches_inv assms select_batch_distinct) (fastforce simp: dispatch_expired_def unsent_def)+
qed

text \<open>An Attempt that is given up while its Run waits for the next one.\<close>

lemma abandon_inv:
  assumes inv: "run_inv db" and a: "a \<in> set (db_attempts db)" "att_status a = S" "S \<noteq> PendingDispatch"
    and f: "\<And>b. same_attempt (f b) b" "\<not> live (att_status (f a))" "lease_ok (f a)"
    and p: "\<And>b. b \<in> set (db_attempts db) \<Longrightarrow> p b \<longleftrightarrow> b = a" and rid: "att_run_id a = rid"
  shows "run_inv_except {rid} (update_attempts p f db)"
proof -
  have f': "att_id (f b) = att_id b" "att_run_id (f b) = att_run_id b" "att_attempt (f b) = att_attempt b" for b
    using f(1) by (simp_all add: same_attempt_def)
  let ?db = "update_attempts p f db"
  have A: "b' \<in> set (db_attempts ?db) \<longleftrightarrow> (\<exists>b \<in> set (db_attempts db). b' = (if b = a then f a else b))" for b'
    by (auto simp: set_update_where image_iff p)
  have maps: "map att_id (update_where p f (db_attempts db)) = map att_id (db_attempts db)"
      "map (\<lambda>a. (att_run_id a, att_attempt a)) (update_where p f (db_attempts db)) =
       map (\<lambda>a. (att_run_id a, att_attempt a)) (db_attempts db)"
    by (auto intro!: update_where_map_key simp: f')
  have keys: "keys_ok ?db" using inv by (simp add: run_inv_except_def keys_ok_def maps del: set_map)
  have attempts: "lease_ok b' \<and> (\<exists>r \<in> set (db_runs db). fits r b')" if b': "b' \<in> set (db_attempts ?db)" for b'
  proof -
    obtain b where b: "b \<in> set (db_attempts db)" "b' = (if b = a then f a else b)" using A b' by blast
    obtain r where r: "r \<in> set (db_runs db)" "fits r b" using inv_fits [OF inv b(1)] by blast
    have "fits r b'" using r(2) b(2) f(2) by (auto simp: fits_def f')
    moreover have "lease_ok b'" using inv b f(3) by (auto simp: run_inv_except_def)
    ultimately show ?thesis using r(1) by blast
  qed
  moreover have "\<exists>b' \<in> set (db_attempts ?db). att_run_id b' = run_id r \<and> att_status b' = run_status r"
    if r: "r \<in> set (db_runs db)" "live (run_status r)" "run_id r \<noteq> rid" for r
  proof -
    from r inv obtain b where b: "b \<in> set (db_attempts db)" "att_run_id b = run_id r" "att_status b = run_status r"
      by (auto simp: run_inv_except_def)
    then have "b \<noteq> a" using r(3) rid by auto
    then have "b \<in> set (db_attempts ?db)" using A b(1) by auto
    then show ?thesis using b by blast
  qed
  moreover have "message_ok (db_attempts ?db) x" if x: "x \<in> set (db_outbox db)" for x
  proof -
    from x inv obtain b where b: "settled x" "b \<in> set (db_attempts db)" "att_id b = ob_attempt_id x"
        "att_run_id b = ob_run_id x" "unsent x \<Longrightarrow> att_status b = PendingDispatch"
      by (auto simp: run_inv_except_def message_ok_def)
    let ?b = "if b = a then f a else b"
    have "?b \<in> set (db_attempts ?db)" using A b(2) by blast
    moreover have "unsent x \<Longrightarrow> b \<noteq> a" using b(5) a(2,3) by auto
    ultimately show ?thesis using b unfolding message_ok_def by (auto intro!: bexI [of _ ?b] simp: f')
  qed
  moreover have "\<exists>x \<in> set (db_outbox db). ob_attempt_id x = att_id b' \<and> unsent x"
    if b': "b' \<in> set (db_attempts ?db)" "att_status b' = PendingDispatch" for b'
  proof -
    obtain b where b: "b \<in> set (db_attempts db)" "b' = (if b = a then f a else b)" using A b'(1) by blast
    have "b \<noteq> a" using b(2) b'(2) f(2) by auto
    then show ?thesis using b b'(2) inv by (auto simp: run_inv_except_def)
  qed
  ultimately show ?thesis
    using inv keys unfolding run_inv_except_def by (simp add: maps)
qed

text \<open>A Run leaves one Attempt for the next: its row is pending dispatch before the new Attempt exists.\<close>

lemma next_attempt_inv:
  assumes inv: "run_inv_except (insert rid X) db" and r: "r \<in> set (db_runs db)" "run_id r = rid" "run_status r = S"
    and idle: "\<forall>a \<in> set (db_attempts db). att_run_id a = rid \<longrightarrow> \<not> live (att_status a)"
    and run: "next_attempt_run S rid (run_attempt_count r + 1) db = Inr db1"
    and create: "create_attempt_and_outbox now rid (run_attempt_count r + 1) q d db1 = Inr db2"
  shows "run_inv_except X db2"
proof -
  let ?n = "run_attempt_count r + 1"
  let ?f = "\<lambda>r. r\<lparr> run_status := PendingDispatch, run_attempt_count := ?n, run_next_retry_at := None, run_started_at := None \<rparr>"
  have keys: "keys_ok db" using inv by (simp add: run_inv_except_def)
  from run have max: "?n \<le> run_max_attempts r"
      and db1: "db1 = update_runs (\<lambda>r. run_id r = rid \<and> run_status r = S) ?f db"
    using r by (auto simp: next_attempt_run_def Let_def split: if_splits)
  have only: "(run_id s = rid \<and> run_status s = S) = (run_id s = rid)" if "s \<in> set (db_runs db)" for s
    using run_by_key [OF keys that r(1)] r(2,3) by auto
  have R: "s' \<in> set (db_runs db1) \<longleftrightarrow> (\<exists>s \<in> set (db_runs db). s' = (if run_id s = rid then ?f s else s))" for s'
    unfolding db1 update_runs_frame set_update_where image_iff using only by (simp cong: bex_cong)
  have same: "db_attempts db1 = db_attempts db" "db_outbox db1 = db_outbox db" "db_next_id db1 = db_next_id db"
    by (simp_all add: db1)
  have ids: "map run_id (db_runs db1) = map run_id (db_runs db)" by (auto simp: db1 intro!: update_where_map_key)
  have bounds: "bounds_ok r" "\<forall>s \<in> set (db_runs db). bounds_ok s" using inv r(1) by (simp_all add: run_inv_except_def)
  have "bounds_ok s'" if mem: "s' \<in> set (db_runs db1)" for s'
  proof -
    obtain s where s: "s \<in> set (db_runs db)" "s' = (if run_id s = rid then ?f s else s)" using R mem by blast
    then show ?thesis using bounds max run_by_key [OF keys s(1) r(1)] r(2) by (cases "run_id s = rid") (simp_all add: bounds_ok_def)
  qed
  moreover have "\<exists>s' \<in> set (db_runs db1). fits s' a" if a: "a \<in> set (db_attempts db)" for a
  proof -
    obtain s where s: "s \<in> set (db_runs db)" "fits s a" using inv_fits [OF inv a] by blast
    have "fits (if run_id s = rid then ?f s else s) a"
      using s idle a run_by_key [OF keys s(1) r(1)] r(2) by (auto simp: fits_def)
    then show ?thesis using R s(1) by blast
  qed
  moreover have "\<exists>a \<in> set (db_attempts db). att_run_id a = run_id s' \<and> att_status a = run_status s'"
    if "s' \<in> set (db_runs db1)" "live (run_status s')" "run_id s' \<notin> insert rid X" for s'
    using that inv by (auto simp: R run_inv_except_def split: if_splits)
  ultimately have inv1: "run_inv_except (insert rid X) db1"
    using inv unfolding run_inv_except_def keys_ok_def ids same by blast
  have "?f r \<in> set (db_runs db1)" using R r by auto
  moreover have "1 \<le> ?n" using bounds(1) by (simp add: bounds_ok_def)
  ultimately show ?thesis
    by (intro inv_create_attempt [OF inv1 create, of "?f r"]) (use r(2) idle in \<open>simp_all add: same\<close>)
qed

lemma idle_run:
  assumes "run_inv_except X db" "r \<in> set (db_runs db)" "\<not> live (run_status r)"
  shows "\<forall>a \<in> set (db_attempts db). att_run_id a = run_id r \<longrightarrow> \<not> live (att_status a)"
proof (intro ballI impI)
  fix a assume a: "a \<in> set (db_attempts db)" "att_run_id a = run_id r"
  then have "fits r a" using inv_fits_run [OF assms(1) a(1) assms(2)] by simp
  then show "\<not> live (att_status a)" using assms(3) by (auto simp: fits_def)
qed

lemma dispatch_retry_inv:
  assumes inv: "run_inv db" and r: "r \<in> set (db_runs db)" "run_status r = RetryWait"
    and step: "dispatch_retry now r db = Inr db'"
  shows "run_inv db'"
proof -
  from step obtain q db1 where steps: "next_attempt_run RetryWait (run_id r) (run_attempt_count r + 1) db = Inr db1"
      "create_attempt_and_outbox now (run_id r) (run_attempt_count r + 1) q None db1 = Inr db'"
    by (auto simp: dispatch_retry_def)
  have "\<forall>a \<in> set (db_attempts db). att_run_id a = run_id r \<longrightarrow> \<not> live (att_status a)"
    using idle_run [OF inv r(1)] r(2) by simp
  then show ?thesis
    using inv_weaken [OF inv, of "{run_id r}"] by (intro next_attempt_inv [OF _ r(1) refl r(2) _ steps]) simp_all
qed

lemma next_attempt_keeps:
  assumes "next_attempt_run S rid n db = Inr db1" "s \<in> set (db_runs db)" "run_id s \<noteq> rid"
  shows "s \<in> set (db_runs db1)" "db_attempts db1 = db_attempts db"
  using assms by (auto simp: next_attempt_run_def Let_def set_update_where image_iff split: if_splits)

lemma create_attempt_keeps:
  assumes "create_attempt_and_outbox now rid n q d db = Inr db'"
  shows "db_runs db' = db_runs db" "set (db_attempts db) \<subseteq> set (db_attempts db')"
  using assms by (auto simp: create_attempt_and_outbox_def Let_def split: if_splits)

lemma dispatch_retry_keeps:
  assumes "dispatch_retry now r db = Inr db'" "s \<in> set (db_runs db)" "run_id s \<noteq> run_id r"
  shows "s \<in> set (db_runs db')"
  using assms next_attempt_keeps(1) create_attempt_keeps(1) by (fastforce simp: dispatch_retry_def)

lemma fold_result_inv:
  assumes "I db" "fold_result f rs db = Inr db'" "\<forall>r \<in> set rs. P r db" "distinct (map k rs)"
    and step: "\<And>r d d'. I d \<Longrightarrow> P r d \<Longrightarrow> f r d = Inr d' \<Longrightarrow> I d'"
    and keep: "\<And>r s d d'. I d \<Longrightarrow> P r d \<Longrightarrow> P s d \<Longrightarrow> k r \<noteq> k s \<Longrightarrow> f r d = Inr d' \<Longrightarrow> P s d'"
  shows "I db'"
  using assms(1-4)
proof (induction rs arbitrary: db)
  case (Cons r rs)
  from Cons.prems(2) obtain d where d: "f r db = Inr d" "fold_result f rs d = Inr db'" by auto
  have "I d" using Cons.prems(1,3) d(1) step by (meson list.set_intros(1))
  moreover have "\<forall>s \<in> set rs. P s d"
  proof
    fix s assume s: "s \<in> set rs"
    then have "k r \<noteq> k s" using Cons.prems(4) by auto
    then show "P s d" using keep [OF Cons.prems(1) _ _ _ d(1)] Cons.prems(3) s by simp
  qed
  ultimately show ?case using Cons.IH d(2) Cons.prems(4) by simp
qed simp

text \<open>The loop over due retries, with any further property \<open>J\<close> that a retry keeps.\<close>

lemma reconcile_due_retries_rule:
  assumes inv: "run_inv db" "J db" and step: "reconcile_due_retries now locked limit db = Inr (db', n)"
    and J: "\<And>r d d'. run_inv d \<Longrightarrow> J d \<Longrightarrow> r \<in> set (db_runs d) \<Longrightarrow> run_status r = RetryWait \<Longrightarrow>
              dispatch_retry now r d = Inr d' \<Longrightarrow> J d'"
  shows "run_inv db' \<and> J db'"
proof -
  let ?rows = "select_batch (\<lambda>r. (the (run_next_retry_at r), run_id r)) (\<lambda>r. locked (run_id r)) (retry_due now) limit (db_runs db)"
  from step have fold: "fold_result (dispatch_retry now) ?rows db = Inr db'"
    by (auto simp: reconcile_due_retries_def Let_def)
  show ?thesis
  proof (rule fold_result_inv [where I = "\<lambda>d. run_inv d \<and> J d" and k = run_id
        and P = "\<lambda>r d. r \<in> set (db_runs d) \<and> run_status r = RetryWait", OF conjI [OF inv] fold])
    show "\<forall>r \<in> set ?rows. r \<in> set (db_runs db) \<and> run_status r = RetryWait"
      using select_batch_set [where p = "retry_due now" and rows = "db_runs db"] by (fastforce simp: retry_due_def)
    show "distinct (map run_id ?rows)"
      using inv(1) by (intro select_batch_distinct) (simp add: run_inv_except_def keys_ok_def)
  qed (auto intro: dispatch_retry_inv dispatch_retry_keeps J)
qed

lemmas reconcile_due_retries_inv = reconcile_due_retries_rule [where J = "\<lambda>_. True", simplified]

lemma expire_lease_cases:
  assumes "expire_lease now (a, r) db = Inr db'"
  obtains (again) q db2 where "lease_retry r"
      "next_attempt_run Running (run_id r) (run_attempt_count r + 1) (abandon_attempt now (att_id a) True db) = Inr db2"
      "create_attempt_and_outbox now (run_id r) (run_attempt_count r + 1) q None db2 = Inr db'"
  | (lost) "\<not> lease_retry r" "db' = lose_run now (run_id r) (abandon_attempt now (att_id a) False db)"
  using assms unfolding expire_lease_def prod.case Let_def
  by (elim and_thenE) (auto split: if_splits elim!: and_thenE simp del: and_then_Ok)

lemma expire_lease_inv:
  assumes inv: "run_inv db" and ar: "a \<in> set (db_attempts db)" "att_status a = Running" "r \<in> set (db_runs db)"
      "run_id r = att_run_id a"
    and step: "expire_lease now (a, r) db = Inr db'"
  shows "run_inv db'"
proof -
  have keys: "keys_ok db" using inv by (simp add: run_inv_except_def)
  have fit: "fits r a" using inv_fits_run [OF inv ar(1,3,4)] .
  then have run: "run_status r = Running" using ar(2) by (simp add: fits_def)
  have pa: "(att_id b = att_id a \<and> att_status b = Running) = (b = a)" if "b \<in> set (db_attempts db)" for b
    using attempt_by_key [OF keys that ar(1)] ar(2) by auto
  have pr: "(run_id s = run_id r \<and> run_status s = Running) = (run_id s = att_run_id a)" if "s \<in> set (db_runs db)" for s
    using run_by_key [OF keys that ar(3)] run ar(4) by auto
  from step show ?thesis
  proof (cases rule: expire_lease_cases)
    case lost
    show ?thesis
      by (rule transition_dispatched [OF inv ar(1,2), where Sa = Unknown and Sr = Unknown
            and p = "\<lambda>x. att_id x = att_id a \<and> att_status x = Running"
            and q = "\<lambda>x. run_id x = run_id r \<and> run_status x = Running"])
        (use pa pr in \<open>simp_all add: lost lose_run_def abandon_attempt_def same_attempt_def same_run_def lease_ok_def\<close>)
  next
    case (again q db1)
    let ?db = "abandon_attempt now (att_id a) True db"
    have "run_inv_except {run_id r} ?db"
      unfolding abandon_attempt_def
      by (rule abandon_inv [OF inv ar(1,2)]) (use pa ar(4) in \<open>simp_all add: same_attempt_def lease_ok_def\<close>)
    moreover have "\<forall>b \<in> set (db_attempts ?db). att_run_id b = run_id r \<longrightarrow> \<not> live (att_status b)"
      using live_attempt_unique [OF inv _ ar(1)] ar(2,4) pa by (auto simp: abandon_attempt_def set_update_where)
    ultimately show ?thesis
      by (intro next_attempt_inv [OF _ _ refl run _ again(2,3)]) (use ar(3) in \<open>simp_all add: abandon_attempt_def\<close>)
  qed
qed

lemma expire_lease_keeps:
  assumes inv: "run_inv db" and ar: "run_id r = att_run_id a"
    and bs: "b \<in> set (db_attempts db)" "att_status b = Running" "s \<in> set (db_runs db)" "run_id s = att_run_id b"
    and other: "att_id a \<noteq> att_id b" "a \<in> set (db_attempts db)" "att_status a = Running"
    and step: "expire_lease now (a, r) db = Inr db'"
  shows "b \<in> set (db_attempts db')" "s \<in> set (db_runs db')"
proof -
  have runs: "run_id r \<noteq> run_id s"
  proof
    assume "run_id r = run_id s"
    then have "b = a" by (intro live_attempt_unique [OF inv bs(1) other(2)]) (simp_all add: ar bs other flip: bs(4))
    then show False using other(1) by simp
  qed
  have d: "b \<in> set (db_attempts (abandon_attempt now (att_id a) q db))" "s \<in> set (db_runs (abandon_attempt now (att_id a) q db))" for q
    using bs(1,3) other(1) by (auto simp: abandon_attempt_def set_update_where image_iff)
  from step have "b \<in> set (db_attempts db') \<and> s \<in> set (db_runs db')"
  proof (cases rule: expire_lease_cases)
    case (again q db2)
    have "s \<in> set (db_runs db2)" "db_attempts db2 = db_attempts (abandon_attempt now (att_id a) True db)"
      using next_attempt_keeps [OF again(2) d(2)] runs by auto
    then show ?thesis using d(1) [of True] create_attempt_keeps [OF again(3)] by auto
  next
    case lost
    then show ?thesis using d runs by (auto simp: lose_run_def set_update_where image_iff)
  qed
  then show "b \<in> set (db_attempts db')" "s \<in> set (db_runs db')" by simp_all
qed

lemma with_run_in: "(a, r) \<in> set (concat (map (with_run db) (db_attempts db))) \<Longrightarrow>
    a \<in> set (db_attempts db) \<and> r \<in> set (db_runs db) \<and> run_id r = att_run_id a"
  by (auto simp: with_run_def dest!: find_Some_in [OF sym] split: option.splits)

lemma with_run_keys: "distinct (map att_id as) \<Longrightarrow> distinct (map (\<lambda>(a, r). att_id a) (concat (map (with_run db) as)))"
proof (induction as)
  case (Cons a as)
  have "att_id b \<in> att_id ` set as" if "(b, r) \<in> set (concat (map (with_run db) as))" for b r
    using that by (auto simp: with_run_def split: option.splits)
  then show ?case using Cons by (auto simp: with_run_def split: option.splits)
qed simp

lemma reconcile_expired_leases_rule:
  assumes inv: "run_inv db" "J db" and step: "reconcile_expired_leases now locked limit db = Inr (db', n)"
    and J: "\<And>a r d d'. run_inv d \<Longrightarrow> J d \<Longrightarrow> a \<in> set (db_attempts d) \<Longrightarrow> r \<in> set (db_runs d) \<Longrightarrow>
              run_id r = att_run_id a \<Longrightarrow> expire_lease now (a, r) d = Inr d' \<Longrightarrow> J d'"
  shows "run_inv db' \<and> J db'"
proof -
  let ?joined = "concat (map (with_run db) (db_attempts db))"
  let ?rows = "select_batch (\<lambda>(a, r). (the (att_lease_expires_at a), att_id a))
            (\<lambda>(a, r). locked (att_id a) \<or> locked (run_id r)) (\<lambda>(a, r). lease_expired now a) limit ?joined"
  let ?P = "\<lambda>(a, r) d. a \<in> set (db_attempts d) \<and> att_status a = Running \<and> r \<in> set (db_runs d) \<and> run_id r = att_run_id a"
  from step have fold: "fold_result (expire_lease now) ?rows db = Inr db'"
    by (auto simp: reconcile_expired_leases_def Let_def)
  show ?thesis
  proof (rule fold_result_inv [where I = "\<lambda>d. run_inv d \<and> J d" and k = "\<lambda>(a, r). att_id a" and P = ?P,
        OF conjI [OF inv] fold])
    have "x \<in> set ?joined \<and> lease_expired now (fst x)" if "x \<in> set ?rows" for x
      using subsetD [OF select_batch_set that] by (auto simp: case_prod_unfold)
    note batch = this
    have "?P x db" if mem: "x \<in> set ?rows" for x
    proof (cases x)
      case (Pair a r)
      have "(a, r) \<in> set ?joined" "lease_expired now a" using batch [OF mem] unfolding Pair by simp_all
      then show ?thesis using with_run_in [of a r db] unfolding Pair lease_expired_def by blast
    qed
    then show "\<forall>x \<in> set ?rows. ?P x db" ..
    show "distinct (map (\<lambda>(a, r). att_id a) ?rows)"
      using inv(1) by (intro select_batch_distinct with_run_keys) (simp add: run_inv_except_def keys_ok_def)
  next
    fix x d d' assume "run_inv d \<and> J d" "?P x d" "expire_lease now x d = Inr d'"
    then show "run_inv d' \<and> J d'" by (cases x) (auto intro: expire_lease_inv J)
  next
    fix x y d d' assume "run_inv d \<and> J d" "?P x d" "?P y d" "(\<lambda>(a, r). att_id a) x \<noteq> (\<lambda>(a, r). att_id a) y" "expire_lease now x d = Inr d'"
    moreover obtain a r b s where "x = (a, r)" "y = (b, s)" by (cases x, cases y)
    ultimately show "?P y d'" using expire_lease_keeps [of d r a b s now d'] by simp
  qed
qed

lemmas reconcile_expired_leases_inv = reconcile_expired_leases_rule [where J = "\<lambda>_. True", simplified]

lemma reconcile_runs_parts:
  assumes "reconcile_runs now locked wlocked limit db = Inr (db', n)"
  obtains db1 n1 db2 n2 db3 n3 where "reconcile_expired_dispatches now locked limit db = (db1, n1)"
    "reconcile_due_retries now locked limit db1 = Inr (db2, n2)"
    "reconcile_expired_leases now locked limit db2 = Inr (db3, n3)"
    "db' = release_expired_claims now (fst (remove_expired_worker_presence now wlocked limit db3))"
proof -
  obtain db1 n1 where d1: "reconcile_expired_dispatches now locked limit db = (db1, n1)" by fastforce
  from assms d1 obtain db2 n2 db3 n3 where d: "reconcile_due_retries now locked limit db1 = Inr (db2, n2)"
      "reconcile_expired_leases now locked limit db2 = Inr (db3, n3)"
      "db' = release_expired_claims now (fst (remove_expired_worker_presence now wlocked limit db3))"
    unfolding reconcile_runs_def by (auto simp: case_prod_unfold elim!: and_thenE)
  then show thesis using d1 that by blast
qed

lemma reconcile_runs_inv:
  assumes "run_inv db" "reconcile_runs now locked wlocked limit db = Inr (db', n)"
  shows "run_inv db'"
  using assms(2)
proof (cases rule: reconcile_runs_parts)
  case (1 db1 n1 db2 n2 db3 n3)
  have "run_inv db1" using reconcile_expired_dispatches_inv [OF assms(1)] 1(1) by (metis fst_conv)
  then have "run_inv db3" using 1(2,3) reconcile_due_retries_inv reconcile_expired_leases_inv by blast
  then have "run_inv (fst (remove_expired_worker_presence now wlocked limit db3))"
    by (rule inv_cong) (simp_all add: remove_expired_worker_presence_def Let_def)
  then show ?thesis unfolding 1(4) by (rule release_expired_claims_inv)
qed

end
