(* ===== verification/WorkflowInvariant.thy ===== *)
theory WorkflowInvariant
  imports WorkflowEngine RunLifecycle
begin

text \<open>
  The consistency of the Workflow tables: no node starts before its dependencies are satisfied,
  no node that could start or must be skipped is left waiting, and a finished invocation has only
  finished nodes.  The invariant is kept by launch, reconciliation and cancellation.
\<close>

section \<open>The invariant\<close>

definition open_run :: "Db \<Rightarrow> uuid \<Rightarrow> bool" where
  "open_run db i \<longleftrightarrow> (\<exists>w \<in> set (db_workflow_runs db). wr_id w = i \<and> \<not> wr_cancellation_requested w)"

definition wf_keys :: "Db \<Rightarrow> bool" where
  "wf_keys db \<longleftrightarrow>
     distinct (map nr_id (db_node_runs db)) \<and> distinct (map wr_id (db_workflow_runs db)) \<and>
     (\<forall>n \<in> set (db_node_runs db). nr_id n < db_next_id db \<and> nr_workflow_run_id n < db_next_id db \<and>
        (\<exists>w \<in> set (db_workflow_runs db). wr_id w = nr_workflow_run_id n)) \<and>
     (\<forall>w \<in> set (db_workflow_runs db). wr_id w < db_next_id db \<and> wr_state w \<noteq> WorkflowPending) \<and>
     (\<forall>e \<in> set (db_node_executions db). ne_prospective_run_id e < db_next_id db)"

text \<open>Both ends of an edge are nodes of its invocation.\<close>

definition edges_ok :: "Db \<Rightarrow> bool" where
  "edges_ok db \<longleftrightarrow>
     (\<forall>e \<in> set (db_run_edges db).
        (\<exists>n \<in> set (db_node_runs db). nr_id n = re_from e \<and> nr_workflow_run_id n = re_workflow_run_id e) \<and>
        (\<exists>n \<in> set (db_node_runs db). nr_id n = re_to e \<and> nr_workflow_run_id n = re_workflow_run_id e))"

definition satisfied :: "Db \<Rightarrow> uuid \<Rightarrow> bool" where
  "satisfied db nid \<longleftrightarrow>
     (\<forall>e \<in> set (db_run_edges db). re_to e = nid \<longrightarrow>
        (\<forall>m \<in> set (db_node_runs db). nr_id m = re_from e \<longrightarrow>
           node_is_terminal (nr_state m) \<and> condition_matches (re_condition e) (nr_state m)))"

definition deps_ok :: "Db \<Rightarrow> bool" where
  "deps_ok db \<longleftrightarrow> (\<forall>n \<in> set (db_node_runs db). nr_started_at n \<noteq> None \<longrightarrow> satisfied db (nr_id n))"

text \<open>Every pending node of an open invocation waits for a dependency, or is queued for a decision.\<close>

definition quiet :: "Db \<Rightarrow> uuid set \<Rightarrow> bool" where
  "quiet db Q \<longleftrightarrow>
     (\<forall>n \<in> set (db_node_runs db). nr_state n = NodePending \<and> open_run db (nr_workflow_run_id n) \<longrightarrow>
        dependency_decision (incoming db (nr_id n)) = DepWaiting \<or> nr_id n \<in> Q)"

text \<open>The nodes of an invocation, and the final state they give it.\<close>

definition nodes_of :: "Db \<Rightarrow> uuid \<Rightarrow> NodeRunRow set" where
  "nodes_of db i = {n \<in> set (db_node_runs db). nr_workflow_run_id n = i}"

definition outcome :: "Db \<Rightarrow> WorkflowRunRow \<Rightarrow> WorkflowState" where
  "outcome db w =
     (if wr_cancellation_requested w then WorkflowCancelled
      else if \<exists>n \<in> nodes_of db (wr_id w). nr_state n = NodeFailed \<or> nr_state n = NodeUnknown \<or> nr_state n = NodeCancelled
      then WorkflowFailed else WorkflowSucceeded)"

definition final_ok :: "Db \<Rightarrow> bool" where
  "final_ok db \<longleftrightarrow>
     (\<forall>w \<in> set (db_workflow_runs db). wr_state w \<noteq> WorkflowRunning \<longrightarrow>
        (\<forall>n \<in> nodes_of db (wr_id w). node_is_terminal (nr_state n)) \<and> wr_state w = outcome db w)"

definition wf_core :: "Db \<Rightarrow> bool" where
  "wf_core db \<longleftrightarrow> wf_keys db \<and> edges_ok db \<and> deps_ok db \<and> final_ok db"

definition wf_inv :: "Db \<Rightarrow> bool" where
  "wf_inv db \<longleftrightarrow> wf_core db \<and> quiet db {}"

section \<open>Decisions\<close>

lemma node_is_terminal_simps [simp]:
  "\<not> node_is_terminal NodePending" "\<not> node_is_terminal NodeReady" "\<not> node_is_terminal NodeRunning"
  "node_is_terminal NodeSkipped" "node_is_terminal NodeCancelled" "node_is_terminal (aggregate ss)"
  by (simp_all add: node_is_terminal_def aggregate_def)

lemma set_incoming:
  "set (incoming db nid) =
     {(re_condition e, nr_state m) | e m. e \<in> set (db_run_edges db) \<and> re_to e = nid \<and> m \<in> set (db_node_runs db) \<and> nr_id m = re_from e}"
  by (auto simp: incoming_def)

lemma decision_Ready: "dependency_decision (incoming db nid) = DepReady \<Longrightarrow> satisfied db nid"
proof -
  assume ready: "dependency_decision (incoming db nid) = DepReady"
  have "\<forall>(c, s) \<in> set (incoming db nid). node_is_terminal s \<and> condition_matches c s"
    using ready decide_from_Skipped [of False "incoming db nid"] decide_from_Waiting [of False "incoming db nid"]
    by (auto simp: dependency_decision_def)
  then show ?thesis by (auto simp: satisfied_def set_incoming)
qed

lemma decision_Waiting:
  "dependency_decision (incoming db nid) = DepWaiting \<longleftrightarrow>
     (\<forall>e \<in> set (db_run_edges db). re_to e = nid \<longrightarrow> (\<forall>m \<in> set (db_node_runs db). nr_id m = re_from e \<longrightarrow>
        node_is_terminal (nr_state m) \<longrightarrow> condition_matches (re_condition e) (nr_state m))) \<and>
     (\<exists>e \<in> set (db_run_edges db). re_to e = nid \<and> (\<exists>m \<in> set (db_node_runs db). nr_id m = re_from e \<and> \<not> node_is_terminal (nr_state m)))"
  unfolding dependency_decision_def decide_from_Waiting set_incoming by auto

section \<open>Updates of nodes\<close>

text \<open>
  A change of unfinished nodes: what it must not do to keep the invariant, and which nodes need a
  new decision afterwards.
\<close>

lemma node_by_key: "wf_keys db \<Longrightarrow> n \<in> set (db_node_runs db) \<Longrightarrow> m \<in> set (db_node_runs db) \<Longrightarrow> nr_id n = nr_id m \<Longrightarrow> n = m"
  by (auto simp: wf_keys_def distinct_map dest: inj_onD)

lemma run_row_by_key: "wf_keys db \<Longrightarrow> w \<in> set (db_workflow_runs db) \<Longrightarrow> v \<in> set (db_workflow_runs db) \<Longrightarrow> wr_id w = wr_id v \<Longrightarrow> w = v"
  by (auto simp: wf_keys_def distinct_map dest: inj_onD)

lemma image_filter_key: "(\<And>x. k (g x) = k x) \<Longrightarrow> {y \<in> g ` S. k y = c} = g ` {x \<in> S. k x = c}"
  by auto

lemma wf_core_update:
  assumes core: "wf_core db"
    and f: "\<And>n. nr_id (f n) = nr_id n" "\<And>n. nr_workflow_run_id (f n) = nr_workflow_run_id n"
    and unfinished: "\<And>n. p n \<Longrightarrow> \<not> node_is_terminal (nr_state n)"
    and start: "\<And>n. n \<in> set (db_node_runs db) \<Longrightarrow> p n \<Longrightarrow> nr_started_at n = None \<Longrightarrow> nr_started_at (f n) \<noteq> None \<Longrightarrow> satisfied db (nr_id n)"
    and db': "db_node_runs db' = update_where p f (db_node_runs db)" "db_run_edges db' = db_run_edges db"
      "db_workflow_runs db' = db_workflow_runs db" "db_next_id db \<le> db_next_id db'"
      "\<forall>e \<in> set (db_node_executions db'). ne_prospective_run_id e < db_next_id db'"
  shows "wf_core db'"
proof -
  let ?g = "\<lambda>n. if p n then f n else n"
  have N: "set (db_node_runs db') = ?g ` set (db_node_runs db)" by (simp add: db'(1) set_update_where)
  have ids: "nr_id (?g n) = nr_id n" "nr_workflow_run_id (?g n) = nr_workflow_run_id n" for n using f by auto
  have keys0: "wf_keys db" using core by (simp add: wf_core_def)
  have "map nr_id (db_node_runs db') = map nr_id (db_node_runs db)" by (simp add: db'(1) update_where_map_key f)
  moreover have "nr_id n < db_next_id db' \<and> nr_workflow_run_id n < db_next_id db' \<and>
      (\<exists>w \<in> set (db_workflow_runs db). wr_id w = nr_workflow_run_id n)" if mem: "n \<in> set (db_node_runs db')" for n
  proof -
    obtain m where m: "m \<in> set (db_node_runs db)" and n: "n = ?g m" using mem unfolding N by blast
    have "nr_id m < db_next_id db \<and> nr_workflow_run_id m < db_next_id db \<and>
        (\<exists>w \<in> set (db_workflow_runs db). wr_id w = nr_workflow_run_id m)"
      using keys0 m unfolding wf_keys_def by blast
    then show ?thesis using db'(4) unfolding n ids by auto
  qed
  moreover have "wr_id w < db_next_id db' \<and> wr_state w \<noteq> WorkflowPending" if "w \<in> set (db_workflow_runs db)" for w
    using that keys0 db'(4) unfolding wf_keys_def by (meson order_less_le_trans)
  ultimately have keys: "wf_keys db'"
    using keys0 db'(5) by (simp add: wf_keys_def db'(3))
  have edges: "edges_ok db'"
    using core unfolding wf_core_def edges_ok_def N db'(2) bex_simps(7) ids by blast
  have sat: "satisfied db' nid" if "satisfied db nid" for nid
    unfolding satisfied_def N db'(2)
  proof (intro ballI impI)
    fix e m' assume e: "e \<in> set (db_run_edges db)" "re_to e = nid" and m': "m' \<in> ?g ` set (db_node_runs db)" "nr_id m' = re_from e"
    then obtain m where m: "m \<in> set (db_node_runs db)" "m' = ?g m" by blast
    then have ok: "node_is_terminal (nr_state m)" "condition_matches (re_condition e) (nr_state m)"
      using that e m'(2) ids by (auto simp: satisfied_def)
    then have "m' = m" using unfinished m(2) by auto
    then show "node_is_terminal (nr_state m') \<and> condition_matches (re_condition e) (nr_state m')" using ok by simp
  qed
  have "deps_ok db'"
    unfolding deps_ok_def N
  proof (intro ballI impI)
    fix n' assume n': "n' \<in> ?g ` set (db_node_runs db)" "nr_started_at n' \<noteq> None"
    then obtain n where n: "n \<in> set (db_node_runs db)" "n' = ?g n" by blast
    have "satisfied db (nr_id n)"
    proof (cases "nr_started_at n = None")
      case True
      then have "p n" using n'(2) n(2) by (auto split: if_splits)
      then show ?thesis using start [OF n(1)] True n'(2) n(2) by auto
    next
      case False
      then show ?thesis using core n(1) by (simp add: wf_core_def deps_ok_def)
    qed
    then show "satisfied db' (nr_id n')" using sat n(2) ids by simp
  qed
  moreover have "final_ok db'"
    unfolding final_ok_def db'(3)
  proof (intro ballI impI)
    fix w assume w: "w \<in> set (db_workflow_runs db)" "wr_state w \<noteq> WorkflowRunning"
    have fin: "\<forall>n \<in> nodes_of db (wr_id w). node_is_terminal (nr_state n)" "wr_state w = outcome db w"
      using core w by (simp_all add: wf_core_def final_ok_def)
    have "?g n = n" if "n \<in> nodes_of db (wr_id w)" for n using fin(1) that unfinished by auto
    moreover have "nodes_of db' (wr_id w) = ?g ` nodes_of db (wr_id w)" unfolding nodes_of_def N using image_filter_key [of nr_workflow_run_id ?g, OF ids(2)] .
    ultimately have "nodes_of db' (wr_id w) = nodes_of db (wr_id w)" by (simp only: image_cong [OF refl] image_ident)
    then show "(\<forall>n \<in> nodes_of db' (wr_id w). node_is_terminal (nr_state n)) \<and> wr_state w = outcome db' w"
      using fin by (simp add: outcome_def)
  qed
  ultimately show ?thesis using keys edges by (simp add: wf_core_def)
qed

lemma quiet_update:
  assumes q: "quiet db Q"
    and f: "\<And>n. nr_id (f n) = nr_id n" "\<And>n. nr_workflow_run_id (f n) = nr_workflow_run_id n"
    and pend: "\<And>n. p n \<Longrightarrow> nr_state (f n) \<noteq> NodePending" "\<And>n. p n \<Longrightarrow> \<not> node_is_terminal (nr_state n)"
    and gone: "\<And>n. n \<in> set (db_node_runs db) \<Longrightarrow> nr_id n \<in> Q - Q' \<Longrightarrow> nr_state n = NodePending \<Longrightarrow>
        open_run db (nr_workflow_run_id n) \<Longrightarrow> p n \<or> dependency_decision (incoming db (nr_id n)) = DepWaiting"
    and down: "\<And>m e. m \<in> set (db_node_runs db) \<Longrightarrow> p m \<Longrightarrow> node_is_terminal (nr_state (f m)) \<Longrightarrow>
        e \<in> set (db_run_edges db) \<Longrightarrow> re_from e = nr_id m \<Longrightarrow> re_to e \<in> Q'"
    and db': "db_node_runs db' = update_where p f (db_node_runs db)" "db_run_edges db' = db_run_edges db"
      "db_workflow_runs db' = db_workflow_runs db"
  shows "quiet db' Q'"
  unfolding quiet_def
proof (intro ballI impI)
  let ?g = "\<lambda>n. if p n then f n else n"
  have N: "set (db_node_runs db') = ?g ` set (db_node_runs db)" by (simp add: db'(1) set_update_where)
  have ids: "nr_id (?g n) = nr_id n" "nr_workflow_run_id (?g n) = nr_workflow_run_id n" for n using f by auto
  fix n' assume n': "n' \<in> set (db_node_runs db')" "nr_state n' = NodePending \<and> open_run db' (nr_workflow_run_id n')"
  then obtain n where n: "n \<in> set (db_node_runs db)" "n' = ?g n" unfolding N by blast
  have "\<not> p n" using n'(2) n(2) pend(1) by auto
  then have eq: "n' = n" using n(2) by simp
  have op: "open_run db (nr_workflow_run_id n)" using n'(2) eq by (simp add: open_run_def db'(3))
  show "dependency_decision (incoming db' (nr_id n')) = DepWaiting \<or> nr_id n' \<in> Q'"
  proof (cases "nr_id n \<in> Q'")
    case False
    then have wait: "dependency_decision (incoming db (nr_id n)) = DepWaiting"
      using q n(1) n'(2) eq op gone [OF n(1)] \<open>\<not> p n\<close> by (auto simp: quiet_def)
    have same: "node_is_terminal (nr_state (?g m)) \<longleftrightarrow> node_is_terminal (nr_state m)" "node_is_terminal (nr_state m) \<Longrightarrow> ?g m = m"
      if m: "m \<in> set (db_node_runs db)" "e \<in> set (db_run_edges db)" "re_to e = nr_id n" "nr_id m = re_from e" for m e
      using down [OF m(1) _ _ m(2)] m False pend(2) by auto
    have "dependency_decision (incoming db' (nr_id n)) = DepWaiting"
      unfolding decision_Waiting db'(2) N
    proof (intro conjI ballI impI)
      fix e m' assume e: "e \<in> set (db_run_edges db)" "re_to e = nr_id n"
        and m': "m' \<in> ?g ` set (db_node_runs db)" "nr_id m' = re_from e" "node_is_terminal (nr_state m')"
      then obtain m where m: "m \<in> set (db_node_runs db)" "m' = ?g m" by blast
      have id: "nr_id m = re_from e" using m'(2) m(2) ids by simp
      have "m' = m" using same [OF m(1) e id] m(2) m'(3) by blast
      then show "condition_matches (re_condition e) (nr_state m')"
        using wait m(1) e id m'(3) unfolding decision_Waiting by blast
    next
      obtain e m where e: "e \<in> set (db_run_edges db)" "re_to e = nr_id n"
        and m: "m \<in> set (db_node_runs db)" "nr_id m = re_from e" "\<not> node_is_terminal (nr_state m)"
        using wait unfolding decision_Waiting by blast
      have "\<not> node_is_terminal (nr_state (?g m))" using same(1) [OF m(1) e m(2)] m(3) by blast
      then show "\<exists>e \<in> set (db_run_edges db). re_to e = nr_id n \<and>
          (\<exists>m \<in> ?g ` set (db_node_runs db). nr_id m = re_from e \<and> \<not> node_is_terminal (nr_state m))"
        using e m(1) trans [OF ids(1) m(2)] imageI [OF m(1), of ?g] by (intro bexI [of _ e] conjI bexI [of _ "?g m"]) assumption+
    qed
    then show ?thesis using eq by simp
  qed (simp add: eq)
qed

section \<open>Activation\<close>

lemma activate_executions_inv:
  "activate_executions now nid jid es db = Inr db' \<Longrightarrow> run_inv db \<Longrightarrow>
     \<forall>e \<in> set es. ne_prospective_run_id e < db_next_id db \<Longrightarrow>
     \<forall>e \<in> set (db_node_executions db). ne_prospective_run_id e < db_next_id db \<Longrightarrow>
   run_inv db' \<and> db_next_id db \<le> db_next_id db' \<and>
     (\<forall>e \<in> set (db_node_executions db'). ne_prospective_run_id e < db_next_id db')"
proof (induction now nid jid es db rule: activate_executions.induct)
  case (2 now nid jid e es db)
  let ?u = "update_node_executions (\<lambda>x. ne_node_run_id x = nid \<and> ne_target_id x = ne_target_id e \<and> ne_run_id x = None)
          (\<lambda>x. x\<lparr> ne_run_id := Some (ne_prospective_run_id x) \<rparr>)"
  from 2(2) obtain d where d: "create_normal_run now \<lparr> pr_id = ne_prospective_run_id e, pr_request_id = nid, pr_job_id = jid,
         pr_target_id = ne_target_id e, pr_queue_id = ne_queue_id e, pr_max_attempts = ne_max_attempts e,
         pr_snapshot = ne_snapshot e \<rparr> db = Inr d" and rest: "activate_executions now nid jid es (?u d) = Inr db'"
    by (auto elim: and_thenE)
  have next_id: "run_inv d" "db_next_id d = db_next_id db + 2"
    using create_normal_run_inv [OF 2(3) d] 2(4) by simp_all
  have "run_inv (?u d)" by (rule inv_cong [OF next_id(1)]) simp_all
  moreover have "\<forall>e \<in> set es. ne_prospective_run_id e < db_next_id (?u d)" using 2(4) next_id(2) by auto
  moreover have "\<forall>e \<in> set (db_node_executions (?u d)). ne_prospective_run_id e < db_next_id (?u d)"
    using 2(5) next_id(2) by (auto simp: create_normal_run_frame [OF d] set_update_where)
  ultimately show ?case using 2(1) [OF rest] next_id(2) by auto
qed simp

lemma activate_inv:
  assumes act: "activate now nid db = Inr db'" and inv: "run_inv db" and core: "wf_core db"
    and sat: "satisfied db nid"
  shows "run_inv db' \<and> wf_core db'"
  using act
proof (cases rule: activate_cases)
  case (active n)
  have execs: "\<forall>e \<in> set (db_node_executions db). ne_prospective_run_id e < db_next_id db"
    using core by (simp add: wf_core_def wf_keys_def)
  have "run_inv (update_node_runs p f db)" for p f by (rule inv_cong [OF inv]) simp_all
  note step = activate_executions_inv [OF active(7) this]
  have step': "run_inv db'" "db_next_id db \<le> db_next_id db'"
      "\<forall>e \<in> set (db_node_executions db'). ne_prospective_run_id e < db_next_id db'"
    using step execs by simp_all
  have "wf_core db'"
    by (rule wf_core_update [OF core _ _ _ _ active(3-5) step'(2,3)]) (use sat in \<open>auto simp: activatable_def\<close>)
  then show ?thesis using step'(1) by simp
qed (use inv core in simp)

lemma open_pending_activatable:
  assumes "wf_core db" "n \<in> set (db_node_runs db)" "nr_state n = NodePending" "open_run db (nr_workflow_run_id n)"
  shows "activatable db (nr_id n) n"
proof -
  obtain w where w: "w \<in> set (db_workflow_runs db)" "wr_id w = nr_workflow_run_id n" "\<not> wr_cancellation_requested w"
    using assms(4) by (auto simp: open_run_def)
  have "wr_state w = WorkflowRunning"
    using assms(1-3) w(1,2) unfolding wf_core_def final_ok_def nodes_of_def
    by (metis (mono_tags, lifting) mem_Collect_eq node_is_terminal_simps(1))
  then show ?thesis using w assms(3) by (auto simp: activatable_def invocation_open_def)
qed

lemma activate_quiet:
  assumes act: "activate now nid db = Inr db'" and core: "wf_core db" and q: "quiet db (insert nid Q)"
  shows "quiet db' Q"
  using act
proof (cases rule: activate_cases)
  case inactive
  then show ?thesis using q open_pending_activatable [OF core] unfolding quiet_def by blast
next
  case (active n)
  show ?thesis
    by (rule quiet_update [OF q _ _ _ _ _ _ active(3-5)])
      (use open_pending_activatable [OF core] in \<open>auto simp: activatable_def\<close>)
qed

section \<open>Propagation\<close>

lemma node_active_iff:
  assumes "wf_core db" "node_active db nid = Inr act" "n \<in> set (db_node_runs db)" "nr_id n = nid"
  shows "act \<longleftrightarrow> nr_state n = NodePending \<and> open_run db (nr_workflow_run_id n)"
proof -
  have keys: "wf_keys db" using assms(1) by (simp add: wf_core_def)
  obtain m where f: "find (\<lambda>n. nr_id n = nid \<and> (\<exists>w \<in> set (db_workflow_runs db). wr_id w = nr_workflow_run_id n))
      (db_node_runs db) = Some m"
    using assms(2) by (auto simp: node_active_def split: option.splits)
  then have a: "act \<longleftrightarrow> nr_state m = NodePending \<and>
          (case find (\<lambda>w. wr_id w = nr_workflow_run_id m) (db_workflow_runs db) of
             Some w \<Rightarrow> \<not> wr_cancellation_requested w | None \<Rightarrow> False)"
    using assms(2) by (simp add: node_active_def)
  have m: "m \<in> set (db_node_runs db)" "nr_id m = nid" using find_Some_in [OF f] by simp_all
  have mn: "m = n" using node_by_key [OF keys m(1) assms(3)] m(2) assms(4) by simp
  have "(case find (\<lambda>w. wr_id w = nr_workflow_run_id n) (db_workflow_runs db) of
      Some w \<Rightarrow> \<not> wr_cancellation_requested w | None \<Rightarrow> False) \<longleftrightarrow> open_run db (nr_workflow_run_id n)"
  proof (cases "find (\<lambda>w. wr_id w = nr_workflow_run_id n) (db_workflow_runs db)")
    case (Some w)
    have "v = w" if "v \<in> set (db_workflow_runs db)" "wr_id v = nr_workflow_run_id n" for v
      using run_row_by_key [OF keys, of v w] find_Some_in [OF Some] that by simp
    then show ?thesis using Some find_Some_in [OF Some] by (auto simp: open_run_def)
  next
    case None
    then show ?thesis using None [unfolded find_None_iff] by (auto simp: open_run_def)
  qed
  then show ?thesis using a mn by simp
qed

lemma skip_inv:
  assumes core: "wf_core db" and inv: "run_inv db"
  shows "run_inv (skip_node now nid db) \<and> wf_core (skip_node now nid db)"
proof
  show "run_inv (skip_node now nid db)" by (rule inv_cong [OF inv]) (simp_all add: skip_node_def)
  show "wf_core (skip_node now nid db)"
    unfolding skip_node_def
    by (rule wf_core_update [OF core _ _ _ _ update_node_runs_frame(1)])
      (use core in \<open>auto simp: wf_core_def wf_keys_def\<close>)
qed

lemma skip_quiet:
  assumes core: "wf_core db" and q: "quiet db (insert nid Q)"
  shows "quiet (skip_node now nid db) (Q \<union> set (outgoing (skip_node now nid db) nid))"
  unfolding skip_node_def
  by (rule quiet_update [OF q _ _ _ _ _ _ update_node_runs_frame(1)]) (auto simp: outgoing_def)

lemma propagate_inv:
  "propagate now queue db = Inr db' \<Longrightarrow> run_inv db \<Longrightarrow> wf_core db \<Longrightarrow> quiet db (set queue) \<Longrightarrow>
   run_inv db' \<and> wf_core db' \<and> quiet db' {} \<and> db_workflow_runs db' = db_workflow_runs db \<and>
   db_completion_events db' = db_completion_events db"
proof (induction now queue db rule: propagate.induct)
  case (2 now nid queue db)
  note core = 2(7)
  from 2(5) obtain act where act: "node_active db nid = Inr act" by (cases "node_active db nid") auto
  have drop: "quiet db (set queue)" if "\<not> act \<or> dependency_decision (incoming db nid) = DepWaiting"
    using 2(8) node_active_iff [OF core act] that by (auto simp: quiet_def)
  show ?case
  proof (cases "act \<and> dependency_decision (incoming db nid) \<noteq> DepWaiting")
    case False
    then have "propagate now queue db = Inr db'" using 2(5) act by (auto split: if_splits)
    then show ?thesis using 2(1,2) [OF act] drop False 2(6,7) by blast
  next
    case True
    show ?thesis
    proof (cases "dependency_decision (incoming db nid)")
      case DepReady
      obtain d where d: "activate now nid db = Inr d" "propagate now queue d = Inr db'"
        using 2(5) act True DepReady by (auto split: sum.splits)
      have frame: "db_workflow_runs d = db_workflow_runs db \<and> db_completion_events d = db_completion_events db"
        by (rule activate_cases [OF d(1)]) simp_all
      have "run_inv d \<and> wf_core d" by (rule activate_inv [OF d(1) 2(6) core decision_Ready [OF DepReady]])
      moreover have "quiet d (set queue)" using activate_quiet [OF d(1) core] 2(8) by simp
      ultimately show ?thesis using 2(3) [OF act _ DepReady d(1,2)] True frame by simp
    next
      case DepSkipped
      let ?d = "skip_node now nid db"
      have step: "propagate now (queue @ outgoing ?d nid) ?d = Inr db'" using 2(5) act True DepSkipped by simp
      have "quiet ?d (set (queue @ outgoing ?d nid))" using skip_quiet [OF core] 2(8) by simp
      then have "run_inv db' \<and> wf_core db' \<and> quiet db' {} \<and> db_workflow_runs db' = db_workflow_runs ?d \<and>
          db_completion_events db' = db_completion_events ?d"
        using 2(4) [OF act _ DepSkipped step] True skip_inv [OF core 2(6)] by blast
      then show ?thesis by (simp add: skip_node_def)
    qed (use True in simp)
  qed
qed simp

section \<open>Completion, final state and cancellation\<close>

lemma complete_node_cases:
  assumes "complete_node now nid db = (db', changed)"
  obtains (unchanged) "db' = db" "\<not> changed"
  | (completed) "child_statuses db nid \<noteq> []" "\<forall>s \<in> set (child_statuses db nid). \<not> live s \<and> s \<noteq> RetryWait"
      "changed = (length (filter (\<lambda>n. nr_id n = nid \<and> nr_state n = NodeRunning) (db_node_runs db)) = 1)"
      "db' = update_node_runs (\<lambda>n. nr_id n = nid \<and> nr_state n = NodeRunning)
         (\<lambda>n. n\<lparr> nr_state := aggregate (child_statuses db nid), nr_finished_at := Some now \<rparr>) db"
proof (cases "child_statuses db nid = [] \<or> (\<exists>s \<in> set (child_statuses db nid). s = PendingDispatch \<or> s = Queued \<or> s = Running \<or> s = RetryWait)")
  case True
  then show thesis using assms unchanged unfolding complete_node_def Let_def by simp
next
  case False
  then have "\<forall>s \<in> set (child_statuses db nid). \<not> live s \<and> s \<noteq> RetryWait" by (auto simp: live_def)
  moreover note assms [unfolded complete_node_def Let_def if_not_P [OF False] prod.inject]
  ultimately show thesis using completed False by (metis (no_types))
qed

lemma length_filter_unique:
  assumes "distinct xs" "x \<in> set xs" "p x" "\<And>y. y \<in> set xs \<Longrightarrow> p y \<Longrightarrow> y = x"
  shows "length (filter p xs) = 1"
proof -
  have "set (filter p xs) = {x}" unfolding set_filter using assms(2-4) by blast
  then show ?thesis using distinct_card [OF distinct_filter [OF assms(1)], of p] by simp
qed

lemma complete_node_inv:
  assumes step: "complete_node now nid db = (db', changed)" and inv: "run_inv db" and core: "wf_core db"
    and q: "quiet db Q"
  shows "run_inv db' \<and> wf_core db' \<and> quiet db' (if changed then Q \<union> set (outgoing db' nid) else Q)"
  using step
proof (cases rule: complete_node_cases)
  case unchanged
  then show ?thesis using inv core q by simp
next
  case completed
  have "run_inv db'" by (rule inv_cong [OF inv]) (simp_all add: completed(4))
  moreover have "wf_core db'"
    unfolding completed(4)
    by (rule wf_core_update [OF core _ _ _ _ update_node_runs_frame(1)])
      (use core in \<open>auto simp: wf_core_def wf_keys_def\<close>)
  moreover have "quiet db' (if changed then Q \<union> set (outgoing db' nid) else Q)"
  proof (cases "\<exists>n \<in> set (db_node_runs db). nr_id n = nid \<and> nr_state n = NodeRunning")
    case False
    then have "db' = db" by (auto simp: completed(4) update_node_runs_def update_where_none)
    then show ?thesis using q by (auto simp: quiet_def)
  next
    case True
    have keys: "wf_keys db" using core by (simp add: wf_core_def)
    have "distinct (db_node_runs db)" using keys by (auto simp: wf_keys_def distinct_map)
    then have changed
      unfolding completed(3) using True node_by_key [OF keys] by (auto intro: length_filter_unique [unfolded One_nat_def])
    moreover have "quiet db' (Q \<union> set (outgoing db' nid))"
      unfolding completed(4)
      by (rule quiet_update [OF q _ _ _ _ _ _ update_node_runs_frame(1)]) (auto simp: outgoing_def aggregate_def)
    ultimately show ?thesis by simp
  qed
  ultimately show ?thesis by simp
qed

lemma complete_nodes_inv:
  "complete_nodes now nids downstream db = (db', out) \<Longrightarrow> run_inv db \<Longrightarrow> wf_core db \<Longrightarrow> quiet db (set downstream) \<Longrightarrow>
   run_inv db' \<and> wf_core db' \<and> quiet db' (set out) \<and> db_workflow_runs db' = db_workflow_runs db \<and>
   db_completion_events db' = db_completion_events db"
proof (induction now nids downstream db rule: complete_nodes.induct)
  case (2 now nid nids downstream db)
  obtain d changed where d: "complete_node now nid db = (d, changed)" by (cases "complete_node now nid db")
  have frame: "db_workflow_runs d = db_workflow_runs db" "db_completion_events d = db_completion_events db"
    using d by (cases rule: complete_node_cases; simp)+
  have "quiet d (set (if changed then downstream @ outgoing d nid else downstream))"
    using complete_node_inv [OF d 2(3-5)] by (simp split: if_splits)
  then show ?case using 2(1) [OF d [symmetric]] 2(2) d complete_node_inv [OF d 2(3-5)] frame by simp
qed simp

lemma update_workflow_runs_frame [simp]:
  "db_workflow_runs (update_workflow_runs p f db) = update_where p f (db_workflow_runs db)"
  "db_node_runs (update_workflow_runs p f db) = db_node_runs db"
  "db_runs (update_workflow_runs p f db) = db_runs db" "db_attempts (update_workflow_runs p f db) = db_attempts db"
  "db_outbox (update_workflow_runs p f db) = db_outbox db" "db_next_id (update_workflow_runs p f db) = db_next_id db"
  "db_run_edges (update_workflow_runs p f db) = db_run_edges db"
  "db_node_executions (update_workflow_runs p f db) = db_node_executions db"
  "db_completion_events (update_workflow_runs p f db) = db_completion_events db"
  by (simp_all add: update_workflow_runs_def)

lemma wf_core_cong:
  assumes "wf_core db" "db_node_runs db' = db_node_runs db" "db_run_edges db' = db_run_edges db"
    "db_workflow_runs db' = db_workflow_runs db" "db_node_executions db' = db_node_executions db"
    "db_next_id db \<le> db_next_id db'"
  shows "wf_core db'"
proof -
  have "wf_keys db'" using assms by (fastforce simp: wf_core_def wf_keys_def)
  moreover have "nodes_of db' = nodes_of db" by (rule ext) (simp add: nodes_of_def assms)
  moreover from this have "outcome db' = outcome db" by (intro ext) (simp add: outcome_def)
  ultimately show ?thesis using assms by (simp add: wf_core_def edges_ok_def deps_ok_def satisfied_def final_ok_def)
qed

lemma quiet_cong:
  "quiet db Q \<Longrightarrow> db_node_runs db' = db_node_runs db \<Longrightarrow> db_run_edges db' = db_run_edges db \<Longrightarrow>
   (\<And>i. open_run db' i \<Longrightarrow> open_run db i) \<Longrightarrow> quiet db' Q"
  by (auto simp: quiet_def incoming_def)

lemma wf_core_runs:
  assumes core: "wf_core db" and f: "\<And>w. wr_id (f w) = wr_id w" "\<And>w. wr_state w \<noteq> WorkflowPending \<Longrightarrow> wr_state (f w) \<noteq> WorkflowPending"
    and final: "\<And>w. w \<in> set (db_workflow_runs db) \<Longrightarrow> p w \<Longrightarrow> wr_state (f w) \<noteq> WorkflowRunning \<Longrightarrow>
      (\<forall>n \<in> nodes_of db (wr_id w). node_is_terminal (nr_state n)) \<and> wr_state (f w) = outcome db (f w)"
  shows "wf_core (update_workflow_runs p f db)"
proof -
  let ?g = "\<lambda>w. if p w then f w else w"
  have ids: "wr_id (?g w) = wr_id w" for w using f by simp
  have W: "set (update_where p f (db_workflow_runs db)) = ?g ` set (db_workflow_runs db)" by (rule set_update_where)
  have mapk: "map wr_id (update_where p f (db_workflow_runs db)) = map wr_id (db_workflow_runs db)"
    by (simp add: update_where_map_key f)
  have keys: "wf_keys db" using core by (simp add: wf_core_def)
  have "\<forall>w \<in> set (db_workflow_runs db). wr_state (?g w) \<noteq> WorkflowPending" using keys f(2) by (auto simp: wf_keys_def)
  then have "wf_keys (update_workflow_runs p f db)"
    using keys unfolding wf_keys_def update_workflow_runs_frame mapk W ball_simps(9) bex_simps(7) ids
    by blast
  moreover have "final_ok (update_workflow_runs p f db)"
    unfolding final_ok_def update_workflow_runs_frame W ball_simps(9) ids
  proof (intro ballI impI)
    fix w assume w: "w \<in> set (db_workflow_runs db)" "wr_state (?g w) \<noteq> WorkflowRunning"
    have "(\<forall>n \<in> nodes_of db (wr_id w). node_is_terminal (nr_state n)) \<and> wr_state (?g w) = outcome db (?g w)"
      using core final [OF w(1)] w by (auto simp: wf_core_def final_ok_def)
    then show "(\<forall>n \<in> nodes_of (update_workflow_runs p f db) (wr_id w). node_is_terminal (nr_state n)) \<and>
        wr_state (?g w) = outcome (update_workflow_runs p f db) (?g w)"
      by (simp add: nodes_of_def outcome_def)
  qed
  ultimately show ?thesis using core by (simp add: wf_core_def edges_ok_def deps_ok_def satisfied_def)
qed

lemma finish_inv:
  assumes inv: "run_inv db" and core: "wf_core db" and q: "quiet db Q"
  shows "run_inv (finish now i db) \<and> wf_core (finish now i db) \<and> quiet (finish now i db) Q"
proof (intro conjI)
  show "run_inv (finish now i db)" by (rule inv_cong [OF inv]) (simp_all add: finish_def Let_def)
  show "wf_core (finish now i db)"
    unfolding finish_def Let_def by (rule wf_core_runs [OF core]) (auto simp: nodes_of_def outcome_def)
  show "quiet (finish now i db) Q"
    by (rule quiet_cong [OF q]) (auto simp: finish_def Let_def open_run_def set_update_where split: if_splits)
qed

lemma reconcile_invocation_inv:
  assumes "reconcile_invocation now i db = Inr db'" "run_inv db" "wf_inv db"
  shows "run_inv db' \<and> wf_inv db'"
proof -
  let ?events = "filter (\<lambda>c. ce_workflow_run_id c = i) (db_completion_events db)"
  obtain d out where d: "complete_nodes now (bset_of (map ce_node_run_id ?events)) [] db = (d, out)" by fastforce
  obtain e where e: "propagate now out d = Inr e" and
      db': "db' = (finish now i e)\<lparr> db_completion_events := filter (\<lambda>c. ce_run_id c \<notin> set (map ce_run_id ?events))
             (db_completion_events (finish now i e)) \<rparr>"
    using assms(1) by (auto simp: reconcile_invocation_def Let_def d elim: and_thenE)
  have "run_inv d \<and> wf_core d \<and> quiet d (set out)"
    using complete_nodes_inv [OF d] assms(2,3) by (simp add: wf_inv_def)
  then have "run_inv e \<and> wf_core e \<and> quiet e {}" using propagate_inv [OF e] by simp
  then have fin: "run_inv (finish now i e)" "wf_core (finish now i e)" "quiet (finish now i e) {}"
    using finish_inv by blast+
  have "run_inv db'" by (rule inv_cong [OF fin(1)]) (simp_all add: db')
  moreover have "wf_core db'" by (rule wf_core_cong [OF fin(2)]) (simp_all add: db')
  moreover have "quiet db' {}" by (rule quiet_cong [OF fin(3)]) (simp_all add: db' open_run_def)
  ultimately show ?thesis by (simp add: wf_inv_def)
qed

lemma reconcile_workflows_inv:
  "reconcile_workflows now locked limit k db = (db', res) \<Longrightarrow> run_inv db \<Longrightarrow> wf_inv db \<Longrightarrow> run_inv db' \<and> wf_inv db'"
proof (induction now locked limit k db rule: reconcile_workflows.induct)
  case (2 now locked limit k db)
  show ?case
  proof (cases "next_invocation locked db")
    case (Some i)
    then show ?thesis
      using 2 reconcile_invocation_inv [of now i db] by (cases "reconcile_invocation now i db") (simp_all add: Some)
  qed (use 2 in simp)
qed simp

lemma cancel_workflow_inv:
  assumes "cancel_workflow now i db = Inr (db', record)" "run_inv db" "wf_inv db"
  shows "run_inv db' \<and> wf_inv db'"
proof -
  let ?flag = "update_workflow_runs (\<lambda>w. wr_id w = i) (\<lambda>w. w\<lparr> wr_cancellation_requested := True \<rparr>) db"
  let ?p = "\<lambda>n. nr_workflow_run_id n = i \<and> (nr_state n = NodePending \<or> nr_state n = NodeReady)"
  let ?d = "update_node_runs ?p (\<lambda>n. n\<lparr> nr_state := NodeCancelled, nr_finished_at := Some now \<rparr>) ?flag"
  have core: "wf_core db" and quiet: "quiet db {}" using assms(3) by (simp_all add: wf_inv_def)
  obtain w where w: "find (\<lambda>w. wr_id w = i) (db_workflow_runs db) = Some w"
    and db': "db' = (if wr_state w = WorkflowRunning then finish now i ?d else db)"
    using assms(1) by (auto simp: cancel_workflow_def Let_def split: option.splits elim: and_thenE)
  have w': "w \<in> set (db_workflow_runs db)" "wr_id w = i" using find_Some_in [OF w] by simp_all
  show ?thesis
  proof (cases "wr_state w = WorkflowRunning")
    case True
    have run: "run_inv ?d" by (rule inv_cong [OF assms(2)]) simp_all
    have flag: "wf_core ?flag"
      by (rule wf_core_runs [OF core]) (use True w' run_row_by_key core in \<open>auto simp: wf_core_def\<close>)
    have core_d: "wf_core ?d"
      by (rule wf_core_update [OF flag _ _ _ _ update_node_runs_frame(1)]) (use flag in \<open>auto simp: wf_core_def wf_keys_def\<close>)
    have "quiet ?flag {}"
      by (rule quiet_cong [OF quiet]) (auto simp: open_run_def set_update_where split: if_splits)
    then have "quiet ?d {nr_id n | n. n \<in> set (db_node_runs db) \<and> nr_workflow_run_id n = i}"
    proof (rule quiet_update [OF _ _ _ _ _ _ _ update_node_runs_frame(1)])
      fix m e assume m: "m \<in> set (db_node_runs ?flag)" "?p m" and e: "e \<in> set (db_run_edges ?flag)" "re_from e = nr_id m"
      then have "edges_ok db" "wf_keys db" using core by (simp_all add: wf_core_def)
      then show "re_to e \<in> {nr_id n | n. n \<in> set (db_node_runs db) \<and> nr_workflow_run_id n = i}"
        using m e node_by_key [of db] unfolding edges_ok_def update_workflow_runs_frame mem_Collect_eq by metis
    qed auto
    then have "quiet ?d {}"
      unfolding quiet_def
    proof (intro ballI impI)
      fix n assume Q: "\<forall>n \<in> set (db_node_runs ?d). nr_state n = NodePending \<and> open_run ?d (nr_workflow_run_id n) \<longrightarrow>
          dependency_decision (incoming ?d (nr_id n)) = DepWaiting \<or>
          nr_id n \<in> {nr_id n | n. n \<in> set (db_node_runs db) \<and> nr_workflow_run_id n = i}"
        and n: "n \<in> set (db_node_runs ?d)" "nr_state n = NodePending \<and> open_run ?d (nr_workflow_run_id n)"
      have "nr_workflow_run_id n \<noteq> i" using n(2) by (auto simp: open_run_def set_update_where split: if_splits)
      moreover have "n \<in> set (db_node_runs db)"
        using n by (auto simp: set_update_where split: if_splits)
      ultimately have "nr_id n \<notin> {nr_id n | n. n \<in> set (db_node_runs db) \<and> nr_workflow_run_id n = i}"
        using node_by_key [of db n] core by (auto simp: wf_core_def)
      then show "dependency_decision (incoming ?d (nr_id n)) = DepWaiting \<or> nr_id n \<in> {}" using Q n by blast
    qed
    then show ?thesis using True db' finish_inv [OF run core_d] by (simp add: wf_inv_def)
  qed (use assms db' in simp)
qed

end
