(* ===== verification/WorkflowLaunch.thy ===== *)
theory WorkflowLaunch
  imports WorkflowInvariant
begin

text \<open>
  The launch of an invocation keeps the invariant: \<open>prepare_nodes\<close> adds pending nodes under fresh
  identities, the edges connect only those, and \<open>activate_roots\<close> starts exactly the nodes without
  dependencies.
\<close>

section \<open>Preparation\<close>

lemma prepare_executions_frame:
  "prepare_executions encode sb nid ns shared inputs es n db = Inr (db', m) \<Longrightarrow>
     db_node_runs db' = db_node_runs db \<and> db_run_edges db' = db_run_edges db \<and> db_workflow_runs db' = db_workflow_runs db \<and>
     db_runs db' = db_runs db \<and> db_attempts db' = db_attempts db \<and> db_outbox db' = db_outbox db \<and>
     db_next_id db \<le> db_next_id db' \<and>
     ((\<forall>e \<in> set (db_node_executions db). ne_prospective_run_id e < db_next_id db) \<longrightarrow>
      (\<forall>e \<in> set (db_node_executions db'). ne_prospective_run_id e < db_next_id db'))"
proof (induction encode sb nid ns shared inputs es n db rule: prepare_executions.induct)
  case (2 encode sb nid ns shared inputs e es n db)
  let ?d = "db\<lparr> db_next_id := db_next_id db + 1 \<rparr>"
  from 2(2) obtain s k d where s: "map_err (\<lambda>_. StoreInvalidData)
          (execution_snapshot_with_inputs encode (db_next_id db) e shared inputs TriggerManual None) = Inr s"
      "ok_or StoreInternal (sb s) = Inr k" "\<not> MAX_PREPARED_BYTES < n + k" "\<not> ex_namespace_id e \<noteq> ns"
    and ins: "insert_node_execution \<lparr> ne_node_run_id = nid, ne_target_id = ex_target_id e,
               ne_prospective_run_id = db_next_id db, ne_run_id = None, ne_queue_id = ex_queue_id e,
               ne_max_attempts = ex_max_attempts e, ne_snapshot = Rendered s \<rparr> ?d = Inr d"
    and rest: "prepare_executions encode sb nid ns shared inputs es (n + k) d = Inr (db', m)"
    by (auto simp: Let_def simp del: and_then_Ok elim!: and_thenE split: if_splits)
  have d: "d = ?d\<lparr> db_node_executions := db_node_executions db @ [\<lparr> ne_node_run_id = nid, ne_target_id = ex_target_id e,
               ne_prospective_run_id = db_next_id db, ne_run_id = None, ne_queue_id = ex_queue_id e,
               ne_max_attempts = ex_max_attempts e, ne_snapshot = Rendered s \<rparr>] \<rparr>"
    using ins by (simp add: insert_node_execution_def split: if_splits)
  have "(\<forall>e \<in> set (db_node_executions db). ne_prospective_run_id e < db_next_id db) \<longrightarrow>
      (\<forall>e \<in> set (db_node_executions d). ne_prospective_run_id e < db_next_id d)"
    by (auto simp: d less_Suc_eq)
  then show ?case using 2(1) [OF s(4) refl s(3) rest] by (simp add: d)
qed simp

text \<open>The row \<open>insert_node_run\<close> adds.\<close>

definition pending_node :: "uuid \<Rightarrow> uuid \<Rightarrow> StoredNode \<Rightarrow> NodeRunRow" where
  "pending_node i nid node = \<lparr> nr_id = nid, nr_workflow_run_id = i, nr_workflow_node_id = sn_id node,
       nr_name = sn_name node, nr_job_id = sn_job_id node, nr_state = NodePending, nr_started_at = None,
       nr_finished_at = None \<rparr>"

definition name_ids :: "(uuid \<times> StoredNode) list \<Rightarrow> (bytes, uuid) btree \<Rightarrow> (bytes, uuid) btree" where
  "name_ids ps ids = fold (\<lambda>(nid, node). bt_insert (resource_str (sn_name node)) nid) ps ids"

lemma prepare_nodes_spec:
  "prepare_nodes encode sb i ns launch nodes k prepared ids db = Inr (db', ids') \<Longrightarrow>
   \<exists>nids. length nids = length nodes \<and> distinct nids \<and> (\<forall>x \<in> set nids. db_next_id db \<le> x \<and> x < db_next_id db') \<and>
     db_node_runs db' = db_node_runs db @ map (\<lambda>(nid, node). pending_node i nid node) (zip nids nodes) \<and>
     ids' = name_ids (zip nids nodes) ids \<and>
     db_run_edges db' = db_run_edges db \<and> db_workflow_runs db' = db_workflow_runs db \<and>
     db_runs db' = db_runs db \<and> db_attempts db' = db_attempts db \<and> db_outbox db' = db_outbox db \<and>
     db_next_id db \<le> db_next_id db' \<and>
     ((\<forall>e \<in> set (db_node_executions db). ne_prospective_run_id e < db_next_id db) \<longrightarrow>
      (\<forall>e \<in> set (db_node_executions db'). ne_prospective_run_id e < db_next_id db'))"
proof (induction nodes arbitrary: k prepared ids db)
  case Nil
  then show ?case by (simp add: name_ids_def)
next
  case (Cons node nodes)
  let ?nid = "db_next_id db"
  let ?d = "insert_node_run i ?nid node (db\<lparr> db_next_id := ?nid + 1 \<rparr>)"
  from Cons.prems obtain d req es shared d' prep where
      d: "insert_request req ?d = Inr d" and
      d': "prepare_executions encode sb ?nid ns shared (la_inputs launch) es prepared d = Inr (d', prep)" and
      rest: "prepare_nodes encode sb i ns launch nodes (k + length es) prep
        (bt_insert (resource_str (sn_name node)) ?nid ids) d' = Inr (db', ids')"
    by (auto simp: Let_def simp del: and_then_Ok elim!: and_thenE split: if_splits prod.splits)
  have d_def: "d = ?d\<lparr> db_requests := db_requests db @ [req] \<rparr>"
    using d by (simp add: insert_request_def insert_node_run_def split: if_splits)
  note frame = prepare_executions_frame [OF d'] 
  have next_d: "db_next_id d = ?nid + 1" by (simp add: d_def insert_node_run_def)
  from Cons.IH [OF rest] obtain nids where nids: "length nids = length nodes" "distinct nids"
      "\<forall>x \<in> set nids. db_next_id d' \<le> x \<and> x < db_next_id db'" and
      tabs: "db_node_runs db' = db_node_runs d' @ map (\<lambda>(nid, node). pending_node i nid node) (zip nids nodes)"
      "ids' = name_ids (zip nids nodes) (bt_insert (resource_str (sn_name node)) ?nid ids)" and
      frame': "db_run_edges db' = db_run_edges d' \<and> db_workflow_runs db' = db_workflow_runs d' \<and>
     db_runs db' = db_runs d' \<and> db_attempts db' = db_attempts d' \<and> db_outbox db' = db_outbox d' \<and>
     db_next_id d' \<le> db_next_id db' \<and>
     ((\<forall>e \<in> set (db_node_executions d'). ne_prospective_run_id e < db_next_id d') \<longrightarrow>
      (\<forall>e \<in> set (db_node_executions db'). ne_prospective_run_id e < db_next_id db'))"
    by blast
  have le: "?nid < db_next_id d'" "db_next_id d' \<le> db_next_id db'" using frame frame' next_d by simp_all
  have "(\<forall>e \<in> set (db_node_executions db). ne_prospective_run_id e < db_next_id db) \<longrightarrow>
      (\<forall>e \<in> set (db_node_executions d). ne_prospective_run_id e < db_next_id d)"
    by (auto simp: d_def insert_node_run_def)
  then have ex: "(\<forall>e \<in> set (db_node_executions db). ne_prospective_run_id e < db_next_id db) \<longrightarrow>
      (\<forall>e \<in> set (db_node_executions db'). ne_prospective_run_id e < db_next_id db')"
    using frame frame' by blast
  show ?case
  proof (rule exI [of _ "?nid # nids"], intro conjI)
    show "length (?nid # nids) = length (node # nodes)" "distinct (?nid # nids)"
      "\<forall>x \<in> set (?nid # nids). db_next_id db \<le> x \<and> x < db_next_id db'" "db_next_id db \<le> db_next_id db'"
      using nids le by fastforce+
    show "db_node_runs db' = db_node_runs db @ map (\<lambda>(nid, node). pending_node i nid node) (zip (?nid # nids) (node # nodes))"
      using tabs(1) frame by (simp add: d_def insert_node_run_def pending_node_def)
    show "ids' = name_ids (zip (?nid # nids) (node # nodes)) ids" using tabs(2) by (simp add: name_ids_def)
    show "db_run_edges db' = db_run_edges db" "db_workflow_runs db' = db_workflow_runs db" "db_runs db' = db_runs db"
      "db_attempts db' = db_attempts db" "db_outbox db' = db_outbox db"
      using frame frame' by (simp_all add: d_def insert_node_run_def)
  qed (use ex in simp)
qed

section \<open>The new invocation\<close>

lemma launch_core:
  assumes core: "wf_core db"
    and N: "db_node_runs db' = db_node_runs db @ N" "distinct (map nr_id N)"
      "\<And>n. n \<in> set N \<Longrightarrow> nr_workflow_run_id n = i \<and> nr_state n = NodePending \<and> nr_started_at n = None \<and>
         i < nr_id n \<and> nr_id n < db_next_id db'"
    and W: "db_workflow_runs db' = db_workflow_runs db @ [w]" "wr_id w = i" "wr_state w = WorkflowRunning"
    and E: "db_run_edges db' = db_run_edges db @ E"
      "\<And>e. e \<in> set E \<Longrightarrow> re_workflow_run_id e = i \<and> re_from e \<in> nr_id ` set N \<and> re_to e \<in> nr_id ` set N"
    and ids: "i = db_next_id db" "db_next_id db < db_next_id db'"
      "\<forall>e \<in> set (db_node_executions db'). ne_prospective_run_id e < db_next_id db'"
  shows "wf_core db'"
proof -
  have keys: "wf_keys db" and edges: "edges_ok db" using core by (simp_all add: wf_core_def)
  have old: "nr_id n < i" "nr_workflow_run_id n < i" if "n \<in> set (db_node_runs db)" for n
    using keys that ids(1) by (auto simp: wf_keys_def)
  have old_w: "wr_id v < i" if "v \<in> set (db_workflow_runs db)" for v
    using keys that ids(1) by (auto simp: wf_keys_def)
  have old_e: "re_from e < i" "re_to e < i" if "e \<in> set (db_run_edges db)" for e
    using edges old(1) that unfolding edges_ok_def by metis+
  have "distinct (map nr_id (db_node_runs db'))"
    using keys N(2,3) old(1) by (fastforce simp: N(1) wf_keys_def)
  moreover have "distinct (map wr_id (db_workflow_runs db'))" using keys old_w W(2) by (fastforce simp: W(1) wf_keys_def)
  moreover have "nr_id n < db_next_id db' \<and> nr_workflow_run_id n < db_next_id db' \<and>
      (\<exists>w \<in> set (db_workflow_runs db'). wr_id w = nr_workflow_run_id n)" if "n \<in> set (db_node_runs db')" for n
  proof (cases "n \<in> set N")
    case True
    then show ?thesis using N(3) W ids by auto
  next
    case False
    then have n: "n \<in> set (db_node_runs db)" using that by (simp add: N(1))
    then have "\<exists>w \<in> set (db_workflow_runs db). wr_id w = nr_workflow_run_id n" using keys by (auto simp: wf_keys_def)
    then show ?thesis using old [OF n] ids by (auto simp: W(1))
  qed
  moreover have "\<forall>v \<in> set (db_workflow_runs db'). wr_id v < db_next_id db' \<and> wr_state v \<noteq> WorkflowPending"
    using keys ids W by (auto simp: W(1) wf_keys_def intro: less_trans)
  ultimately have "wf_keys db'" using ids(3) unfolding wf_keys_def by blast
  moreover have "edges_ok db'"
    using edges E(2) N(3) unfolding edges_ok_def N(1) E(1) set_append by fastforce
  moreover have "deps_ok db'"
    unfolding deps_ok_def satisfied_def
  proof (intro ballI impI)
    fix n e m assume n: "n \<in> set (db_node_runs db')" "nr_started_at n \<noteq> None"
      and e: "e \<in> set (db_run_edges db')" "re_to e = nr_id n"
      and m: "m \<in> set (db_node_runs db')" "nr_id m = re_from e"
    have n': "n \<in> set (db_node_runs db)" using n N(1,3) by auto
    then have e': "e \<in> set (db_run_edges db)" using e E old(1) N(3) by fastforce
    then have "m \<in> set (db_node_runs db)" using m old_e(1) N(1,3) by fastforce
    then show "node_is_terminal (nr_state m) \<and> condition_matches (re_condition e) (nr_state m)"
      using core n' n(2) e' e(2) m(2) by (auto simp: wf_core_def deps_ok_def satisfied_def)
  qed
  moreover have "final_ok db'"
    unfolding final_ok_def
  proof (intro ballI impI)
    fix v assume v: "v \<in> set (db_workflow_runs db')" "wr_state v \<noteq> WorkflowRunning"
    have v': "v \<in> set (db_workflow_runs db)" using v W by auto
    then have "nodes_of db' (wr_id v) = nodes_of db (wr_id v)" using old_w [OF v'] N(1,3) by (auto simp: nodes_of_def)
    moreover from this have "outcome db' v = outcome db v" by (simp add: outcome_def)
    ultimately show "(\<forall>n \<in> nodes_of db' (wr_id v). node_is_terminal (nr_state n)) \<and> wr_state v = outcome db' v"
      using core v' v(2) by (simp add: wf_core_def final_ok_def)
  qed
  ultimately show ?thesis by (simp add: wf_core_def)
qed

lemma launch_quiet:
  assumes core: "wf_core db" and q: "quiet db {}"
    and N: "db_node_runs db' = db_node_runs db @ N"
      "\<And>n. n \<in> set N \<Longrightarrow> nr_workflow_run_id n = i \<and> nr_state n = NodePending \<and> i < nr_id n"
    and W: "db_workflow_runs db' = db_workflow_runs db @ [w]" "wr_id w = i"
    and E: "db_run_edges db' = db_run_edges db @ E"
      "\<And>e. e \<in> set E \<Longrightarrow> re_from e \<in> nr_id ` set N \<and> re_to e \<in> nr_id ` set N"
    and ids: "i = db_next_id db"
  shows "quiet db' {nr_id n | n. n \<in> set N \<and> (\<forall>e \<in> set E. re_to e \<noteq> nr_id n)}"
  unfolding quiet_def
proof (intro ballI impI)
  have keys: "wf_keys db" and edges: "edges_ok db" using core by (simp_all add: wf_core_def)
  have old: "nr_id n < i" "nr_workflow_run_id n < i" if "n \<in> set (db_node_runs db)" for n
    using keys that ids(1) by (auto simp: wf_keys_def)
  have old_e: "re_from e < i" "re_to e < i" if "e \<in> set (db_run_edges db)" for e
    using edges old(1) that unfolding edges_ok_def by metis+
  fix n assume n: "n \<in> set (db_node_runs db')" "nr_state n = NodePending \<and> open_run db' (nr_workflow_run_id n)"
  show "dependency_decision (incoming db' (nr_id n)) = DepWaiting \<or>
      nr_id n \<in> {nr_id n | n. n \<in> set N \<and> (\<forall>e \<in> set E. re_to e \<noteq> nr_id n)}"
  proof (cases "n \<in> set N")
    case False
    then have n': "n \<in> set (db_node_runs db)" using n(1) by (simp add: N(1))
    have "open_run db (nr_workflow_run_id n)" using n(2) old(2) [OF n'] W by (auto simp: open_run_def)
    then have wait: "dependency_decision (incoming db (nr_id n)) = DepWaiting" using q n' n(2) by (simp add: quiet_def)
    have es: "filter (\<lambda>e. re_to e = nr_id n) (db_run_edges db') = filter (\<lambda>e. re_to e = nr_id n) (db_run_edges db)"
      using old(1) [OF n'] E N(2) by (fastforce simp: filter_empty_conv)
    have ms: "filter (\<lambda>m. nr_id m = re_from e) (db_node_runs db') = filter (\<lambda>m. nr_id m = re_from e) (db_node_runs db)"
      if "e \<in> set (db_run_edges db)" for e
      using old_e(1) [OF that] N by (fastforce simp: filter_empty_conv)
    have "incoming db' (nr_id n) = incoming db (nr_id n)"
      unfolding incoming_def es by (intro arg_cong [of _ _ concat] map_cong) (simp_all add: ms)
    then show ?thesis using wait by simp
  next
    case True
    show ?thesis
    proof (cases "\<forall>e \<in> set E. re_to e \<noteq> nr_id n")
      case some: False
      then obtain e where e: "e \<in> set E" "re_to e = nr_id n" by blast
      have unfinished: "\<not> node_is_terminal (nr_state m)"
        if "x \<in> set (db_run_edges db')" "re_to x = nr_id n" "m \<in> set (db_node_runs db')" "nr_id m = re_from x" for x m
      proof -
        have "x \<in> set E" using that(1,2) old_e(2) N(2) [OF True] by (fastforce simp: E(1))
        then have "m \<in> set N" using E(2) that(3,4) old(1) N by fastforce
        then show ?thesis using N(2) by simp
      qed
      obtain m where "m \<in> set N" "nr_id m = re_from e" using E(2) [OF e(1)] by auto
      then have "dependency_decision (incoming db' (nr_id n)) = DepWaiting"
        unfolding decision_Waiting using unfinished e E(1) N(1) by fastforce
      then show ?thesis ..
    qed (use True in blast)
  qed
qed

section \<open>Roots\<close>

lemma quiet_mono: "quiet db Q \<Longrightarrow> Q \<subseteq> Q' \<Longrightarrow> quiet db Q'"
  by (auto simp: quiet_def)

definition root_ids :: "(bytes, uuid) btree \<Rightarrow> WorkflowEdge list \<Rightarrow> StoredNode list \<Rightarrow> uuid set" where
  "root_ids ids edges nodes =
     {nid | node nid. node \<in> set nodes \<and> (\<forall>e \<in> set edges. we_to e \<noteq> sn_name node) \<and> bt_get ids (resource_str (sn_name node)) = Some nid}"

lemma root_ids_Cons:
  "root_ids ids edges (node # nodes) =
     (if \<exists>e \<in> set edges. we_to e = sn_name node then {}
      else case bt_get ids (resource_str (sn_name node)) of None \<Rightarrow> {} | Some nid \<Rightarrow> {nid}) \<union> root_ids ids edges nodes"
  by (auto simp: root_ids_def split: option.splits)

lemma activate_roots_inv:
  "activate_roots now ids edges nodes db = Inr db' \<Longrightarrow> run_inv db \<Longrightarrow> wf_core db \<Longrightarrow>
   quiet db (root_ids ids edges nodes) \<Longrightarrow>
   \<forall>nid \<in> root_ids ids edges nodes. \<forall>e \<in> set (db_run_edges db). re_to e \<noteq> nid \<Longrightarrow>
   run_inv db' \<and> wf_core db' \<and> quiet db' {} \<and> db_workflow_runs db' = db_workflow_runs db"
proof (induction nodes arbitrary: db)
  case Nil
  then show ?case by (simp add: root_ids_def)
next
  case (Cons node nodes)
  show ?case
  proof (cases "\<exists>e \<in> set edges. we_to e = sn_name node")
    case True
    then show ?thesis using Cons by (simp add: root_ids_Cons)
  next
    case False
    then obtain nid d where nid: "bt_get ids (resource_str (sn_name node)) = Some nid"
      and d: "activate now nid db = Inr d" and rest: "activate_roots now ids edges nodes d = Inr db'"
      using Cons.prems(1) by (auto simp: node_id_def simp del: and_then_Ok elim!: and_thenE split: option.splits)
    have roots: "root_ids ids edges (node # nodes) = insert nid (root_ids ids edges nodes)"
      using False nid by (simp add: root_ids_Cons)
    have frame: "db_run_edges d = db_run_edges db" "db_workflow_runs d = db_workflow_runs db"
      by (rule activate_cases [OF d]; simp)+
    have "satisfied db nid" using Cons.prems(5) roots by (auto simp: satisfied_def)
    then have "run_inv d \<and> wf_core d" using activate_inv [OF d Cons.prems(2,3)] by blast
    moreover have "quiet d (root_ids ids edges nodes)" using activate_quiet [OF d Cons.prems(3)] Cons.prems(4) roots by simp
    ultimately show ?thesis using Cons.IH [OF rest] Cons.prems(5) roots frame by simp
  qed
qed

section \<open>Launch\<close>

lemma validated_graph:
  assumes ok: "validate_workflow d = Some (Inr ())"
  shows "graph_ok d"
proof (rule ccontr)
  assume no: "\<not> graph_ok d"
  then have "\<not> (\<exists>nodes r. insert_nodes [] (wd_nodes d) = Inr nodes \<and> insert_edges [] nodes [] (wd_edges d) = Inr r)"
    using insertions_iff_graph_ok by blast
  then have "validate_workflow d \<noteq> Some (Inr ())" by (auto simp: validate_workflow_def split: sum.splits)
  then show False using ok by blast
qed

lemma name_ids_Cons [simp]:
  "name_ids ((nid, node) # ps) ids = name_ids ps (bt_insert (resource_str (sn_name node)) nid ids)" "name_ids [] ids = ids"
  by (simp_all add: name_ids_def)

lemma name_ids_other:
  "k \<notin> (\<lambda>(nid, node). resource_str (sn_name node)) ` set ps \<Longrightarrow> bt_get (name_ids ps ids) k = bt_get ids k"
proof (induction ps arbitrary: ids)
  case (Cons p ps)
  then show ?case by (cases p) (simp add: bt_get_insert)
qed simp

lemma name_ids_get:
  "distinct (map (\<lambda>(nid, node). resource_str (sn_name node)) ps) \<Longrightarrow> (nid, node) \<in> set ps \<Longrightarrow>
     bt_get (name_ids ps ids) (resource_str (sn_name node)) = Some nid"
proof (induction ps arbitrary: ids)
  case (Cons p ps)
  obtain i n where p: "p = (i, n)" by force
  show ?case
  proof (cases "(nid, node) \<in> set ps")
    case True
    then show ?thesis using Cons p by simp
  next
    case False
    then have "i = nid" "n = node" using Cons.prems(2) p by simp_all
    then show ?thesis using Cons.prems(1) p name_ids_other [of "resource_str (sn_name node)" ps] by (simp add: bt_get_insert)
  qed
qed simp

lemma name_ids_Some:
  assumes "distinct (map (\<lambda>(nid, node). resource_str (sn_name node)) ps)" "bt_get (name_ids ps []) k = Some nid"
  shows "\<exists>node. (nid, node) \<in> set ps \<and> k = resource_str (sn_name node)"
proof (cases "k \<in> (\<lambda>(nid, node). resource_str (sn_name node)) ` set ps")
  case True
  then obtain i node where "(i, node) \<in> set ps" "k = resource_str (sn_name node)" by auto
  then show ?thesis using name_ids_get [OF assms(1)] assms(2) by auto
next
  case False
  then show ?thesis using name_ids_other [OF False, of "[]"] assms(2) by simp
qed

lemma start_new_inv:
  assumes step: "start_new encode sb now launch db = Inr (db', i)" and inv: "run_inv db" and wf: "wf_inv db"
    and names: "\<And>d. catalog db (la_workflow_id launch) = Inr d \<Longrightarrow> distinct (map (\<lambda>n. resource_str (sn_name n)) (sw_nodes d))"
  shows "run_inv db' \<and> wf_inv db'"
proof -
  have core: "wf_core db" "quiet db {}" using wf by (simp_all add: wf_inv_def)
  obtain d db1 db2 ids E where d: "catalog db (la_workflow_id launch) = Inr d"
    and db1: "insert_invocation now launch d db = Inr (db1, i)"
    and db2: "prepare_nodes encode sb i (sw_namespace_id d) launch (sw_nodes d) 0 0 [] db1 = Inr (db2, ids)"
    and E: "run_edges i ids (sw_edges d) = Inr E"
    and roots: "activate_roots now ids (sw_edges d) (sw_nodes d) (db2\<lparr> db_run_edges := db_run_edges db2 @ E \<rparr>) = Inr db'"
    using step by (auto simp: start_new_def simp del: and_then_Ok elim!: and_thenE)
  let ?db3 = "db2\<lparr> db_run_edges := db_run_edges db2 @ E \<rparr>"
  let ?w = "invocation_row now launch d i"
  have i: "i = db_next_id db" and db1': "db1 = db\<lparr> db_next_id := i + 1, db_workflow_runs := db_workflow_runs db @ [?w] \<rparr>"
    using db1 by (auto simp: insert_invocation_def Let_def split: if_splits)
  have w: "wr_id ?w = i" "wr_state ?w = WorkflowRunning" by (simp_all add: invocation_row_def)
  from prepare_nodes_spec [OF db2] obtain nids where nids: "length nids = length (sw_nodes d)" "distinct nids"
      "\<forall>x \<in> set nids. db_next_id db1 \<le> x \<and> x < db_next_id db2" and
      tabs: "db_node_runs db2 = db_node_runs db1 @ map (\<lambda>(nid, node). pending_node i nid node) (zip nids (sw_nodes d))" and
      ids: "ids = name_ids (zip nids (sw_nodes d)) []" and
      frame: "db_run_edges db2 = db_run_edges db1" "db_workflow_runs db2 = db_workflow_runs db1"
      "db_runs db2 = db_runs db1" "db_attempts db2 = db_attempts db1" "db_outbox db2 = db_outbox db1"
      "db_next_id db1 \<le> db_next_id db2" and
      ex: "(\<forall>e \<in> set (db_node_executions db1). ne_prospective_run_id e < db_next_id db1) \<longrightarrow>
      (\<forall>e \<in> set (db_node_executions db2). ne_prospective_run_id e < db_next_id db2)"
    by blast
  let ?ps = "zip nids (sw_nodes d)"
  let ?N = "map (\<lambda>(nid, node). pending_node i nid node) ?ps"
  have keys_ps: "distinct (map (\<lambda>(nid, node). resource_str (sn_name node)) ?ps)"
  proof -
    have "map (\<lambda>(nid, node). resource_str (sn_name node)) ?ps = map (\<lambda>n. resource_str (sn_name n)) (map snd ?ps)" by auto
    then show ?thesis using names [OF d] nids(1) by simp
  qed
  note get = name_ids_get [OF keys_ps, where ids = "[]", folded ids] and some = name_ids_Some [OF keys_ps, folded ids]
  have N_id: "n \<in> set ?N \<longleftrightarrow> (\<exists>nid node. (nid, node) \<in> set ?ps \<and> n = pending_node i nid node)" for n by auto
  have "map nr_id ?N = map fst ?ps" by (auto simp: pending_node_def)
  then have N_ids: "map nr_id ?N = nids" using nids(1) by simp
  have E_src: "\<exists>x \<in> set (sw_edges d). bt_get ids (resource_str (we_from x)) = Some (re_from e) \<and>
      bt_get ids (resource_str (we_to x)) = Some (re_to e) \<and> re_workflow_run_id e = i" if "e \<in> set E" for e
    using traverse_Ok_set [OF E [unfolded run_edges_def] that] by (auto simp: node_id_def)
  have E_dst: "\<exists>e \<in> set E. bt_get ids (resource_str (we_to x)) = Some (re_to e)" if x: "x \<in> set (sw_edges d)" for x
  proof -
    obtain k where k: "k < length (sw_edges d)" "x = sw_edges d ! k" using x by (auto simp: in_set_conv_nth)
    have "length E = length (sw_edges d)" using E by (simp add: run_edges_def traverse_Ok_iff)
    moreover have "bt_get ids (resource_str (we_to x)) = Some (re_to (E ! k))"
    proof -
      have "and_then (node_id ids (we_from x)) (\<lambda>a. and_then (node_id ids (we_to x)) (\<lambda>b.
          Ok \<lparr> re_workflow_run_id = i, re_from = a, re_to = b, re_condition = we_condition x \<rparr>)) = Inr (E ! k)"
        using E k by (simp add: run_edges_def traverse_Ok_iff del: and_then_Ok)
      then show ?thesis by (auto simp: node_id_def simp flip: Sum_Type.sum.inject dest!: sym [of _ "E ! k"])
    qed
    ultimately show ?thesis using k(1) by auto
  qed
  have E_ends: "re_workflow_run_id e = i \<and> re_from e \<in> nr_id ` set ?N \<and> re_to e \<in> nr_id ` set ?N" if "e \<in> set E" for e
    using E_src [OF that] some nids(1) unfolding image_set N_ids by (fastforce dest: set_zip_leftD)
  have N_rows: "nr_workflow_run_id n = i \<and> nr_state n = NodePending \<and> nr_started_at n = None \<and> i < nr_id n \<and> nr_id n < db_next_id ?db3"
    if "n \<in> set ?N" for n
    using that nids(3) unfolding N_id by (auto simp: pending_node_def db1' dest!: set_zip_leftD)
  have "wf_core ?db3"
    by (rule launch_core [OF core(1) _ _ N_rows _ w _ E_ends i])
      (use tabs frame ex nids(2) N_ids core(1) i in \<open>auto simp: db1' wf_core_def wf_keys_def\<close>)
  moreover have "run_inv ?db3" by (rule inv_cong [OF inv]) (use frame i in \<open>simp_all add: db1'\<close>)
  moreover have "quiet ?db3 {nr_id n | n. n \<in> set ?N \<and> (\<forall>e \<in> set E. re_to e \<noteq> nr_id n)}"
    by (rule launch_quiet [OF core _ _ _ w(1) _ _ i]) (use tabs frame N_rows E_ends in \<open>simp_all add: db1'\<close>)
  moreover have "{nr_id n | n. n \<in> set ?N \<and> (\<forall>e \<in> set E. re_to e \<noteq> nr_id n)} \<subseteq> root_ids ids (sw_edges d) (sw_nodes d)"
  proof
    fix x assume "x \<in> {nr_id n | n. n \<in> set ?N \<and> (\<forall>e \<in> set E. re_to e \<noteq> nr_id n)}"
    then obtain node where node: "(x, node) \<in> set ?ps" and free: "\<forall>e \<in> set E. re_to e \<noteq> x"
      by (auto simp: pending_node_def)
    have "we_to y \<noteq> sn_name node" if "y \<in> set (sw_edges d)" for y
      using E_dst [OF that] get [OF node] free by auto
    then show "x \<in> root_ids ids (sw_edges d) (sw_nodes d)"
      using get [OF node] set_zip_rightD [OF node] by (auto simp: root_ids_def)
  qed
  moreover have "\<forall>nid \<in> root_ids ids (sw_edges d) (sw_nodes d). \<forall>e \<in> set (db_run_edges ?db3). re_to e \<noteq> nid"
  proof (intro ballI notI)
    fix nid e assume nid: "nid \<in> root_ids ids (sw_edges d) (sw_nodes d)" and e: "e \<in> set (db_run_edges ?db3)" "re_to e = nid"
    obtain node :: StoredNode where node: "\<forall>e \<in> set (sw_edges d). we_to e \<noteq> sn_name node" "bt_get ids (resource_str (sn_name node)) = Some nid"
      using nid unfolding root_ids_def by blast
    obtain node' where node': "(nid, node') \<in> set ?ps" "resource_str (sn_name node) = resource_str (sn_name node')"
      using some [OF node(2)] by blast
    have "i < nid" using nids(3) set_zip_leftD [OF node'(1)] by (auto simp: db1')
    then have "e \<notin> set (db_run_edges db)"
      using core(1) e(2) i by (fastforce simp: wf_core_def wf_keys_def edges_ok_def)
    then have "e \<in> set E" using e(1) frame(1) by (simp add: db1')
    then obtain x where x: "x \<in> set (sw_edges d)" "bt_get ids (resource_str (we_to x)) = Some nid" using E_src e(2) by blast
    obtain node'' where node'': "(nid, node'') \<in> set ?ps" "resource_str (we_to x) = resource_str (sn_name node'')"
      using some [OF x(2)] by blast
    have "node' = node''" using node'(1) node''(1) nids(2) by (auto simp: set_zip nth_eq_iff_index_eq)
    then have "we_to x = sn_name node" using node'(2) node''(2) by (simp add: ResourceName.expand)
    then show False using node(1) x(1) by blast
  qed
  ultimately have "run_inv db' \<and> wf_core db' \<and> quiet db' {}"
    using activate_roots_inv [OF roots] quiet_mono by blast
  then show ?thesis by (simp add: wf_inv_def)
qed

lemma activate_roots_runs:
  "activate_roots now ids edges nodes db = Inr db' \<Longrightarrow> db_workflow_runs db' = db_workflow_runs db"
proof (induction nodes arbitrary: db)
  case (Cons node nodes)
  show ?case
  proof (cases "\<exists>e \<in> set edges. we_to e = sn_name node")
    case False
    then obtain nid d where d: "activate now nid db = Inr d" and rest: "activate_roots now ids edges nodes d = Inr db'"
      using Cons.prems by (auto simp del: and_then_Ok elim!: and_thenE)
    have "db_workflow_runs d = db_workflow_runs db" by (rule activate_cases [OF d]) simp_all
    then show ?thesis using Cons.IH [OF rest] by simp
  qed (use Cons in simp)
qed simp

lemma start_new_runs:
  assumes "start_new encode sb now launch db = Inr (db', i)"
  shows "i = db_next_id db \<and> (\<exists>d. catalog db (la_workflow_id launch) = Inr d \<and>
     db_workflow_runs db' = db_workflow_runs db @ [invocation_row now launch d i])"
proof -
  obtain d db1 db2 ids E where d: "catalog db (la_workflow_id launch) = Inr d"
    and db1: "insert_invocation now launch d db = Inr (db1, i)"
    and db2: "prepare_nodes encode sb i (sw_namespace_id d) launch (sw_nodes d) 0 0 [] db1 = Inr (db2, ids)"
    and roots: "activate_roots now ids (sw_edges d) (sw_nodes d) (db2\<lparr> db_run_edges := db_run_edges db2 @ E \<rparr>) = Inr db'"
    using assms by (auto simp: start_new_def simp del: and_then_Ok elim!: and_thenE)
  have "db_workflow_runs db2 = db_workflow_runs db1" using prepare_nodes_spec [OF db2] by blast
  then show ?thesis
    using db1 d activate_roots_runs [OF roots] by (auto simp: insert_invocation_def Let_def split: if_splits)
qed

lemma invocation_valid:
  assumes "invocation db v i = Inr record"
  obtains w where "find (\<lambda>w. wr_id w = i) (db_workflow_runs db) = Some w" "graph_ok (stored_definition (wr_definition w))"
    "wrr_state record = wr_state w" "wrr_id record = i"
  using assms validated_graph
  by (auto simp: invocation_def workflow_record_def definition_valid_def ensure_def Let_def split: option.splits if_splits dest!: find_Some_in)

lemma start_workflow_inv:
  assumes step: "start_workflow encode sb jeq now launch db = Inr (db', record, created)" and inv: "run_inv db" "wf_inv db"
  shows "run_inv db' \<and> wf_inv db'"
proof (cases "find (\<lambda>w. wr_request_id w = la_request_id launch) (db_workflow_runs db)")
  case (Some w)
  then have "db' = db" using step by (auto simp: start_workflow_def split: if_splits)
  then show ?thesis using inv by simp
next
  case None
  then obtain i where new: "start_new encode sb now launch db = Inr (db', i)" and read: "invocation db' VisibleAll i = Inr record"
    using step by (auto simp: start_workflow_def)
  from start_new_runs [OF new] obtain d where i: "i = db_next_id db" and d: "catalog db (la_workflow_id launch) = Inr d"
    and runs: "db_workflow_runs db' = db_workflow_runs db @ [invocation_row now launch d i]" by blast
  have old: "find (\<lambda>w. wr_id w = i) (db_workflow_runs db) = None"
    using inv(2) by (auto simp: find_None_iff i wf_inv_def wf_core_def wf_keys_def)
  obtain w where w: "find (\<lambda>w. wr_id w = i) (db_workflow_runs db') = Some w" "graph_ok (stored_definition (wr_definition w))"
    using invocation_valid [OF read] by blast
  then have "wr_definition w = d" unfolding runs find_append old by (auto simp: invocation_row_def)
  then have "distinct (map (\<lambda>n. resource_str (sn_name n)) (sw_nodes d))"
    using w(2) by (simp add: graph_ok_def stored_definition_def comp_def)
  then show ?thesis using start_new_inv [OF new inv] d by auto
qed

end
