(* ===== verification/RunHistory.thy ===== *)
theory RunHistory
  imports RunLifecycle
begin

text \<open>
  What no transaction undoes.  \<open>advances\<close> relates two states of the Run tables: no row disappears,
  identity and snapshot are fixed, attempt counts only grow, a terminal Run and a finished Attempt
  never change again, an Attempt moves forward through its states under one worker, and a message
  keeps its content and stays published.
\<close>

section \<open>The order of histories\<close>

definition run_advances :: "RunRow \<Rightarrow> RunRow \<Rightarrow> bool" where
  "run_advances r s \<longleftrightarrow>
     run_id s = run_id r \<and> run_request_id s = run_request_id r \<and> run_rerun_of s = run_rerun_of r \<and>
     run_schedule_id s = run_schedule_id r \<and> run_job_id s = run_job_id r \<and> run_target_id s = run_target_id r \<and>
     run_queue_id s = run_queue_id r \<and> run_scheduled_at s = run_scheduled_at r \<and> run_snapshot s = run_snapshot r \<and>
     run_max_attempts s = run_max_attempts r \<and> run_attempt_count r \<le> run_attempt_count s \<and>
     (run_is_terminal (run_status r) \<longrightarrow> s = r)"

definition status_rank :: "RunStatus \<Rightarrow> nat" where
  "status_rank s = (case s of PendingDispatch \<Rightarrow> 0 | Queued \<Rightarrow> 1 | Running \<Rightarrow> 2 | _ \<Rightarrow> 3)"

text \<open>The states an Attempt can be in: a Run waits for a retry or is cancelled, an Attempt never.\<close>

definition attempt_state :: "RunStatus \<Rightarrow> bool" where
  "attempt_state s \<longleftrightarrow> s \<noteq> RetryWait \<and> s \<noteq> Cancelled"

lemma attempt_state_simps [simp]:
  "attempt_state PendingDispatch" "attempt_state Queued" "attempt_state Running" "attempt_state Succeeded"
  "attempt_state Failed" "attempt_state Dead" "attempt_state Skipped" "attempt_state Unknown"
  by (simp_all add: attempt_state_def)

definition attempt_advances :: "RunAttemptRow \<Rightarrow> RunAttemptRow \<Rightarrow> bool" where
  "attempt_advances a b \<longleftrightarrow>
     same_attempt a b \<and> status_rank (att_status a) \<le> status_rank (att_status b) \<and>
     att_output_sequence a \<le> att_output_sequence b \<and>
     (2 \<le> status_rank (att_status a) \<longrightarrow> att_worker_id b = att_worker_id a) \<and>
     (att_status b = att_status a \<or> attempt_state (att_status b)) \<and>
     (\<not> live (att_status a) \<longrightarrow> b = a)"

definition message_advances :: "OutboxRow \<Rightarrow> OutboxRow \<Rightarrow> bool" where
  "message_advances x y \<longleftrightarrow>
     ob_id y = ob_id x \<and> ob_run_id y = ob_run_id x \<and> ob_attempt_id y = ob_attempt_id x \<and> ob_subject y = ob_subject x \<and>
     ob_payload y = ob_payload x \<and> (ob_published_at x \<noteq> None \<longrightarrow> ob_published_at y = ob_published_at x)"

text \<open>
  Two states of the tables, given the relation their Attempts keep to; a new Attempt begins as
  pending dispatch.  The laws of \<open>history\<close> allow the relation to demand more of an Attempt than
  \<open>attempt_advances\<close> does: only a claim moves a queued one on or starts an execution.
\<close>

definition related :: "(RunAttemptRow \<Rightarrow> RunAttemptRow \<Rightarrow> bool) \<Rightarrow> Db \<Rightarrow> Db \<Rightarrow> bool" where
  "related att db db' \<longleftrightarrow>
     (\<forall>r \<in> set (db_runs db). \<exists>s \<in> set (db_runs db'). run_advances r s) \<and>
     (\<forall>a \<in> set (db_attempts db). \<exists>b \<in> set (db_attempts db'). att a b) \<and>
     (\<forall>b \<in> set (db_attempts db'). \<exists>a. att a b \<and> (a \<in> set (db_attempts db) \<or> att_status a = PendingDispatch)) \<and>
     (\<forall>x \<in> set (db_outbox db). \<exists>y \<in> set (db_outbox db'). message_advances x y)"

definition attempt_waits :: "RunAttemptRow \<Rightarrow> RunAttemptRow \<Rightarrow> bool" where
  "attempt_waits a b \<longleftrightarrow> attempt_advances a b \<and> (att_status a = Queued \<longrightarrow> b = a) \<and>
     (att_status b = Running \<longrightarrow> att_status a = Running)"

abbreviation advances :: "Db \<Rightarrow> Db \<Rightarrow> bool" where
  "advances \<equiv> related attempt_advances"

abbreviation waits :: "Db \<Rightarrow> Db \<Rightarrow> bool" where
  "waits \<equiv> related attempt_waits"

lemma status_rank_live: "status_rank s = 3 \<longleftrightarrow> \<not> live s"
  by (cases s) (simp_all add: status_rank_def)

lemma run_advances_refl [simp]: "run_advances r r"
  by (simp add: run_advances_def)

lemma run_advances_trans: "run_advances r s \<Longrightarrow> run_advances s t \<Longrightarrow> run_advances r t"
  by (auto simp: run_advances_def)

lemma attempt_advances_refl [simp]: "attempt_advances a a"
  by (simp add: attempt_advances_def same_attempt_def)

lemma attempt_advances_trans: "attempt_advances a b \<Longrightarrow> attempt_advances b c \<Longrightarrow> attempt_advances a c"
  unfolding attempt_advances_def same_attempt_def by (metis order_trans)

lemma message_advances_refl [simp]: "message_advances x x"
  by (simp add: message_advances_def)

lemma message_advances_trans: "message_advances x y \<Longrightarrow> message_advances y z \<Longrightarrow> message_advances x z"
  by (auto simp: message_advances_def)

lemma rows_trans:
  assumes "\<forall>x \<in> A. \<exists>y \<in> B. R x y" "\<forall>y \<in> B. \<exists>z \<in> C. R y z" "\<And>x y z. R x y \<Longrightarrow> R y z \<Longrightarrow> R x z"
  shows "\<forall>x \<in> A. \<exists>z \<in> C. R x z"
  using assms by blast

text \<open>The facts that show a guarded update to be an advance.\<close>

lemmas history_simps = run_advances_def attempt_advances_def message_advances_def same_attempt_def status_rank_def run_is_terminal_def

section \<open>Histories\<close>

locale history =
  fixes att :: "RunAttemptRow \<Rightarrow> RunAttemptRow \<Rightarrow> bool"
  assumes att_refl: "att a a"
    and att_trans: "att a b \<Longrightarrow> att b c \<Longrightarrow> att a c"
    and att_step: "attempt_advances a b \<Longrightarrow> att_status a \<noteq> Queued \<Longrightarrow> att_status a = Running \<or> att_status b \<noteq> Running \<Longrightarrow> att a b"
begin

lemma related_refl [simp]: "related att db db"
  unfolding related_def using run_advances_refl att_refl message_advances_refl by blast

lemma related_trans [trans]:
  assumes "related att db db'" "related att db' db''"
  shows "related att db db''"
proof -
  note rows = assms [unfolded related_def]
  have "\<exists>a. att a c \<and> (a \<in> set (db_attempts db) \<or> att_status a = PendingDispatch)" if c: "c \<in> set (db_attempts db'')" for c
  proof -
    obtain b where b: "att b c" "b \<in> set (db_attempts db') \<or> att_status b = PendingDispatch"
      using rows(2) c by blast
    show ?thesis
    proof (cases "b \<in> set (db_attempts db')")
      case True
      then obtain a where "att a b" "a \<in> set (db_attempts db) \<or> att_status a = PendingDispatch" using rows(1) by blast
      then show ?thesis using att_trans [OF _ b(1)] by blast
    qed (use b in blast)
  qed
  then show ?thesis
    unfolding related_def
    using rows_trans [OF rows(1) [THEN conjunct1] rows(2) [THEN conjunct1], OF run_advances_trans]
      rows_trans [OF rows(1) [THEN conjunct2, THEN conjunct1] rows(2) [THEN conjunct2, THEN conjunct1], OF att_trans]
      rows_trans [OF rows(1) [THEN conjunct2, THEN conjunct2, THEN conjunct2] rows(2) [THEN conjunct2, THEN conjunct2, THEN conjunct2],
        OF message_advances_trans]
    by (intro conjI ballI) simp_all
qed

text \<open>The row operations.\<close>

lemma related_rows:
  assumes "set (db_runs db) \<subseteq> set (db_runs db')" "set (db_attempts db) \<subseteq> set (db_attempts db')"
    and "set (db_outbox db) \<subseteq> set (db_outbox db')"
    and "\<And>b. b \<in> set (db_attempts db') \<Longrightarrow> b \<in> set (db_attempts db) \<or> att_status b = PendingDispatch"
  shows "related att db db'"
  unfolding related_def using assms run_advances_refl att_refl message_advances_refl by blast

lemma related_update_runs:
  assumes "\<And>r. r \<in> set (db_runs db) \<Longrightarrow> p r \<Longrightarrow> run_advances r (f r)"
  shows "related att db (update_runs p f db)"
proof -
  have "\<exists>s \<in> set (update_where p f (db_runs db)). run_advances r s" if "r \<in> set (db_runs db)" for r
    using that assms by (intro bexI [of _ "if p r then f r else r"]) (auto simp: set_update_where)
  then show ?thesis unfolding related_def using att_refl message_advances_refl by (simp, blast)
qed

lemma related_update_attempts:
  assumes "\<And>a. a \<in> set (db_attempts db) \<Longrightarrow> p a \<Longrightarrow> att a (f a)"
  shows "related att db (update_attempts p f db)"
proof -
  have "\<exists>b \<in> set (update_where p f (db_attempts db)). att a b" if "a \<in> set (db_attempts db)" for a
    using that assms by (intro bexI [of _ "if p a then f a else a"]) (auto simp: set_update_where att_refl)
  moreover have "\<exists>a. att a b \<and> a \<in> set (db_attempts db)" if "b \<in> set (update_where p f (db_attempts db))" for b
    using that assms att_refl by (auto simp: set_update_where)
  ultimately show ?thesis unfolding related_def using run_advances_refl message_advances_refl by (simp, blast)
qed

lemma related_update_outbox:
  assumes "\<And>x. x \<in> set (db_outbox db) \<Longrightarrow> p x \<Longrightarrow> message_advances x (f x)"
  shows "related att db (update_outbox p f db)"
proof -
  have "\<exists>y \<in> set (update_where p f (db_outbox db)). message_advances x y" if "x \<in> set (db_outbox db)" for x
    using that assms by (intro bexI [of _ "if p x then f x else x"]) (auto simp: set_update_where)
  then show ?thesis unfolding related_def using run_advances_refl att_refl by (simp, blast)
qed

lemma related_insert_run_event: "related att db (insert_run_event now rid t db)"
  by (rule related_rows) simp_all

lemma related_insert_run: "insert_run r db = Inr db' \<Longrightarrow> related att db db'"
  by (rule related_rows) (auto simp: insert_run_def split: if_splits)

lemma related_create_attempt: "create_attempt_and_outbox now rid n q d db = Inr db' \<Longrightarrow> related att db db'"
  by (rule related_rows) (auto simp: create_attempt_and_outbox_def Let_def split: if_splits)

text \<open>The same, read backwards through a transaction.\<close>

lemma history_update_runs:
  "related att db d \<Longrightarrow> (\<And>r. p r \<Longrightarrow> run_advances r (f r)) \<Longrightarrow> related att db (update_runs p f d)"
  by (blast intro: related_trans related_update_runs)

lemma history_update_attempts:
  "related att db d \<Longrightarrow> (\<And>a. p a \<Longrightarrow> attempt_advances a (f a) \<and> att_status a \<noteq> Queued \<and>
     (att_status a = Running \<or> att_status (f a) \<noteq> Running)) \<Longrightarrow> related att db (update_attempts p f d)"
  by (blast intro: related_trans related_update_attempts att_step)

lemma history_update_outbox:
  "related att db d \<Longrightarrow> (\<And>x. p x \<Longrightarrow> message_advances x (f x)) \<Longrightarrow> related att db (update_outbox p f d)"
  by (blast intro: related_trans related_update_outbox)

lemma history_insert_run_event: "related att db d \<Longrightarrow> related att db (insert_run_event now rid t d)"
  by (blast intro: related_trans related_insert_run_event)

lemmas history_intros = history_update_runs history_update_attempts history_update_outbox history_insert_run_event related_refl

text \<open>The transactions.\<close>

lemma fold_result_history:
  assumes "\<And>r d d'. f r d = Inr d' \<Longrightarrow> related att d d'" "fold_result f rs db = Inr db'"
  shows "related att db db'"
  using assms(2)
proof (induction rs arbitrary: db)
  case (Cons r rs)
  then show ?case using assms(1) related_trans by fastforce
qed simp

lemma create_normal_run_history: "create_normal_run now p db = Inr db' \<Longrightarrow> related att db db'"
  unfolding create_normal_run_def
  by (elim and_thenE) (auto intro!: history_insert_run_event elim: related_trans [OF related_insert_run related_create_attempt])

lemma create_normal_runs_history: "create_normal_runs now ps db = Inr db' \<Longrightarrow> related att db db'"
proof (induction now ps db rule: create_normal_runs.induct)
  case (2 now p ps db)
  then obtain db1 where "create_normal_run now p db = Inr db1" "create_normal_runs now ps db1 = Inr db'" by auto
  then show ?case using 2(1) create_normal_run_history related_trans by blast
qed simp

lemma related_tables:
  "db_runs db' = db_runs db \<Longrightarrow> db_attempts db' = db_attempts db \<Longrightarrow> db_outbox db' = db_outbox db \<Longrightarrow> related att db db'"
  by (rule related_rows) simp_all

lemma create_runs_history:
  assumes "create_runs encode jeq now rid jid target inputs db = Inr (db', res)"
  shows "related att db db'"
proof (cases "find_run_request db rid")
  case (Some e)
  then show ?thesis using assms by (auto simp: create_runs_def)
next
  case None
  then obtain ps n req where "create_normal_runs now ps (db\<lparr> db_next_id := n, db_requests := db_requests db @ [req] \<rparr>) = Inr db'"
    using assms by (auto simp: create_runs_def Let_def)
  then have "related att (db\<lparr> db_next_id := n, db_requests := db_requests db @ [req] \<rparr>) db'" by (rule create_normal_runs_history)
  then show ?thesis by (rule related_trans [OF related_tables, rotated 3]) simp_all
qed

lemma insert_rerun_history:
  assumes "insert_rerun now src rid db = Inr (db', res)"
  shows "related att db db'"
  using assms unfolding insert_rerun_def
proof (elim and_thenE, goal_cases)
  case (1 existing)
  show ?case
  proof (cases existing)
    case (Some run)
    then show ?thesis using 1 by simp
  next
    case None
    then obtain n req r db2 q db3 where steps: "insert_run r (db\<lparr> db_next_id := n, db_requests := db_requests db @ [req] \<rparr>) = Inr db2"
        "create_attempt_and_outbox now (db_next_id db) 1 q None db2 = Inr db3"
        "db' = insert_run_event now (db_next_id db) ''created'' db3"
      using 1 by (auto simp: Let_def case_prod_unfold simp del: and_then_Ok elim!: and_thenE)
    have "related att db (db\<lparr> db_next_id := n, db_requests := db_requests db @ [req] \<rparr>)" by (rule related_tables) simp_all
    also have "related att \<dots> db2" using steps(1) by (rule related_insert_run)
    also have "related att \<dots> db3" using steps(2) by (rule related_create_attempt)
    also have "related att \<dots> db'" unfolding steps(3) by (rule related_insert_run_event)
    finally show ?thesis .
  qed
qed

lemma insert_scheduled_occurrence_history:
  assumes "insert_scheduled_occurrence encode now sid occ e si ii db = Inr db'"
  shows "related att db db'"
  using assms
proof (cases rule: insert_scheduled_occurrence_cases)
  case (inserted r db1 db2)
  have "related att db (db\<lparr> db_next_id := db_next_id db + 1 \<rparr>)" by (rule related_tables) simp_all
  also have "related att \<dots> db1" using inserted(1) by (rule related_insert_run)
  also have "related att \<dots> db2" using inserted(7) related_create_attempt by auto
  also have "related att \<dots> db'" by (rule related_tables) (simp_all add: inserted)
  finally show ?thesis .
qed (simp add: related_tables)

lemma insert_occurrence_executions_history:
  "insert_occurrence_executions encode now sid occ es si ii db = Inr db' \<Longrightarrow> related att db db'"
  by (induction es arbitrary: db)
    (auto elim!: and_thenE simp del: and_then_Ok intro: related_trans insert_scheduled_occurrence_history)

lemma insert_occurrences_history:
  "insert_occurrences encode now sid occs es si ii db = Inr db' \<Longrightarrow> related att db db'"
  by (induction occs arbitrary: db)
    (auto elim!: and_thenE simp del: and_then_Ok intro: related_trans insert_occurrence_executions_history)

lemma commit_schedule_plan_history:
  assumes "commit_schedule_plan encode now p db = Inr (db', u)"
  shows "related att db db'"
  using assms
proof (cases rule: commit_schedule_plan_cases)
  case (1 row es si db1)
  have "related att db1 db'" by (rule related_tables) (simp_all add: 1)
  then show ?thesis using insert_occurrences_history [OF 1(5)] related_trans by blast
qed

lemma mark_published_history:
  assumes "mark_published now owner rec seq db = Inr (db', u)"
  shows "related att db db'"
proof -
  define mine :: "OutboxRow \<Rightarrow> bool" where "mine = (\<lambda>o'. ob_id o' = rec_id rec \<and> ob_run_id o' = rec_run_id rec \<and>
                 ob_claimed_by o' = Some owner \<and> ob_published_at o' = None)"
  have db': "db' = insert_run_event now (rec_run_id rec) ''queued''
       (update_runs (\<lambda>r. run_id r = rec_run_id rec \<and> run_status r = PendingDispatch)
          (\<lambda>r. r\<lparr> run_status := Queued, run_queued_at := Some now \<rparr>)
       (update_attempts (\<lambda>a. att_id a = rec_attempt_id rec \<and> att_status a = PendingDispatch)
          (\<lambda>a. a\<lparr> att_status := Queued \<rparr>) (update_outbox mine
          (\<lambda>o'. o'\<lparr> ob_published_at := Some now, ob_stream_sequence := Some seq, ob_claimed_by := None,
                  ob_claim_expires_at := None, ob_last_error := None \<rparr>) db)))"
    using assms unfolding mark_published_def mine_def Let_def by (auto split: if_splits)
  show ?thesis
    unfolding db'
    by (intro history_intros) (auto simp: history_simps mine_def)
qed

lemma claim_outbox_history:
  assumes "claim_outbox now locked owner n l db = Inr (db', res)"
  shows "related att db db'"
  using assms unfolding claim_outbox_def Let_def
  by (elim and_thenE) (auto simp: history_simps intro!: related_update_outbox)

lemma record_publish_failure_history:
  "record_publish_failure owner i m t db = Inr (db', u) \<Longrightarrow> related att db db'"
  by (auto simp: record_publish_failure_def history_simps intro!: related_update_outbox)

lemma renew_lease_history: "renew_lease now aid wid db = Inr (db', res) \<Longrightarrow> related att db db'"
  by (auto simp: renew_lease_def holds_lease_def history_simps intro!: related_update_attempts att_step split: if_splits)

lemma record_attempt_output_history: "record_attempt_output now req db = Inr (db', res) \<Longrightarrow> related att db db'"
  by (auto simp: record_attempt_output_def Let_def holds_lease_def history_simps intro!: related_update_attempts att_step
      split: if_splits)

lemma complete_attempt_history:
  assumes "complete_attempt delay now utc req db = Inr (db', res)"
  shows "related att db db'"
  using assms
proof (cases rule: complete_attempt_cases)
  case (completed a r retry)
  show ?thesis
    unfolding completed(8) Let_def
    by (intro history_intros) (auto simp: history_simps holds_lease_def completion_status_def)
qed simp

lemma expire_dispatch_history: "related att db (expire_dispatch now x db)"
  unfolding expire_dispatch_def
  by (intro history_intros) (auto simp: history_simps)

lemma fold_history:
  assumes "\<And>x d. related att d (f x d)"
  shows "related att db (fold f xs db)"
  by (induction xs arbitrary: db) (auto intro: related_trans assms)

lemma next_attempt_history:
  assumes "next_attempt_run S (run_id r) (run_attempt_count r + 1) db = Inr db1" "\<not> run_is_terminal S"
    and "\<And>s. s \<in> set (db_runs db) \<Longrightarrow> run_id s = run_id r \<Longrightarrow> s = r"
  shows "related att db db1"
proof -
  from assms(1) have db1: "db1 = update_runs (\<lambda>s. run_id s = run_id r \<and> run_status s = S)
      (\<lambda>s. s\<lparr> run_status := PendingDispatch, run_attempt_count := run_attempt_count r + 1,
              run_next_retry_at := None, run_started_at := None \<rparr>) db"
    by (auto simp: next_attempt_run_def Let_def split: if_splits)
  show ?thesis
    unfolding db1
  proof (rule related_update_runs)
    fix s assume "s \<in> set (db_runs db)" "run_id s = run_id r \<and> run_status s = S"
    then have "s = r" "run_status r = S" using assms(3) by auto
    then show "run_advances s (s\<lparr> run_status := PendingDispatch, run_attempt_count := run_attempt_count r + 1,
              run_next_retry_at := None, run_started_at := None \<rparr>)"
      using assms(2) by (simp add: run_advances_def)
  qed
qed

lemma dispatch_retry_history:
  assumes inv: "run_inv db" and r: "r \<in> set (db_runs db)" and step: "dispatch_retry now r db = Inr db'"
  shows "related att db db'"
proof -
  from step obtain q db1 where steps: "next_attempt_run RetryWait (run_id r) (run_attempt_count r + 1) db = Inr db1"
      "create_attempt_and_outbox now (run_id r) (run_attempt_count r + 1) q None db1 = Inr db'"
    by (auto simp: dispatch_retry_def)
  have "related att db db1"
    by (rule next_attempt_history [OF steps(1)])
      (use inv run_by_key r in \<open>auto simp: run_inv_except_def run_is_terminal_def\<close>)
  then show ?thesis using related_create_attempt [OF steps(2)] by (rule related_trans)
qed

lemma expire_lease_history:
  assumes inv: "run_inv db" and r: "r \<in> set (db_runs db)" and step: "expire_lease now (a, r) db = Inr db'"
  shows "related att db db'"
proof -
  have d: "related att db (abandon_attempt now (att_id a) q db)" for q
    unfolding abandon_attempt_def by (intro history_intros) (auto simp: history_simps)
  from step show ?thesis
  proof (cases rule: expire_lease_cases)
    case (again q db2)
    have "related att (abandon_attempt now (att_id a) True db) db2"
      by (rule next_attempt_history [OF again(2)])
        (use inv run_by_key r in \<open>auto simp: abandon_attempt_def run_inv_except_def run_is_terminal_def\<close>)
    then show ?thesis using related_create_attempt [OF again(3)] d related_trans by blast
  next
    case lost
    then show ?thesis using d by (auto simp: lose_run_def history_simps intro!: history_update_runs)
  qed
qed

lemma reconcile_runs_history:
  assumes inv: "run_inv db" and step: "reconcile_runs now locked wlocked limit db = Inr (db', n)"
  shows "related att db db'"
  using step
proof (cases rule: reconcile_runs_parts)
  case (1 db1 n1 db2 n2 db3 n3)
  have inv1: "run_inv db1" using reconcile_expired_dispatches_inv [OF inv] 1(1) by (metis fst_conv)
  have "db1 = fst (reconcile_expired_dispatches now locked limit db)" by (simp add: 1(1))
  then have "related att db db1"
    by (simp add: reconcile_expired_dispatches_def Let_def fold_history expire_dispatch_history)
  moreover have "run_inv db2 \<and> related att db1 db2"
    using inv1 related_refl 1(2) by (rule reconcile_due_retries_rule) (blast intro: related_trans dispatch_retry_history)
  moreover have "related att db2 db3"
    using reconcile_expired_leases_rule [where J = "related att db2", OF _ related_refl 1(3)] calculation(2)
    by (blast intro: related_trans expire_lease_history)
  moreover have "related att db3 db'"
    unfolding 1(4) release_expired_claims_def
    by (intro history_intros related_tables) (simp_all add: remove_expired_worker_presence_def Let_def message_advances_def)
  ultimately show ?thesis using related_trans by blast
qed

end

text \<open>Every transaction advances the tables; all but a claim leave a queued Attempt as it is and start none.\<close>

interpretation adv: history attempt_advances
  by unfold_locales (auto intro: attempt_advances_trans)

interpretation wait: history attempt_waits
proof
  show "attempt_waits a c" if "attempt_waits a b" "attempt_waits b c" for a b c
    using that attempt_advances_trans [of a b c] unfolding attempt_waits_def by metis
qed (auto simp: attempt_waits_def)

lemma waits_queued: "waits db db' \<Longrightarrow> a \<in> set (db_attempts db) \<Longrightarrow> att_status a = Queued \<Longrightarrow> a \<in> set (db_attempts db')"
  by (auto simp: related_def attempt_waits_def)

lemma claim_attempt_advances:
  assumes "claim_attempt now req db = (db', res)"
  shows "advances db db'"
  using assms
proof (cases rule: claim_attempt_cases)
  case (claimed a r)
  note c = this
  have "advances db (update_attempts (\<lambda>b. att_id b = cr_attempt_id req \<and> att_run_id b = cr_run_id req \<and> att_status b = Queued \<and>
          (\<exists>r \<in> set (db_runs db). run_id r = att_run_id b \<and> run_queue_id r = cr_queue_id req))
        (\<lambda>a. a\<lparr> att_status := Running, att_worker_id := Some (cr_worker_id req), att_started_at := Some now,
                att_heartbeat_at := Some now, att_lease_expires_at := Some (now + 60 * second) \<rparr>) db)" (is "advances db ?d")
    by (rule adv.related_update_attempts) (auto simp: history_simps)
  also have "advances ?d (update_runs (\<lambda>r. run_id r = att_run_id a \<and> run_status r = Queued)
        (\<lambda>r. r\<lparr> run_status := Running,
               run_started_at := (case run_started_at r of None \<Rightarrow> Some now | Some t \<Rightarrow> Some t) \<rparr>) ?d)" (is "advances ?d ?e")
    by (rule adv.related_update_runs) (auto simp: history_simps)
  also have "advances ?e db'" by (rule adv.related_tables) (simp_all add: c(9-11))
  finally show ?thesis .
qed simp_all

end
