(* ===== verification/StoreSteps.thy ===== *)
theory StoreSteps
  imports WorkflowLaunch RunHistory
begin

text \<open>
  The two halves of the store meet: the Run transactions leave the Workflow tables alone, and the
  Workflow transactions only move Runs forward.  The transactions of the store are the rules of the
  step relation \<open>db_step\<close>, which keeps both invariants and the order of histories.
\<close>

section \<open>Run transactions and the Workflow tables\<close>

definition wf_frame :: "Db \<Rightarrow> Db \<Rightarrow> bool" where
  "wf_frame db db' \<longleftrightarrow> db_node_runs db' = db_node_runs db \<and> db_run_edges db' = db_run_edges db \<and>
     db_workflow_runs db' = db_workflow_runs db \<and> db_node_executions db' = db_node_executions db \<and>
     db_next_id db \<le> db_next_id db'"

lemma wf_frame_refl [simp]: "wf_frame db db"
  by (simp add: wf_frame_def)

lemma wf_frame_trans [trans]: "wf_frame a b \<Longrightarrow> wf_frame b c \<Longrightarrow> wf_frame a c"
  by (auto simp: wf_frame_def)

lemma wf_frame_inv:
  assumes "wf_inv db" "wf_frame db db'"
  shows "wf_inv db'"
proof -
  have inv: "wf_core db" "quiet db {}" using assms(1) by (simp_all add: wf_inv_def)
  note frame = assms(2) [unfolded wf_frame_def]
  have "wf_core db'" by (rule wf_core_cong [OF inv(1)]) (simp_all only: frame)
  moreover have "quiet db' {}"
    by (rule quiet_cong [OF inv(2)]) (simp_all only: frame open_run_def)
  ultimately show ?thesis by (simp add: wf_inv_def)
qed

text \<open>The row operations, read backwards through a transaction.\<close>

lemma wf_frame_simps [simp]:
  "wf_frame db (update_runs p f d) = wf_frame db d"
  "wf_frame db (update_attempts p' f' d) = wf_frame db d"
  "wf_frame db (update_outbox p'' f'' d) = wf_frame db d"
  "wf_frame db (insert_run_event now rid t d) = wf_frame db d"
  by (simp_all add: wf_frame_def) (simp_all add: update_attempts_def update_outbox_def insert_run_event_def)

lemma wf_frame_tables:
  "db_node_runs db' = db_node_runs db \<Longrightarrow> db_run_edges db' = db_run_edges db \<Longrightarrow> db_workflow_runs db' = db_workflow_runs db \<Longrightarrow>
   db_node_executions db' = db_node_executions db \<Longrightarrow> db_next_id db \<le> db_next_id db' \<Longrightarrow> wf_frame db db'"
  by (simp add: wf_frame_def)

lemma insert_run_wf: "insert_run r db = Inr db' \<Longrightarrow> wf_frame db db'"
  by (auto simp: insert_run_def wf_frame_def split: if_splits)

lemma create_attempt_wf: "create_attempt_and_outbox now rid n q d db = Inr db' \<Longrightarrow> wf_frame db db'"
  by (auto simp: create_attempt_and_outbox_def Let_def wf_frame_def split: if_splits)

lemma create_normal_run_wf: "create_normal_run now p db = Inr db' \<Longrightarrow> wf_frame db db'"
  unfolding create_normal_run_def
  by (elim and_thenE) (auto intro: wf_frame_trans [OF insert_run_wf create_attempt_wf])

lemma create_normal_runs_wf: "create_normal_runs now ps db = Inr db' \<Longrightarrow> wf_frame db db'"
  by (induction now ps db rule: create_normal_runs.induct) (auto intro: wf_frame_trans create_normal_run_wf)

lemma create_runs_wf:
  assumes "create_runs encode jeq now rid jid target inputs db = Inr (db', res)"
  shows "wf_frame db db'"
proof (cases "find_run_request db rid")
  case (Some e)
  then show ?thesis using assms by (auto simp: create_runs_def)
next
  case None
  then obtain ps n req where "create_normal_runs now ps (db\<lparr> db_next_id := db_next_id db + n, db_requests := db_requests db @ [req] \<rparr>) = Inr db'"
    using assms by (auto simp: create_runs_def Let_def)
  then have "wf_frame (db\<lparr> db_next_id := db_next_id db + n, db_requests := db_requests db @ [req] \<rparr>) db'" by (rule create_normal_runs_wf)
  then show ?thesis by (rule wf_frame_trans [rotated]) (simp add: wf_frame_def)
qed

lemma insert_rerun_wf:
  assumes "insert_rerun now src rid db = Inr (db', res)"
  shows "wf_frame db db'"
  using assms unfolding insert_rerun_def
proof (elim and_thenE, goal_cases)
  case (1 existing)
  show ?case
  proof (cases existing)
    case (Some run)
    then show ?thesis using 1 by simp
  next
    case None
    then obtain req r db2 q db3 where steps: "insert_run r (db\<lparr> db_next_id := db_next_id db + 1, db_requests := db_requests db @ [req] \<rparr>) = Inr db2"
        "create_attempt_and_outbox now (db_next_id db) 1 q None db2 = Inr db3"
        "db' = insert_run_event now (db_next_id db) ''created'' db3"
      using 1 by (auto simp: Let_def case_prod_unfold simp del: and_then_Ok elim!: and_thenE)
    have "wf_frame db (db\<lparr> db_next_id := db_next_id db + 1, db_requests := db_requests db @ [req] \<rparr>)" by (simp add: wf_frame_def)
    also have "wf_frame \<dots> db2" using steps(1) by (rule insert_run_wf)
    also have "wf_frame \<dots> db3" using steps(2) by (rule create_attempt_wf)
    finally show ?thesis by (simp add: steps(3))
  qed
qed

lemma claim_due_schedules_wf: "claim_due_schedules now locked owner n l db = Inr (db', res) \<Longrightarrow> wf_frame db db'"
  by (auto simp: claim_due_schedules_def Let_def wf_frame_def)

lemma insert_scheduled_occurrence_wf:
  assumes "insert_scheduled_occurrence encode now sid occ e si ii db = Inr db'"
  shows "wf_frame db db'"
  using assms unfolding insert_scheduled_occurrence_def Let_def
  by (auto simp: wf_frame_def insert_run_def create_attempt_and_outbox_def Let_def insert_run_event_def
      simp del: and_then_Ok elim!: and_thenE split: if_splits option.splits sum.splits)

lemma insert_occurrences_wf:
  "insert_occurrences encode now sid occs es si ii db = Inr db' \<Longrightarrow> wf_frame db db'"
proof (induction occs arbitrary: db)
  case (Cons occ occs)
  have "insert_occurrence_executions encode now sid occ es si ii db = Inr db' \<Longrightarrow> wf_frame db db'" for db db'
    by (induction es arbitrary: db)
      (auto elim!: and_thenE simp del: and_then_Ok intro: wf_frame_trans insert_scheduled_occurrence_wf)
  then show ?case using Cons by (auto elim!: and_thenE simp del: and_then_Ok intro: wf_frame_trans)
qed simp

lemma commit_schedule_plan_wf: "commit_schedule_plan encode now p db = Inr (db', u) \<Longrightarrow> wf_frame db db'"
  unfolding commit_schedule_plan_def
  by (auto simp: wf_frame_def [of _ "_\<lparr> db_schedules := _ \<rparr>"] dest!: insert_occurrences_wf [unfolded wf_frame_def]
      simp: Let_def case_prod_unfold simp del: and_then_Ok elim!: and_thenE split: if_splits option.splits)

lemma claim_outbox_wf: "claim_outbox now locked owner n l db = Inr (db', res) \<Longrightarrow> wf_frame db db'"
  by (auto simp: claim_outbox_def Let_def)

lemma mark_published_wf: "mark_published now owner rec seq db = Inr (db', u) \<Longrightarrow> wf_frame db db'"
  by (auto simp: mark_published_def Let_def split: if_splits)

lemma record_publish_failure_wf: "record_publish_failure owner i m t db = Inr (db', u) \<Longrightarrow> wf_frame db db'"
  by (auto simp: record_publish_failure_def)

lemma claim_attempt_wf: "claim_attempt now req db = (db', res) \<Longrightarrow> wf_frame db db'"
  by (auto simp: claim_attempt_def Let_def split: if_splits option.splits StoredSnapshot.splits)

lemma renew_lease_wf: "renew_lease now aid wid db = Inr (db', res) \<Longrightarrow> wf_frame db db'"
  by (auto simp: renew_lease_def split: if_splits)

lemma record_attempt_output_wf: "record_attempt_output now req db = Inr (db', res) \<Longrightarrow> wf_frame db db'"
  by (auto simp: record_attempt_output_def Let_def split: if_splits)

lemma complete_attempt_wf: "complete_attempt delay now utc req db = Inr (db', res) \<Longrightarrow> wf_frame db db'"
  by (erule complete_attempt_cases) (simp_all add: Let_def)

lemma fold_result_wf:
  assumes "\<And>r d d'. f r d = Inr d' \<Longrightarrow> wf_frame d d'" "fold_result f rs db = Inr db'"
  shows "wf_frame db db'"
  using assms(2)
proof (induction rs arbitrary: db)
  case (Cons r rs)
  then show ?case using assms(1) wf_frame_trans by fastforce
qed simp

lemma fold_wf: "(\<And>x d. wf_frame d (f x d)) \<Longrightarrow> wf_frame db (fold f xs db)"
  by (induction xs arbitrary: db) (auto intro: wf_frame_trans)

lemma next_attempt_wf: "next_attempt_run S rid k db = Inr db' \<Longrightarrow> wf_frame db db'"
  by (auto simp: next_attempt_run_def Let_def split: if_splits)

lemma dispatch_retry_wf: "dispatch_retry now r db = Inr db' \<Longrightarrow> wf_frame db db'"
  by (auto simp: dispatch_retry_def simp del: and_then_Ok elim!: and_thenE
      intro: wf_frame_trans [OF next_attempt_wf create_attempt_wf])

lemma expire_lease_wf: "expire_lease now (a, r) db = Inr db' \<Longrightarrow> wf_frame db db'"
proof (erule expire_lease_cases)
  fix q db2
  assume "next_attempt_run Running (run_id r) (run_attempt_count r + 1) (abandon_attempt now (att_id a) True db) = Inr db2"
    and new: "create_attempt_and_outbox now (run_id r) (run_attempt_count r + 1) q None db2 = Inr db'"
  have "wf_frame db (abandon_attempt now (att_id a) True db)" by (simp add: abandon_attempt_def)
  also have "wf_frame \<dots> db2" by (rule next_attempt_wf) fact
  also have "wf_frame \<dots> db'" using new by (rule create_attempt_wf)
  finally show ?thesis .
qed (simp add: lose_run_def abandon_attempt_def)

lemma reconcile_runs_wf:
  assumes step: "reconcile_runs now locked wlocked limit db = Inr (db', n)"
  shows "wf_frame db db'"
  using step
proof (cases rule: reconcile_runs_parts)
  case (1 db1 n1 db2 n2 db3 n3)
  have "db1 = fst (reconcile_expired_dispatches now locked limit db)" by (simp add: 1(1))
  then have "wf_frame db db1"
    by (simp add: reconcile_expired_dispatches_def Let_def fold_wf expire_dispatch_def)
  also have "wf_frame db1 db2"
    using 1(2) by (auto simp: reconcile_due_retries_def Let_def intro: fold_result_wf [OF dispatch_retry_wf])
  also have "wf_frame db2 db3"
    using 1(3) by (auto simp: reconcile_expired_leases_def Let_def intro: fold_result_wf [where f = "expire_lease now"] expire_lease_wf)
  also have "wf_frame db3 db'"
    unfolding 1(4) release_expired_claims_def
    by (simp add: remove_expired_worker_presence_def Let_def) (simp add: wf_frame_def)
  finally show ?thesis .
qed

section \<open>Workflow transactions and the Run tables\<close>

context history
begin

lemma activate_executions_history: "activate_executions now nid jid es db = Inr db' \<Longrightarrow> related att db db'"
proof (induction es arbitrary: db)
  case (Cons e es)
  let ?u = "update_node_executions (\<lambda>x. ne_node_run_id x = nid \<and> ne_target_id x = ne_target_id e \<and> ne_run_id x = None)
          (\<lambda>x. x\<lparr> ne_run_id := Some (ne_prospective_run_id x) \<rparr>)"
  from Cons.prems obtain d p where d: "create_normal_run now p db = Inr d" "activate_executions now nid jid es (?u d) = Inr db'"
    by (auto elim: and_thenE)
  have "related att db d" using d(1) by (rule create_normal_run_history)
  also have "related att d (?u d)" by (rule related_tables) simp_all
  also have "related att (?u d) db'" using d(2) by (rule Cons.IH)
  finally show ?case .
qed simp

lemma activate_history:
  assumes "activate now nid db = Inr db'"
  shows "related att db db'"
  using assms
proof (cases rule: activate_cases)
  case (active n)
  have "related att db (update_node_runs p f db)" for p f by (rule related_tables) simp_all
  then show ?thesis using activate_executions_history [OF active(7)] related_trans by blast
qed simp

lemma propagate_history: "propagate now queue db = Inr db' \<Longrightarrow> related att db db'"
proof (induction now queue db rule: propagate.induct)
  case (2 now nid queue db)
  have skip: "related att db (skip_node now nid db)" by (rule related_tables) (simp_all add: skip_node_def)
  from 2(5) obtain act where act: "node_active db nid = Inr act" by (cases "node_active db nid") auto
  show ?case
  proof (cases act)
    case True
    show ?thesis
    proof (cases "dependency_decision (incoming db nid)")
      case DepReady
      then obtain d where "activate now nid db = Inr d" "propagate now queue d = Inr db'"
        using 2(5) act True by (auto split: sum.splits)
      then show ?thesis using 2(3) [OF act] True DepReady activate_history related_trans by blast
    next
      case DepSkipped
      then show ?thesis using 2(4) [OF act] 2(5) act True related_trans [OF skip] by simp
    qed (use 2(2) [OF act] 2(5) act True in simp)
  qed (use 2(1) [OF act] 2(5) act in simp)
qed simp

lemma complete_nodes_tables:
  "complete_nodes now nids downstream db = (db', out) \<Longrightarrow> db_runs db' = db_runs db \<and> db_attempts db' = db_attempts db \<and> db_outbox db' = db_outbox db"
proof (induction nids arbitrary: downstream db)
  case (Cons nid nids)
  obtain d changed where d: "complete_node now nid db = (d, changed)" by (cases "complete_node now nid db")
  then have "db_runs d = db_runs db \<and> db_attempts d = db_attempts db \<and> db_outbox d = db_outbox db"
    by (cases rule: complete_node_cases; simp)
  then show ?case using Cons d by auto
qed simp

lemma reconcile_invocation_history:
  assumes "reconcile_invocation now i db = Inr db'"
  shows "related att db db'"
proof -
  obtain d nids out e where d: "complete_nodes now nids [] db = (d, out)" and e: "propagate now out d = Inr e"
    and db': "db_runs db' = db_runs e" "db_attempts db' = db_attempts e" "db_outbox db' = db_outbox e"
    using assms unfolding reconcile_invocation_def Let_def
    by (auto simp: finish_def Let_def split: prod.splits)
  have "related att db d" using complete_nodes_tables [OF d] by (intro related_tables) simp_all
  also have "related att d e" using e by (rule propagate_history)
  also have "related att e db'" by (rule related_tables) (simp_all add: db')
  finally show ?thesis .
qed

lemma cancel_workflow_history: "cancel_workflow now i db = Inr (db', record) \<Longrightarrow> related att db db'"
  by (rule related_tables)
    (auto simp: cancel_workflow_def Let_def finish_def split: option.splits if_splits elim: and_thenE)

lemma activate_roots_history: "activate_roots now ids edges nodes db = Inr db' \<Longrightarrow> related att db db'"
proof (induction nodes arbitrary: db)
  case (Cons node nodes)
  show ?case
  proof (cases "\<exists>e \<in> set edges. we_to e = sn_name node")
    case False
    then obtain nid d where "activate now nid db = Inr d" "activate_roots now ids edges nodes d = Inr db'"
      using Cons.prems by (auto simp del: and_then_Ok elim!: and_thenE)
    then show ?thesis using Cons.IH activate_history related_trans by blast
  qed (use Cons in simp)
qed simp

lemma start_new_history:
  assumes "start_new encode sb now launch db = Inr (db', i)"
  shows "related att db db'"
proof -
  obtain d db1 db2 ids E where db1: "insert_invocation now launch d db = Inr (db1, i)"
    and db2: "prepare_nodes encode sb i (sw_namespace_id d) launch (sw_nodes d) 0 0 [] db1 = Inr (db2, ids)"
    and roots: "activate_roots now ids (sw_edges d) (sw_nodes d) (db2\<lparr> db_run_edges := db_run_edges db2 @ E \<rparr>) = Inr db'"
    using assms by (auto simp: start_new_def simp del: and_then_Ok elim!: and_thenE)
  have "db_runs db2 = db_runs db1 \<and> db_attempts db2 = db_attempts db1 \<and> db_outbox db2 = db_outbox db1"
    using prepare_nodes_spec [OF db2] by blast
  moreover have "db_runs db1 = db_runs db \<and> db_attempts db1 = db_attempts db \<and> db_outbox db1 = db_outbox db"
    using db1 by (auto simp: insert_invocation_def Let_def split: if_splits)
  ultimately have "related att db (db2\<lparr> db_run_edges := db_run_edges db2 @ E \<rparr>)" by (intro related_tables) simp_all
  then show ?thesis using activate_roots_history [OF roots] related_trans by blast
qed

lemma start_workflow_history:
  "start_workflow encode sb jeq now launch db = Inr (db', record, created) \<Longrightarrow> related att db db'"
  by (auto simp: start_workflow_def split: option.splits if_splits intro: start_new_history)

lemma claim_due_schedules_history: "claim_due_schedules now locked owner n l db = Inr (db', res) \<Longrightarrow> related att db db'"
  by (rule related_tables) (auto simp: claim_due_schedules_def Let_def)

end

section \<open>The step relation of the store\<close>

text \<open>The code the store relies on: the JSON encoder and its sizes, the equality of \<open>jsonb\<close>, and the retry delay.\<close>

record StoreEnv =
  env_encode :: "json \<Rightarrow> bytes option"
  env_snapshot_bytes :: "ExecutionSnapshot \<Rightarrow> nat option"
  env_jsonb_eq :: "json \<Rightarrow> json \<Rightarrow> bool"
  env_delay :: "RunRow \<Rightarrow> RetryRow \<Rightarrow> int"

inductive db_step :: "StoreEnv \<Rightarrow> Db \<Rightarrow> Db \<Rightarrow> bool" for E where
  create_runs: "create_runs (env_encode E) (env_jsonb_eq E) now rid jid target inputs db = Inr (db', res) \<Longrightarrow> db_step E db db'"
| rerun: "insert_rerun now src rid db = Inr (db', run) \<Longrightarrow> db_step E db db'"
| claim_schedules: "claim_due_schedules now locked owner limit lease db = Inr (db', scheds) \<Longrightarrow> db_step E db db'"
| commit_plan: "commit_schedule_plan (env_encode E) now planned db = Inr (db', u) \<Longrightarrow> db_step E db db'"
| renew: "renew_lease now aid wid db = Inr (db', renewed) \<Longrightarrow> db_step E db db'"
| live_output: "record_attempt_output now req db = Inr (db', recorded) \<Longrightarrow> db_step E db db'"
| complete: "complete_attempt (env_delay E) now utc result db = Inr (db', completed) \<Longrightarrow> db_step E db db'"
| reconcile_runs: "reconcile_runs now locked wlocked n db = Inr (db', repaired) \<Longrightarrow> db_step E db db'"
| reconcile_invocation: "reconcile_invocation now i db = Inr db' \<Longrightarrow> db_step E db db'"
| start_workflow: "start_workflow (env_encode E) (env_snapshot_bytes E) (env_jsonb_eq E) now launch db = Inr (db', record, created)
    \<Longrightarrow> db_step E db db'"
| cancel_workflow: "cancel_workflow now i db = Inr (db', record) \<Longrightarrow> db_step E db db'"

lemma db_step_inv:
  assumes "db_step E db db'" "run_inv db" "wf_inv db"
  shows "run_inv db' \<and> wf_inv db'"
  using assms
proof (induction rule: db_step.induct)
  case create_runs
  then show ?case by (meson create_runs_inv create_runs_wf wf_frame_inv)
next
  case rerun
  then show ?case by (meson insert_rerun_inv insert_rerun_wf wf_frame_inv)
next
  case claim_schedules
  then show ?case by (meson claim_due_schedules_inv claim_due_schedules_wf wf_frame_inv)
next
  case commit_plan
  then show ?case by (meson commit_schedule_plan_inv commit_schedule_plan_wf wf_frame_inv)
next
  case renew
  then show ?case by (meson renew_lease_inv renew_lease_wf wf_frame_inv)
next
  case live_output
  then show ?case by (meson record_attempt_output_inv record_attempt_output_wf wf_frame_inv)
next
  case complete
  then show ?case by (meson complete_attempt_inv complete_attempt_wf wf_frame_inv)
next
  case reconcile_runs
  then show ?case by (meson reconcile_runs_inv reconcile_runs_wf wf_frame_inv)
next
  case reconcile_invocation
  then show ?case using reconcile_invocation_inv by blast
next
  case start_workflow
  then show ?case using start_workflow_inv by blast
next
  case cancel_workflow
  then show ?case using cancel_workflow_inv by blast
qed

lemmas transaction_histories = wait.create_runs_history wait.insert_rerun_history wait.commit_schedule_plan_history
  wait.renew_lease_history wait.record_attempt_output_history wait.complete_attempt_history wait.reconcile_runs_history
  wait.reconcile_invocation_history wait.start_workflow_history wait.cancel_workflow_history wait.claim_due_schedules_history

lemma db_step_waits: "db_step E db db' \<Longrightarrow> run_inv db \<Longrightarrow> waits db db'"
  by (induction rule: db_step.induct) (blast intro: transaction_histories)+

lemma waits_advances: "waits db db' \<Longrightarrow> advances db db'"
  unfolding related_def attempt_waits_def by blast

lemma db_step_advances: "db_step E db db' \<Longrightarrow> run_inv db \<Longrightarrow> advances db db'"
  by (blast intro: waits_advances db_step_waits)

end
