(* ===== verification/Samples.thy ===== *)
theory Samples
  imports RunHistory
begin

text \<open>
  A small installation: one Namespace, Queue and Target, a Job that does nothing and may be retried
  once, and the states its first Run passes through.  The witnesses of the Run properties evaluate here.
\<close>

definition sample_job :: Job where
  "sample_job = \<lparr> job_id = 3, job_namespace_id = 1, job_name = ResourceName ''nightly'', job_executor = Noop, job_queue_id = 2,
     job_executable = None, job_shell_command = None, job_arguments = [], job_inputs = JObject [], job_idempotent = True,
     job_dry_run = False, job_max_attempts = 2, job_retry_initial_seconds = 1, job_retry_max_seconds = 10,
     job_retry_multiplier = F64 2, job_retry_jitter = F64 0, job_created_at = 0, job_updated_at = 0 \<rparr>"

definition sample_target :: Target where
  "sample_target = \<lparr> target_id = 4, target_namespace_id = 1, target_name = ResourceName ''host'', target_arguments = [],
     target_inputs = JObject [], target_created_at = 0, target_updated_at = 0 \<rparr>"

definition sample_queue :: Queue where
  "sample_queue = \<lparr> queue_id = 2, queue_name = QueueName ''default'', queue_description = None, queue_enabled = True,
     queue_system = True, queue_created_at = 0, queue_updated_at = 0 \<rparr>"

definition sample_db :: Db where
  "sample_db = \<lparr> db_namespaces = [], db_queues = [sample_queue], db_jobs = [sample_job], db_targets = [sample_target],
     db_target_sets = [], db_schedules = [], db_requests = [], db_runs = [], db_attempts = [], db_outbox = [],
     db_run_events = [], db_schedule_events = [], db_workers = [], db_workflows = [], db_workflow_runs = [],
     db_node_runs = [], db_run_edges = [], db_node_executions = [], db_completion_events = [], db_next_id = 10 \<rparr>"

definition sample_snapshot :: ExecutionSnapshot where
  "sample_snapshot = \<lparr> snap_executor = Noop, snap_executable = None, snap_shell_command = None, snap_argument_templates = [],
     snap_arguments = [], snap_inputs = JObject [], snap_job_id = Some 3, snap_trigger = Some TriggerManual,
     snap_scheduled_at = None, snap_idempotency_key = 10, snap_queue_id = 2, snap_queue = ''default'', snap_idempotent = True,
     snap_dry_run = False, snap_retry_initial_seconds = 1, snap_retry_max_seconds = 10, snap_retry_multiplier = F64 2,
     snap_retry_jitter = F64 0 \<rparr>"

definition sample_run :: "RunStatus \<Rightarrow> RunRow" where
  "sample_run s = \<lparr> run_id = 10, run_request_id = Some 9, run_rerun_of = None, run_schedule_id = None, run_job_id = 3,
     run_target_id = 4, run_queue_id = 2, run_scheduled_at = 0, run_status = s, run_snapshot = Rendered sample_snapshot,
     run_attempt_count = 1, run_max_attempts = 2, run_next_retry_at = None, run_lateness_seconds = 0,
     run_terminal_reason = None, run_created_at = 0, run_queued_at = None, run_started_at = None, run_completed_at = None \<rparr>"

definition sample_attempt :: "RunStatus \<Rightarrow> timestamp option \<Rightarrow> RunAttemptRow" where
  "sample_attempt s lease = \<lparr> att_id = 11, att_run_id = 10, att_attempt = 1, att_status = s,
     att_worker_id = (if lease = None then None else Some ''w''), att_started_at = None, att_heartbeat_at = None,
     att_lease_expires_at = lease, att_completed_at = None, att_exit_code = None, att_stdout_tail = None,
     att_stderr_tail = None, att_output_sequence = 0, att_error = None \<rparr>"

definition sample_message :: "timestamp option \<Rightarrow> OutboxRow" where
  "sample_message published = \<lparr> ob_id = 12, ob_run_id = 10, ob_attempt_id = 11, ob_subject = 2,
     ob_payload = \<lparr> env_dispatch_id = 12, env_run_id = 10, env_attempt_id = 11, env_queue_id = 2 \<rparr>,
     ob_dispatch_deadline = None, ob_attempt_count = 0, ob_next_attempt_at = 0, ob_claimed_by = None,
     ob_claim_expires_at = None, ob_last_error = None, ob_created_at = 0, ob_published_at = published, ob_cancelled_at = None,
     ob_stream_sequence = None \<rparr>"

definition sample_request :: RunRequestRow where
  "sample_request = \<lparr> rr_request_id = 9, rr_namespace_id = 1, rr_job_id = 3, rr_target_id = Some 4, rr_target_set_id = None,
     rr_inputs = JObject [] \<rparr>"

definition sample_state :: "RunStatus \<Rightarrow> timestamp option \<Rightarrow> timestamp option \<Rightarrow> Db" where
  "sample_state s lease published =
     sample_db\<lparr> db_next_id := 13, db_requests := [sample_request], db_runs := [sample_run s],
       db_attempts := [sample_attempt s lease], db_outbox := [sample_message published] \<rparr>"

abbreviation sample_pending :: Db where "sample_pending \<equiv> sample_state PendingDispatch None None"
abbreviation sample_queued :: Db where "sample_queued \<equiv> sample_state Queued None (Some 0)"
abbreviation sample_running :: Db where "sample_running \<equiv> sample_state Running (Some (60 * second)) (Some 0)"

lemmas sample_defs = sample_state_def sample_db_def sample_run_def sample_attempt_def sample_message_def sample_request_def
  sample_snapshot_def sample_job_def sample_target_def sample_queue_def

lemmas inv_defs = run_inv_except_def keys_ok_def bounds_ok_def fits_def lease_ok_def message_ok_def settled_def unsent_def

lemma sample_invs [simp]: "run_inv sample_pending" "run_inv sample_queued" "run_inv sample_running"
  by (simp_all add: sample_defs inv_defs)

definition sample_encode :: "json \<Rightarrow> bytes option" where
  "sample_encode v = Some ''{}''"

text \<open>The first manual request reaches exactly the pending state, apart from its event.\<close>

lemma sample_created:
  "create_runs sample_encode (=) 0 9 3 (SelectTarget 4) (JObject []) sample_db =
     Inr (insert_run_event 0 10 ''created'' sample_pending, [sample_run PendingDispatch], True)"
proof -
  let ?e = "\<lparr> ex_namespace_id = 1, ex_job_id = 3, ex_target_id = 4, ex_executor = ''noop'', ex_queue_id = 2,
      ex_queue_name = ''default'', ex_executable = None, ex_shell_command = None, ex_job_arguments = [],
      ex_target_arguments = [], ex_job_inputs = JObject [], ex_target_inputs = JObject [], ex_idempotent = True,
      ex_dry_run = False, ex_max_attempts = 2, ex_retry_initial_seconds = 1, ex_retry_max_seconds = 10,
      ex_retry_multiplier = F64 2, ex_retry_jitter = F64 0 \<rparr>"
  have load: "load_selection_executions sample_db 3 (SelectTarget 4) = Inr ([?e], None)"
    by (simp add: load_selection_executions_def load_execution_ids_def sample_defs executor_name_def)
  have valid: "validate_inputs sample_encode (JObject []) = Inr ()"
    by (simp add: validate_inputs_def sample_encode_def MAX_INPUT_BYTES_def)
  have "merge_inputs sample_encode [JObject [], JObject [], JObject [], JObject []] = Inr (JObject [])"
    by (simp add: merge_inputs_def validate_inputs_def sample_encode_def MAX_INPUT_BYTES_def)
  then have "execution_snapshot_with_inputs sample_encode 10 ?e None (JObject []) TriggerManual None = Inr sample_snapshot"
    by (simp add: execution_snapshot_with_inputs_def execution_layers_def empty_object_def render_arguments_def
        parse_executor_def ensure_def valid sample_snapshot_def)
  then show ?thesis
    by (simp add: create_runs_def find_run_request_def load [unfolded sample_db_def] first_namespace_def prepared_run_def selection_ids_def
        Let_def create_normal_run_def insert_run_def create_attempt_and_outbox_def normal_run_def insert_run_event_def
        runs_for_request_def sample_state_def sample_run_def sample_attempt_def sample_message_def sample_request_def
        sample_db_def del: and_then_Ok)
qed

end
