(* ===== verification/Dispatcher.thy ===== *)
theory Dispatcher
  imports Samples
begin

text \<open>
  The outbox publisher (\<open>infrastructure/dispatcher.rs\<close>): its configuration, the backoff of a failed
  publication and one batch.  The stream that persists a message is outside the repository and enters
  as the function \<open>publish\<close>, which answers with a sequence number or an error.
\<close>

section \<open>Configuration\<close>

datatype ConfigError = InvalidVariable bytes | OutsideSafeBounds

text \<open>\<open>FromStr\<close> of the unsigned integers: an optional plus sign, then digits, within the width.\<close>

definition is_digit :: "char \<Rightarrow> bool" where
  "is_digit c \<longleftrightarrow> CHR ''0'' \<le> c \<and> c \<le> CHR ''9''"

definition parse_unsigned :: "int \<Rightarrow> bytes \<Rightarrow> int option" where
  "parse_unsigned bound s =
     (let digits = (case s of [] \<Rightarrow> [] | c # cs \<Rightarrow> if c = CHR ''+'' then cs else s);
          n = foldl (\<lambda>n c. 10 * n + int (of_char c) - 48) 0 digits in
      if digits = [] \<or> \<not> list_all is_digit digits \<or> bound < n then None else Some n)"

text \<open>The environment maps a variable to its value when that is valid Unicode.\<close>

type_synonym environment = "bytes \<Rightarrow> bytes option"

definition env_value :: "environment \<Rightarrow> int \<Rightarrow> bytes \<Rightarrow> int \<Rightarrow> (ConfigError, int) result" where
  "env_value env bound name fallback =
     (case env name of None \<Rightarrow> Ok fallback | Some v \<Rightarrow> ok_or (InvalidVariable name) (parse_unsigned bound v))"

text \<open>Durations are kept in the unit they are configured in: seconds for the lease, milliseconds for the backoff.\<close>

record DispatcherConfig =
  batch_size :: int
  max_in_flight :: int
  claim_lease :: int
  retry_initial :: int
  retry_max :: int

definition DispatcherConfig_default :: DispatcherConfig where
  "DispatcherConfig_default =
     \<lparr> batch_size = 100, max_in_flight = 32, claim_lease = 60, retry_initial = 1000, retry_max = 60000 \<rparr>"

definition from_env :: "environment \<Rightarrow> (ConfigError, DispatcherConfig) result" where
  "from_env env =
     (let defaults = DispatcherConfig_default in
      and_then (env_value env u16_max ''CRONO_OUTBOX_BATCH_SIZE'' (batch_size defaults)) (\<lambda>batch.
      and_then (env_value env u64_max ''CRONO_OUTBOX_MAX_IN_FLIGHT'' (max_in_flight defaults)) (\<lambda>in_flight.
      and_then (env_value env u64_max ''CRONO_OUTBOX_CLAIM_LEASE_SECONDS'' (claim_lease defaults)) (\<lambda>lease.
      and_then (env_value env u64_max ''CRONO_OUTBOX_RETRY_INITIAL_MS'' (retry_initial defaults)) (\<lambda>initial.
      and_then (env_value env u64_max ''CRONO_OUTBOX_RETRY_MAX_MS'' (retry_max defaults)) (\<lambda>maximum.
      if \<not> (1 \<le> batch \<and> batch \<le> 1000) \<or> \<not> (1 \<le> in_flight \<and> in_flight \<le> 1024) \<or> \<not> (10 \<le> lease \<and> lease \<le> 600) \<or>
         \<not> (100 \<le> initial \<and> initial \<le> 60000) \<or> maximum < initial \<or> maximum > 3600000
      then Err OutsideSafeBounds
      else Ok \<lparr> batch_size = batch, max_in_flight = in_flight, claim_lease = lease, retry_initial = initial,
                retry_max = maximum \<rparr>))))))"

section \<open>Backoff\<close>

text \<open>Division truncates towards zero; arithmetic that leaves \<open>i64\<close> and an empty clamp panic, which is \<open>None\<close>.\<close>

definition trunc_div :: "int \<Rightarrow> int \<Rightarrow> int" where
  "trunc_div a b = sgn a * (\<bar>a\<bar> div b)"

definition i64_checked :: "int \<Rightarrow> int option" where
  "i64_checked x = (if - i64_max - 1 \<le> x \<and> x \<le> i64_max then Some x else None)"

definition i64_saturating :: "int \<Rightarrow> int" where
  "i64_saturating x = max (- i64_max - 1) (min i64_max x)"

definition narrow :: "int \<Rightarrow> int \<Rightarrow> int \<Rightarrow> int" where
  "narrow bound x fallback = (if x \<le> bound then x else fallback)"

definition clamp :: "int \<Rightarrow> int \<Rightarrow> int \<Rightarrow> int option" where
  "clamp x minimum maximum = (if maximum < minimum then None else Some (max minimum (min maximum x)))"

definition retry_delay_dispatch :: "OutboxRecord \<Rightarrow> DispatcherConfig \<Rightarrow> int option" where
  "retry_delay_dispatch record config =
     (let multiplier = 2 ^ nat (min (rec_attempt_count record) 6);
          base = min (min (narrow u64_max (retry_initial config) 1000 * multiplier) u64_max)
                   (narrow u64_max (retry_max config) 60000);
          jitter_seed = int (rec_id record mod 256);
          jitter_percent = jitter_seed mod 41 - 20;
          millis = narrow i64_max base 60000;
          jitter = trunc_div (i64_saturating (millis * jitter_percent)) 100 in
      Option.bind (i64_checked (narrow i64_max (retry_initial config) 1000 * 4)) (\<lambda>m4.
      Option.bind (i64_checked (millis + jitter)) (\<lambda>delay.
      clamp delay (trunc_div m4 5) (narrow i64_max (retry_max config) 60000))))"

section \<open>Publication\<close>

abbreviation millisecond :: timestamp where "millisecond \<equiv> 1000000"

text \<open>
  Failures of the store are logged and leave its state; \<open>now\<close> is the clock of the database and \<open>utc\<close>
  the clock of the process.
\<close>

definition publish_one ::
  "timestamp \<Rightarrow> timestamp \<Rightarrow> (OutboxRecord \<Rightarrow> (bytes, int) result) \<Rightarrow> uuid \<Rightarrow> DispatcherConfig \<Rightarrow> OutboxRecord \<Rightarrow> Db \<Rightarrow> Db option" where
  "publish_one now utc publish owner config record db =
     (case publish record of
        Inr sequence \<Rightarrow>
          (case mark_published now owner record sequence db of Inr (db', _) \<Rightarrow> Some db' | Inl _ \<Rightarrow> Some db)
      | Inl publish_error \<Rightarrow>
          Option.bind (retry_delay_dispatch record config) (\<lambda>delay.
          (case record_publish_failure owner (rec_id record) publish_error (utc + delay * millisecond) db of
             Inr (db', _) \<Rightarrow> Some db' | Inl _ \<Rightarrow> Some db)))"

fun publish_all ::
  "timestamp \<Rightarrow> timestamp \<Rightarrow> (OutboxRecord \<Rightarrow> (bytes, int) result) \<Rightarrow> uuid \<Rightarrow> DispatcherConfig \<Rightarrow> OutboxRecord list \<Rightarrow> Db \<Rightarrow> Db option" where
  "publish_all now utc publish owner config [] db = Some db"
| "publish_all now utc publish owner config (record # records) db =
     Option.bind (publish_one now utc publish owner config record db) (publish_all now utc publish owner config records)"

text \<open>One batch; its records are published in the order in which their publications finish, here the claimed one.\<close>

definition dispatch_batch ::
  "timestamp \<Rightarrow> timestamp \<Rightarrow> (uuid \<Rightarrow> bool) \<Rightarrow> (OutboxRecord \<Rightarrow> (bytes, int) result) \<Rightarrow> uuid \<Rightarrow> DispatcherConfig \<Rightarrow> Db \<Rightarrow> Db option" where
  "dispatch_batch now utc locked publish owner config db =
     (case claim_outbox now locked owner (nat (batch_size config)) (claim_lease config) db of
        Inl _ \<Rightarrow> Some db
      | Inr (db', records) \<Rightarrow> publish_all now utc publish owner config records db')"

section \<open>The backoff is bounded and grows\<close>

lemma from_env_bounds:
  assumes "from_env env = Inr config"
  shows "1 \<le> batch_size config" "batch_size config \<le> 1000" "10 \<le> claim_lease config" "claim_lease config \<le> 600"
    "100 \<le> retry_initial config" "retry_initial config \<le> 60000"
    "retry_initial config \<le> retry_max config" "retry_max config \<le> 3600000"
proof -
  obtain batch in_flight lease initial maximum where
    c: "(if \<not> (1 \<le> batch \<and> batch \<le> 1000) \<or> \<not> (1 \<le> in_flight \<and> in_flight \<le> 1024) \<or> \<not> (10 \<le> lease \<and> lease \<le> 600) \<or>
         \<not> (100 \<le> initial \<and> initial \<le> 60000) \<or> maximum < initial \<or> maximum > 3600000
      then Err OutsideSafeBounds
      else Ok \<lparr> batch_size = batch, max_in_flight = in_flight, claim_lease = lease, retry_initial = initial,
                retry_max = maximum \<rparr>) = Inr config"
    using assms unfolding from_env_def Let_def by (elim and_thenE)
  then show "1 \<le> batch_size config" "batch_size config \<le> 1000" "10 \<le> claim_lease config" "claim_lease config \<le> 600"
    "100 \<le> retry_initial config" "retry_initial config \<le> 60000"
    "retry_initial config \<le> retry_max config" "retry_max config \<le> 3600000"
    by (auto split: if_splits)
qed

lemma trunc_div_percent_mono:
  assumes "0 \<le> m" "m \<le> m'" "- 20 \<le> p" "p \<le> (20::int)"
  shows "m + trunc_div (m * p) 100 \<le> m' + trunc_div (m' * p) 100"
proof (cases "0 \<le> p")
  case True
  then have "trunc_div (k * p) 100 = k * p div 100" if "0 \<le> k" for k
    using that mult_nonneg_nonneg [OF that True] by (cases "k * p = 0") (auto simp: trunc_div_def sgn_if)
  then show ?thesis using assms True by (simp add: add_mono zdiv_mono1 mult_right_mono)
next
  case False
  define q where "q = - p"
  have q: "0 < q" "q \<le> 20" using False assms by (simp_all add: q_def)
  have t: "trunc_div (k * p) 100 = - (k * q div 100)" if "0 \<le> k" for k
    using that False mult_pos_neg [of k p] by (cases "k = 0") (simp_all add: trunc_div_def q_def)
  have "m' * q \<le> m * q + (m' - m) * 100"
    using mult_mono [of "m' - m" "m' - m" q 100] q assms by (simp add: algebra_simps)
  then have "m' * q div 100 \<le> (m * q + (m' - m) * 100) div 100" by (rule zdiv_mono1) simp
  also have "\<dots> = m * q div 100 + (m' - m)" by simp
  finally show ?thesis using t assms by simp
qed

text \<open>Under a checked configuration no step of the computation saturates, falls back or panics.\<close>

lemma retry_delay_checked:
  assumes "from_env env = Inr config" "0 \<le> rec_attempt_count record"
  defines "base \<equiv> min (retry_initial config * 2 ^ nat (min (rec_attempt_count record) 6)) (retry_max config)"
    and "percent \<equiv> int (rec_id record mod 256) mod 41 - 20"
  shows "retry_delay_dispatch record config =
    Some (max (retry_initial config * 4 div 5) (min (retry_max config) (base + trunc_div (base * percent) 100)))"
proof -
  note b = from_env_bounds [OF assms(1)]
  have "(2::int) ^ nat (min (rec_attempt_count record) 6) \<le> 2 ^ 6" by (rule power_increasing) auto
  then have "retry_initial config * 2 ^ nat (min (rec_attempt_count record) 6) \<le> 60000 * 2 ^ 6"
    using b by (intro mult_mono) auto
  then have raw: "retry_initial config * 2 ^ nat (min (rec_attempt_count record) 6) \<le> 3840000" by simp
  have base: "0 \<le> base" "base \<le> 3600000" using b unfolding base_def by auto
  have p: "- 20 \<le> percent" "percent \<le> 20" unfolding percent_def by auto
  have abs: "\<bar>base * percent\<bar> \<le> 3600000 * 20" unfolding abs_mult using base p by (intro mult_mono) auto
  then have "\<bar>base * percent\<bar> div 100 \<le> 3600000 * 20 div 100" by (rule zdiv_mono1) simp
  then have jitter: "\<bar>trunc_div (base * percent) 100\<bar> \<le> 720000"
    using div_int_pos_iff [of "\<bar>base * percent\<bar>" 100]
    by (cases "base * percent = 0") (simp_all add: trunc_div_def abs_mult abs_sgn_eq)
  have sat: "i64_saturating (base * percent) = base * percent"
    using abs by (simp add: i64_saturating_def int_bounds)
  have sum: "i64_checked (base + trunc_div (base * percent) 100) = Some (base + trunc_div (base * percent) 100)"
    using base jitter abs_le_D1 [OF jitter] abs_le_D2 [OF jitter] unfolding i64_checked_def int_bounds by simp
  have m4: "i64_checked (retry_initial config * 4) = Some (retry_initial config * 4)"
    using b by (simp add: i64_checked_def int_bounds)
  have min5: "trunc_div (retry_initial config * 4) 5 = retry_initial config * 4 div 5"
    using b by (simp add: trunc_div_def)
  have ordered: "retry_initial config * 4 div 5 \<le> retry_max config" using b by simp
  have small: "min (min (retry_initial config * 2 ^ nat (min (rec_attempt_count record) 6)) u64_max) (retry_max config) = base"
    using raw unfolding base_def by (simp add: int_bounds)
  have narrow: "narrow u64_max (retry_initial config) 1000 = retry_initial config" "narrow i64_max (retry_initial config) 1000 = retry_initial config"
    "narrow u64_max (retry_max config) 60000 = retry_max config" "narrow i64_max (retry_max config) 60000 = retry_max config"
    "narrow i64_max base 60000 = base"
    using b base by (simp_all add: narrow_def int_bounds)
  show ?thesis
    using ordered
    by (simp add: retry_delay_dispatch_def Let_def narrow small percent_def [symmetric] sat sum m4 min5 clamp_def)
qed

text \<open>
  C29. The backoff of a failed publication is bounded and never shrinks: with any configuration the
  process accepts it is computed without overflow or panic, lies between four fifths of the initial
  delay and the maximum, and grows with the number of failures.
\<close>

theorem retry_delay_dispatch_bounded:
  assumes "from_env env = Inr config" "0 \<le> rec_attempt_count record" "rec_attempt_count record \<le> k"
  shows "\<exists>d d'. retry_delay_dispatch record config = Some d \<and>
    retry_delay_dispatch (record\<lparr> rec_attempt_count := k \<rparr>) config = Some d' \<and>
    retry_initial config * 4 div 5 \<le> d \<and> d \<le> d' \<and> d' \<le> retry_max config"
proof -
  note b = from_env_bounds [OF assms(1)]
  let ?base = "\<lambda>k. min (retry_initial config * 2 ^ nat (min k 6)) (retry_max config)"
  let ?p = "int (rec_id record mod 256) mod 41 - 20"
  have "(2::int) ^ nat (min (rec_attempt_count record) 6) \<le> 2 ^ nat (min k 6)"
    using assms(3) by (intro power_increasing) auto
  then have "?base (rec_attempt_count record) \<le> ?base k"
    using b by (intro min.mono mult_left_mono) auto
  then have "?base (rec_attempt_count record) + trunc_div (?base (rec_attempt_count record) * ?p) 100
      \<le> ?base k + trunc_div (?base k * ?p) 100" (is "?x \<le> ?y")
    using b by (intro trunc_div_percent_mono) simp_all
  then have mono: "max (retry_initial config * 4 div 5) (min (retry_max config) ?x)
      \<le> max (retry_initial config * 4 div 5) (min (retry_max config) ?y)"
    by (intro max.mono min.mono) simp_all
  have "retry_initial config * 4 div 5 \<le> retry_max config" using b by simp
  then have upper: "max (retry_initial config * 4 div 5) (min (retry_max config) ?y) \<le> retry_max config" by simp
  have sel: "rec_attempt_count (record\<lparr> rec_attempt_count := k \<rparr>) = k" "rec_id (record\<lparr> rec_attempt_count := k \<rparr>) = rec_id record"
    by simp_all
  have "0 \<le> rec_attempt_count (record\<lparr> rec_attempt_count := k \<rparr>)" using assms(2,3) by simp
  from retry_delay_checked [OF assms(1) this]
  have "retry_delay_dispatch (record\<lparr> rec_attempt_count := k \<rparr>) config =
      Some (max (retry_initial config * 4 div 5) (min (retry_max config) ?y))"
    by (simp only: sel)
  with retry_delay_checked [OF assms(1,2)] show ?thesis
    using mono upper max.cobounded1 by blast
qed

definition sample_record :: OutboxRecord where
  "sample_record = \<lparr> rec_id = 255, rec_run_id = 1, rec_attempt_id = 2, rec_subject = 3,
     rec_payload = \<lparr> env_dispatch_id = 255, env_run_id = 1, env_attempt_id = 2, env_queue_id = 3 \<rparr>, rec_attempt_count = 0 \<rparr>"

lemma default_config: "from_env (\<lambda>_. None) = Inr DispatcherConfig_default"
  by (simp add: from_env_def env_value_def DispatcherConfig_default_def)

theorem retry_delay_dispatch_bounded_witness:
  "from_env (\<lambda>_. None) = Inr DispatcherConfig_default \<and>
   (\<exists>d d'. retry_delay_dispatch sample_record DispatcherConfig_default = Some d \<and>
     retry_delay_dispatch (sample_record\<lparr> rec_attempt_count := 20 \<rparr>) DispatcherConfig_default = Some d' \<and>
     800 \<le> d \<and> d \<le> d' \<and> d' \<le> 60000)"
proof -
  have "0 \<le> rec_attempt_count sample_record" "rec_attempt_count sample_record \<le> 20" by (simp_all add: sample_record_def)
  from retry_delay_dispatch_bounded [OF default_config this] default_config
  show ?thesis by (simp add: DispatcherConfig_default_def)
qed

section \<open>A batch reaches the workers\<close>

lemma mark_published_effect:
  assumes inv: "run_inv db" and x: "x \<in> set (db_outbox db)" "ob_claimed_by x = Some owner" "unsent x" and "s \<le> i64_max"
  obtains db' where "mark_published now owner (outbox_record x) s db = Inr (db', ())" "run_inv db'"
    "\<And>y. y \<in> set (db_outbox db) \<Longrightarrow> ob_id y \<noteq> ob_id x \<Longrightarrow> y \<in> set (db_outbox db')"
    "\<And>a. a \<in> set (db_attempts db) \<Longrightarrow> att_status a = Queued \<Longrightarrow> a \<in> set (db_attempts db')"
    "\<exists>y \<in> set (db_outbox db'). ob_id y = ob_id x \<and> ob_published_at y = Some now"
    "\<exists>a \<in> set (db_attempts db'). att_id a = ob_attempt_id x \<and> att_status a = Queued"
proof -
  define mine :: "OutboxRow \<Rightarrow> bool" where "mine = (\<lambda>y. ob_id y = ob_id x \<and> ob_run_id y = ob_run_id x \<and>
    ob_claimed_by y = Some owner \<and> ob_published_at y = None)"
  have keys: "keys_ok db" using inv by (simp add: run_inv_except_def)
  have only: "mine y \<longleftrightarrow> y = x" if "y \<in> set (db_outbox db)" for y
    using message_by_key [OF keys that x(1)] x(2,3) unfolding mine_def unsent_def by metis
  have "distinct (db_outbox db)" using keys by (simp add: keys_ok_def distinct_map)
  have one: "length (filter mine (db_outbox db)) = 1"
  proof -
    have "{y. mine y} \<inter> set (db_outbox db) = {x}" using only x(1) by auto
    then show ?thesis using distinct_length_filter [OF \<open>distinct (db_outbox db)\<close>, of mine] by simp
  qed
  define db' where "db' = insert_run_event now (ob_run_id x) ''queued''
               (update_runs (\<lambda>r. run_id r = ob_run_id x \<and> run_status r = PendingDispatch)
                  (\<lambda>r. r\<lparr> run_status := Queued, run_queued_at := Some now \<rparr>)
               (update_attempts (\<lambda>a. att_id a = ob_attempt_id x \<and> att_status a = PendingDispatch)
                  (\<lambda>a. a\<lparr> att_status := Queued \<rparr>)
               (update_outbox mine
                  (\<lambda>o'. o'\<lparr> ob_published_at := Some now, ob_stream_sequence := Some s,
                            ob_claimed_by := None, ob_claim_expires_at := None, ob_last_error := None \<rparr>) db)))"
  have mark: "mark_published now owner (outbox_record x) s db = Inr (db', ())"
    using one assms(5) unfolding mark_published_def mine_def db'_def by (simp add: outbox_record_def)
  have "run_inv db'"
    using x(1) by (intro mark_published_inv [OF inv mark]) (auto simp: outbox_record_def)
  obtain a where a: "a \<in> set (db_attempts db)" "att_id a = ob_attempt_id x" "att_status a = PendingDispatch"
    using inv x(1,3) by (auto simp: run_inv_except_def message_ok_def)
  show ?thesis
  proof (rule that [OF mark \<open>run_inv db'\<close>])
    show "y \<in> set (db_outbox db')" if "y \<in> set (db_outbox db)" "ob_id y \<noteq> ob_id x" for y
      using that by (force simp: db'_def mine_def set_update_where)
    show "a \<in> set (db_attempts db')" if "a \<in> set (db_attempts db)" "att_status a = Queued" for a
      using that by (force simp: db'_def set_update_where)
    show "\<exists>y \<in> set (db_outbox db'). ob_id y = ob_id x \<and> ob_published_at y = Some now"
    proof -
      let ?x = "x\<lparr> ob_published_at := Some now, ob_stream_sequence := Some s, ob_claimed_by := None,
        ob_claim_expires_at := None, ob_last_error := None \<rparr>"
      have "?x \<in> set (db_outbox db')" using only [OF x(1)] x(1) unfolding db'_def by (simp add: set_update_where)
      then show ?thesis by (intro bexI [of _ ?x]) simp_all
    qed
    show "\<exists>a \<in> set (db_attempts db'). att_id a = ob_attempt_id x \<and> att_status a = Queued"
    proof -
      have "a\<lparr> att_status := Queued \<rparr> \<in> set (db_attempts db')"
        using a unfolding db'_def by (simp add: set_update_where)
      then show ?thesis using a(2) by (intro bexI [of _ "a\<lparr> att_status := Queued \<rparr>"]) simp_all
    qed
  qed
qed

lemma publish_all_published:
  assumes "run_inv db" "\<And>x. x \<in> set xs \<Longrightarrow> x \<in> set (db_outbox db) \<and> ob_claimed_by x = Some owner \<and> unsent x"
    and "distinct (map ob_id xs)" "\<And>r. \<exists>s. publish r = Inr s \<and> s \<le> i64_max"
  shows "\<exists>db'. publish_all now utc publish owner config (map outbox_record xs) db = Some db' \<and> run_inv db' \<and>
    (\<forall>y \<in> set (db_outbox db). ob_id y \<notin> set (map ob_id xs) \<longrightarrow> y \<in> set (db_outbox db')) \<and>
    (\<forall>a \<in> set (db_attempts db). att_status a = Queued \<longrightarrow> a \<in> set (db_attempts db')) \<and>
    (\<forall>x \<in> set xs. (\<exists>y \<in> set (db_outbox db'). ob_id y = ob_id x \<and> ob_published_at y = Some now) \<and>
       (\<exists>a \<in> set (db_attempts db'). att_id a = ob_attempt_id x \<and> att_status a = Queued))"
  using assms(1-3)
proof (induction xs arbitrary: db)
  case (Cons x xs)
  have x: "x \<in> set (db_outbox db)" "ob_claimed_by x = Some owner" "unsent x" using Cons.prems(2) by simp_all
  obtain s where s: "publish (outbox_record x) = Inr s" "s \<le> i64_max" using assms(4) by blast
  from mark_published_effect [OF Cons.prems(1) x s(2)] obtain d where
    mark: "mark_published now owner (outbox_record x) s db = Inr (d, ())" and d: "run_inv d"
      "\<And>y. y \<in> set (db_outbox db) \<Longrightarrow> ob_id y \<noteq> ob_id x \<Longrightarrow> y \<in> set (db_outbox d)"
      "\<And>a. a \<in> set (db_attempts db) \<Longrightarrow> att_status a = Queued \<Longrightarrow> a \<in> set (db_attempts d)"
      "\<exists>y \<in> set (db_outbox d). ob_id y = ob_id x \<and> ob_published_at y = Some now"
      "\<exists>a \<in> set (db_attempts d). att_id a = ob_attempt_id x \<and> att_status a = Queued" by metis
  have "y \<in> set (db_outbox d) \<and> ob_claimed_by y = Some owner \<and> unsent y" if "y \<in> set xs" for y
  proof -
    have "ob_id y \<noteq> ob_id x" using Cons.prems(3) that by (auto simp: image_iff)
    then show ?thesis using Cons.prems(2) [of y] that d(2) [of y] by simp
  qed
  from Cons.IH [OF d(1) this] Cons.prems(3) obtain db' where
    db': "publish_all now utc publish owner config (map outbox_record xs) d = Some db'" "run_inv db'"
      "\<forall>y \<in> set (db_outbox d). ob_id y \<notin> set (map ob_id xs) \<longrightarrow> y \<in> set (db_outbox db')"
      "\<forall>a \<in> set (db_attempts d). att_status a = Queued \<longrightarrow> a \<in> set (db_attempts db')"
      "\<forall>x \<in> set xs. (\<exists>y \<in> set (db_outbox db'). ob_id y = ob_id x \<and> ob_published_at y = Some now) \<and>
       (\<exists>a \<in> set (db_attempts db'). att_id a = ob_attempt_id x \<and> att_status a = Queued)" by auto
  have new: "ob_id x \<notin> set (map ob_id xs)" using Cons.prems(3) by simp
  show ?case
  proof (intro exI [of _ db'] conjI ballI impI)
    show "publish_all now utc publish owner config (map outbox_record (x # xs)) db = Some db'"
      using mark s(1) db'(1) by (simp add: publish_one_def)
    show "\<exists>y \<in> set (db_outbox db'). ob_id y = ob_id z \<and> ob_published_at y = Some now" if "z \<in> set (x # xs)" for z
      using that d(4) db'(3,5) new by (metis set_ConsD)
    show "\<exists>a \<in> set (db_attempts db'). att_id a = ob_attempt_id z \<and> att_status a = Queued" if "z \<in> set (x # xs)" for z
      using that d(5) db'(4,5) by (metis set_ConsD)
  qed (use db'(2,3,4) d(2,3) in auto)
qed simp

text \<open>
  C21. A due dispatch reaches the stream: when the stream accepts messages, one batch publishes and
  queues the Attempt of every message that is due, not locked by another instance and among the first
  of these, in the order of their due times, that fill the batch.  Messages that another instance has
  locked stay exactly as they were and hold up nothing.
\<close>

theorem dispatch_batch_delivers:
  assumes "run_inv db" "from_env env = Inr config" "\<And>r. \<exists>s. publish r = Inr s \<and> s \<le> i64_max"
    and "\<forall>x \<in> set (db_outbox db). 0 \<le> ob_attempt_count x"
    and "x \<in> set (db_outbox db)" "outbox_claimable now x" "\<not> locked (ob_id x)"
    and "length (filter (\<lambda>o'. outbox_claimable now o' \<and> \<not> locked (ob_id o') \<and>
      (ob_next_attempt_at o', ob_id o') < (ob_next_attempt_at x, ob_id x)) (db_outbox db)) < nat (batch_size config)"
  shows "\<exists>db'. dispatch_batch now utc locked publish owner config db = Some db' \<and> run_inv db' \<and>
    (\<exists>y \<in> set (db_outbox db'). ob_id y = ob_id x \<and> ob_published_at y = Some now) \<and>
    (\<exists>a \<in> set (db_attempts db'). att_id a = ob_attempt_id x \<and> att_status a = Queued) \<and>
    (\<forall>y \<in> set (db_outbox db). locked (ob_id y) \<longrightarrow> y \<in> set (db_outbox db'))"
proof -
  define chosen where "chosen = select_batch (\<lambda>o'. (ob_next_attempt_at o', ob_id o')) (\<lambda>o'. locked (ob_id o'))
           (outbox_claimable now) (nat (batch_size config)) (db_outbox db)"
  define hold where "hold = (\<lambda>o'::OutboxRow. o'\<lparr> ob_claimed_by := Some owner,
     ob_claim_expires_at := Some (now + claim_lease config * second) \<rparr>)"
  define db1 where "db1 = update_outbox (\<lambda>o'. ob_id o' \<in> set (map ob_id chosen)) hold db"
  have free: "y \<in> set (db_outbox db) \<and> outbox_claimable now y \<and> \<not> locked (ob_id y)" if "y \<in> set chosen" for y
    using that select_batch_set unfolding chosen_def by fastforce
  have ids: "distinct (map ob_id (db_outbox db))" using assms(1) by (simp add: run_inv_except_def keys_ok_def)
  then have "distinct (map (\<lambda>o'. (ob_next_attempt_at o', ob_id o')) (db_outbox db))" by (auto simp: distinct_map inj_on_def)
  then have x: "x \<in> set chosen"
    unfolding chosen_def using assms(5-8) by (intro select_batch_member) auto
  have records: "traverse (\<lambda>o'. if 0 \<le> ob_attempt_count o' then Ok (outbox_record o') else Err StoreInternal) chosen
      = Inr (map outbox_record chosen)"
    using free assms(4) by (intro traverse_total) auto
  have claim: "claim_outbox now locked owner (nat (batch_size config)) (claim_lease config) db
      = Inr (db1, map outbox_record (map hold chosen))"
    using from_env_bounds(4) [OF assms(2)] records
    by (simp add: claim_outbox_def duration_seconds_def int_bounds chosen_def [symmetric] db1_def hold_def outbox_record_def comp_def)
  have inv: "run_inv db1" using assms(1) claim by (rule claim_outbox_inv)
  have dist: "distinct (map ob_id (map hold chosen))"
    using ids unfolding chosen_def by (simp add: hold_def comp_def select_batch_distinct)
  have held: "y \<in> set (db_outbox db1) \<and> ob_claimed_by y = Some owner \<and> unsent y" if "y \<in> set (map hold chosen)" for y
    using that free by (force simp: db1_def hold_def set_update_where unsent_def outbox_claimable_def)
  obtain db' where db': "publish_all now utc publish owner config (map outbox_record (map hold chosen)) db1 = Some db'" "run_inv db'"
    and frame: "\<forall>y \<in> set (db_outbox db1). ob_id y \<notin> set (map ob_id (map hold chosen)) \<longrightarrow> y \<in> set (db_outbox db')"
    and sent: "\<forall>x \<in> set (map hold chosen). (\<exists>y \<in> set (db_outbox db'). ob_id y = ob_id x \<and> ob_published_at y = Some now) \<and>
       (\<exists>a \<in> set (db_attempts db'). att_id a = ob_attempt_id x \<and> att_status a = Queued)"
    using publish_all_published [where publish = publish and now = now and utc = utc and config = config, OF inv held dist assms(3)] by blast
  have held_ids: "map ob_id (map hold chosen) = map ob_id chosen" by (simp add: hold_def)
  have others: "y \<in> set (db_outbox db')" if y: "y \<in> set (db_outbox db)" "locked (ob_id y)" for y
  proof -
    have "ob_id y \<notin> set (map ob_id chosen)" using free y(2) by fastforce
    moreover then have "y \<in> set (db_outbox db1)" using y(1) by (force simp: db1_def set_update_where)
    ultimately show ?thesis using frame held_ids by metis
  qed
  have "hold x \<in> set (map hold chosen)" using x by simp
  moreover have "ob_id (hold x) = ob_id x" "ob_attempt_id (hold x) = ob_attempt_id x" by (simp_all add: hold_def)
  ultimately have "(\<exists>y \<in> set (db_outbox db'). ob_id y = ob_id x \<and> ob_published_at y = Some now) \<and>
      (\<exists>a \<in> set (db_attempts db'). att_id a = ob_attempt_id x \<and> att_status a = Queued)"
    using sent by metis
  moreover have "dispatch_batch now utc locked publish owner config db = Some db'" unfolding dispatch_batch_def claim using db'(1) by simp
  ultimately show ?thesis using db'(2) others by blast
qed

theorem dispatch_batch_delivers_witness:
  "run_inv sample_pending \<and>
   (\<exists>db'. dispatch_batch 0 0 (\<lambda>_. False) (\<lambda>_. Inr 1) 7 DispatcherConfig_default sample_pending = Some db' \<and> run_inv db' \<and>
     (\<exists>y \<in> set (db_outbox db'). ob_id y = 12 \<and> ob_published_at y = Some 0) \<and>
     (\<exists>a \<in> set (db_attempts db'). att_id a = 11 \<and> att_status a = Queued))"
proof -
  have claimable: "outbox_claimable 0 (sample_message None)" by (simp add: sample_message_def outbox_claimable_def)
  have "\<exists>db'. dispatch_batch 0 0 (\<lambda>_. False) (\<lambda>_. Inr 1) 7 DispatcherConfig_default sample_pending = Some db' \<and> run_inv db' \<and>
     (\<exists>y \<in> set (db_outbox db'). ob_id y = ob_id (sample_message None) \<and> ob_published_at y = Some 0) \<and>
     (\<exists>a \<in> set (db_attempts db'). att_id a = ob_attempt_id (sample_message None) \<and> att_status a = Queued)"
    using dispatch_batch_delivers [OF sample_invs(1) default_config, where publish = "\<lambda>_. Inr 1" and locked = "\<lambda>_. False" and now = 0
        and utc = 0 and owner = 7 and x = "sample_message None"] claimable
    by (auto simp: sample_state_def sample_message_def int_bounds DispatcherConfig_default_def)
  then show ?thesis by (simp add: sample_message_def)
qed

end
