(* ===== verification/Redaction.thy ===== *)
theory Redaction
  imports Inputs Scheduling "HOL-Library.Product_Lexorder"
begin

text \<open>
  The worker's redaction of observable text (\<open>services/worker/src/execution/redaction.rs\<close>): which
  values count as secrets, and how they are removed from text, inputs and arguments.
\<close>

section \<open>Text operations of the standard library\<close>

definition contains :: "bytes \<Rightarrow> bytes \<Rightarrow> bool" where
  "contains s pat \<longleftrightarrow> find_sub pat s \<noteq> None"

text \<open>\<open>str::replace\<close> of a nonempty pattern: matches are taken from the left and do not overlap.\<close>

function replace :: "bytes \<Rightarrow> bytes \<Rightarrow> bytes \<Rightarrow> bytes" where
  "replace pat rep [] = []"
| "replace pat rep (c # cs) =
     (if pat \<noteq> [] \<and> prefix pat (c # cs) then rep @ replace pat rep (drop (length pat) (c # cs))
      else c # replace pat rep cs)"
  by pat_completeness auto
termination
  by (relation "measure (length \<circ> snd \<circ> snd)") auto

fun split_any :: "char list \<Rightarrow> bytes \<Rightarrow> bytes list" where
  "split_any seps [] = [[]]"
| "split_any seps (c # cs) =
     (if c \<in> set seps then [] # split_any seps cs
      else (case split_any seps cs of [] \<Rightarrow> [[c]] | s # ss \<Rightarrow> (c # s) # ss))"

text \<open>\<open>str::lines\<close>: a carriage return is removed only before a line feed, and no empty line follows the last.\<close>

definition strip_cr :: "bytes \<Rightarrow> bytes" where
  "strip_cr s = (if s \<noteq> [] \<and> last s = CHR 0x0D then butlast s else s)"

definition lines :: "bytes \<Rightarrow> bytes list" where
  "lines s = (let parts = split_on (CHR 0x0A) s in
     map strip_cr (butlast parts) @ (if last parts = [] then [] else [last parts]))"

definition ascii_alphanumeric :: "char \<Rightarrow> bool" where
  "ascii_alphanumeric c \<longleftrightarrow>
     (CHR ''0'' \<le> c \<and> c \<le> CHR ''9'') \<or> (CHR ''A'' \<le> c \<and> c \<le> CHR ''Z'') \<or> (CHR ''a'' \<le> c \<and> c \<le> CHR ''z'')"

definition ascii_lower :: "char \<Rightarrow> char" where
  "ascii_lower c = (if CHR ''A'' \<le> c \<and> c \<le> CHR ''Z'' then char_of (of_char c + 32 :: nat) else c)"

section \<open>Secrets\<close>

definition sensitive_key :: "bytes \<Rightarrow> bool" where
  "sensitive_key key =
     (let normalized = map ascii_lower (filter ascii_alphanumeric key) in
      list_ex (contains normalized)
        [''password'', ''passwd'', ''secret'', ''token'', ''apikey'', ''authorization'', ''credential'', ''privatekey''])"

definition sensitive_switch :: "bytes \<Rightarrow> bool" where
  "sensitive_switch v \<longleftrightarrow>
     prefix ''-'' v \<and> \<not> (\<exists>c \<in> set ''=:/? ''. c \<in> set v) \<and> sensitive_key v"

definition collect_secret_text :: "bytes \<Rightarrow> bytes list" where
  "collect_secret_text v = (if v = [] then [] else v # filter (\<lambda>l. l \<noteq> []) (lines v))"

text \<open>The functions push to a vector; the lists here are what they push, in order.\<close>

definition argument_secrets :: "bytes \<Rightarrow> bytes list" where
  "argument_secrets argument =
     concat (map (\<lambda>part. case split_once (CHR ''='') part of
         Some (key, v) \<Rightarrow> if sensitive_key key then collect_secret_text v else []
       | None \<Rightarrow> []) (split_any ''?&'' argument)) @
     (case split_once (CHR '':'') argument of
        Some (key, v) \<Rightarrow>
          if sensitive_key key
          then collect_secret_text (trim v) @
            (case split_whitespace v of [] \<Rightarrow> [] | ws \<Rightarrow> collect_secret_text (last ws))
          else []
      | None \<Rightarrow> [])"

fun collect_argument_secrets :: "bool \<Rightarrow> bytes list \<Rightarrow> bytes list" where
  "collect_argument_secrets next_is_secret [] = []"
| "collect_argument_secrets next_is_secret (argument # arguments) =
     (if next_is_secret then collect_secret_text argument @ collect_argument_secrets False arguments
      else argument_secrets argument @ collect_argument_secrets (sensitive_switch argument) arguments)"

text \<open>A number is kept as the text it prints to.\<close>

fun collect_secrets :: "json \<Rightarrow> bool \<Rightarrow> bytes list" where
  "collect_secrets (JObject es) inherited =
     concat (map (\<lambda>(key, child). collect_secrets child (inherited \<or> sensitive_key key)) es)"
| "collect_secrets (JArray vs) inherited = concat (map (\<lambda>child. collect_secrets child inherited) vs)"
| "collect_secrets (JString v) inherited = (if inherited then collect_secret_text v else [])"
| "collect_secrets (JNumber n) inherited = (if inherited then [n] else [])"
| "collect_secrets (JBool b) inherited = (if inherited then [if b then ''true'' else ''false''] else [])"
| "collect_secrets JNull inherited = []"

section \<open>The redactor\<close>

record Redactor =
  secrets :: "bytes list"

definition from_inputs_and_arguments :: "json \<Rightarrow> bytes list \<Rightarrow> Redactor" where
  "from_inputs_and_arguments inputs arguments =
     \<lparr> secrets = remdups_adj (sort_key (\<lambda>s. (- int (length s), s))
         (collect_secrets inputs False @ collect_argument_secrets False arguments)) \<rparr>"

abbreviation marker :: bytes where "marker \<equiv> ''<redacted>''"

definition redact_text :: "Redactor \<Rightarrow> bytes \<Rightarrow> bytes" where
  "redact_text r v = foldl (\<lambda>safe s. replace s marker safe) v (secrets r)"

fun redact_values :: "Redactor \<Rightarrow> json \<Rightarrow> json" where
  "redact_values r (JObject es) =
     JObject (map (\<lambda>(key, v). (key, if sensitive_key key then JString marker else redact_values r v)) es)"
| "redact_values r (JArray vs) = JArray (map (redact_values r) vs)"
| "redact_values r (JString v) = JString (redact_text r v)"
| "redact_values r v = v"

text \<open>One argument after substitution, and whether the next one is the value of a sensitive switch.\<close>

definition redact_argument :: "bytes \<Rightarrow> bytes \<times> bool" where
  "redact_argument safe =
     (let last_case = (if sensitive_switch safe then (safe, True)
                       else if sensitive_key safe then (marker, False) else (safe, False));
          colon_case = (case split_once (CHR '':'') safe of
             Some (key, _) \<Rightarrow> if sensitive_key key then (key @ '': '' @ marker, False) else last_case
           | None \<Rightarrow> last_case) in
      case split_once (CHR ''='') safe of
        Some (key, _) \<Rightarrow> if sensitive_key key then (key @ ''='' @ marker, False) else colon_case
      | None \<Rightarrow> colon_case)"

fun redact_arguments :: "Redactor \<Rightarrow> bool \<Rightarrow> bytes list \<Rightarrow> bytes list" where
  "redact_arguments r hide_next [] = []"
| "redact_arguments r hide_next (argument # arguments) =
     (if hide_next then marker # redact_arguments r False arguments
      else case redact_argument (redact_text r argument) of (shown, hide) \<Rightarrow> shown # redact_arguments r hide arguments)"

section \<open>No secret survives\<close>

text \<open>
  A secret that could be confused with the marker itself cannot be hidden by it; every other one is
  \<open>plain\<close>.
\<close>

definition plain :: "bytes \<Rightarrow> bool" where
  "plain s \<longleftrightarrow> s \<noteq> [] \<and> CHR ''<'' \<notin> set s \<and> CHR ''>'' \<notin> set s \<and> \<not> sublist s ''redacted''"

lemma replace_prefix:
  assumes "CHR ''<'' \<notin> set t"
  shows "prefix t (replace pat marker v) \<Longrightarrow> prefix t v"
  using assms
proof (induction pat marker v arbitrary: t rule: replace.induct)
  case (2 pat c cs)
  show ?case
  proof (cases t)
    case (Cons x t')
    then have "\<not> (pat \<noteq> [] \<and> prefix pat (c # cs))" using 2(3,4) by auto
    then show ?thesis using 2 Cons by auto
  qed simp
qed simp

lemma plain_marker:
  assumes "plain t"
  shows "\<not> sublist t marker" "\<not> prefix t (CHR ''<'' # v)" "suffix a (v @ [CHR ''>'']) \<Longrightarrow> set a \<subseteq> set t \<Longrightarrow> a = []"
proof -
  show pre: "\<not> prefix t (CHR ''<'' # v)" for v using assms by (cases t) (auto simp: plain_def)
  show suf: "suffix a (v @ [CHR ''>'']) \<Longrightarrow> set a \<subseteq> set t \<Longrightarrow> a = []" for a v
    using assms by (auto simp: plain_def suffix_snoc)
  have "marker = CHR ''<'' # (''redacted'' @ [CHR ''>''])" by simp
  moreover have "\<not> sublist t (''redacted'' @ [CHR ''>''])"
    unfolding sublist_snoc using suf [of t "''redacted''"] assms unfolding plain_def by blast
  ultimately show "\<not> sublist t marker" using pre by (metis sublist_Cons_right)
qed

lemma sublist_marker:
  assumes "plain t" "sublist t (marker @ R)"
  shows "sublist t R"
proof -
  from assms(2) consider "sublist t marker" | "sublist t R" | a b where "t = a @ b" "suffix a marker" "prefix b R"
    unfolding sublist_append by blast
  then show ?thesis
  proof cases
    case 3
    then have "suffix a (''<redacted'' @ [CHR ''>''])" "set a \<subseteq> set t" by simp_all
    then have "a = []" by (rule plain_marker(3) [OF assms(1)])
    then show ?thesis using 3 by (simp add: prefix_imp_sublist)
  qed (use plain_marker(1) [OF assms(1)] in simp_all)
qed

lemma replace_sublist:
  assumes "plain t"
  shows "sublist t (replace pat marker v) \<Longrightarrow> sublist t v"
proof (induction pat marker v rule: replace.induct)
  case (2 pat c cs)
  show ?case
  proof (cases "pat \<noteq> [] \<and> prefix pat (c # cs)")
    case True
    then have "sublist t (replace pat marker (drop (length pat) (c # cs)))"
      using 2(3) sublist_marker [OF assms] by (simp del: drop_Cons)
    from 2(1) [OF True this] show ?thesis
      using sublist_drop sublist_order.dual_order.trans by blast
  next
    case False
    then have step: "replace pat marker (c # cs) = c # replace pat marker cs" by (simp only: replace.simps if_False)
    then have "prefix t (c # replace pat marker cs) \<or> sublist t (replace pat marker cs)"
      using 2(3) by (simp only: sublist_Cons_right)
    moreover have "prefix t (c # replace pat marker cs) \<Longrightarrow> prefix t (c # cs)"
      using replace_prefix [of t pat "c # cs"] step assms by (simp only: plain_def not_False_eq_True)
    ultimately show ?thesis using 2(2) [OF False] prefix_imp_sublist by (auto simp: sublist_Cons_right)
  qed
qed simp

lemma replace_removes: "plain pat \<Longrightarrow> \<not> sublist pat (replace pat marker v)"
proof (induction pat marker v rule: replace.induct)
  case (1 pat)
  then show ?case by (simp add: plain_def)
next
  case (2 pat c cs)
  show ?case
  proof (cases "pat \<noteq> [] \<and> prefix pat (c # cs)")
    case True
    then show ?thesis using 2(1) [OF True 2(3)] sublist_marker [OF 2(3)] by (simp del: drop_Cons) blast
  next
    case False
    then have "\<not> prefix pat (c # cs)" using 2(3) by (simp add: plain_def)
    then have "\<not> prefix pat (replace pat marker (c # cs))" using replace_prefix [of pat pat "c # cs"] 2(3) by (auto simp: plain_def)
    then show ?thesis using 2(2) [OF False 2(3)] False by (auto simp: sublist_Cons_right)
  qed
qed

lemma redact_text_hides:
  assumes "plain s" "s \<in> set (secrets r)"
  shows "\<not> sublist s (redact_text r v)"
proof -
  have keep: "\<not> sublist s v \<Longrightarrow> \<not> sublist s (foldl (\<lambda>safe s. replace s marker safe) v ss)" for v ss
    by (induction ss arbitrary: v) (auto dest: replace_sublist [OF assms(1)])
  have "s \<in> set ss \<Longrightarrow> \<not> sublist s (foldl (\<lambda>safe s. replace s marker safe) v ss)" for ss
  proof (induction ss arbitrary: v)
    case (Cons t ss)
    then show ?case using keep [of "replace s marker v" ss] replace_removes [OF assms(1)] by auto
  qed simp
  then show ?thesis using assms(2) by (simp add: redact_text_def)
qed

text \<open>The text leaves of an input value at or below a sensitive key.\<close>

inductive sensitive_leaf :: "json \<Rightarrow> bool \<Rightarrow> bytes \<Rightarrow> bool" where
  leaf: "sensitive_leaf (JString v) True v"
| element: "child \<in> set vs \<Longrightarrow> sensitive_leaf child inherited v \<Longrightarrow> sensitive_leaf (JArray vs) inherited v"
| member: "(key, child) \<in> set es \<Longrightarrow> sensitive_leaf child (inherited \<or> sensitive_key key) v \<Longrightarrow>
    sensitive_leaf (JObject es) inherited v"

lemma sensitive_leaf_collected:
  "sensitive_leaf inputs inherited v \<Longrightarrow> v \<noteq> [] \<Longrightarrow> set (collect_secret_text v) \<subseteq> set (collect_secrets inputs inherited)"
  by (induction rule: sensitive_leaf.induct) fastforce+

lemma secrets_set [simp]:
  "set (secrets (from_inputs_and_arguments inputs arguments)) = set (collect_secrets inputs False) \<union> set (collect_argument_secrets False arguments)"
  by (simp add: from_inputs_and_arguments_def)

text \<open>
  C24. What the worker shows hides its secrets: any text the redactor returns contains neither a text
  input at or below a sensitive key nor any nonempty line of it, whatever the other inputs, the
  arguments and the text are, as long as the secret is \<open>plain\<close>: it has no angle bracket
  and is no part of the word \<open>redacted\<close>, so that it cannot be read into the redaction marker itself.
\<close>

theorem sensitive_inputs_hidden:
  assumes "sensitive_leaf inputs False v" "s = v \<or> s \<in> set (lines v)" "plain s"
  shows "\<not> sublist s (redact_text (from_inputs_and_arguments inputs arguments) output)"
proof -
  have "v \<noteq> []" using assms(2,3) by (auto simp: plain_def lines_def)
  then have "s \<in> set (collect_secret_text v)" using assms(2,3) by (auto simp: collect_secret_text_def plain_def)
  then have "s \<in> set (secrets (from_inputs_and_arguments inputs arguments))"
    using sensitive_leaf_collected [OF assms(1) \<open>v \<noteq> []\<close>] by auto
  with assms(3) show ?thesis by (rule redact_text_hides)
qed

definition sample_inputs :: json where
  "sample_inputs = JObject [(''name'', JString ''world''), (''vault'', JObject [(''API_TOKEN'', JString ''s3'')])]"

theorem sensitive_inputs_hidden_witness:
  "sensitive_leaf sample_inputs False ''s3'' \<and>
   \<not> sublist ''s3'' (redact_text (from_inputs_and_arguments sample_inputs []) ''hello s3'')"
proof -
  have key: "sensitive_key ''API_TOKEN''" by code_simp
  have leaf: "sensitive_leaf sample_inputs False ''s3''"
    unfolding sample_inputs_def
    by (rule sensitive_leaf.member [where key = "''vault''" and child = "JObject [(''API_TOKEN'', JString ''s3'')]"], simp)
      (rule sensitive_leaf.member [where key = "''API_TOKEN''" and child = "JString ''s3''"],
       simp_all add: key sensitive_leaf.leaf)
  have "plain ''s3''" by (simp add: plain_def sublist_Cons_right)
  from sensitive_inputs_hidden [OF leaf _ this] leaf show ?thesis by blast
qed

end
