(* ===== verification/Runner.thy ===== *)
theory Runner
  imports Redaction RunStore
begin

text \<open>
  Execution on the worker (\<open>services/worker/src/execution\<close>): capture of bounded, redacted output,
  live tails, dry runs and the outcome of a process.  The operating system enters as what a child did
  (\<open>ChildOutcome\<close>) and whether the input file could be written, the JSON encoder as \<open>encode\<close>, and
  \<open>Debug\<close> formatting of text, which depends on Unicode tables, as \<open>quoted\<close>.
\<close>

section \<open>Events\<close>

datatype ExecutionPhase = PhaseContext | PhaseCommand | PhaseSpawn | PhaseExecution

datatype ExecutionEvent =
    RunReceived uuid "ExecutionTrigger option" "timestamp option"
  | RunStarted bool
  | ContextResolved json
  | CommandResolved bytes "bytes option" "bytes list" "bytes list"
  | ProcessStarted "int option"
  | StdoutLine bytes
  | StderrLine bytes
  | ProcessExited "int option" "int option" int
  | ProcessSkipped bytes
  | RunCompleted int
  | RunSkipped bytes int
  | RunFailed ExecutionPhase bytes "int option" int
  | ResultReportingFailed bytes bool bool int

section \<open>Lossy decoding\<close>

text \<open>
  \<open>String::from_utf8_lossy\<close>: the length of the next well-formed character, or of the maximal prefix
  of an ill-formed one, which becomes the replacement character.
\<close>

definition in_range :: "nat \<Rightarrow> nat \<Rightarrow> char \<Rightarrow> bool" where
  "in_range lo hi c \<longleftrightarrow> lo \<le> of_char c \<and> of_char c \<le> (hi :: nat)"

definition byte_at :: "bytes \<Rightarrow> nat \<Rightarrow> char" where
  "byte_at s i = (if i < length s then s ! i else CHR 0x00)"

definition second_ok :: "char \<Rightarrow> char \<Rightarrow> bool" where
  "second_ok b c =
     (if in_range 0xC2 0xDF b then in_range 0x80 0xBF c
      else if b = CHR 0xE0 then in_range 0xA0 0xBF c
      else if b = CHR 0xED then in_range 0x80 0x9F c
      else if in_range 0xE1 0xEF b then in_range 0x80 0xBF c
      else if b = CHR 0xF0 then in_range 0x90 0xBF c
      else if in_range 0xF1 0xF3 b then in_range 0x80 0xBF c
      else b = CHR 0xF4 \<and> in_range 0x80 0x8F c)"

definition char_width :: "char \<Rightarrow> nat" where
  "char_width b =
     (if in_range 0x00 0x7F b then 1 else if in_range 0xC2 0xDF b then 2 else if in_range 0xE0 0xEF b then 3
      else if in_range 0xF0 0xF4 b then 4 else 0)"

definition utf8_step :: "bytes \<Rightarrow> bool \<times> nat" where
  "utf8_step s =
     (let b = byte_at s 0; w = char_width b; cont = (\<lambda>i. in_range 0x80 0xBF (byte_at s i)) in
      if w = 1 then (True, 1)
      else if w = 0 \<or> \<not> second_ok b (byte_at s 1) then (False, 1)
      else if w = 2 then (True, 2)
      else if \<not> cont 2 then (False, 2)
      else if w = 3 then (True, 3)
      else if \<not> cont 3 then (False, 3)
      else (True, 4))"

lemma utf8_step_pos [simp]: "0 < snd (utf8_step s)"
  by (simp add: utf8_step_def Let_def)

function from_utf8_lossy :: "bytes \<Rightarrow> bytes" where
  "from_utf8_lossy s =
     (if s = [] then []
      else case utf8_step s of (valid, n) \<Rightarrow>
        (if valid then take n s else [CHR 0xEF, CHR 0xBF, CHR 0xBD]) @ from_utf8_lossy (drop n s))"
  by pat_completeness auto
termination
proof (relation "measure length")
  fix s valid n assume "s \<noteq> []" "(valid, n) = utf8_step s"
  then show "(drop n s, s) \<in> measure length" using utf8_step_pos [of s] by (metis drop_eq_Nil in_measure length_drop length_greater_0_conv diff_less snd_conv)
qed simp

declare from_utf8_lossy.simps [simp del]

section \<open>Captured output\<close>

definition OUTPUT_LIMIT :: nat where "OUTPUT_LIMIT = 65536"

text \<open>The suffix within a limit that starts at a character.\<close>

definition keep_tail :: "nat \<Rightarrow> bytes \<Rightarrow> bytes" where
  "keep_tail limit v = (if length v > limit then drop (tail_start v (length v - limit)) v else v)"

definition trim_end_cr :: "bytes \<Rightarrow> bytes" where
  "trim_end_cr v = rev (dropWhile (\<lambda>c. c = CHR 0x0D) (rev v))"

abbreviation line_notice :: bytes where "line_notice \<equiv> ''[output line exceeded 64 KiB; content omitted]''"
abbreviation decoded_notice :: bytes where "decoded_notice \<equiv> ''[decoded output line exceeded 64 KiB; content omitted]''"

definition shown_line :: "Redactor \<Rightarrow> bytes \<Rightarrow> bool \<Rightarrow> bytes" where
  "shown_line r raw oversized =
     (let decoded = (if oversized then line_notice else redact_text r (from_utf8_lossy raw)) in
      if length decoded > OUTPUT_LIMIT then decoded_notice else trim_end_cr decoded)"

definition emit_line :: "Redactor \<Rightarrow> bool \<Rightarrow> bytes \<Rightarrow> bytes \<Rightarrow> bool \<Rightarrow> bool \<Rightarrow> bytes \<times> ExecutionEvent" where
  "emit_line r stderr tail raw oversized terminated =
     (let line = shown_line r raw oversized in
      (keep_tail OUTPUT_LIMIT (tail @ line @ (if terminated then [CHR 0x0A] else [])),
       if stderr then StderrLine line else StdoutLine line))"

record Capture =
  cap_tail :: bytes
  cap_line :: bytes
  cap_oversized :: bool
  cap_events :: "ExecutionEvent list"

definition flush_line :: "Redactor \<Rightarrow> bool \<Rightarrow> bool \<Rightarrow> Capture \<Rightarrow> Capture" where
  "flush_line r stderr terminated c =
     (case emit_line r stderr (cap_tail c) (cap_line c) (cap_oversized c) terminated of (tail, event) \<Rightarrow>
        \<lparr> cap_tail = tail, cap_line = [], cap_oversized = False, cap_events = cap_events c @ [event] \<rparr>)"

definition read_byte :: "Redactor \<Rightarrow> bool \<Rightarrow> Capture \<Rightarrow> char \<Rightarrow> Capture" where
  "read_byte r stderr c x =
     (if x = CHR 0x0A then flush_line r stderr True c
      else if \<not> cap_oversized c then
        (if length (cap_line c) < OUTPUT_LIMIT then c\<lparr> cap_line := cap_line c @ [x] \<rparr>
         else c\<lparr> cap_line := [], cap_oversized := True \<rparr>)
      else c)"

text \<open>The pipe delivers chunks; the loop ends at the first empty read.\<close>

definition read_chunks :: "Redactor \<Rightarrow> bool \<Rightarrow> bytes list \<Rightarrow> Capture" where
  "read_chunks r stderr chunks =
     foldl (foldl (read_byte r stderr)) \<lparr> cap_tail = [], cap_line = [], cap_oversized = False, cap_events = [] \<rparr> chunks"

definition read_output :: "Redactor \<Rightarrow> bool \<Rightarrow> bytes list \<Rightarrow> bytes \<times> ExecutionEvent list" where
  "read_output r stderr chunks =
     (let c = read_chunks r stderr chunks;
          c = (if cap_line c \<noteq> [] \<or> cap_oversized c then flush_line r stderr False c else c) in
      (cap_tail c, cap_events c))"

section \<open>Live output\<close>

definition LIVE_TAIL_BYTES :: nat where "LIVE_TAIL_BYTES = 16384"

record Tails =
  tails_revision :: int
  tails_stdout :: bytes
  tails_stderr :: bytes

definition live_emit :: "ExecutionEvent \<Rightarrow> Tails \<Rightarrow> Tails" where
  "live_emit event t =
     (case event of
        StdoutLine line \<Rightarrow> t\<lparr> tails_stdout := keep_tail LIVE_TAIL_BYTES (tails_stdout t @ line @ [CHR 0x0A]),
            tails_revision := min (tails_revision t + 1) u64_max \<rparr>
      | StderrLine line \<Rightarrow> t\<lparr> tails_stderr := keep_tail LIVE_TAIL_BYTES (tails_stderr t @ line @ [CHR 0x0A]),
            tails_revision := min (tails_revision t + 1) u64_max \<rparr>
      | _ \<Rightarrow> t)"

definition live_snapshot :: "Tails \<Rightarrow> int \<times> bytes \<times> bytes" where
  "live_snapshot t = (tails_revision t, tails_stdout t, tails_stderr t)"

section \<open>Execution of a snapshot\<close>

record ExecutionResult =
  res_succeeded :: bool
  res_skipped :: bool
  res_exit_code :: "int option"
  res_stdout_tail :: bytes
  res_stderr_tail :: bytes
  res_error :: "bytes option"
  res_failure_phase :: "ExecutionPhase option"

definition failed_result :: "ExecutionPhase \<Rightarrow> bytes \<Rightarrow> ExecutionResult" where
  "failed_result phase message =
     \<lparr> res_succeeded = False, res_skipped = False, res_exit_code = None, res_stdout_tail = [], res_stderr_tail = [],
       res_error = Some message, res_failure_phase = Some phase \<rparr>"

text \<open>
  What the child did: it could not be started, a pipe or its status failed after some chunks were read
  from the pipes, each with whether it had ended by then, or it exited, with the chunks read from its
  pipes.  The lines of the two pipes may interleave in any way; here standard output comes first.
\<close>

datatype ChildOutcome =
    SpawnFailed bytes
  | ChildError "int option" "bytes list \<times> bool" "bytes list \<times> bool" bytes
  | ChildExited "int option" "bytes list" "bytes list" "int option" "int option" int

record WorkerEnv =
  wenv_encode :: "json \<Rightarrow> (bytes, bytes) result"
  wenv_quoted :: "bytes \<Rightarrow> bytes"
  wenv_input_file :: "(bytes, unit) result"
  wenv_child :: ChildOutcome

abbreviation inputs_too_large :: bytes where "inputs_too_large \<equiv> ''execution inputs exceed the worker limit''"

definition prepare_input_file :: "WorkerEnv \<Rightarrow> ExecutionSnapshot \<Rightarrow> (ExecutionResult, unit) result" where
  "prepare_input_file env x =
     and_then (map_err (failed_result PhaseContext) (wenv_encode env (snap_inputs x))) (\<lambda>inputs.
     and_then (ensure (length inputs \<le> MAX_INPUT_BYTES) (failed_result PhaseContext inputs_too_large)) (\<lambda>_.
     map_err (failed_result PhaseContext) (wenv_input_file env)))"

text \<open>The lines of a pipe that were emitted when the other pipe or the status failed: an unterminated line only after its end.\<close>

definition lines_read :: "Redactor \<Rightarrow> bool \<Rightarrow> bytes list \<times> bool \<Rightarrow> ExecutionEvent list" where
  "lines_read r stderr pipe =
     (case pipe of (chunks, ended) \<Rightarrow>
        if ended then snd (read_output r stderr chunks) else cap_events (read_chunks r stderr chunks))"

text \<open>An error that ends the execution without a result is \<open>Inl\<close>; events are listed as they are emitted.\<close>

definition execute_process ::
  "WorkerEnv \<Rightarrow> Redactor \<Rightarrow> ExecutionSnapshot \<Rightarrow> ExecutionEvent list \<times> (bytes, ExecutionResult) result" where
  "execute_process env r x =
     (case snap_executable x of
        None \<Rightarrow> ([], Ok (failed_result PhaseCommand ''process snapshot has no executable''))
      | Some executable \<Rightarrow>
          if \<not> prefix ''/'' executable then ([], Ok (failed_result PhaseCommand ''process executable is not absolute''))
          else case prepare_input_file env x of
            Inl result \<Rightarrow> ([], Ok result)
          | Inr _ \<Rightarrow>
              if snap_executor x = Shell \<and> snap_shell_command x = None
              then ([], Ok (failed_result PhaseCommand ''shell snapshot has no script''))
              else case wenv_child env of
                SpawnFailed message \<Rightarrow> ([], Ok (failed_result PhaseSpawn message))
              | ChildError pid out err message \<Rightarrow>
                  (ProcessStarted pid # lines_read r False out @ lines_read r True err, Err message)
              | ChildExited pid out_chunks err_chunks exit_code signal duration \<Rightarrow>
                  (case (read_output r False out_chunks, read_output r True err_chunks) of
                     ((stdout_tail, out_events), (stderr_tail, err_events)) \<Rightarrow>
                       (ProcessStarted pid # out_events @ err_events @ [ProcessExited exit_code signal duration],
                        Ok \<lparr> res_succeeded = (exit_code = Some 0), res_skipped = False, res_exit_code = exit_code,
                          res_stdout_tail = stdout_tail, res_stderr_tail = stderr_tail,
                          res_error = (if exit_code = Some 0 then None else Some ''process exited unsuccessfully''),
                          res_failure_phase = (if exit_code = Some 0 then None else Some PhaseExecution) \<rparr>)))"

abbreviation truncation_marker :: bytes where "truncation_marker \<equiv> CHR 0x0A # ''[command truncated]''"

fun prefix_end :: "bytes \<Rightarrow> nat \<Rightarrow> nat" where
  "prefix_end v 0 = 0"
| "prefix_end v (Suc n) = (if is_char_boundary v (Suc n) then Suc n else prefix_end v n)"

definition bounded_command_prefix :: "bytes \<Rightarrow> bytes" where
  "bounded_command_prefix line =
     (if length line \<le> OUTPUT_LIMIT then line
      else take (prefix_end line (OUTPUT_LIMIT - length truncation_marker)) line @ truncation_marker)"

definition trim_end :: "bytes \<Rightarrow> bytes" where
  "trim_end s = rev (strip_front (map rev white_space) (rev s))"

fun join_space :: "bytes list \<Rightarrow> bytes" where
  "join_space [] = []"
| "join_space [v] = v"
| "join_space (v # vs) = v @ '' '' @ join_space vs"

definition dry_run_command :: "WorkerEnv \<Rightarrow> Redactor \<Rightarrow> ExecutionSnapshot \<Rightarrow> (bytes, bytes) result" where
  "dry_run_command env r x =
     (if snap_executor x = Noop then Ok ''no-op executor (no command)''
      else and_then (ok_or ''process snapshot has no executable'' (snap_executable x)) (\<lambda>executable.
        and_then (ensure (prefix ''/'' executable) ''process executable is not absolute'') (\<lambda>_.
        and_then (ensure (\<not> (snap_executor x = Shell \<and> snap_shell_command x = None)) ''shell snapshot has no script'') (\<lambda>_.
        let arguments = join_space (map (wenv_quoted env) (redact_arguments r False (snap_arguments x)));
            script = (case snap_shell_command x of None \<Rightarrow> []
              | Some v \<Rightarrow> '' -c '' @ wenv_quoted env (redact_text r v) @ '' crono-job'') in
        Ok (trim_end (wenv_quoted env (redact_text r executable) @ script @ '' '' @ arguments))))))"

definition dry_run_snapshot ::
  "WorkerEnv \<Rightarrow> Redactor \<Rightarrow> ExecutionSnapshot \<Rightarrow> ExecutionEvent list \<times> (bytes, ExecutionResult) result" where
  "dry_run_snapshot env r x =
     (case dry_run_command env r x of
        Inl e \<Rightarrow> ([], Err e)
      | Inr command \<Rightarrow>
          ([ProcessSkipped ''dry run''],
           Ok \<lparr> res_succeeded = True, res_skipped = True, res_exit_code = None,
             res_stdout_tail = bounded_command_prefix (''DRY RUN (not executed): '' @ command), res_stderr_tail = [],
             res_error = None, res_failure_phase = None \<rparr>))"

definition noop_result :: ExecutionResult where
  "noop_result = \<lparr> res_succeeded = True, res_skipped = False, res_exit_code = Some 0, res_stdout_tail = [],
     res_stderr_tail = [], res_error = None, res_failure_phase = None \<rparr>"

definition execute_snapshot ::
  "WorkerEnv \<Rightarrow> Redactor \<Rightarrow> bool \<Rightarrow> ExecutionSnapshot \<Rightarrow> ExecutionEvent list \<times> (bytes, ExecutionResult) result" where
  "execute_snapshot env r dry_run x =
     (case wenv_encode env (snap_inputs x) of
        Inl message \<Rightarrow> ([], Ok (failed_result PhaseContext message))
      | Inr encoded \<Rightarrow>
          if length encoded > MAX_INPUT_BYTES then ([], Ok (failed_result PhaseContext inputs_too_large))
          else
            (let resolved = ContextResolved (redact_values r (snap_inputs x)) #
                   (case snap_executable x of None \<Rightarrow> []
                    | Some executable \<Rightarrow> [CommandResolved (redact_text r executable)
                        (map_option (redact_text r) (snap_shell_command x))
                        (redact_arguments r False (snap_argument_templates x)) (redact_arguments r False (snap_arguments x))]);
                 (events, result) =
                   (if dry_run then
                      (case dry_run_snapshot env r x of
                         (es, Inr result) \<Rightarrow> (es, Ok result)
                       | (es, Inl message) \<Rightarrow> (es, Ok (failed_result PhaseCommand message)))
                    else if snap_executor x = Noop then ([ProcessSkipped ''no-op executor''], Ok noop_result)
                    else execute_process env r x) in
             (resolved @ events, result)))"

section \<open>Captured output hides secrets\<close>

lemma keep_tail_drop: "\<exists>k. keep_tail limit v = drop k v"
  unfolding keep_tail_def by (metis drop0)

lemma keep_tail_length: "length (keep_tail limit v) \<le> limit"
proof (cases "length v > limit")
  case True
  have "length v - limit \<le> tail_start v (length v - limit)" using tail_start_props [of "length v - limit" v] by simp
  then show ?thesis using True by (simp add: keep_tail_def)
qed (simp add: keep_tail_def)

lemma keep_tail_sublist: "sublist s (keep_tail limit v) \<Longrightarrow> sublist s v"
  using keep_tail_drop [of limit v] sublist_drop sublist_order.order.trans by metis

lemma keep_tail_last: "keep_tail limit v = [] \<or> last (keep_tail limit v) = last v"
  using keep_tail_drop [of limit v] by (metis last_drop drop_eq_Nil not_less)

lemma sublist_separator:
  assumes "sublist s (u @ v)" "c \<notin> set s" "u = [] \<or> last u = c"
  shows "sublist s u \<or> sublist s v"
proof -
  from assms(1) consider "sublist s u" | "sublist s v" | a b where "s = a @ b" "suffix a u" "prefix b v"
    unfolding sublist_append by blast
  then show ?thesis
  proof cases
    case 3
    have "a = []"
    proof (rule ccontr)
      assume "a \<noteq> []"
      then have "u \<noteq> []" "last a = last u" using 3(2) by (auto simp: suffix_def)
      then show False using assms(2,3) 3(1) \<open>a \<noteq> []\<close> by (metis Un_iff last_in_set set_append)
    qed
    then show ?thesis using 3 by (simp add: prefix_imp_sublist)
  qed simp_all
qed

definition line_of :: "ExecutionEvent \<Rightarrow> bytes" where
  "line_of e = (case e of StdoutLine l \<Rightarrow> l | StderrLine l \<Rightarrow> l | _ \<Rightarrow> [])"

definition hidden :: "bytes \<Rightarrow> Capture \<Rightarrow> bool" where
  "hidden s c \<longleftrightarrow> \<not> sublist s (cap_tail c) \<and> length (cap_tail c) \<le> OUTPUT_LIMIT \<and>
     (cap_tail c = [] \<or> last (cap_tail c) = CHR 0x0A) \<and> (\<forall>e \<in> set (cap_events c). \<not> sublist s (line_of e))"

text \<open>A secret the captured text can be free of: it does not occur in the worker's own words.\<close>

definition foreign :: "bytes \<Rightarrow> bool" where
  "foreign s \<longleftrightarrow> plain s \<and> CHR 0x0A \<notin> set s \<and> \<not> sublist s line_notice \<and> \<not> sublist s decoded_notice"

lemma shown_line_hides:
  assumes "foreign s" "s \<in> set (secrets r)"
  shows "\<not> sublist s (shown_line r raw oversized)"
proof -
  have trimmed: "sublist (trim_end_cr v) v" for v
  proof -
    have "v = trim_end_cr v @ rev (takeWhile (\<lambda>c. c = CHR 0x0D) (rev v))"
      unfolding trim_end_cr_def by (metis rev_append rev_rev_ident takeWhile_dropWhile_id)
    then show ?thesis by (metis sublist_append_rightI)
  qed
  have "\<not> sublist s (redact_text r (from_utf8_lossy raw))" using redact_text_hides assms by (simp add: foreign_def)
  then have shown: "\<not> sublist s (if oversized then line_notice else redact_text r (from_utf8_lossy raw))" (is "\<not> sublist s ?shown")
    using assms(1) by (simp add: foreign_def)
  then have "\<not> sublist s (trim_end_cr ?shown)" using trimmed sublist_order.order.trans by blast
  moreover have "\<not> sublist s decoded_notice" using assms(1) by (simp only: foreign_def) simp
  ultimately show ?thesis unfolding shown_line_def Let_def by presburger
qed

lemma flush_line_hidden:
  assumes "foreign s" "s \<in> set (secrets r)" "hidden s c"
  shows "\<not> sublist s (cap_tail (flush_line r stderr t c))" "length (cap_tail (flush_line r stderr t c)) \<le> OUTPUT_LIMIT"
    "\<forall>e \<in> set (cap_events (flush_line r stderr t c)). \<not> sublist s (line_of e)"
    "hidden s (flush_line r stderr True c)"
proof -
  let ?line = "shown_line r (cap_line c) (cap_oversized c)"
  have line: "\<not> sublist s ?line" using shown_line_hides assms by blast
  have "s \<noteq> []" "CHR 0x0A \<notin> set s" using assms(1) by (auto simp: foreign_def plain_def)
  then have "\<not> sublist s (?line @ (if t then [CHR 0x0A] else []))" for t
    using line sublist_snoc [of s ?line "CHR 0x0A"] by (auto simp: suffix_snoc)
  then have joined: "\<not> sublist s (cap_tail c @ ?line @ (if t then [CHR 0x0A] else []))" for t
    using sublist_separator [of s "cap_tail c" "?line @ (if t then [CHR 0x0A] else [])" "CHR 0x0A"] assms(3)
      \<open>CHR 0x0A \<notin> set s\<close> by (auto simp: hidden_def)
  have tail: "cap_tail (flush_line r stderr t c) =
      keep_tail OUTPUT_LIMIT (cap_tail c @ ?line @ (if t then [CHR 0x0A] else []))" for t
    by (simp add: flush_line_def emit_line_def Let_def)
  show hide: "\<not> sublist s (cap_tail (flush_line r stderr t c))" for t unfolding tail using joined keep_tail_sublist by blast
  show len: "length (cap_tail (flush_line r stderr t c)) \<le> OUTPUT_LIMIT" for t unfolding tail by (rule keep_tail_length)
  show events: "\<forall>e \<in> set (cap_events (flush_line r stderr t c)). \<not> sublist s (line_of e)" for t
    using assms(3) line by (auto simp: hidden_def flush_line_def emit_line_def Let_def line_of_def)
  have "cap_tail (flush_line r stderr True c) = [] \<or> last (cap_tail (flush_line r stderr True c)) = CHR 0x0A"
    unfolding tail using keep_tail_last [of OUTPUT_LIMIT "cap_tail c @ ?line @ [CHR 0x0A]"] by simp
  then show "hidden s (flush_line r stderr True c)" using hide [of True] len [of True] events [of True] by (simp add: hidden_def)
qed

lemma read_bytes_hidden:
  assumes "foreign s" "s \<in> set (secrets r)" "hidden s c"
  shows "hidden s (foldl (foldl (read_byte r stderr)) c chunks)"
proof -
  have byte: "hidden s (read_byte r stderr c x)" if "hidden s c" for c x
    using flush_line_hidden(4) [OF assms(1,2) that] that by (simp add: read_byte_def hidden_def)
  have chunk: "hidden s c \<Longrightarrow> hidden s (foldl (read_byte r stderr) c xs)" for c xs
    by (induction xs arbitrary: c) (simp_all add: byte)
  show ?thesis using assms(3) by (induction chunks arbitrary: c) (simp_all add: chunk)
qed

text \<open>
  C25. Captured output is bounded and hides secrets: however the child's output is cut into lines and
  reads, the tail kept for the Attempt has at most 64 KiB, and neither it nor any emitted line contains
  a known secret that is free of line feeds and angle brackets and occurs neither in the redaction
  marker nor in the worker's own notices (\<open>foreign\<close>).
\<close>

theorem captured_output_hides:
  assumes "s \<in> set (secrets r)" "foreign s"
  shows "\<not> sublist s (fst (read_output r stderr chunks)) \<and> length (fst (read_output r stderr chunks)) \<le> 65536 \<and>
    list_all (\<lambda>e. \<not> sublist s (line_of e)) (snd (read_output r stderr chunks))"
proof -
  define c where "c = foldl (foldl (read_byte r stderr))
            \<lparr> cap_tail = [], cap_line = [], cap_oversized = False, cap_events = [] \<rparr> chunks"
  have "hidden s c"
    unfolding c_def using assms by (intro read_bytes_hidden) (auto simp: hidden_def foreign_def plain_def)
  then show ?thesis
    using flush_line_hidden(1-3) [OF assms(2,1), of c stderr False]
    by (auto simp: read_output_def read_chunks_def Let_def c_def [symmetric] hidden_def OUTPUT_LIMIT_def list_all_iff)
qed

theorem captured_output_hides_witness:
  "\<not> sublist ''s3'' (fst (read_output \<lparr> secrets = [''s3''] \<rparr> False [''hello s'', ''3'', [CHR 0x0A]])) \<and>
   length (fst (read_output \<lparr> secrets = [''s3''] \<rparr> False [''hello s'', ''3'', [CHR 0x0A]])) \<le> 65536"
proof -
  have "foreign ''s3''" by (simp add: foreign_def plain_def sublist_Cons_right)
  then show ?thesis using captured_output_hides [of "''s3''" "\<lparr> secrets = [''s3''] \<rparr>" False "[''hello s'', ''3'', [CHR 0x0A]]"]
    by simp
qed

section \<open>Dry runs\<close>

lemma dry_run_command_child: "dry_run_command (env\<lparr> wenv_child := child \<rparr>) r x = dry_run_command env r x"
  by (simp add: dry_run_command_def split: option.splits)

text \<open>
  A dry run executes nothing: its result does not depend on what a child would do, no process start
  is observed, and it is reported as skipped exactly when it is reported as successful.
\<close>

theorem dry_run_never_executes:
  "execute_snapshot (env\<lparr> wenv_child := child \<rparr>) r True x = execute_snapshot env r True x \<and>
   ProcessStarted pid \<notin> set (fst (execute_snapshot env r True x)) \<and>
   (case snd (execute_snapshot env r True x) of Inl _ \<Rightarrow> False | Inr res \<Rightarrow> res_skipped res = res_succeeded res)"
proof (cases "dry_run_command env r x")
  case (Inl e)
  then show ?thesis
    by (simp add: execute_snapshot_def dry_run_snapshot_def dry_run_command_child failed_result_def Let_def
        split: sum.splits option.splits)
next
  case (Inr command)
  then show ?thesis
    by (simp add: execute_snapshot_def dry_run_snapshot_def dry_run_command_child failed_result_def Let_def
        split: sum.splits option.splits)
qed

end
