(* ===== verification/RunProperties.thy ===== *)
theory RunProperties
  imports Samples
begin

text \<open>
  What the Run tables promise to their clients: a manual request and a re-run create their Runs
  once, an Attempt is claimed once and finished once by the worker that holds its lease, a planned
  occurrence is inserted once per Target, and a completion decides the Run's next state.
\<close>

section \<open>Leases\<close>

lemma advanced_attempt:
  assumes "advances db db'" "keys_ok db'" "a \<in> set (db_attempts db)" "b \<in> set (db_attempts db')" "att_id b = att_id a"
  shows "attempt_advances a b"
proof -
  obtain c where c: "c \<in> set (db_attempts db')" "attempt_advances a c" using assms(1,3) by (auto simp: related_def)
  then have "c = b" using attempt_by_key [OF assms(2) c(1) assms(4)] assms(5) by (simp add: attempt_advances_def same_attempt_def)
  then show ?thesis using c(2) by simp
qed

lemma claim_attempt_started:
  assumes "claim_attempt now req db = (db', Inr resp)" "claimed resp"
  obtains b where "b \<in> set (db_attempts db')" "att_id b = cr_attempt_id req" "att_status b = Running"
    "att_worker_id b = Some (cr_worker_id req)" "att_lease_expires_at b = Some (now + 60 * second)"
  using assms(1)
proof (cases rule: claim_attempt_cases)
  case (claimed a r)
  let ?f = "\<lambda>a. a\<lparr> att_status := Running, att_worker_id := Some (cr_worker_id req), att_started_at := Some now,
                att_heartbeat_at := Some now, att_lease_expires_at := Some (now + 60 * second) \<rparr>"
  have "?f a \<in> set (db_attempts db')"
    unfolding claimed(9) set_update_where using claimed(1-4,8) by (intro image_eqI [of _ _ a]) auto
  then show thesis by (rule that) (simp_all add: claimed(2))
qed (use assms in simp_all)

lemma claim_refused:
  assumes "\<And>b. b \<in> set (db_attempts db) \<Longrightarrow> att_id b = cr_attempt_id req \<Longrightarrow> att_status b \<noteq> Queued"
  shows "claim_attempt now req db \<in> {(db, Inr \<lparr> claimed = False, lease_seconds = 60, execution = None \<rparr>), (db, Inl StoreInvalidData)}"
proof -
  have "find (\<lambda>a. att_id a = cr_attempt_id req \<and> att_run_id a = cr_run_id req \<and> att_status a = Queued \<and>
            (\<exists>r \<in> set (db_runs db). run_id r = att_run_id a \<and> run_queue_id r = cr_queue_id req)) (db_attempts db) = None"
    using assms by (auto simp: find_None_iff)
  then show ?thesis by (simp add: claim_attempt_def)
qed

text \<open>
  C14. An Attempt is executed at most once: once a claim has succeeded, every claim of the same
  Attempt, by any worker and in any later state, is refused or rejected and changes nothing.
\<close>

theorem claimed_at_most_once:
  assumes "claim_attempt now req db = (db1, Inr resp)" "claimed resp"
    and "advances db1 db2" "run_inv db2" "cr_attempt_id req2 = cr_attempt_id req"
  shows "claim_attempt now2 req2 db2 \<in>
    {(db2, Inr \<lparr> claimed = False, lease_seconds = 60, execution = None \<rparr>), (db2, Inl StoreInvalidData)}"
proof (rule claim_refused)
  fix b assume b: "b \<in> set (db_attempts db2)" "att_id b = cr_attempt_id req2"
  obtain a where a: "a \<in> set (db_attempts db1)" "att_id a = cr_attempt_id req" "att_status a = Running"
    using claim_attempt_started [OF assms(1,2)] by metis
  have "keys_ok db2" using assms(4) by (simp add: run_inv_except_def)
  then have "attempt_advances a b" using advanced_attempt [OF assms(3) _ a(1) b(1)] a(2) b(2) assms(5) by simp
  then show "att_status b \<noteq> Queued" using a(3) by (auto simp: attempt_advances_def status_rank_def)
qed

definition sample_claim :: "bytes \<Rightarrow> ClaimRequest" where
  "sample_claim worker = \<lparr> cr_run_id = 10, cr_attempt_id = 11, cr_queue_id = 2, cr_worker_id = worker \<rparr>"

lemma sample_claimed:
  "claim_attempt 5 (sample_claim ''w'') sample_queued =
     (fst (claim_attempt 5 (sample_claim ''w'') sample_queued),
      Inr \<lparr> claimed = True, lease_seconds = 60, execution = Some sample_snapshot \<rparr>)"
  by (simp add: text_storable_def claim_attempt_def sample_claim_def sample_state_def sample_db_def sample_run_def sample_attempt_def)

theorem claimed_at_most_once_witness:
  "let db1 = fst (claim_attempt 5 (sample_claim ''w'') sample_queued) in
   claim_attempt 6 (sample_claim ''v'') db1 \<in>
     {(db1, Inr \<lparr> claimed = False, lease_seconds = 60, execution = None \<rparr>), (db1, Inl StoreInvalidData)}"
  unfolding Let_def
  by (rule claimed_at_most_once [OF sample_claimed])
    (use claim_attempt_inv [OF sample_invs(2) sample_claimed] in \<open>simp_all add: sample_claim_def\<close>)

text \<open>
  C15. Only the worker that holds an unexpired lease of a running Attempt completes it, once: when a
  completion is accepted, the Attempt was running under that worker, and no later completion,
  renewal or output for it, by any worker at any time, has any effect.
\<close>

theorem completed_once_by_holder:
  assumes "run_inv db" "complete_attempt delay now utc req db = Inr (db1, True)" "advances db1 db2" "run_inv db2"
    and "comp_attempt_id req2 = comp_attempt_id req" "os_attempt_id out = comp_attempt_id req"
  shows "(\<exists>a \<in> set (db_attempts db). att_id a = comp_attempt_id req \<and> att_status a = Running \<and>
       att_worker_id a = Some (comp_worker_id req) \<and> (\<exists>t. att_lease_expires_at a = Some t \<and> now < t)) \<and>
    complete_attempt delay2 now2 utc2 req2 db2 \<in> {Inr (db2, False), Inl StoreInternal, Inl StoreInvalidData} \<and>
    renew_lease now2 (comp_attempt_id req) w db2 \<in> {Inr (db2, False), Inl StoreInvalidData} \<and>
    record_attempt_output now2 out db2 \<in> {Inr (db2, False), Inl StoreInternal, Inl StoreInvalidData}"
  using assms(2)
proof (cases rule: complete_attempt_cases)
  case (completed a r retry)
  note c = this
  have "\<exists>b \<in> set (db_attempts db1). att_id b = comp_attempt_id req \<and> \<not> live (att_status b)"
  proof (rule bexI)
    let ?f = "\<lambda>a. a\<lparr> att_status := completion_status req, att_completed_at := Some now,
      att_lease_expires_at := None, att_exit_code := comp_exit_code req,
      att_stdout_tail := Some (bounded_tail (comp_stdout_tail req)),
      att_stderr_tail := Some (bounded_tail (comp_stderr_tail req)),
      att_error := map_option bounded_error (comp_error req) \<rparr>"
    show "?f a \<in> set (db_attempts db1)" using c(1,2) by (simp add: c(8) Let_def set_update_where)
    show "att_id (?f a) = comp_attempt_id req \<and> \<not> live (att_status (?f a))"
      using c(2) by (simp add: holds_lease_def completion_status_def)
  qed
  then obtain b where b: "b \<in> set (db_attempts db1)" "att_id b = comp_attempt_id req" "\<not> live (att_status b)" by blast
  have keys: "keys_ok db2" using assms(4) by (simp add: run_inv_except_def)
  have over: "\<not> holds_lease t (comp_attempt_id req) v x" if "x \<in> set (db_attempts db2)" for x t v
  proof
    assume h: "holds_lease t (comp_attempt_id req) v x"
    then have "attempt_advances b x" using advanced_attempt [OF assms(3) keys b(1) that] b(2) by (simp add: holds_lease_def)
    then show False using b(3) h by (auto simp: attempt_advances_def holds_lease_def)
  qed
  have none: "find (holds_lease t (comp_attempt_id req) v) (db_attempts db2) = None"
      "filter (holds_lease t (comp_attempt_id req) v) (db_attempts db2) = []"
      "update_where (holds_lease t (comp_attempt_id req) v) g (db_attempts db2) = db_attempts db2" for t v g
    using over by (auto simp: find_None_iff filter_empty_conv intro!: update_where_none)
  have silent: "filter (\<lambda>a. holds_lease t (comp_attempt_id req) v a \<and> Q a) (db_attempts db2) = []"
      "update_where (\<lambda>a. holds_lease t (comp_attempt_id req) v a \<and> Q a) g (db_attempts db2) = db_attempts db2" for t v g Q
    using over by (auto simp: filter_empty_conv intro!: update_where_none)
  have "complete_attempt delay2 now2 utc2 req2 db2 \<in> {Inr (db2, False), Inl StoreInternal, Inl StoreInvalidData}"
    unfolding complete_attempt_def Let_def assms(5) none(1) by simp
  moreover have "renew_lease now2 (comp_attempt_id req) w db2 \<in> {Inr (db2, False), Inl StoreInvalidData}"
    unfolding renew_lease_def update_attempts_def none by simp
  moreover have "record_attempt_output now2 out db2 \<in> {Inr (db2, False), Inl StoreInternal, Inl StoreInvalidData}"
    unfolding record_attempt_output_def update_attempts_def Let_def assms(6) silent by simp
  moreover have "\<exists>t. att_lease_expires_at a = Some t \<and> now < t" using c(2) by (auto simp: holds_lease_def split: option.splits)
  ultimately show ?thesis using c(1,2) unfolding holds_lease_def by blast
qed simp

definition sample_completion :: "bool \<Rightarrow> CompletionRequest" where
  "sample_completion ok = \<lparr> comp_attempt_id = 11, comp_worker_id = ''w'', comp_succeeded = ok, comp_skipped = False,
     comp_exit_code = Some (if ok then 0 else 1), comp_stdout_tail = [], comp_stderr_tail = [], comp_error = None \<rparr>"

lemma sample_completed:
  "complete_attempt (\<lambda>_ _. second) 7 7 (sample_completion ok) sample_running =
     Inr (fst (projr (complete_attempt (\<lambda>_ _. second) 7 7 (sample_completion ok) sample_running)), True)"
  by (simp add: complete_attempt_def completion_texts_def text_storable_def bounded_tail_def
      sample_completion_def holds_lease_def retry_row_def Let_def sample_state_def sample_db_def
      sample_run_def sample_attempt_def sample_snapshot_def)

theorem completed_once_by_holder_witness:
  "let db1 = fst (projr (complete_attempt (\<lambda>_ _. second) 7 7 (sample_completion True) sample_running)) in
   renew_lease 8 11 ''w'' db1 \<in> {Inr (db1, False), Inl StoreInvalidData}"
  unfolding Let_def
  using completed_once_by_holder [where ?req2.0 = "sample_completion True" and w = "''w''" and ?now2.0 = 8
      and out = "\<lparr> os_attempt_id = 11, os_worker_id = ''w'', os_sequence = 1, os_stdout_tail = [], os_stderr_tail = [] \<rparr>",
      OF sample_invs(3) sample_completed [of True] adv.related_refl complete_attempt_inv [OF sample_invs(3) sample_completed]]
  by (simp add: sample_completion_def)

section \<open>Requests\<close>

lemma create_normal_run_tables:
  assumes "create_normal_run now p db = Inr db'"
  shows "db_runs db' = db_runs db @ [normal_run now None p]" "db_requests db' = db_requests db"
    "db_node_runs db' = db_node_runs db" "db_targets db' = db_targets db"
  using assms
  by (auto simp: create_normal_run_def insert_run_def create_attempt_and_outbox_def insert_run_event_def Let_def
      split: if_splits)

lemma create_normal_runs_tables:
  "create_normal_runs now ps db = Inr db' \<Longrightarrow>
     db_runs db' = db_runs db @ map (normal_run now None) ps \<and> db_requests db' = db_requests db \<and>
     db_node_runs db' = db_node_runs db \<and> db_targets db' = db_targets db"
proof (induction now ps db rule: create_normal_runs.induct)
  case (2 now p ps db)
  then obtain db1 where "create_normal_run now p db = Inr db1" "create_normal_runs now ps db1 = Inr db'" by auto
  then show ?case using 2(1) [of db1] create_normal_run_tables [of now p db db1] by simp
qed simp

lemma create_runs_created:
  assumes "create_runs encode jeq now rid jid target inputs db = Inr (db', runs, True)"
  obtains es shared ss ns where "find_run_request db rid = None"
    "load_selection_executions db jid target = Inr (es, shared)"
    "prepare_snapshots encode (db_next_id db) shared inputs es = Inr ss"
    "db_requests db' = db_requests db @ [\<lparr> rr_request_id = rid, rr_namespace_id = ns, rr_job_id = jid,
       rr_target_id = fst (selection_ids target), rr_target_set_id = snd (selection_ids target), rr_inputs = inputs \<rparr>]"
    "db_runs db' = db_runs db @ map (\<lambda>x. normal_run now None (prepared_run rid x)) (zip es ss)"
    "db_node_runs db' = db_node_runs db" "db_targets db' = db_targets db" "runs = runs_for_request db' rid"
proof (cases "find_run_request db rid")
  case (Some e)
  then show thesis using assms by (auto simp: create_runs_def)
next
  case None
  with assms obtain es shared ss ns where
    parts: "load_selection_executions db jid target = Inr (es, shared)"
      "prepare_snapshots encode (db_next_id db) shared inputs es = Inr ss"
      "create_normal_runs now (map (prepared_run rid) (zip es ss)) (db\<lparr> db_next_id := db_next_id db + length ss,
         db_requests := db_requests db @ [\<lparr> rr_request_id = rid, rr_namespace_id = ns, rr_job_id = jid,
           rr_target_id = fst (selection_ids target), rr_target_set_id = snd (selection_ids target), rr_inputs = inputs \<rparr>] \<rparr>) = Inr db'"
      "runs = runs_for_request db' rid"
    by (auto simp: create_runs_def Let_def)
  from create_normal_runs_tables [OF parts(3)] show thesis
    by (intro that [OF None parts(1,2) _ _ _ _ parts(4)]) (simp_all add: comp_def)
qed

text \<open>
  C16. A manual request is executed once.  Repeating it after its Runs were created creates nothing
  and returns the same Runs; the same request identity with another Job, Target selection or
  different inputs is refused.
\<close>

theorem create_runs_idempotent:
  assumes "create_runs encode jeq now rid jid target inputs db = Inr (db', runs, True)" "\<not> workflow_owned db rid"
  shows "create_runs encode jeq now' rid jid' target' inputs' db' =
    (if jid' = jid \<and> target' = target \<and> json_inputs_equal jeq inputs inputs' then Inr (db', runs, False)
     else Inl StoreIdempotencyConflict)"
  using assms(1)
proof (cases rule: create_runs_created)
  case (1 es shared ss ns)
  have found: "find_run_request db' rid = Some \<lparr> rr_request_id = rid, rr_namespace_id = ns, rr_job_id = jid,
       rr_target_id = fst (selection_ids target), rr_target_set_id = snd (selection_ids target), rr_inputs = inputs \<rparr>"
    using 1(1) unfolding find_run_request_def 1(4) find_append by simp
  have owned: "\<not> workflow_owned db' rid" using assms(2) by (simp add: workflow_owned_def 1(6))
  have sel: "selection_ids target = selection_ids target' \<longleftrightarrow> target' = target"
    by (auto simp: selection_ids_def split: TargetSelection.splits)
  show ?thesis
    unfolding create_runs_def found option.case compare_run_request_def
    using owned sel by (auto simp: 1(8))
qed

theorem create_runs_idempotent_witness:
  "let db' = insert_run_event 0 10 ''created'' sample_pending in
   create_runs sample_encode (=) 1 9 3 (SelectTarget 4) (JObject []) db' = Inr (db', [sample_run PendingDispatch], False) \<and>
   create_runs sample_encode (=) 1 9 3 (SelectTarget 5) (JObject []) db' = Inl StoreIdempotencyConflict"
proof -
  have free: "\<not> workflow_owned sample_db 9" by (simp add: workflow_owned_def sample_db_def)
  show ?thesis
    using create_runs_idempotent [OF sample_created free] by (simp add: Let_def json_inputs_equal_def)
qed

lemma prepare_snapshots_members:
  "prepare_snapshots encode n shared inputs es = Inr ss \<Longrightarrow> (e, i, s) \<in> set (zip es ss) \<Longrightarrow>
     execution_snapshot_with_inputs encode i e shared inputs TriggerManual None = Inr s"
  by (induction encode n shared inputs es arbitrary: ss rule: prepare_snapshots.induct) auto

lemma prepare_snapshots_length: "prepare_snapshots encode n shared inputs es = Inr ss \<Longrightarrow> length ss = length es"
  using prepare_snapshots_ids by (metis length_map length_upt add_diff_cancel_left')

text \<open>
  C17. A new manual request creates one Run per selected Target, each pending dispatch with its
  first Attempt, and each with the execution rendered from the Job, the Target Set, that Target
  and the request, in this order.
\<close>

theorem create_runs_per_target:
  assumes "create_runs encode jeq now rid jid target inputs db = Inr (db', runs, True)"
    and "\<forall>r \<in> set (db_runs db). run_request_id r \<noteq> Some rid"
    and "load_selection_executions db jid target = Inr (es, shared)"
  shows "mset (map run_target_id runs) = mset (map ex_target_id es) \<and>
    (\<forall>r \<in> set runs. run_status r = PendingDispatch \<and> run_attempt_count r = 1 \<and> run_request_id r = Some rid \<and>
      (\<exists>e \<in> set es. \<exists>s. run_job_id r = ex_job_id e \<and> run_target_id r = ex_target_id e \<and>
         run_queue_id r = ex_queue_id e \<and> run_max_attempts r = ex_max_attempts e \<and> run_snapshot r = Rendered s \<and>
         execution_snapshot_with_inputs encode (run_id r) e shared inputs TriggerManual None = Inr s))"
  using assms(1)
proof (cases rule: create_runs_created)
  case (1 es' shared' ss ns)
  have same: "es' = es" "shared' = shared" using 1(2) assms(3) by simp_all
  have len: "length ss = length es" using prepare_snapshots_length [OF 1(3)] same by simp
  have new: "filter (\<lambda>r. run_request_id r = Some rid) (db_runs db') = map (\<lambda>x. normal_run now None (prepared_run rid x)) (zip es ss)"
    using assms(2) by (simp add: 1(5) same filter_empty_conv filter_map comp_def normal_run_def prepared_run_def case_prod_unfold)
  have rows: "mset runs = mset (map (\<lambda>x. normal_run now None (prepared_run rid x)) (zip es ss))"
    unfolding 1(8) runs_for_request_def new by simp
  have "mset (map run_target_id runs) = image_mset run_target_id (mset runs)" by simp
  also have "\<dots> = mset (map (\<lambda>x. ex_target_id (fst x)) (zip es ss))"
    unfolding rows by (simp add: multiset.map_comp comp_def normal_run_def prepared_run_def case_prod_unfold)
  also have "map (\<lambda>x. ex_target_id (fst x)) (zip es ss) = map ex_target_id es"
    using len by (intro nth_equalityI) simp_all
  finally have targets: "mset (map run_target_id runs) = mset (map ex_target_id es)" .
  have "run_status r = PendingDispatch \<and> run_attempt_count r = 1 \<and> run_request_id r = Some rid \<and>
      (\<exists>e \<in> set es. \<exists>s. run_job_id r = ex_job_id e \<and> run_target_id r = ex_target_id e \<and>
         run_queue_id r = ex_queue_id e \<and> run_max_attempts r = ex_max_attempts e \<and> run_snapshot r = Rendered s \<and>
         execution_snapshot_with_inputs encode (run_id r) e shared inputs TriggerManual None = Inr s)"
    if "r \<in> set runs" for r
  proof -
    have "r \<in> set_mset (mset runs)" using that by simp
    then obtain e i s where x: "(e, i, s) \<in> set (zip es ss)" "r = normal_run now None (prepared_run rid (e, i, s))"
      unfolding rows by auto
    then show ?thesis
      using prepare_snapshots_members [OF 1(3)] same set_zip_leftD [OF x(1)]
      by (intro conjI bexI [of _ e] exI [of _ s]) (simp_all add: normal_run_def prepared_run_def)
  qed
  then show ?thesis using targets by blast
qed

theorem create_runs_per_target_witness:
  "mset (map run_target_id [sample_run PendingDispatch]) = {#4#}"
proof -
  obtain e where load: "load_selection_executions sample_db 3 (SelectTarget 4) = Inr ([e], None)" "ex_target_id e = 4"
    by (simp add: load_selection_executions_def load_execution_ids_def sample_defs)
  have none: "\<forall>r \<in> set (db_runs sample_db). run_request_id r \<noteq> Some 9" by (simp add: sample_db_def)
  show ?thesis using create_runs_per_target [OF sample_created none load(1)] load(2) by simp
qed

lemma insert_rerun_created:
  assumes "insert_rerun now src rid db = Inr (db', run, True)"
  obtains source ns s where "rerun_source db src = Inr (source, ns, s)" "find_run_request db rid = None"
    "run = normal_run now (Some src) (rerun_prepared (db_next_id db) rid source s)"
    "db_runs db' = db_runs db @ [run]" "db_requests db' = db_requests db @ [rerun_request db rid ns source]"
    "existing_rerun db' rid src = Inr (Some run)"
proof -
  from assms obtain found where "existing_rerun db rid src = Inr found" by (auto simp: insert_rerun_def)
  then have none: "existing_rerun db rid src = Inr None" using assms by (cases found) (auto simp: insert_rerun_def)
  then have fresh: "find_run_request db rid = None"
    by (auto simp: existing_rerun_def split: option.splits list.splits if_splits)
  from assms none obtain source ns s db2 db3 where parts: "rerun_source db src = Inr (source, ns, s)"
      "insert_run (normal_run now (Some src) (rerun_prepared (db_next_id db) rid source s))
         (db\<lparr> db_next_id := db_next_id db + 1, db_requests := db_requests db @ [rerun_request db rid ns source] \<rparr>) = Inr db2"
      "create_attempt_and_outbox now (db_next_id db) 1 (run_queue_id source) None db2 = Inr db3"
      "db' = insert_run_event now (db_next_id db) ''created'' db3" "existing_rerun db' rid src = Inr (Some run)"
    by (auto simp: insert_rerun_def Let_def case_prod_unfold)
  let ?new = "normal_run now (Some src) (rerun_prepared (db_next_id db) rid source s)"
  have runs: "db_runs db' = db_runs db @ [?new]" "db_requests db' = db_requests db @ [rerun_request db rid ns source]"
    using parts(2-4) by (auto simp: insert_run_def create_attempt_and_outbox_def Let_def split: if_splits)
  have "find_run_request db' rid \<noteq> None" using fresh by (simp add: find_run_request_def runs(2) find_append rerun_request_def)
  then have one: "runs_for_request db' rid = [run]"
    using parts(5) by (auto simp: existing_rerun_def split: option.splits list.splits if_splits)
  have "set (runs_for_request db' rid) = set (filter (\<lambda>r. run_request_id r = Some rid) (db_runs db'))"
    by (simp add: runs_for_request_def)
  moreover have "?new \<in> set (filter (\<lambda>r. run_request_id r = Some rid) (db_runs db'))"
    by (simp add: runs(1) normal_run_def rerun_prepared_def)
  ultimately have "run = ?new" unfolding one by auto
  then show thesis using that [OF parts(1) fresh _ _ runs(2) parts(5)] runs(1) by simp
qed

text \<open>
  C18. A re-run repeats its source: same Job, Target, Queue, attempt limit and, but for its own
  identity and trigger, the same rendered execution; it is created once, and its request identity
  is refused for another source.
\<close>

theorem rerun_repeats_source:
  assumes "insert_rerun now src rid db = Inr (db', run, True)"
  shows "(\<exists>source \<in> set (db_runs db). \<exists>s. run_id source = src \<and> run_snapshot source = Rendered s \<and>
      run_job_id run = run_job_id source \<and> run_target_id run = run_target_id source \<and>
      run_queue_id run = run_queue_id source \<and> run_max_attempts run = run_max_attempts source \<and>
      run_snapshot run = Rendered (s\<lparr> snap_idempotency_key := run_id run, snap_job_id := Some (run_job_id source),
        snap_queue_id := run_queue_id source, snap_trigger := Some TriggerRerun, snap_scheduled_at := None \<rparr>)) \<and>
    run_rerun_of run = Some src \<and> run_status run = PendingDispatch \<and>
    insert_rerun now' src' rid db' = (if src' = src then Inr (db', run, False) else Inl StoreIdempotencyConflict)"
  using assms
proof (cases rule: insert_rerun_created)
  case (1 source ns s)
  have src: "source \<in> set (db_runs db)" "run_id source = src" "run_snapshot source = Rendered s"
    using 1(1) unfolding rerun_source_def
    by (elim and_thenE; auto dest!: find_Some_in split: StoredSnapshot.splits)+
  have other: "existing_rerun db' rid src' = (if src' = src then Inr (Some run) else Inl StoreIdempotencyConflict)"
    using 1(6) by (auto simp: existing_rerun_def 1(3) normal_run_def split: option.splits list.splits if_splits)
  then have "insert_rerun now' src' rid db' = (if src' = src then Inr (db', run, False) else Inl StoreIdempotencyConflict)"
    by (simp add: insert_rerun_def)
  then show ?thesis using src by (auto simp: 1(3) normal_run_def rerun_prepared_def)
qed

lemma sample_rerun:
  "insert_rerun 5 10 20 (sample_state Succeeded None (Some 0)) =
     Inr (fst (projr (insert_rerun 5 10 20 (sample_state Succeeded None (Some 0)))),
          normal_run 5 (Some 10) (rerun_prepared 13 20 (sample_run Succeeded) sample_snapshot), True)"
  by (simp add: insert_rerun_def existing_rerun_def find_run_request_def rerun_source_def ensure_def Let_def insert_run_def
      create_attempt_and_outbox_def insert_run_event_def runs_for_request_def normal_run_def rerun_prepared_def
      rerun_request_def sample_state_def sample_db_def sample_run_def sample_attempt_def sample_message_def sample_request_def
      sample_queue_def sample_job_def del: and_then_Ok)

theorem rerun_repeats_source_witness:
  "let db' = fst (projr (insert_rerun 5 10 20 (sample_state Succeeded None (Some 0)))) in
   insert_rerun 6 11 20 db' = Inl StoreIdempotencyConflict"
  using rerun_repeats_source [OF sample_rerun, of 6 11] by (simp add: Let_def)

section \<open>Scheduled occurrences\<close>

definition occurrence_present :: "Db \<Rightarrow> uuid \<Rightarrow> timestamp \<Rightarrow> uuid \<Rightarrow> bool" where
  "occurrence_present db sid t tid \<longleftrightarrow>
     (\<exists>r \<in> set (db_runs db). run_schedule_id r = Some sid \<and> run_scheduled_at r = t \<and> run_target_id r = tid)"

definition occurrence_key :: "RunRow \<Rightarrow> (uuid \<times> timestamp \<times> uuid) option" where
  "occurrence_key r = map_option (\<lambda>s. (s, run_scheduled_at r, run_target_id r)) (run_schedule_id r)"

definition occurrences_unique :: "Db \<Rightarrow> bool" where
  "occurrences_unique db \<longleftrightarrow> distinct (filter (\<lambda>k. k \<noteq> None) (map occurrence_key (db_runs db)))"

lemma create_attempt_runs: "create_attempt_and_outbox now rid n q d db = Inr db' \<Longrightarrow> db_runs db' = db_runs db"
  by (rule create_attempt_keeps)

text \<open>A group of insertions: all present, all unique, nothing new when all were present.\<close>

definition inserts :: "uuid \<Rightarrow> (timestamp \<times> uuid) set \<Rightarrow> Db \<Rightarrow> Db \<Rightarrow> bool" where
  "inserts sid keys db db' \<longleftrightarrow>
     (\<forall>k \<in> keys. occurrence_present db' sid (fst k) (snd k)) \<and> (occurrences_unique db \<longrightarrow> occurrences_unique db') \<and>
     set (db_runs db) \<subseteq> set (db_runs db') \<and>
     ((\<forall>k \<in> keys. occurrence_present db sid (fst k) (snd k)) \<longrightarrow> db_runs db' = db_runs db \<and> db_attempts db' = db_attempts db)"

lemma insert_scheduled_occurrence_inserts:
  assumes "insert_scheduled_occurrence encode now sid occ e si ii db = Inr db'"
  shows "inserts sid {(occ_scheduled_at occ, ex_target_id e)} db db'"
  using assms
proof (cases rule: insert_scheduled_occurrence_cases)
  case (duplicate r)
  then show ?thesis by (auto simp: inserts_def occurrence_present_def occurrences_unique_def)
next
  case (inserted r db1 db2)
  have "db_runs db2 = db_runs db1" using inserted(7) create_attempt_runs by auto
  moreover have "db_runs db1 = db_runs db @ [r]" using inserted(1) by (auto simp: insert_run_def split: if_splits)
  ultimately have runs: "db_runs db' = db_runs db @ [r]" by (simp add: inserted(8))
  have absent: "\<not> occurrence_present db sid (occ_scheduled_at occ) (ex_target_id e)"
    using inserted(6) by (simp add: occurrence_present_def)
  have key: "occurrence_key r = Some (sid, occ_scheduled_at occ, ex_target_id e)" using inserted(3-5) by (simp add: occurrence_key_def)
  have "Some (sid, occ_scheduled_at occ, ex_target_id e) \<notin> occurrence_key ` set (db_runs db)"
    using absent by (auto simp: occurrence_present_def occurrence_key_def eq_commute [of "Some _"])
  then have "occurrences_unique db \<longrightarrow> occurrences_unique db'" by (auto simp: occurrences_unique_def runs key)
  then show ?thesis using absent inserted(3-5) by (auto simp: inserts_def runs occurrence_present_def)
qed

lemma inserts_compose:
  assumes "inserts sid A db db1" "inserts sid B db1 db2"
  shows "inserts sid (A \<union> B) db db2"
proof -
  have mono: "occurrence_present d sid t tid \<Longrightarrow> set (db_runs d) \<subseteq> set (db_runs d') \<Longrightarrow> occurrence_present d' sid t tid" for d d' t tid
    by (auto simp: occurrence_present_def)
  have sub: "set (db_runs db1) \<subseteq> set (db_runs db2)" "set (db_runs db) \<subseteq> set (db_runs db1)" using assms by (simp_all add: inserts_def)
  have "\<forall>k \<in> A \<union> B. occurrence_present db2 sid (fst k) (snd k)"
    using assms mono [OF _ sub(1)] unfolding inserts_def by blast
  moreover have "db_runs db2 = db_runs db \<and> db_attempts db2 = db_attempts db"
    if all: "\<forall>k \<in> A \<union> B. occurrence_present db sid (fst k) (snd k)"
  proof -
    have "db_runs db1 = db_runs db" "db_attempts db1 = db_attempts db" using all assms(1) unfolding inserts_def by blast+
    moreover have "\<forall>k \<in> B. occurrence_present db1 sid (fst k) (snd k)" using all mono [OF _ sub(2)] by blast
    ultimately show ?thesis using assms(2) unfolding inserts_def by simp
  qed
  ultimately show ?thesis using assms unfolding inserts_def by blast
qed

lemma insert_occurrence_executions_inserts:
  "insert_occurrence_executions encode now sid occ es si ii db = Inr db' \<Longrightarrow>
     inserts sid ((\<lambda>e. (occ_scheduled_at occ, ex_target_id e)) ` set es) db db'"
proof (induction es arbitrary: db)
  case (Cons e es)
  then obtain db1 where db1: "insert_scheduled_occurrence encode now sid occ e si ii db = Inr db1"
      "insert_occurrence_executions encode now sid occ es si ii db1 = Inr db'" by auto
  from inserts_compose [OF insert_scheduled_occurrence_inserts [OF db1(1)] Cons.IH [OF db1(2)]] show ?case by simp
qed (simp add: inserts_def)

lemma insert_occurrences_inserts:
  "insert_occurrences encode now sid occs es si ii db = Inr db' \<Longrightarrow>
     inserts sid ((\<lambda>(o', e). (occ_scheduled_at o', ex_target_id e)) ` (set occs \<times> set es)) db db'"
proof (induction occs arbitrary: db)
  case (Cons occ occs)
  then obtain db1 where db1: "insert_occurrence_executions encode now sid occ es si ii db = Inr db1"
      "insert_occurrences encode now sid occs es si ii db1 = Inr db'" by auto
  have keys: "(\<lambda>(o', e). (occ_scheduled_at o', ex_target_id e)) ` (set (occ # occs) \<times> set es) =
      (\<lambda>e. (occ_scheduled_at occ, ex_target_id e)) ` set es \<union>
      (\<lambda>(o', e). (occ_scheduled_at o', ex_target_id e)) ` (set occs \<times> set es)" by force
  show ?case
    unfolding keys by (rule inserts_compose [OF insert_occurrence_executions_inserts [OF db1(1)] Cons.IH [OF db1(2)]])
qed (simp add: inserts_def)

text \<open>
  C19. A committed plan records each planned occurrence once per selected Target: every pair of an
  occurrence and a Target has its Run, no pair has two, and committing occurrences that are all
  recorded already adds no Run and no Attempt.  The key is that of the unique index of the schema;
  \<open>DOMAIN_MODEL.md\<close> names only the pair of Schedule and time, which the Runs of a Target Set share.
\<close>

theorem schedule_occurrence_once:
  assumes "commit_schedule_plan encode now p db = Inr (db', ())" "occurrences_unique db"
  shows "\<exists>row \<in> set (db_schedules db). \<exists>es si. sched_id (srow_schedule row) = plan_schedule_id p \<and>
      srow_claim_owner row = Some (plan_owner p) \<and>
      load_selection_executions db (sched_job_id (srow_schedule row)) (sched_target (srow_schedule row)) = Inr (es, si) \<and>
      (\<forall>occ \<in> set (plan_occurrences p). \<forall>e \<in> set es.
         occurrence_present db' (plan_schedule_id p) (occ_scheduled_at occ) (ex_target_id e)) \<and>
      occurrences_unique db' \<and>
      ((\<forall>occ \<in> set (plan_occurrences p). \<forall>e \<in> set es.
         occurrence_present db (plan_schedule_id p) (occ_scheduled_at occ) (ex_target_id e)) \<longrightarrow>
       db_runs db' = db_runs db \<and> db_attempts db' = db_attempts db)"
  using assms(1)
proof (cases rule: commit_schedule_plan_cases)
  case (1 row es si db1)
  have "occurrence_present db' = occurrence_present db1" by (auto simp: occurrence_present_def 1(6) fun_eq_iff)
  moreover have "occurrences_unique db' = occurrences_unique db1" by (simp add: occurrences_unique_def 1(6))
  moreover note insert_occurrences_inserts [OF 1(5)]
  ultimately show ?thesis
    using assms(2) by (intro bexI [OF _ 1(1)] exI [of _ es] exI [of _ si]) (auto simp: inserts_def 1)
qed

definition sample_schedule_row :: ScheduleRow where
  "sample_schedule_row = \<lparr> srow_schedule = \<lparr> sched_id = 5, sched_namespace_id = 1, sched_name = ResourceName ''hourly'',
       sched_job_id = 3, sched_target = SelectTarget 4, sched_inputs = JObject [], sched_timing = Once 0, sched_enabled = True,
       sched_next_run_at = Some 0, sched_last_run_at = None, sched_misfire_policy = RunLate,
       sched_misfire_grace_seconds = None, sched_catchup_policy = RunOnce, sched_max_catchup_runs = 1,
       sched_max_catchup_age_seconds = 60, sched_revision = 1, sched_created_at = 0, sched_updated_at = 0 \<rparr>,
     srow_claim_owner = Some 6, srow_claim_expires_at = Some (30 * second) \<rparr>"

definition sample_plan :: SchedulePlan where
  "sample_plan = \<lparr> plan_schedule_id = 5, plan_owner = 6, plan_occurrences = [\<lparr> occ_scheduled_at = 0, occ_execute = True,
     occ_lateness_seconds = 0, occ_reason = None, occ_dispatch_deadline = None \<rparr>],
     plan_next_run_at = None, plan_disable = True \<rparr>"

definition sample_planned :: Db where
  "sample_planned = sample_db\<lparr> db_schedules := [sample_schedule_row],
     db_runs := [(sample_run Succeeded)\<lparr> run_schedule_id := Some 5 \<rparr>] \<rparr>"

lemma insert_present_occurrence:
  "occurrence_present db sid (occ_scheduled_at occ) (ex_target_id e) \<Longrightarrow>
     insert_scheduled_occurrence encode now sid occ e si ii db = Inr (db\<lparr> db_next_id := db_next_id db + 1 \<rparr>)"
  by (simp add: insert_scheduled_occurrence_def occurrence_present_def Let_def split: prod.split)

lemma sample_commit:
  "commit_schedule_plan sample_encode 1 sample_plan sample_planned =
     Inr (fst (projr (commit_schedule_plan sample_encode 1 sample_plan sample_planned)), ())"
proof -
  have present: "occurrence_present sample_planned 5 0 4"
    by (simp add: occurrence_present_def sample_planned_def sample_run_def)
  obtain e where load: "load_selection_executions sample_planned 3 (SelectTarget 4) = Inr ([e], None)" "ex_target_id e = 4"
    by (simp add: load_selection_executions_def load_execution_ids_def sample_planned_def sample_defs)
  note insert = insert_present_occurrence [of sample_planned 5 "hd (plan_occurrences sample_plan)" e sample_encode 1 None "JObject []"]
  have "insert_occurrences sample_encode 1 5 (plan_occurrences sample_plan) [e] None (JObject []) sample_planned =
      Inr (sample_planned\<lparr> db_next_id := db_next_id sample_planned + 1 \<rparr>)"
    using insert present load(2) by (simp add: sample_plan_def)
  moreover have "find (\<lambda>row. sched_id (srow_schedule row) = plan_schedule_id sample_plan \<and>
      srow_claim_owner row = Some (plan_owner sample_plan) \<and>
      (case srow_claim_expires_at row of None \<Rightarrow> False | Some t \<Rightarrow> 1 < t)) (db_schedules sample_planned) = Some sample_schedule_row"
    by (simp add: sample_plan_def sample_planned_def sample_schedule_row_def)
  moreover have "sched_job_id (srow_schedule sample_schedule_row) = 3" "sched_target (srow_schedule sample_schedule_row) = SelectTarget 4"
      "sched_inputs (srow_schedule sample_schedule_row) = JObject []" "plan_schedule_id sample_plan = 5"
    by (simp_all add: sample_schedule_row_def sample_plan_def)
  ultimately show ?thesis
    using load(1) by (simp add: commit_schedule_plan_def Let_def del: and_then_Ok)
      (simp add: sample_plan_def sample_planned_def sample_schedule_row_def)
qed

theorem schedule_occurrence_once_witness:
  "occurrences_unique (fst (projr (commit_schedule_plan sample_encode 1 sample_plan sample_planned)))"
proof -
  have "occurrences_unique sample_planned" by (simp add: occurrences_unique_def sample_planned_def)
  from schedule_occurrence_once [OF sample_commit this] show ?thesis by blast
qed

section \<open>Completion and reconciliation\<close>

text \<open>
  C20. The effect of an accepted completion: a success, a dry run and a final failure end the Run in
  that state, a failure of an idempotent Run with Attempts left waits for the delay and keeps the
  Run open, and no other Run changes.
\<close>

theorem complete_attempt_outcome:
  assumes "run_inv db" "complete_attempt delay now utc req db = Inr (db', True)" "r \<in> set (db_runs db)"
    and "a \<in> set (db_attempts db)" "att_id a = comp_attempt_id req"
  shows "\<exists>r' \<in> set (db_runs db'). run_id r' = run_id r \<and>
    (if run_id r \<noteq> att_run_id a then r' = r
     else if comp_succeeded req then run_status r' = (if comp_skipped req then Skipped else Succeeded) \<and>
       run_completed_at r' = Some now
     else if snapshot_idempotent (run_snapshot r) \<and> run_attempt_count r < run_max_attempts r
       then run_status r' = RetryWait \<and> run_completed_at r' = None \<and>
         (\<exists>retry. retry_row r = Inr retry \<and> run_next_retry_at r' = Some (utc + delay r retry))
     else run_status r' = Failed \<and> run_completed_at r' = Some now \<and> run_next_retry_at r' = None)"
  using assms(2)
proof (cases rule: complete_attempt_cases)
  case (completed b s retry)
  note c = this
  have keys: "keys_ok db" using assms(1) by (simp add: run_inv_except_def)
  have "b = a" using attempt_by_key [OF keys c(1) assms(4)] c(2) assms(5) by (simp add: holds_lease_def)
  have running: "run_status s = Running"
    using inv_fits_run [OF assms(1) c(1,3,4)] c(2) by (simp add: fits_def holds_lease_def)
  let ?status = "completed_run_status req (should_retry req retry)"
  let ?g = "\<lambda>x. x\<lparr> run_status := ?status, run_completed_at := (if ?status = RetryWait then None else Some now),
      run_next_retry_at := (if should_retry req retry then Some (utc + delay x retry) else None),
      run_terminal_reason := (if comp_skipped req then Some ''dry run'' else map_option bounded_error (comp_error req)) \<rparr>"
  let ?r = "if run_id r = att_run_id b \<and> run_status r = Running then ?g r else r"
  have mem: "?r \<in> set (db_runs db')" using assms(3) by (simp add: c(8) Let_def set_update_where)
  show ?thesis
  proof (cases "run_id r = att_run_id a")
    case False
    then show ?thesis using mem \<open>b = a\<close> by (intro bexI [of _ r]) auto
  next
    case True
    then have "r = s" using run_by_key [OF keys assms(3) c(3)] c(4) \<open>b = a\<close> by simp
    moreover have "rt_idempotent retry = snapshot_idempotent (run_snapshot s)" "rt_attempt_count retry = run_attempt_count s"
        "rt_max_attempts retry = run_max_attempts s"
      using c(5) by (auto simp: retry_row_def snapshot_idempotent_def split: StoredSnapshot.splits f64.splits)
    ultimately show ?thesis
      using mem True running c(5,7) \<open>b = a\<close>
      by (intro bexI [of _ ?r]) (auto simp: completed_run_status_def should_retry_def)
  qed
qed simp

theorem complete_attempt_outcome_witness:
  "\<exists>r' \<in> set (db_runs (fst (projr (complete_attempt (\<lambda>_ _. second) 7 7 (sample_completion False) sample_running)))).
     run_status r' = RetryWait"
proof -
  have "sample_run Running \<in> set (db_runs sample_running)"
      "sample_attempt Running (Some (60 * second)) \<in> set (db_attempts sample_running)"
    by (simp_all add: sample_state_def sample_db_def)
  from complete_attempt_outcome [OF sample_invs(3) sample_completed [of False] this] show ?thesis
    by (auto simp: sample_completion_def sample_attempt_def sample_run_def sample_snapshot_def snapshot_idempotent_def)
qed

end
