(* ===== verification/WorkerControl.thy ===== *)
theory WorkerControl
  imports Reads RunProperties
begin

text \<open>
  The server side of the worker protocol (\<open>infrastructure/worker_control.rs\<close>): claims, leases,
  completions, live output, presence and Queue resolution over request and reply.  The JSON decoders
  of the requests are third-party code and enter as the record \<open>ControlCodec\<close>.
\<close>

section \<open>Messages\<close>

record LeaseRequest =
  lr_attempt_id :: uuid
  lr_worker_id :: bytes

record QueueReference =
  qref_id :: uuid
  qref_name :: bytes

datatype QueueResolutionStatus = ResolutionReady | ResolutionNotFound | ResolutionUnavailable

record QueueResolutionResponse =
  qres_status :: QueueResolutionStatus
  qres_queue :: "QueueReference option"

record ControlMessage =
  msg_subject :: bytes
  msg_reply :: bool
  msg_payload :: bytes

record ControlCodec =
  dec_claim :: "bytes \<Rightarrow> ClaimRequest option"
  dec_lease :: "bytes \<Rightarrow> LeaseRequest option"
  dec_completion :: "bytes \<Rightarrow> CompletionRequest option"
  dec_output :: "bytes \<Rightarrow> OutputSnapshotRequest option"
  dec_heartbeat :: "bytes \<Rightarrow> WorkerHeartbeatRequest option"
  dec_resolution :: "bytes \<Rightarrow> bytes option"
  enc_diagnostics :: "WorkerDiagnostics \<Rightarrow> json"

text \<open>What a handler answers: nothing without a reply subject, nothing after a failure, or a response.\<close>

datatype ControlResponse = ClaimReply ClaimResponse | BoolReply bool | QueueReply QueueResolutionResponse

datatype Handled = NoReply | HandlerFailed | Replied ControlResponse

definition token :: "nat \<Rightarrow> bytes \<Rightarrow> bytes" where
  "token n subject = (let tokens = split_on (CHR ''.'') subject in if n < length tokens then tokens ! n else [])"

definition answer :: "('a \<Rightarrow> ControlResponse) \<Rightarrow> Db \<Rightarrow> (StoreError, Db \<times> 'a) result \<Rightarrow> Db \<times> Handled" where
  "answer f db r = (case r of Inr (db', a) \<Rightarrow> (db', Replied (f a)) | Inl _ \<Rightarrow> (db, HandlerFailed))"

section \<open>Control operations\<close>

definition handle_control ::
  "ControlCodec \<Rightarrow> (RunRow \<Rightarrow> RetryRow \<Rightarrow> int) \<Rightarrow> timestamp \<Rightarrow> timestamp \<Rightarrow> ControlMessage \<Rightarrow> Db \<Rightarrow> Db \<times> Handled" where
  "handle_control codec delay now utc message db =
     (let operation = token 3 (msg_subject message); subject_worker = token 4 (msg_subject message) in
      if \<not> msg_reply message then (db, NoReply)
      else if operation = ''claim'' then
        (case dec_claim codec (msg_payload message) of
           None \<Rightarrow> (db, HandlerFailed)
         | Some request \<Rightarrow>
             if cr_worker_id request \<noteq> subject_worker then (db, HandlerFailed)
             else (case claim_attempt now request db of
                     (db', Inr response) \<Rightarrow> (db', Replied (ClaimReply response))
                   | (db', Inl _) \<Rightarrow> (db', HandlerFailed)))
      else if operation = ''renew'' then
        (case dec_lease codec (msg_payload message) of
           None \<Rightarrow> (db, HandlerFailed)
         | Some request \<Rightarrow>
             if lr_worker_id request \<noteq> subject_worker then (db, HandlerFailed)
             else answer BoolReply db (renew_lease now (lr_attempt_id request) (lr_worker_id request) db))
      else if operation = ''complete'' then
        (case dec_completion codec (msg_payload message) of
           None \<Rightarrow> (db, HandlerFailed)
         | Some request \<Rightarrow>
             if comp_worker_id request \<noteq> subject_worker then (db, HandlerFailed)
             else answer BoolReply db (complete_attempt delay now utc request db))
      else (db, HandlerFailed))"

section \<open>Live output\<close>

definition MAX_LIVE_TAIL_BYTES :: nat where "MAX_LIVE_TAIL_BYTES = 16384"
definition MAX_OUTPUT_REQUEST_BYTES :: nat where "MAX_OUTPUT_REQUEST_BYTES = 262144"

definition validate_output :: "OutputSnapshotRequest \<Rightarrow> bytes \<Rightarrow> bool" where
  "validate_output request subject_worker \<longleftrightarrow>
     \<not> (os_worker_id request \<noteq> subject_worker \<or> \<not> is_ok (validate_resource_name (os_worker_id request)) \<or>
        os_sequence request = 0 \<or> length (os_stdout_tail request) > MAX_LIVE_TAIL_BYTES \<or>
        length (os_stderr_tail request) > MAX_LIVE_TAIL_BYTES)"

definition handle_output :: "ControlCodec \<Rightarrow> timestamp \<Rightarrow> ControlMessage \<Rightarrow> Db \<Rightarrow> Db \<times> Handled" where
  "handle_output codec now message db =
     (if \<not> msg_reply message then (db, NoReply)
      else if length (msg_payload message) > MAX_OUTPUT_REQUEST_BYTES then (db, HandlerFailed)
      else case dec_output codec (msg_payload message) of
        None \<Rightarrow> (db, HandlerFailed)
      | Some request \<Rightarrow>
          if \<not> validate_output request (token 3 (msg_subject message)) then (db, HandlerFailed)
          else answer BoolReply db (record_attempt_output now request db))"

text \<open>With no permit left the update is refused; otherwise it runs beside the other handlers.\<close>

definition dispatch_output :: "ControlCodec \<Rightarrow> nat \<Rightarrow> timestamp \<Rightarrow> ControlMessage \<Rightarrow> Db \<Rightarrow> Db \<times> Handled" where
  "dispatch_output codec permits now message db =
     (if 0 < permits then handle_output codec now message db
      else if msg_reply message then (db, Replied (BoolReply False)) else (db, NoReply))"

section \<open>Presence\<close>

text \<open>\<open>char::is_control\<close> on the UTF-8 bytes: the C0 range, DEL, and the C1 range after its lead byte.\<close>

fun has_control :: "bytes \<Rightarrow> bool" where
  "has_control [] = False"
| "has_control (c # cs) =
     (c < CHR '' '' \<or> c = CHR 0x7F \<or>
      (c = CHR 0xC2 \<and> (case cs of [] \<Rightarrow> False | d # _ \<Rightarrow> CHR 0x80 \<le> d \<and> d \<le> CHR 0x9F)) \<or> has_control cs)"

definition diagnostics_valid :: "WorkerDiagnostics \<Rightarrow> bool" where
  "diagnostics_valid d \<longleftrightarrow>
     list_all (\<lambda>v. v \<noteq> [] \<and> length v \<le> 255 \<and> \<not> has_control v)
       [wd_hostname d, wd_os d, wd_architecture d, wd_default_shell_path d] \<and>
     prefix ''/'' (wd_default_shell_path d) \<and>
     list_all (\<lambda>v. case v of None \<Rightarrow> True | Some t \<Rightarrow> length t \<le> 128 \<and> \<not> has_control t) [wd_lang d, wd_lc_all d, wd_tz d]"

definition validate_heartbeat :: "WorkerHeartbeatRequest \<Rightarrow> bytes \<Rightarrow> bool" where
  "validate_heartbeat request subject_worker \<longleftrightarrow>
     hb_worker_id request = subject_worker \<and> is_ok (validate_resource_name (hb_worker_id request)) \<and>
     1 \<le> hb_concurrency request \<and> hb_concurrency request \<le> 256 \<and>
     hb_version request \<noteq> [] \<and> length (hb_version request) \<le> 128 \<and> CHR 0x00 \<notin> set (hb_version request) \<and>
     (case hb_diagnostics request of None \<Rightarrow> True | Some d \<Rightarrow> diagnostics_valid d)"

definition handle_presence :: "ControlCodec \<Rightarrow> timestamp \<Rightarrow> ControlMessage \<Rightarrow> Db \<Rightarrow> Db \<times> Handled" where
  "handle_presence codec now message db =
     (if \<not> msg_reply message then (db, NoReply)
      else case dec_heartbeat codec (msg_payload message) of
        None \<Rightarrow> (db, HandlerFailed)
      | Some request \<Rightarrow>
          if \<not> validate_heartbeat request (token 3 (msg_subject message)) then (db, HandlerFailed)
          else case get_queue db (hb_queue_id request) of
            Inl _ \<Rightarrow> (db, HandlerFailed)
          | Inr _ \<Rightarrow> answer (\<lambda>_. BoolReply True) db (record_worker_heartbeat (enc_diagnostics codec) now request db))"

section \<open>Queue resolution\<close>

definition handle_queue_resolution :: "ControlCodec \<Rightarrow> ControlMessage \<Rightarrow> Db \<Rightarrow> Handled" where
  "handle_queue_resolution codec message db =
     (if \<not> msg_reply message then NoReply
      else case dec_resolution codec (msg_payload message) of
        None \<Rightarrow> HandlerFailed
      | Some requested \<Rightarrow>
          (case QueueName_parse requested of
             Inl _ \<Rightarrow> HandlerFailed
           | Inr name \<Rightarrow>
               if queue_str name \<noteq> token 4 (msg_subject message) then HandlerFailed
               else Replied (QueueReply (case get_queue_by_name db name of
                 Inr q \<Rightarrow> \<lparr> qres_status = ResolutionReady,
                     qres_queue = Some \<lparr> qref_id = queue_id q, qref_name = queue_str (queue_name q) \<rparr> \<rparr>
               | Inl e \<Rightarrow> \<lparr> qres_status = (if e = StoreNotFound then ResolutionNotFound else ResolutionUnavailable),
                     qres_queue = None \<rparr>))))"

section \<open>One loop iteration\<close>

text \<open>The four subscriptions of \<open>run_worker_control\<close>; their handlers run one at a time, output beside them.\<close>

datatype WorkerRequest = ControlReq ControlMessage | OutputReq nat ControlMessage | PresenceReq ControlMessage | ResolutionReq ControlMessage

definition handle_worker ::
  "ControlCodec \<Rightarrow> (RunRow \<Rightarrow> RetryRow \<Rightarrow> int) \<Rightarrow> timestamp \<Rightarrow> timestamp \<Rightarrow> WorkerRequest \<Rightarrow> Db \<Rightarrow> Db \<times> Handled" where
  "handle_worker codec delay now utc request db =
     (case request of
        ControlReq m \<Rightarrow> handle_control codec delay now utc m db
      | OutputReq permits m \<Rightarrow> dispatch_output codec permits now m db
      | PresenceReq m \<Rightarrow> handle_presence codec now m db
      | ResolutionReq m \<Rightarrow> (db, handle_queue_resolution codec m db))"

text \<open>The worker a subject speaks for.\<close>

definition subject_worker :: "WorkerRequest \<Rightarrow> bytes" where
  "subject_worker request =
     (case request of
        ControlReq m \<Rightarrow> token 4 (msg_subject m)
      | OutputReq _ m \<Rightarrow> token 3 (msg_subject m)
      | PresenceReq m \<Rightarrow> token 3 (msg_subject m)
      | ResolutionReq m \<Rightarrow> [])"

definition claiming :: "WorkerRequest \<Rightarrow> bool" where
  "claiming request = (case request of ControlReq m \<Rightarrow> token 3 (msg_subject m) = ''claim'' | _ \<Rightarrow> False)"

section \<open>Workers act under their own identity\<close>

lemma update_where_new:
  assumes "b \<in> set (update_where p f rs)" "b \<notin> set rs"
  obtains a where "a \<in> set rs" "p a" "b = f a"
  using assms by (auto simp: set_update_where split: if_splits)

lemma claim_attempt_own:
  assumes "claim_attempt now request db = (db', res)" "b \<in> set (db_attempts db')" "b \<notin> set (db_attempts db)"
  shows "att_worker_id b = Some (cr_worker_id request)"
  using assms(1)
proof (cases rule: claim_attempt_cases)
  case (claimed a r)
  from update_where_new [OF assms(2) [unfolded claimed(9)] assms(3)] obtain c where
    "b = c\<lparr> att_status := Running, att_worker_id := Some (cr_worker_id request), att_started_at := Some now,
       att_heartbeat_at := Some now, att_lease_expires_at := Some (now + 60 * second) \<rparr>" by blast
  then show ?thesis by simp
qed (use assms in simp_all)

lemma renew_lease_own:
  assumes "renew_lease now aid wid db = Inr (db', res)" "b \<in> set (db_attempts db')" "b \<notin> set (db_attempts db)"
  shows "att_worker_id b = Some wid"
  using assms by (auto simp: renew_lease_def holds_lease_def set_update_where split: if_splits)

lemma record_attempt_output_own:
  assumes "record_attempt_output now request db = Inr (db', res)" "b \<in> set (db_attempts db')" "b \<notin> set (db_attempts db)"
  shows "att_worker_id b = Some (os_worker_id request)"
  using assms by (auto simp: record_attempt_output_def Let_def holds_lease_def set_update_where split: if_splits)

lemma complete_attempt_own:
  assumes "complete_attempt delay now utc request db = Inr (db', res)" "b \<in> set (db_attempts db')" "b \<notin> set (db_attempts db)"
  shows "att_worker_id b = Some (comp_worker_id request)"
  using assms(1)
proof (cases rule: complete_attempt_cases)
  case (completed a r retry)
  from assms(2,3) show ?thesis
    by (auto simp: completed(8) Let_def holds_lease_def set_update_where split: if_splits)
qed (use assms in simp_all)

lemma heartbeat_frame:
  "record_worker_heartbeat enc now r db = Inr (db', u) \<Longrightarrow> \<exists>ws. db' = db\<lparr> db_workers := ws \<rparr>"
  by (auto simp: record_worker_heartbeat_def Let_def split: if_splits option.splits)

text \<open>The store transactions behind a handler.\<close>

lemma handle_worker_cases:
  assumes "handle_worker codec delay now utc req db = (db', out)"
  obtains (same) "db' = db"
  | (claim) request res where "claim_attempt now request db = (db', res)" "cr_worker_id request = subject_worker req" "claiming req"
  | (renew) aid res where "renew_lease now aid (subject_worker req) db = Inr (db', res)"
  | (complete) request res where "complete_attempt delay now utc request db = Inr (db', res)" "comp_worker_id request = subject_worker req"
  | (live) request res where "record_attempt_output now request db = Inr (db', res)" "os_worker_id request = subject_worker req"
      "validate_output request (subject_worker req)"
  | (presence) request where "record_worker_heartbeat (enc_diagnostics codec) now request db = Inr (db', ())"
      "validate_heartbeat request (subject_worker req)" "find_queue db (hb_queue_id request) \<noteq> None"
proof (cases req)
  case (ControlReq m)
  then show thesis
    using assms same claim renew complete
    by (auto simp: handle_worker_def handle_control_def answer_def subject_worker_def claiming_def Let_def split: if_splits option.splits sum.splits prod.splits)
next
  case (OutputReq permits m)
  then show thesis
    using assms same live
    by (auto simp: handle_worker_def dispatch_output_def handle_output_def answer_def subject_worker_def validate_output_def
        split: if_splits option.splits sum.splits prod.splits)
next
  case (PresenceReq m)
  then show thesis
    using assms same presence
    by (auto simp: handle_worker_def handle_presence_def answer_def subject_worker_def get_queue_def
        split: if_splits option.splits sum.splits prod.splits)
qed (use assms same in \<open>simp add: handle_worker_def\<close>)

lemma handle_worker_inv:
  assumes "handle_worker codec delay now utc req db = (db', out)" "run_inv db"
  shows "run_inv db'"
  using assms(1)
proof (cases rule: handle_worker_cases)
  case (claim request res)
  show ?thesis by (rule claim_attempt_inv [OF assms(2) claim(1)])
next
  case (renew aid res)
  show ?thesis by (rule renew_lease_inv [OF assms(2) renew])
next
  case (complete request res)
  show ?thesis by (rule complete_attempt_inv [OF assms(2) complete(1)])
next
  case (live request res)
  show ?thesis by (rule record_attempt_output_inv [OF assms(2) live(1)])
next
  case (presence request)
  then obtain ws where "db' = db\<lparr> db_workers := ws \<rparr>" using heartbeat_frame by blast
  then show ?thesis using inv_cong [OF assms(2), of db'] by simp
qed (use assms(2) in simp)

lemma handle_worker_advances:
  assumes "handle_worker codec delay now utc req db = (db', out)"
  shows "advances db db'"
  using assms
proof (cases rule: handle_worker_cases)
  case (presence request)
  then obtain ws where "db' = db\<lparr> db_workers := ws \<rparr>" using heartbeat_frame by blast
  then show ?thesis by (simp add: adv.related_tables)
qed (simp_all add: claim_attempt_advances adv.renew_lease_history adv.complete_attempt_history adv.record_attempt_output_history)

lemma handle_worker_waits:
  assumes "handle_worker codec delay now utc req db = (db', out)" "\<not> claiming req"
  shows "waits db db'"
  using assms(1)
proof (cases rule: handle_worker_cases)
  case (presence request)
  then obtain ws where "db' = db\<lparr> db_workers := ws \<rparr>" using heartbeat_frame by blast
  then show ?thesis by (simp add: wait.related_tables)
qed (use assms(2) in \<open>simp_all add: wait.renew_lease_history wait.complete_attempt_history wait.record_attempt_output_history\<close>)

text \<open>
  C23. A worker changes only its own Attempts: whatever a worker sends on any of the protocol's
  subjects, an Attempt that changes belongs afterwards to the worker the subject names, and after a
  renewal, completion or output it already did.
\<close>

theorem worker_changes_own_attempts:
  assumes "handle_worker codec delay now utc req db = (db', out)"
    and "b \<in> set (db_attempts db')" "b \<notin> set (db_attempts db)"
  shows "att_worker_id b = Some (subject_worker req)"
  using assms(1)
proof (cases rule: handle_worker_cases)
  case (claim request res)
  then show ?thesis using claim_attempt_own assms(2,3) by simp
next
  case (renew aid res)
  then show ?thesis using renew_lease_own assms(2,3) by blast
next
  case (complete request res)
  then show ?thesis using complete_attempt_own assms(2,3) by metis
next
  case (live request res)
  then show ?thesis using record_attempt_output_own assms(2,3) by metis
next
  case (presence request)
  then show ?thesis using heartbeat_frame assms(2,3) by fastforce
qed (use assms in simp)

definition sample_codec :: ControlCodec where
  "sample_codec = \<lparr> dec_claim = (\<lambda>_. Some (sample_claim ''w'')), dec_lease = (\<lambda>_. None),
     dec_completion = (\<lambda>p. Some ((sample_completion True)\<lparr> comp_stdout_tail := p \<rparr>)), dec_output = (\<lambda>_. None),
     dec_heartbeat = (\<lambda>_. None), dec_resolution = Some, enc_diagnostics = (\<lambda>_. JNull) \<rparr>"

lemma sample_subjects:
  "token 3 ''crono.worker.control.claim.w'' = ''claim''" "token 4 ''crono.worker.control.claim.w'' = ''w''"
  "token 3 ''crono.worker.control.complete.w'' = ''complete''" "token 4 ''crono.worker.control.complete.w'' = ''w''"
  by (simp_all add: token_def)

abbreviation sample_control :: WorkerRequest where
  "sample_control \<equiv> ControlReq \<lparr> msg_subject = ''crono.worker.control.claim.w'', msg_reply = True, msg_payload = [] \<rparr>"

theorem worker_changes_own_attempts_witness:
  "\<exists>db' out b. handle_worker sample_codec (\<lambda>_ _. 0) 5 5 sample_control sample_queued = (db', out) \<and>
     b \<in> set (db_attempts db') \<and> b \<notin> set (db_attempts sample_queued) \<and> att_worker_id b = Some ''w''"
proof -
  let ?db' = "fst (claim_attempt 5 (sample_claim ''w'') sample_queued)"
  have step: "handle_worker sample_codec (\<lambda>_ _. 0) 5 5 sample_control sample_queued =
      (?db', Replied (ClaimReply \<lparr> claimed = True, lease_seconds = 60, execution = Some sample_snapshot \<rparr>))"
    using arg_cong [OF sample_claimed, of snd]
    by (simp add: handle_worker_def handle_control_def sample_subjects sample_codec_def case_prod_unfold)
      (auto simp: sample_claim_def split: prod.splits)
  obtain b where b: "b \<in> set (db_attempts ?db')" "att_status b = Running"
    by (rule claim_attempt_started [OF sample_claimed]) (simp, blast)
  then have new: "b \<notin> set (db_attempts sample_queued)" by (auto simp: sample_state_def sample_attempt_def)
  from worker_changes_own_attempts [OF step b(1) new] show ?thesis
    using step b(1) new by (auto simp: subject_worker_def sample_subjects)
qed

end
