(* ===== verification/Worker.thy ===== *)
theory Worker
  imports Runner WorkerControl
begin

text \<open>
  The worker process (\<open>services/worker/src/cli/actions/run.rs\<close>): Queue resolution, the handling of
  one delivery from claim to acknowledgement, lease renewal during execution and the upload of live
  output.  Answers of the server and of the stream are arguments: \<open>None\<close> is a request without an reply.
\<close>

section \<open>Queue resolution\<close>

definition QUEUE_RESOLUTION_ATTEMPTS :: nat where "QUEUE_RESOLUTION_ATTEMPTS = 30"

datatype ResolutionReply = NoResponder | InvalidReply | ResolutionReply QueueResolutionResponse

datatype ResolutionError = NotAnswered | ReplyInvalid | IdentityOmitted | QueueMissing | NotResolved

function resolve_queue_from :: "(nat \<Rightarrow> ResolutionReply) \<Rightarrow> nat \<Rightarrow> (ResolutionError, QueueReference) result \<times> nat" where
  "resolve_queue_from ask attempt =
     (if QUEUE_RESOLUTION_ATTEMPTS < attempt then (Err NotResolved, attempt - 1)
      else case ask attempt of
        NoResponder \<Rightarrow>
          if attempt < QUEUE_RESOLUTION_ATTEMPTS then resolve_queue_from ask (attempt + 1) else (Err NotAnswered, attempt)
      | InvalidReply \<Rightarrow> (Err ReplyInvalid, attempt)
      | ResolutionReply response \<Rightarrow>
          (case qres_status response of
             ResolutionReady \<Rightarrow> (ok_or IdentityOmitted (qres_queue response), attempt)
           | ResolutionNotFound \<Rightarrow> (Err QueueMissing, attempt)
           | ResolutionUnavailable \<Rightarrow>
               if attempt < QUEUE_RESOLUTION_ATTEMPTS then resolve_queue_from ask (attempt + 1) else (Err NotResolved, attempt)))"
  by pat_completeness auto
termination
  by (relation "measure (\<lambda>(ask, attempt). QUEUE_RESOLUTION_ATTEMPTS + 1 - attempt)") auto

declare resolve_queue_from.simps [simp del]

definition resolve_queue :: "(nat \<Rightarrow> ResolutionReply) \<Rightarrow> (ResolutionError, QueueReference) result \<times> nat" where
  "resolve_queue ask = resolve_queue_from ask 1"

section \<open>One delivery\<close>

datatype LogFormat = PrettyLog | JsonLog

record Args =
  args_nats_url :: bytes
  args_queue :: bytes
  args_worker_id :: bytes
  args_concurrency :: int
  args_dry_run :: bool
  args_log_format :: LogFormat

datatype AckKind = AckTerm | AckNak | AckDouble

definition receive :: "('p \<Rightarrow> DispatchEnvelope option) \<Rightarrow> Args \<Rightarrow> uuid \<Rightarrow> 'p \<Rightarrow> (AckKind, DispatchEnvelope \<times> ClaimRequest) result" where
  "receive decode args queue payload =
     (case decode payload of
        None \<Rightarrow> Err AckTerm
      | Some envelope \<Rightarrow>
          if env_queue_id envelope \<noteq> queue then Err AckTerm
          else Ok (envelope, \<lparr> cr_run_id = env_run_id envelope, cr_attempt_id = env_attempt_id envelope, cr_queue_id = queue,
                 cr_worker_id = args_worker_id args \<rparr>))"

definition after_claim :: "ClaimResponse option \<Rightarrow> (AckKind, ExecutionSnapshot) result" where
  "after_claim reply =
     (case reply of
        None \<Rightarrow> Err AckNak
      | Some response \<Rightarrow> if claimed response then ok_or AckDouble (execution response) else Err AckDouble)"

text \<open>
  The renewals while the work runs, each with its reply and whether the acknowledgement deadline was
  extended.  A failed renewal drops the work, which has emitted only the first of its events by then, \<open>emitted\<close> many.
\<close>

fun run_with_heartbeat ::
  "(bool option \<times> bool) list \<Rightarrow> nat \<Rightarrow> ExecutionEvent list \<times> (bytes, ExecutionResult) result \<Rightarrow>
   ExecutionEvent list \<times> (bytes, ExecutionResult) result" where
  "run_with_heartbeat [] emitted work = work"
| "run_with_heartbeat ((renewed, extended) # ticks) emitted work =
     (case renewed of
        None \<Rightarrow> (take emitted (fst work), Err ''worker control request failed'')
      | Some False \<Rightarrow> (take emitted (fst work), Err ''worker lease expired during execution'')
      | Some True \<Rightarrow> if extended then run_with_heartbeat ticks emitted work
          else (take emitted (fst work), Err ''failed to extend JetStream acknowledgement deadline''))"

definition execution_outcome :: "(bytes, ExecutionResult) result \<Rightarrow> ExecutionResult" where
  "execution_outcome r = (case r of Inr result \<Rightarrow> result | Inl e \<Rightarrow> failed_result PhaseExecution e)"

definition completion_request :: "Args \<Rightarrow> Redactor \<Rightarrow> DispatchEnvelope \<Rightarrow> ExecutionResult \<Rightarrow> CompletionRequest" where
  "completion_request args r envelope result =
     \<lparr> comp_attempt_id = env_attempt_id envelope, comp_worker_id = args_worker_id args, comp_succeeded = res_succeeded result,
       comp_skipped = res_skipped result, comp_exit_code = res_exit_code result, comp_stdout_tail = res_stdout_tail result,
       comp_stderr_tail = res_stderr_tail result, comp_error = map_option (redact_text r) (res_error result) \<rparr>"

definition after_completion :: "bool option \<Rightarrow> AckKind" where
  "after_completion reply = (case reply of Some True \<Rightarrow> AckDouble | Some False \<Rightarrow> AckTerm | None \<Rightarrow> AckNak)"

definition emit_result :: "Redactor \<Rightarrow> int \<Rightarrow> ExecutionResult \<Rightarrow> ExecutionEvent" where
  "emit_result r elapsed result =
     (if res_skipped result then RunSkipped ''dry run'' elapsed
      else if res_succeeded result then RunCompleted elapsed
      else RunFailed (case res_failure_phase result of Some p \<Rightarrow> p | None \<Rightarrow> PhaseExecution)
             (redact_text r (case res_error result of Some e \<Rightarrow> e | None \<Rightarrow> ''execution failed'')) (res_exit_code result) elapsed)"

definition final_event :: "Redactor \<Rightarrow> int \<Rightarrow> ExecutionResult \<Rightarrow> bool option \<Rightarrow> ExecutionEvent" where
  "final_event r elapsed result reply =
     (case reply of
        Some True \<Rightarrow> emit_result r elapsed result
      | Some False \<Rightarrow> ResultReportingFailed ''completion lost its worker lease'' (res_succeeded result) (res_skipped result) elapsed
      | None \<Rightarrow> ResultReportingFailed ''completion was not confirmed'' (res_succeeded result) (res_skipped result) elapsed)"

text \<open>The claimed execution: its events, the completion it reports, and how the delivery is settled.\<close>

definition execute_claimed ::
  "WorkerEnv \<Rightarrow> Args \<Rightarrow> (bool option \<times> bool) list \<Rightarrow> nat \<Rightarrow> int \<Rightarrow> DispatchEnvelope \<Rightarrow> ExecutionSnapshot \<Rightarrow>
   (CompletionRequest \<Rightarrow> bool option) \<Rightarrow> ExecutionEvent list \<times> CompletionRequest \<times> AckKind" where
  "execute_claimed env args ticks emitted elapsed envelope x report =
     (let r = from_inputs_and_arguments (snap_inputs x) (snap_arguments x);
          dry_run = args_dry_run args \<or> snap_dry_run x;
          (events, work) = run_with_heartbeat ticks emitted (execute_snapshot env r dry_run x);
          result = execution_outcome work;
          completion = completion_request args r envelope result;
          reply = report completion in
      (RunReceived (env_dispatch_id envelope) (snap_trigger x) (snap_scheduled_at x) # RunStarted dry_run # events @
         [final_event r elapsed result reply],
       completion, after_completion reply))"

definition handle_message ::
  "('p \<Rightarrow> DispatchEnvelope option) \<Rightarrow> WorkerEnv \<Rightarrow> Args \<Rightarrow> uuid \<Rightarrow> (bool option \<times> bool) list \<Rightarrow> nat \<Rightarrow> int \<Rightarrow>
   (ClaimRequest \<Rightarrow> ClaimResponse option) \<Rightarrow> (CompletionRequest \<Rightarrow> bool option) \<Rightarrow> 'p \<Rightarrow> ExecutionEvent list \<times> AckKind" where
  "handle_message decode env args queue ticks emitted elapsed claim report payload =
     (case receive decode args queue payload of
        Inl ack \<Rightarrow> ([], ack)
      | Inr (envelope, request) \<Rightarrow>
          (case after_claim (claim request) of
             Inl ack \<Rightarrow> ([], ack)
           | Inr x \<Rightarrow> (case execute_claimed env args ticks emitted elapsed envelope x report of (events, _, ack) \<Rightarrow> (events, ack))))"

section \<open>Live output\<close>

record Upload =
  up_acknowledged :: int
  up_sequence :: int

text \<open>One tick: nothing to send, or the request and the state after its reply.\<close>

definition upload_tick ::
  "uuid \<Rightarrow> bytes \<Rightarrow> (OutputSnapshotRequest \<Rightarrow> bool option) \<Rightarrow> Tails \<Rightarrow> Upload \<Rightarrow> OutputSnapshotRequest option \<times> Upload" where
  "upload_tick attempt worker ask tails u =
     (case live_snapshot tails of (revision, stdout_tail, stderr_tail) \<Rightarrow>
        if revision = up_acknowledged u then (None, u)
        else let n = min (up_sequence u + 1) u64_max;
               request = \<lparr> os_attempt_id = attempt, os_worker_id = worker, os_sequence = n, os_stdout_tail = stdout_tail,
                 os_stderr_tail = stderr_tail \<rparr> in
          (Some request, \<lparr> up_acknowledged = (if ask request = Some True then revision else up_acknowledged u), up_sequence = n \<rparr>))"

fun upload_live_output ::
  "uuid \<Rightarrow> bytes \<Rightarrow> (OutputSnapshotRequest \<Rightarrow> bool option) \<Rightarrow> Tails list \<Rightarrow> Upload \<Rightarrow> OutputSnapshotRequest list" where
  "upload_live_output attempt worker ask [] u = []"
| "upload_live_output attempt worker ask (t # ts) u =
     (case upload_tick attempt worker ask t u of
        (None, u') \<Rightarrow> upload_live_output attempt worker ask ts u'
      | (Some request, u') \<Rightarrow> request # upload_live_output attempt worker ask ts u')"

section \<open>Subjects\<close>

definition control_subject :: "bytes \<Rightarrow> bytes \<Rightarrow> bytes" where
  "control_subject operation worker = ''crono.worker.control.'' @ operation @ ''.'' @ worker"

definition output_subject :: "bytes \<Rightarrow> bytes" where
  "output_subject worker = ''crono.worker.output.'' @ worker"

definition presence_subject :: "bytes \<Rightarrow> bytes" where
  "presence_subject worker = ''crono.worker.presence.'' @ worker"

definition resolution_subject :: "bytes \<Rightarrow> bytes" where
  "resolution_subject name = ''crono.worker.queue.resolve.'' @ name"

definition validate_token :: "bytes \<Rightarrow> bool" where
  "validate_token v \<longleftrightarrow> is_ok (validate_resource_name v)"

section \<open>Queue resolution ends\<close>

lemma resolve_queue_from_bounded:
  "1 \<le> attempt \<Longrightarrow> attempt \<le> QUEUE_RESOLUTION_ATTEMPTS \<Longrightarrow> resolve_queue_from ask attempt = (res, n) \<Longrightarrow>
   attempt \<le> n \<and> n \<le> QUEUE_RESOLUTION_ATTEMPTS \<and>
   (case res of Inl _ \<Rightarrow> True | Inr q \<Rightarrow> ask n = ResolutionReply \<lparr> qres_status = ResolutionReady, qres_queue = Some q \<rparr>)"
proof (induction ask attempt rule: resolve_queue_from.induct)
  case (1 ask attempt)
  show ?case
  proof (cases "ask attempt")
    case NoResponder
    then show ?thesis using 1(1) [OF _ NoResponder] 1(3-5) by (subst (asm) resolve_queue_from.simps) (auto split: if_splits sum.splits)
  next
    case InvalidReply
    then show ?thesis using 1(3-5) by (subst (asm) resolve_queue_from.simps) auto
  next
    case (ResolutionReply response)
    show ?thesis
    proof (cases "qres_status response")
      case ResolutionReady
      then show ?thesis
        using 1(3-5) ResolutionReply by (subst (asm) resolve_queue_from.simps) (cases "qres_queue response"; cases response; auto)
    next
      case ResolutionNotFound
      then show ?thesis using 1(3-5) ResolutionReply by (subst (asm) resolve_queue_from.simps) auto
    next
      case ResolutionUnavailable
      then show ?thesis
        using 1(2) [OF _ ResolutionReply ResolutionUnavailable] 1(3-5) ResolutionReply
        by (subst (asm) resolve_queue_from.simps) (auto split: if_splits sum.splits)
    qed
  qed
qed

text \<open>
  Queue resolution ends: whatever the server answers, or fails to answer, the worker asks between
  one and thirty times, and it starts only with the Queue identity of the last answer.
\<close>

theorem resolve_queue_ends:
  "case resolve_queue ask of (res, n) \<Rightarrow>
     1 \<le> n \<and> n \<le> 30 \<and>
     (case res of Inl _ \<Rightarrow> True | Inr q \<Rightarrow> ask n = ResolutionReply \<lparr> qres_status = ResolutionReady, qres_queue = Some q \<rparr>)"
proof -
  obtain res n where "resolve_queue_from ask 1 = (res, n)" by (cases "resolve_queue_from ask 1")
  then show ?thesis
    using resolve_queue_from_bounded [of 1 ask res n] by (simp add: resolve_queue_def QUEUE_RESOLUTION_ATTEMPTS_def)
qed

section \<open>The two sides of the protocol agree\<close>

lemma name_no_dot: "validate_token v \<Longrightarrow> CHR ''.'' \<notin> set v \<and> v \<noteq> []"
  by (auto simp: validate_token_def is_ok_iff validate_resource_name_Ok is_name_character_def is_name_boundary_def
      is_ascii_lowercase_def is_ascii_digit_def byte_def)

lemma subject_tokens:
  assumes "validate_token worker"
  shows "token 3 (output_subject worker) = worker" "token 3 (presence_subject worker) = worker"
    "token 4 (resolution_subject worker) = worker" "token 4 (control_subject ''claim'' worker) = worker"
    "token 4 (control_subject ''renew'' worker) = worker" "token 4 (control_subject ''complete'' worker) = worker"
    "token 3 (control_subject ''claim'' worker) = ''claim''" "token 3 (control_subject ''renew'' worker) = ''renew''"
    "token 3 (control_subject ''complete'' worker) = ''complete''"
  using name_no_dot [OF assms]
  by (simp_all add: token_def output_subject_def presence_subject_def resolution_subject_def control_subject_def)

inductive live_state :: "Tails \<Rightarrow> bool" where
  start: "live_state \<lparr> tails_revision = 0, tails_stdout = [], tails_stderr = [] \<rparr>"
| emit: "live_state t \<Longrightarrow> live_state (live_emit event t)"

lemma live_state_bounded:
  "live_state t \<Longrightarrow> length (tails_stdout t) \<le> LIVE_TAIL_BYTES \<and> length (tails_stderr t) \<le> LIVE_TAIL_BYTES"
  by (induction rule: live_state.induct) (auto simp: live_emit_def keep_tail_length split: ExecutionEvent.splits)

lemma upload_requests:
  assumes "validate_token worker" "\<forall>t \<in> set ts. live_state t" "0 \<le> up_sequence u" "up_sequence u + int (length ts) \<le> u64_max"
  shows "(\<forall>x \<in> set (upload_live_output attempt worker ask ts u). up_sequence u < os_sequence x \<and>
      validate_output x (token 3 (output_subject worker))) \<and>
    sorted_wrt (<) (map os_sequence (upload_live_output attempt worker ask ts u))"
  using assms(2-4)
proof (induction ts arbitrary: u)
  case (Cons t ts)
  have bounded: "length (tails_stdout t) \<le> MAX_LIVE_TAIL_BYTES" "length (tails_stderr t) \<le> MAX_LIVE_TAIL_BYTES"
    using live_state_bounded [of t] Cons.prems(1) by (auto simp: LIVE_TAIL_BYTES_def MAX_LIVE_TAIL_BYTES_def)
  show ?case
  proof (cases "tails_revision t = up_acknowledged u")
    case True
    then show ?thesis using Cons.IH [of u] Cons.prems by (simp add: upload_tick_def live_snapshot_def)
  next
    case False
    have n: "min (up_sequence u + 1) u64_max = up_sequence u + 1" using Cons.prems(3) by simp
    define u' where "u' = snd (upload_tick attempt worker ask t u)"
    have u': "up_sequence u' = up_sequence u + 1" using False n by (simp add: u'_def upload_tick_def live_snapshot_def Let_def)
    have step: "upload_live_output attempt worker ask (t # ts) u =
        \<lparr> os_attempt_id = attempt, os_worker_id = worker, os_sequence = up_sequence u + 1, os_stdout_tail = tails_stdout t,
          os_stderr_tail = tails_stderr t \<rparr> # upload_live_output attempt worker ask ts u'"
      using False n by (simp add: u'_def upload_tick_def live_snapshot_def Let_def)
    show ?thesis
      unfolding step
      using Cons.IH [of u'] Cons.prems bounded assms(1) u' subject_tokens(1) [OF assms(1)]
      by (auto simp: validate_output_def validate_token_def)
  qed
qed simp

text \<open>
  C28. Live output is accepted at the server's boundary: every request a worker uploads for an Attempt,
  from any sequence of observed output, carries the identity its subject names, tails within the
  server's limit, and a sequence number above the previous one.
\<close>

theorem live_output_well_formed:
  assumes "validate_token worker" "\<forall>t \<in> set ts. live_state t" "int (length ts) \<le> u64_max"
  shows "(\<forall>x \<in> set (upload_live_output attempt worker ask ts \<lparr> up_acknowledged = 0, up_sequence = 0 \<rparr>).
      validate_output x (token 3 (output_subject worker))) \<and>
    sorted_wrt (<) (map os_sequence (upload_live_output attempt worker ask ts \<lparr> up_acknowledged = 0, up_sequence = 0 \<rparr>))"
  using upload_requests [OF assms(1,2), of "\<lparr> up_acknowledged = 0, up_sequence = 0 \<rparr>" attempt ask] assms(3) by auto

theorem live_output_well_formed_witness:
  "list_all (\<lambda>x. validate_output x (token 3 (output_subject ''w'')))
     (upload_live_output 11 ''w'' (\<lambda>_. None)
       [live_emit (StdoutLine ''a'') \<lparr> tails_revision = 0, tails_stdout = [], tails_stderr = [] \<rparr>,
        live_emit (StdoutLine ''a'') \<lparr> tails_revision = 0, tails_stdout = [], tails_stderr = [] \<rparr>]
       \<lparr> up_acknowledged = 0, up_sequence = 0 \<rparr>)"
proof -
  have worker: "validate_token ''w''" by code_simp
  have states: "\<forall>t \<in> set [live_emit (StdoutLine ''a'') \<lparr> tails_revision = 0, tails_stdout = [], tails_stderr = [] \<rparr>,
        live_emit (StdoutLine ''a'') \<lparr> tails_revision = 0, tails_stdout = [], tails_stderr = [] \<rparr>]. live_state t"
    by (simp add: live_state.start live_state.emit)
  show ?thesis
    using live_output_well_formed [OF worker states, of 11 "\<lambda>_. None"] by (simp add: int_bounds list_all_iff)
qed

end
