(* ===== verification/System.thy ===== *)
theory System
  imports StoreSteps Dispatcher Worker
begin

text \<open>
  The running system: the store, the dispatchers, the message stream and the workers, interleaved.  A
  step is one store transaction, one exchange of a dispatcher with the stream, or one exchange of a
  worker with the stream and the server.  The stream keeps a message until it is acknowledged and
  delivers it any number of times; requests, replies and acknowledgements may be lost and processes may
  stop at any point.  The life of an Attempt refines a small abstract machine, from which the end-to-end
  properties follow.
\<close>

section \<open>Simulations\<close>

locale simulation =
  fixes step :: "'s \<Rightarrow> 's \<Rightarrow> bool" and spec :: "'a \<Rightarrow> 'a \<Rightarrow> bool" and abst :: "'s \<Rightarrow> 'a" and inv :: "'s \<Rightarrow> bool"
  assumes keeps: "step s t \<Longrightarrow> inv s \<Longrightarrow> inv t"
    and simulates: "step s t \<Longrightarrow> inv s \<Longrightarrow> spec\<^sup>*\<^sup>* (abst s) (abst t)"
begin

lemma reachable_inv: "step\<^sup>*\<^sup>* s t \<Longrightarrow> inv s \<Longrightarrow> inv t"
  by (induction rule: rtranclp_induct) (auto intro: keeps)

lemma reachable_spec: "step\<^sup>*\<^sup>* s t \<Longrightarrow> inv s \<Longrightarrow> spec\<^sup>*\<^sup>* (abst s) (abst t)"
proof (induction rule: rtranclp_induct)
  case (step t u)
  then show ?case using simulates reachable_inv by (meson rtranclp_trans)
qed simp

text \<open>An invariant of the specification holds of the abstraction of every reachable state.\<close>

lemma transfer:
  assumes "\<And>a b. spec a b \<Longrightarrow> P a \<Longrightarrow> P b" "step\<^sup>*\<^sup>* s t" "inv s" "P (abst s)"
  shows "P (abst t)"
  using reachable_spec [OF assms(2,3)] assms(4) by (induction rule: rtranclp_induct) (auto intro: assms(1))

end

section \<open>The specification of an Attempt\<close>

datatype Phase = Waiting | Offered | Executing bytes | Over

text \<open>The phase of every Attempt and the executions that workers have begun, in their order.\<close>

type_synonym Spec = "(uuid \<rightharpoonup> Phase) \<times> uuid list"

inductive quiet_step :: "(uuid \<rightharpoonup> Phase) \<Rightarrow> (uuid \<rightharpoonup> Phase) \<Rightarrow> bool" where
  created: "m i = None \<Longrightarrow> quiet_step m (m(i \<mapsto> Waiting))"
| offered: "m i = Some Waiting \<Longrightarrow> quiet_step m (m(i \<mapsto> Offered))"
| expired: "m i = Some Waiting \<Longrightarrow> quiet_step m (m(i \<mapsto> Over))"
| ended: "m i = Some (Executing w) \<Longrightarrow> quiet_step m (m(i \<mapsto> Over))"

inductive spec_step :: "Spec \<Rightarrow> Spec \<Rightarrow> bool" where
  quiet: "quiet_step m m' \<Longrightarrow> spec_step (m, es) (m', es)"
| lost: "m i = Some Offered \<Longrightarrow> spec_step (m, es) (m(i \<mapsto> Executing w), es)"
| start: "m i = Some Offered \<Longrightarrow> spec_step (m, es) (m(i \<mapsto> Executing w), es @ [i])"

inductive_cases quiet_stepE: "quiet_step m m'"
inductive_cases spec_stepE: "spec_step (m, es) (m', es')"

definition begun :: "Spec \<Rightarrow> bool" where
  "begun a \<longleftrightarrow> distinct (snd a) \<and> (\<forall>i \<in> set (snd a). (\<exists>w. fst a i = Some (Executing w)) \<or> fst a i = Some Over)"

lemma quiet_begun: "quiet_step m m' \<Longrightarrow> begun (m, es) \<Longrightarrow> begun (m', es)"
  by (erule quiet_stepE) (auto simp: begun_def)

lemma spec_step_begun: "spec_step a b \<Longrightarrow> begun a \<Longrightarrow> begun b"
proof (induction rule: spec_step.induct)
  case (lost m i es w)
  then show ?case by (auto simp: begun_def)
next
  case (start m i es w)
  then have "i \<notin> set es" by (force simp: begun_def)
  then show ?case using start by (auto simp: begun_def)
qed (rule quiet_begun)

text \<open>A change of many Attempts at once is a sequence of quiet steps.\<close>

definition quiet_le :: "Phase option \<Rightarrow> Phase option \<Rightarrow> bool" where
  "quiet_le p q \<longleftrightarrow> q = p \<or>
     (case p of
        None \<Rightarrow> q \<noteq> None \<and> (\<forall>w. q \<noteq> Some (Executing w))
      | Some Waiting \<Rightarrow> q = Some Offered \<or> q = Some Over
      | Some Offered \<Rightarrow> False
      | Some (Executing w) \<Rightarrow> q = Some Over
      | Some Over \<Rightarrow> False)"

lemma quiet_one:
  assumes "quiet_le (m i) (Some p)"
  shows "quiet_step\<^sup>*\<^sup>* m (m(i \<mapsto> p))"
proof (cases "m i = Some p")
  case True
  then have "m(i \<mapsto> p) = m" by auto
  then show ?thesis by simp
next
  case False
  show ?thesis
  proof (cases "m i")
    case None
    have first: "quiet_step m (m(i \<mapsto> Waiting))" using None by (rule quiet_step.created)
    have second: "quiet_step (m(i \<mapsto> Waiting)) (m(i \<mapsto> p))" if "p = Offered \<or> p = Over"
      using that quiet_step.offered [of "m(i \<mapsto> Waiting)" i] quiet_step.expired [of "m(i \<mapsto> Waiting)" i] by auto
    have "p = Waiting \<or> p = Offered \<or> p = Over" using assms None by (cases p) (auto simp: quiet_le_def)
    then show ?thesis using first second by (metis converse_rtranclp_into_rtranclp r_into_rtranclp)
  next
    case (Some q)
    then show ?thesis
      using assms False quiet_step.offered [of m i] quiet_step.expired [of m i] quiet_step.ended [of m i]
      by (cases q) (auto simp: quiet_le_def)
  qed
qed

lemma quiet_steps:
  assumes "finite D" "{i. m i \<noteq> m' i} \<subseteq> D" "\<And>i. quiet_le (m i) (m' i)"
  shows "quiet_step\<^sup>*\<^sup>* m m'"
  using assms
proof (induction D arbitrary: m rule: finite_induct)
  case empty
  then have "m = m'" by (intro ext) blast
  then show ?case by simp
next
  case (insert i D)
  show ?case
  proof (cases "m' i")
    case None
    then have "m i = None" using insert.prems(2) [of i] by (auto simp: quiet_le_def split: option.splits Phase.splits)
    then show ?thesis using insert None by (intro insert.IH) auto
  next
    case (Some p)
    have "quiet_step\<^sup>*\<^sup>* m (m(i \<mapsto> p))" using insert.prems(2) [of i] Some by (intro quiet_one) simp
    moreover have "quiet_step\<^sup>*\<^sup>* (m(i \<mapsto> p)) m'"
      using insert.prems Some by (intro insert.IH) (auto simp: quiet_le_def)
    ultimately show ?thesis by (rule rtranclp_trans)
  qed
qed

section \<open>The phases of the stored Attempts\<close>

definition phase :: "RunAttemptRow \<Rightarrow> Phase" where
  "phase a =
     (case att_status a of
        PendingDispatch \<Rightarrow> Waiting
      | Queued \<Rightarrow> Offered
      | Running \<Rightarrow> Executing (case att_worker_id a of Some w \<Rightarrow> w | None \<Rightarrow> [])
      | _ \<Rightarrow> Over)"

definition phases :: "Db \<Rightarrow> uuid \<rightharpoonup> Phase" where
  "phases db = map_of (map (\<lambda>a. (att_id a, phase a)) (db_attempts db))"

lemma phases_in: "keys_ok db \<Longrightarrow> a \<in> set (db_attempts db) \<Longrightarrow> phases db (att_id a) = Some (phase a)"
  unfolding phases_def by (rule map_of_is_SomeI) (auto simp: keys_ok_def comp_def)

lemma phases_Some: "phases db i = Some p \<Longrightarrow> \<exists>a \<in> set (db_attempts db). att_id a = i \<and> phase a = p"
  unfolding phases_def by (drule map_of_SomeD) auto

lemma phases_None: "phases db i = None \<longleftrightarrow> i \<notin> att_id ` set (db_attempts db)"
  unfolding phases_def by (auto simp: map_of_eq_None_iff image_image)

lemma waits_phase: "attempt_waits a b \<Longrightarrow> quiet_le (Some (phase a)) (Some (phase b))"
  unfolding attempt_waits_def attempt_advances_def phase_def quiet_le_def status_rank_def
  by (cases "att_status a"; cases "att_status b") auto

lemma waits_id: "attempt_waits a b \<Longrightarrow> att_id b = att_id a"
  unfolding attempt_waits_def attempt_advances_def same_attempt_def by metis

lemma waits_phases:
  assumes "waits db db'" "keys_ok db" "keys_ok db'"
  shows "quiet_step\<^sup>*\<^sup>* (phases db) (phases db')"
proof (rule quiet_steps)
  show "finite (dom (phases db) \<union> dom (phases db'))" by (simp add: phases_def finite_dom_map_of)
  show "quiet_le (phases db i) (phases db' i)" for i
  proof (cases "phases db i")
    case (Some p)
    then obtain a where a: "a \<in> set (db_attempts db)" "att_id a = i" "phase a = p" using phases_Some by blast
    then obtain b where b: "b \<in> set (db_attempts db')" "attempt_waits a b" using assms(1) a(1) unfolding related_def by blast
    have "att_id b = i" using waits_id [OF b(2)] a(2) by simp
    then show ?thesis using waits_phase [OF b(2)] phases_in [OF assms(3) b(1)] a(3) Some by simp
  next
    case None
    show ?thesis
    proof (cases "phases db' i")
      case (Some p)
      then obtain b where b: "b \<in> set (db_attempts db')" "att_id b = i" "phase b = p" using phases_Some by blast
      then obtain a where a: "attempt_waits a b" "a \<in> set (db_attempts db) \<or> att_status a = PendingDispatch"
        using assms(1) b(1) unfolding related_def by blast
      have "att_id a = i" using waits_id [OF a(1)] b(2) by simp
      then have "phase a = Waiting" using None a(2) by (auto simp: phases_None phase_def)
      then show ?thesis using waits_phase [OF a(1)] None Some b(3) by (auto simp: quiet_le_def)
    qed (simp add: quiet_le_def None)
  qed
qed auto

text \<open>A claim moves at most the Attempt it names, and only from \<open>Offered\<close>.\<close>

lemma claim_attempt_phases:
  assumes claim: "claim_attempt now req db = (db', res)" and inv: "run_inv db"
  shows "phases db' = phases db \<and> (\<forall>r. res = Inr r \<longrightarrow> \<not> claimed r) \<or>
    phases db (cr_attempt_id req) = Some Offered \<and>
    phases db' = (phases db)(cr_attempt_id req \<mapsto> Executing (cr_worker_id req))"
  using claim
proof (cases rule: claim_attempt_cases)
  case (claimed a r)
  define f :: "RunAttemptRow \<Rightarrow> RunAttemptRow" where
    "f = (\<lambda>a. a\<lparr> att_status := Running, att_worker_id := Some (cr_worker_id req), att_started_at := Some now,
                att_heartbeat_at := Some now, att_lease_expires_at := Some (now + 60 * second) \<rparr>)"
  have keys: "keys_ok db" using inv by (simp add: run_inv_except_def)
  have "db_attempts db' = map (\<lambda>b. if att_id b = att_id a then f b else b) (db_attempts db)"
    unfolding claimed(9) update_where_def f_def
    by (rule map_cong) (use claimed(2-4,8) attempt_by_key [OF keys _ claimed(1)] in auto)
  then have "phases db' = map_of (map (\<lambda>b. (att_id b, if att_id b = att_id a then Executing (cr_worker_id req) else phase b)) (db_attempts db))"
    unfolding phases_def by (simp add: comp_def f_def phase_def if_distrib [of att_id] cong: if_cong) (rule arg_cong [where f = map_of], simp)
  also have "\<dots> = (phases db)(att_id a \<mapsto> Executing (cr_worker_id req))"
  proof
    fix i
    have "map_of (map (\<lambda>b. (att_id b, if att_id b = k then e else phase b)) xs) i =
        (if i = k \<and> k \<in> att_id ` set xs then Some e else map_of (map (\<lambda>b. (att_id b, phase b)) xs) i)" for xs k e
      by (induction xs) auto
    then show "map_of (map (\<lambda>b. (att_id b, if att_id b = att_id a then Executing (cr_worker_id req) else phase b)) (db_attempts db)) i =
        ((phases db)(att_id a \<mapsto> Executing (cr_worker_id req))) i"
      using claimed(1) by (simp add: phases_def)
  qed
  finally have "phases db' = (phases db)(att_id a \<mapsto> Executing (cr_worker_id req))" .
  moreover have "phases db (att_id a) = Some Offered" using phases_in [OF keys claimed(1)] claimed(4) by (simp add: phase_def)
  ultimately show ?thesis using claimed(2) by simp
qed simp_all

section \<open>The steps of the system\<close>

text \<open>The store's environment, the codec of worker requests, and the form of a dispatch on the wire.\<close>

record 'p SysEnv =
  se_store :: StoreEnv
  se_codec :: ControlCodec
  se_encode :: "DispatchEnvelope \<Rightarrow> 'p"
  se_decode :: "'p \<Rightarrow> DispatchEnvelope option"

text \<open>
  Beside the store: the messages that dispatchers hold, each with its owner and whether the stream has
  acknowledged it; the stream and the Attempts it has accepted messages for; the executions in progress
  on workers; and all executions ever begun.
\<close>

record 'p Sys =
  sys_db :: Db
  sys_held :: "(uuid \<times> OutboxRecord \<times> bool) list"
  sys_stream :: "'p list"
  sys_sent :: "uuid list"
  sys_running :: "(Args \<times> DispatchEnvelope \<times> ExecutionSnapshot \<times> 'p) list"
  sys_started :: "uuid list"

text \<open>An acknowledgement other than a request for redelivery removes the message, unless it is lost.\<close>

definition settles :: "AckKind \<Rightarrow> 'p \<Rightarrow> 'p list \<Rightarrow> 'p list \<Rightarrow> bool" where
  "settles ack p stream stream' \<longleftrightarrow> stream' = stream \<or> ack \<noteq> AckNak \<and> stream' = remove1 p stream"

definition answered :: "(StoreError, 'a) result \<Rightarrow> 'a option \<Rightarrow> bool" where
  "answered res reply \<longleftrightarrow> (case reply of None \<Rightarrow> True | Some r \<Rightarrow> res = Inr r)"

inductive sys_step :: "'p SysEnv \<Rightarrow> 'p Sys \<Rightarrow> 'p Sys \<Rightarrow> bool" for E where
  store: "db_step (se_store E) (sys_db s) db' \<Longrightarrow> sys_step E s (s\<lparr> sys_db := db' \<rparr>)"
| control: "handle_worker (se_codec E) (env_delay (se_store E)) now utc req (sys_db s) = (db', out) \<Longrightarrow> \<not> claiming req \<Longrightarrow>
    sys_step E s (s\<lparr> sys_db := db' \<rparr>)"
| poll: "claim_outbox now locked owner n lease (sys_db s) = Inr (db', records) \<Longrightarrow>
    sys_step E s (s\<lparr> sys_db := db', sys_held := sys_held s @ map (\<lambda>r. (owner, r, False)) records \<rparr>)"
| stored: "(owner, rec, False) \<in> set (sys_held s) \<Longrightarrow>
    sys_step E s (s\<lparr> sys_stream := sys_stream s @ [se_encode E (rec_payload rec)], sys_sent := rec_attempt_id rec # sys_sent s \<rparr>)"
| acknowledged: "(owner, rec, False) \<in> set (sys_held s) \<Longrightarrow> rec_attempt_id rec \<in> set (sys_sent s) \<Longrightarrow>
    sys_step E s (s\<lparr> sys_held := (owner, rec, True) # remove1 (owner, rec, False) (sys_held s) \<rparr>)"
| published: "(owner, rec, acked) \<in> set (sys_held s) \<Longrightarrow> acked = (\<exists>n. verdict = Inr n) \<Longrightarrow>
    publish_one now utc (\<lambda>_. verdict) owner config rec (sys_db s) = Some db' \<Longrightarrow>
    sys_step E s (s\<lparr> sys_db := db', sys_held := remove1 (owner, rec, acked) (sys_held s) \<rparr>)"
| stopped: "sys_step E s (s\<lparr> sys_held := remove1 h (sys_held s) \<rparr>)"
| rejected: "p \<in> set (sys_stream s) \<Longrightarrow> receive (se_decode E) args queue p = Inl ack \<Longrightarrow> settles ack p (sys_stream s) stream' \<Longrightarrow>
    sys_step E s (s\<lparr> sys_stream := stream' \<rparr>)"
| refused: "p \<in> set (sys_stream s) \<Longrightarrow> receive (se_decode E) args queue p = Inr (envelope, request) \<Longrightarrow>
    claim_attempt now request (sys_db s) = (db', res) \<Longrightarrow> answered res reply \<Longrightarrow> after_claim reply = Inl ack \<Longrightarrow>
    settles ack p (sys_stream s) stream' \<Longrightarrow>
    sys_step E s (s\<lparr> sys_db := db', sys_stream := stream' \<rparr>)"
| started: "p \<in> set (sys_stream s) \<Longrightarrow> receive (se_decode E) args queue p = Inr (envelope, request) \<Longrightarrow>
    claim_attempt now request (sys_db s) = (db', res) \<Longrightarrow> answered res reply \<Longrightarrow> after_claim reply = Inr x \<Longrightarrow>
    sys_step E s (s\<lparr> sys_db := db', sys_running := (args, envelope, x, p) # sys_running s,
      sys_started := sys_started s @ [env_attempt_id envelope] \<rparr>)"
| finished: "(args, envelope, x, p) \<in> set (sys_running s) \<Longrightarrow>
    execute_claimed wenv args ticks emitted elapsed envelope x report = (events, completion, ack) \<Longrightarrow>
    complete_attempt (env_delay (se_store E)) now utc completion (sys_db s) = res \<Longrightarrow>
    answered (map_sum id snd res) (report completion) \<Longrightarrow> db' = (case res of Inr (d, _) \<Rightarrow> d | Inl _ \<Rightarrow> sys_db s) \<Longrightarrow>
    settles ack p (sys_stream s) stream' \<Longrightarrow>
    sys_step E s (s\<lparr> sys_db := db', sys_stream := stream', sys_running := remove1 (args, envelope, x, p) (sys_running s) \<rparr>)"
| unreported: "(args, envelope, x, p) \<in> set (sys_running s) \<Longrightarrow>
    sys_step E s (s\<lparr> sys_running := remove1 (args, envelope, x, p) (sys_running s) \<rparr>)"

definition held_ok :: "Db \<Rightarrow> OutboxRecord \<Rightarrow> bool" where
  "held_ok db rec \<longleftrightarrow> (\<exists>x \<in> set (db_outbox db). ob_id x = rec_id rec \<and> ob_attempt_id x = rec_attempt_id rec \<and>
     env_attempt_id (rec_payload rec) = rec_attempt_id rec)"

definition sys_inv :: "'p Sys \<Rightarrow> bool" where
  "sys_inv s \<longleftrightarrow> run_inv (sys_db s) \<and> wf_inv (sys_db s) \<and> (\<forall>(owner, rec, acked) \<in> set (sys_held s). held_ok (sys_db s) rec)"

definition sys_abs :: "'p Sys \<Rightarrow> Spec" where
  "sys_abs s = (phases (sys_db s), sys_started s)"

lemma held_ok_advances: "related att db db' \<Longrightarrow> held_ok db rec \<Longrightarrow> held_ok db' rec"
  unfolding held_ok_def related_def message_advances_def by metis

lemma held_advances:
  "\<forall>(owner, rec, acked) \<in> set held. held_ok db rec \<Longrightarrow> related att db db' \<Longrightarrow> set held' \<subseteq> set held \<Longrightarrow>
   \<forall>(owner, rec, acked) \<in> set held'. held_ok db' rec"
  using held_ok_advances by fastforce

lemma claim_outbox_row:
  assumes step: "claim_outbox now locked owner n l db = Inr (db', records)" and rec: "rec \<in> set records"
  obtains x where "x \<in> set (db_outbox db)" "rec = outbox_record x" "unsent x"
proof -
  obtain chosen where chosen: "set chosen \<subseteq> {x \<in> set (db_outbox db). unsent x}"
      "traverse (\<lambda>o'. if 0 \<le> ob_attempt_count o' then Ok (outbox_record o') else Err StoreInternal) chosen = Inr records"
    using step unfolding claim_outbox_def Let_def
    by (elim and_thenE) (rule that [OF subset_trans [OF select_batch_set]]; force simp: outbox_claimable_def unsent_def)
  then show thesis using that traverse_Ok_set [OF chosen(2) rec] by (auto split: if_splits)
qed

lemma claim_outbox_held:
  assumes inv: "run_inv db" and step: "claim_outbox now locked owner n l db = Inr (db', records)" and rec: "rec \<in> set records"
  shows "held_ok db' rec"
proof -
  obtain x where "x \<in> set (db_outbox db)" "rec = outbox_record x" using step rec by (rule claim_outbox_row)
  moreover from this have "settled x" using inv by (simp add: run_inv_except_def message_ok_def)
  ultimately have "held_ok db rec" by (auto simp: held_ok_def outbox_record_def settled_def)
  then show ?thesis using adv.claim_outbox_history [OF step] held_ok_advances by blast
qed

lemma publish_one_step:
  assumes "publish_one now utc publish owner config rec db = Some db'" "run_inv db" "wf_inv db" "held_ok db rec"
  shows "run_inv db' \<and> wf_inv db' \<and> waits db db'"
proof -
  consider "db' = db" | seq u where "mark_published now owner rec seq db = Inr (db', u)"
    | i m t u where "record_publish_failure owner i m t db = Inr (db', u)"
    using assms(1) unfolding publish_one_def by (fastforce split: sum.splits bind_splits)
  then show ?thesis
  proof cases
    case 2
    have "run_inv db'" by (rule mark_published_inv [OF assms(2) 2]) (use assms(4) in \<open>auto simp: held_ok_def\<close>)
    moreover have "wf_inv db'" using assms(3) mark_published_wf [OF 2] by (rule wf_frame_inv)
    ultimately show ?thesis using wait.mark_published_history [OF 2] by simp
  next
    case 3
    have "wf_inv db'" using assms(3) record_publish_failure_wf [OF 3] by (rule wf_frame_inv)
    then show ?thesis using record_publish_failure_inv [OF assms(2) 3] wait.record_publish_failure_history [OF 3] by simp
  qed (use assms in simp)
qed

lemma handle_worker_wf: "handle_worker codec delay now utc req db = (db', out) \<Longrightarrow> wf_frame db db'"
proof (erule handle_worker_cases)
  fix request
  assume "record_worker_heartbeat (enc_diagnostics codec) now request db = Inr (db', ())"
  then obtain ws where "db' = db\<lparr> db_workers := ws \<rparr>" using heartbeat_frame by blast
  then show "wf_frame db db'" by (simp add: wf_frame_def)
qed (auto dest: claim_attempt_wf renew_lease_wf complete_attempt_wf record_attempt_output_wf)

text \<open>What one step does to the store.\<close>

lemma sys_step_db:
  assumes "sys_step E s s'" "sys_inv s"
  obtains (quiet) "waits (sys_db s) (sys_db s')" "run_inv (sys_db s')" "wf_inv (sys_db s')" "sys_started s' = sys_started s"
  | (claim) now request res p args queue envelope where "claim_attempt now request (sys_db s) = (sys_db s', res)"
      "p \<in> set (sys_stream s)" "receive (se_decode E) args queue p = Inr (envelope, request)" "sys_held s' = sys_held s"
      "sys_started s' = sys_started s \<or> sys_started s' = sys_started s @ [cr_attempt_id request] \<and> (\<exists>r. res = Inr r \<and> claimed r)"
proof -
  have inv: "run_inv (sys_db s)" "wf_inv (sys_db s)" "\<And>owner rec acked. (owner, rec, acked) \<in> set (sys_held s) \<Longrightarrow> held_ok (sys_db s) rec"
    using assms(2) by (auto simp: sys_inv_def)
  show thesis
    using assms(1)
  proof cases
    case (store db')
    then show ?thesis using quiet db_step_waits db_step_inv inv by simp
  next
    case (control now utc req db' out)
    then show ?thesis using quiet handle_worker_waits handle_worker_inv wf_frame_inv [OF inv(2) handle_worker_wf] inv by simp
  next
    case (poll now locked owner n lease db' records)
    then show ?thesis using quiet wait.claim_outbox_history claim_outbox_inv wf_frame_inv [OF inv(2) claim_outbox_wf] inv by simp
  next
    case (published owner rec acked verdict now utc config db')
    then show ?thesis using quiet publish_one_step inv by simp
  next
    case (refused p args queue envelope request now db' res reply ack stream')
    then show ?thesis using claim [of now request res p args queue envelope] by simp
  next
    case (started p args queue envelope request now db' res reply x)
    then have "cr_attempt_id request = env_attempt_id envelope" "\<exists>r. res = Inr r \<and> claimed r"
      by (auto simp: receive_def after_claim_def answered_def split: option.splits if_splits)
    then show ?thesis using claim [of now request res p args queue envelope] started by simp
  next
    case (finished args envelope x p wenv ticks emitted elapsed report events completion ack now utc res db' stream')
    show ?thesis
    proof (cases res)
      case (Inr a)
      then obtain b where "complete_attempt (env_delay (se_store E)) now utc completion (sys_db s) = Inr (db', b)"
        using finished by (cases a) auto
      then show ?thesis
        using quiet finished(1) wait.complete_attempt_history complete_attempt_inv wf_frame_inv [OF inv(2) complete_attempt_wf] inv by simp
    qed (use quiet finished inv in simp)
  qed (use quiet inv in simp_all)
qed

lemma sys_step_held:
  assumes step: "sys_step E s s'" and inv: "sys_inv s" and member: "(owner, rec, acked) \<in> set (sys_held s')"
  shows "(\<exists>acked'. (owner, rec, acked') \<in> set (sys_held s)) \<or> held_ok (sys_db s') rec"
  using step
proof cases
  case (poll now locked owner n lease db' records)
  then show ?thesis using member claim_outbox_held inv by (auto simp: sys_inv_def)
qed (use member in \<open>auto dest: set_mp [OF set_remove1_subset]\<close>)

lemma sys_step_advances:
  assumes "sys_step E s s'" "sys_inv s"
  shows "run_inv (sys_db s') \<and> wf_inv (sys_db s') \<and> advances (sys_db s) (sys_db s')"
  using assms
proof (cases rule: sys_step_db)
  case quiet
  then show ?thesis using waits_advances by blast
next
  case (claim now request res p args queue envelope)
  have inv: "run_inv (sys_db s)" "wf_inv (sys_db s)" using assms(2) by (simp_all add: sys_inv_def)
  have "wf_inv (sys_db s')" using inv(2) claim_attempt_wf [OF claim(1)] by (rule wf_frame_inv)
  then show ?thesis using claim_attempt_inv [OF inv(1) claim(1)] claim_attempt_advances [OF claim(1)] by simp
qed

lemma sys_step_inv:
  assumes "sys_step E s s'" "sys_inv s"
  shows "sys_inv s'"
proof -
  note step = sys_step_advances [OF assms]
  have "held_ok (sys_db s') rec" if "(owner, rec, acked) \<in> set (sys_held s')" for owner rec acked
    using sys_step_held [OF assms that] held_ok_advances step assms(2) unfolding sys_inv_def by blast
  then show ?thesis using step by (auto simp: sys_inv_def)
qed

text \<open>Every Attempt the system knows is in one of the states of an Attempt.\<close>

definition attempt_states :: "Db \<Rightarrow> bool" where
  "attempt_states db \<longleftrightarrow> (\<forall>a \<in> set (db_attempts db). attempt_state (att_status a))"

lemma advances_attempt_states: "advances db db' \<Longrightarrow> attempt_states db \<Longrightarrow> attempt_states db'"
  unfolding related_def attempt_states_def attempt_advances_def by (metis attempt_state_simps(1))

lemma reachable_attempt_states:
  assumes "(sys_step E)\<^sup>*\<^sup>* s s'" "sys_inv s" "attempt_states (sys_db s)"
  shows "sys_inv s' \<and> attempt_states (sys_db s')"
  using assms(1)
proof (induction rule: rtranclp_induct)
  case (step t u)
  then show ?case using sys_step_advances sys_step_inv advances_attempt_states by blast
qed (use assms in simp)

lemma sys_step_phases:
  assumes "sys_step E s s'" "sys_inv s"
  shows "quiet_step\<^sup>*\<^sup>* (phases (sys_db s)) (phases (sys_db s')) \<and> sys_started s' = sys_started s \<or>
    (\<exists>i w. phases (sys_db s) i = Some Offered \<and> phases (sys_db s') = (phases (sys_db s))(i \<mapsto> Executing w) \<and>
       (sys_started s' = sys_started s \<or> sys_started s' = sys_started s @ [i]))"
  using assms
proof (cases rule: sys_step_db)
  case quiet
  have "keys_ok (sys_db s)" "keys_ok (sys_db s')"
    using assms(2) quiet(2) by (simp_all add: sys_inv_def run_inv_except_def)
  then show ?thesis using waits_phases quiet(1,4) by blast
next
  case (claim now request res p args queue envelope)
  have "run_inv (sys_db s)" using assms(2) by (simp add: sys_inv_def)
  from claim_attempt_phases [OF claim(1) this] claim(5) show ?thesis by auto
qed

lemma sys_step_simulates:
  assumes "sys_step E s s'" "sys_inv s"
  shows "spec_step\<^sup>*\<^sup>* (sys_abs s) (sys_abs s')"
proof -
  have lift: "quiet_step\<^sup>*\<^sup>* m m' \<Longrightarrow> spec_step\<^sup>*\<^sup>* (m, es) (m', es)" for m m' es
    by (induction rule: rtranclp_induct) (auto intro: rtranclp.rtrancl_into_rtrancl spec_step.quiet)
  show ?thesis
    using sys_step_phases [OF assms] unfolding sys_abs_def
    by (elim disjE exE conjE) (auto intro: lift spec_step.lost spec_step.start r_into_rtranclp)
qed

interpretation dispatch: simulation "sys_step E" spec_step sys_abs sys_inv
  by unfold_locales (fact sys_step_inv, fact sys_step_simulates)

section \<open>End-to-end properties\<close>

definition sys_init :: "Db \<Rightarrow> 'p Sys" where
  "sys_init db = \<lparr> sys_db = db, sys_held = [], sys_stream = [], sys_sent = [], sys_running = [], sys_started = [] \<rparr>"

lemma sys_init_inv: "run_inv db \<Longrightarrow> wf_inv db \<Longrightarrow> sys_inv (sys_init db)"
  by (simp add: sys_inv_def sys_init_def)

text \<open>
  C2. The system refines the specification of an Attempt: whatever a step does, every Attempt follows
  the abstract machine: it is created waiting, is offered or expires, begins to execute only when it
  was offered and only by a claim, under one worker, and ends; and an execution begins on a worker only
  in the step that moves its Attempt from offered to executing.
\<close>

theorem attempt_life_refines:
  assumes "sys_step E s s'" "sys_inv s"
  shows "sys_inv s' \<and>
    (quiet_step\<^sup>*\<^sup>* (phases (sys_db s)) (phases (sys_db s')) \<and> sys_started s' = sys_started s \<or>
     (\<exists>i w. phases (sys_db s) i = Some Offered \<and> phases (sys_db s') = (phases (sys_db s))(i \<mapsto> Executing w) \<and>
        (sys_started s' = sys_started s \<or> sys_started s' = sys_started s @ [i])))"
  using sys_step_inv [OF assms] sys_step_phases [OF assms] by blast

text \<open>Attempts of one Run are numbered apart, so there are at most as many as the Run's count.\<close>

lemma attempts_bounded:
  assumes inv: "run_inv db" and r: "r \<in> set (db_runs db)"
  shows "int (card {a \<in> set (db_attempts db). att_run_id a = run_id r}) \<le> run_max_attempts r"
proof -
  let ?A = "{a \<in> set (db_attempts db). att_run_id a = run_id r}"
  have range: "att_attempt ` ?A \<subseteq> {1 .. run_attempt_count r}"
    using inv_fits_run [OF inv _ r] by (auto simp: fits_def)
  have "inj_on att_attempt ?A"
    using inv by (auto simp: run_inv_except_def distinct_map inj_on_def)
  then have "card ?A = card (att_attempt ` ?A)" by (simp add: card_image)
  also have "\<dots> \<le> card {1 .. run_attempt_count r}" by (rule card_mono [OF _ range]) simp
  finally have "int (card ?A) \<le> max 0 (run_attempt_count r)" by simp
  moreover have "0 \<le> run_attempt_count r \<and> run_attempt_count r \<le> run_max_attempts r"
    using inv r by (simp add: run_inv_except_def bounds_ok_def)
  ultimately show ?thesis by simp
qed

text \<open>
  C1. Executions are bounded end to end: however dispatchers, the stream, workers and the store
  interleave, with redelivery, duplicates, lost replies and processes that stop, no Attempt is begun by
  two workers or twice by one, and the executions begun for a Run are never more than its permitted
  Attempts.
\<close>

theorem executions_bounded:
  assumes reach: "(sys_step E)\<^sup>*\<^sup>* (sys_init db) s" and inv: "run_inv db" "wf_inv db"
    and r: "r \<in> set (db_runs (sys_db s))"
  shows "distinct (sys_started s) \<and>
    int (length (filter (\<lambda>i. \<exists>a \<in> set (db_attempts (sys_db s)). att_id a = i \<and> att_run_id a = run_id r) (sys_started s)))
      \<le> run_max_attempts r"
proof -
  let ?A = "{a \<in> set (db_attempts (sys_db s)). att_run_id a = run_id r}"
  let ?xs = "filter (\<lambda>i. \<exists>a \<in> set (db_attempts (sys_db s)). att_id a = i \<and> att_run_id a = run_id r) (sys_started s)"
  have "begun (sys_abs s)"
    by (rule dispatch.transfer [OF spec_step_begun reach sys_init_inv [OF inv]]) (simp_all add: begun_def sys_abs_def sys_init_def)
  then have once: "distinct (sys_started s)" by (simp add: begun_def sys_abs_def)
  have "sys_inv s" using reach sys_init_inv [OF inv] by (rule dispatch.reachable_inv)
  then have "int (card ?A) \<le> run_max_attempts r" using attempts_bounded r by (simp add: sys_inv_def)
  moreover have "length ?xs \<le> card ?A"
  proof -
    have "length ?xs = card (set ?xs)" by (rule distinct_card [symmetric]) (use once in simp)
    also have "\<dots> \<le> card (att_id ` ?A)" by (rule card_mono) auto
    also have "\<dots> \<le> card ?A" by (rule card_image_le) simp
    finally show ?thesis .
  qed
  ultimately show ?thesis using once by simp
qed

section \<open>A dispatch that is lost\<close>

definition lost_dispatch :: "'p SysEnv \<Rightarrow> uuid \<Rightarrow> 'p Sys \<Rightarrow> bool" where
  "lost_dispatch E i s \<longleftrightarrow> phases (sys_db s) i = Some Offered \<and>
     (\<forall>p \<in> set (sys_stream s). \<forall>e. se_decode E p = Some e \<longrightarrow> env_attempt_id e \<noteq> i) \<and>
     (\<forall>(owner, rec, acked) \<in> set (sys_held s). rec_attempt_id rec = i \<longrightarrow> acked)"

lemma offered_not_held:
  assumes inv: "run_inv db" and step: "claim_outbox now locked owner n l db = Inr (db', records)" and rec: "rec \<in> set records"
  shows "phases db (rec_attempt_id rec) \<noteq> Some Offered"
proof -
  obtain x where x: "x \<in> set (db_outbox db)" "rec = outbox_record x" "unsent x" using step rec by (rule claim_outbox_row)
  then obtain a where a: "a \<in> set (db_attempts db)" "att_id a = rec_attempt_id rec" "att_status a = PendingDispatch"
    using inv by (auto simp: run_inv_except_def message_ok_def outbox_record_def)
  have "keys_ok db" using inv by (simp add: run_inv_except_def)
  then show ?thesis using phases_in [OF _ a(1)] a(2,3) by (simp add: phase_def)
qed

lemma lost_dispatch_phase:
  assumes "sys_step E s s'" "sys_inv s" and lost: "lost_dispatch E i s"
  shows "phases (sys_db s') i = Some Offered"
  using assms(1,2)
proof (cases rule: sys_step_db)
  case quiet
  obtain a where a: "a \<in> set (db_attempts (sys_db s))" "att_id a = i" "phase a = Offered"
    using lost phases_Some unfolding lost_dispatch_def by blast
  then have "att_status a = Queued" by (cases "att_status a") (simp_all add: phase_def)
  then have "a \<in> set (db_attempts (sys_db s'))" using waits_queued [OF quiet(1) a(1)] by simp
  moreover have "keys_ok (sys_db s')" using quiet(2) by (simp add: run_inv_except_def)
  ultimately show ?thesis using phases_in a(2,3) by metis
next
  case (claim now request res p args queue envelope)
  have "cr_attempt_id request = env_attempt_id envelope" "se_decode E p = Some envelope"
    using claim(3) by (auto simp: receive_def split: option.splits if_splits)
  then have "cr_attempt_id request \<noteq> i" using lost claim(2) by (auto simp: lost_dispatch_def)
  then show ?thesis
    using claim_attempt_phases [OF claim(1)] assms(2) lost by (auto simp: sys_inv_def lost_dispatch_def)
qed

lemma settles_subset: "settles ack p stream stream' \<Longrightarrow> set stream' \<subseteq> set stream"
  unfolding settles_def by (elim disjE conjE) (simp_all add: set_remove1_subset)

lemma lost_dispatch_step:
  assumes wire: "\<And>e. se_decode E (se_encode E e) = Some e"
    and step: "sys_step E s s'" and inv: "sys_inv s" and lost: "lost_dispatch E i s"
  shows "lost_dispatch E i s'"
proof -
  have stream: "env_attempt_id e \<noteq> i" if "p \<in> set (sys_stream s)" "se_decode E p = Some e" for p e
    using lost that by (simp add: lost_dispatch_def)
  have held: "acked" if "(owner, rec, acked) \<in> set (sys_held s)" "rec_attempt_id rec = i" for owner rec acked
    using lost that by (auto simp: lost_dispatch_def)
  have inv': "run_inv (sys_db s)" using inv by (simp add: sys_inv_def)
  have "env_attempt_id e \<noteq> i" if p: "p \<in> set (sys_stream s')" "se_decode E p = Some e" for p e
    using step
  proof cases
    case (stored owner rec)
    then have "held_ok (sys_db s) rec" "rec_attempt_id rec \<noteq> i" using inv held by (auto simp: sys_inv_def)
    then have "env_attempt_id (rec_payload rec) \<noteq> i" by (auto simp: held_ok_def)
    then show ?thesis using p stored(1) wire stream by auto
  qed (use p stream in \<open>auto dest: settles_subset\<close>)
  moreover have "acked" if m: "(owner, rec, acked) \<in> set (sys_held s')" "rec_attempt_id rec = i" for owner rec acked
    using step
  proof cases
    case (poll now locked owner' n lease db' records)
    then show ?thesis
      using m held offered_not_held [OF inv' poll(2)] lost by (auto simp: lost_dispatch_def)
  qed (use m held in \<open>auto dest!: set_mp [OF set_remove1_subset]\<close>)
  ultimately show ?thesis using lost_dispatch_phase [OF step inv lost] unfolding lost_dispatch_def by blast
qed

text \<open>
  C22. An offered Attempt without a message is lost: when its message has left the stream and no
  dispatcher is about to publish it, no sequence of steps claims it, completes it, retries it or
  dispatches it again; it stays offered forever.  Such a state is reachable from a pending Run, because
  a message can be delivered before its publication is recorded: the claim is then refused, the worker
  acknowledges the message, and only afterwards does the Attempt become queued.
\<close>

theorem lost_dispatch_forever:
  assumes "\<And>e. se_decode E (se_encode E e) = Some e"
    and "sys_inv s" "lost_dispatch E i s" "(sys_step E)\<^sup>*\<^sup>* s s'"
  shows "lost_dispatch E i s' \<and> phases (sys_db s') i = Some Offered"
proof -
  from assms(4) have "lost_dispatch E i s' \<and> sys_inv s'"
  proof (induction rule: rtranclp_induct)
    case (step t u)
    then show ?case using lost_dispatch_step [OF assms(1)] sys_step_inv by blast
  qed (use assms in simp)
  then show ?thesis by (simp add: lost_dispatch_def)
qed

section \<open>A run of the system\<close>

text \<open>
  A dispatcher polls and publishes the message of the pending Run.  Either its publication is recorded
  before a worker receives the message, or after.
\<close>

definition sample_sys_env :: "DispatchEnvelope SysEnv" where
  "sample_sys_env = \<lparr> se_store = \<lparr> env_encode = sample_encode, env_snapshot_bytes = (\<lambda>_. Some 0), env_jsonb_eq = (=), env_delay = (\<lambda>_ _. 0) \<rparr>,
     se_codec = sample_codec, se_encode = id, se_decode = Some \<rparr>"

definition sample_args :: Args where
  "sample_args = \<lparr> args_nats_url = ''nats://127.0.0.1:4222'', args_queue = ''default'', args_worker_id = ''w'', args_concurrency = 1,
     args_dry_run = False, args_log_format = PrettyLog \<rparr>"

abbreviation sample_envelope :: DispatchEnvelope where
  "sample_envelope \<equiv> \<lparr> env_dispatch_id = 12, env_run_id = 10, env_attempt_id = 11, env_queue_id = 2 \<rparr>"

abbreviation held_pending :: Db where
  "held_pending \<equiv> sample_pending\<lparr> db_outbox := [(sample_message None)\<lparr> ob_claimed_by := Some 7, ob_claim_expires_at := Some (60 * second) \<rparr>] \<rparr>"

abbreviation offered_db :: Db where
  "offered_db \<equiv> insert_run_event 1 10 ''queued'' (held_pending
     \<lparr> db_runs := [(sample_run PendingDispatch)\<lparr> run_status := Queued, run_queued_at := Some 1 \<rparr>], db_attempts := [sample_attempt Queued None],
       db_outbox := [(sample_message None)\<lparr> ob_published_at := Some 1, ob_stream_sequence := Some 1 \<rparr>] \<rparr>)"

lemma sample_wf_inv [simp]: "wf_inv sample_pending"
  by (simp add: wf_inv_def wf_core_def wf_keys_def edges_ok_def deps_ok_def final_ok_def quiet_def sample_state_def sample_db_def)

lemma sample_poll:
  "claim_outbox 0 (\<lambda>_. False) 7 10 60 sample_pending = Inr (held_pending, [outbox_record (sample_message None)])"
  by (simp add: claim_outbox_def duration_seconds_def int_bounds sample_state_def sample_message_def select_batch_def outbox_claimable_def
      update_outbox_def update_where_def)

lemma sample_publish:
  "publish_one 1 1 (\<lambda>_. Inr 1) 7 DispatcherConfig_default (outbox_record (sample_message None)) held_pending = Some offered_db"
  by (simp add: publish_one_def mark_published_def int_bounds outbox_record_def sample_state_def sample_db_def sample_run_def sample_attempt_def
      sample_message_def update_outbox_def update_attempts_def update_runs_def update_where_def insert_run_event_def
      becomes_terminal_def run_is_terminal_def)

lemma sample_receive:
  "receive (se_decode sample_sys_env) sample_args 2 sample_envelope = Inr (sample_envelope, sample_claim ''w'')"
  by (simp add: receive_def sample_sys_env_def sample_args_def sample_claim_def)

text \<open>The message is in the stream and its publication is acknowledged but not recorded.\<close>

abbreviation acknowledged_sys :: "DispatchEnvelope Sys" where
  "acknowledged_sys \<equiv> \<lparr> sys_db = held_pending, sys_held = [(7, outbox_record (sample_message None), True)],
     sys_stream = [sample_envelope], sys_sent = [11], sys_running = [], sys_started = [] \<rparr>"

lemma reach_acknowledged: "(sys_step sample_sys_env)\<^sup>*\<^sup>* (sys_init sample_pending) acknowledged_sys"
proof -
  let ?rec = "outbox_record (sample_message None)"
  let ?held = "(sys_init sample_pending :: DispatchEnvelope Sys)\<lparr> sys_db := held_pending, sys_held := [(7, ?rec, False)] \<rparr>"
  let ?stored = "?held\<lparr> sys_stream := [sample_envelope], sys_sent := [11] \<rparr>"
  have "sys_step sample_sys_env (sys_init sample_pending) ?held"
    using sys_step.poll [of 0 "\<lambda>_. False" 7 10 60 "sys_init sample_pending" held_pending "[?rec]" sample_sys_env] sample_poll
    by (simp add: sys_init_def)
  moreover have "sys_step sample_sys_env ?held ?stored"
    using sys_step.stored [of 7 ?rec ?held sample_sys_env]
    by (simp add: sys_init_def sample_sys_env_def outbox_record_def sample_message_def)
  moreover have "sys_step sample_sys_env ?stored acknowledged_sys"
    using sys_step.acknowledged [of 7 ?rec ?stored sample_sys_env]
    by (simp add: sys_init_def outbox_record_def sample_message_def)
  ultimately show ?thesis by (meson converse_rtranclp_into_rtranclp r_into_rtranclp)
qed

lemma sample_published:
  "sys_held s = [(7, outbox_record (sample_message None), True)] \<Longrightarrow> sys_db s = held_pending \<Longrightarrow>
   sys_step sample_sys_env s (s\<lparr> sys_db := offered_db, sys_held := [] \<rparr>)"
  using sys_step.published [of 7 "outbox_record (sample_message None)" True s "Inr 1" 1 1 DispatcherConfig_default offered_db sample_sys_env]
    sample_publish by simp

text \<open>The worker is faster than the dispatcher: the claim is refused and the message is gone.\<close>

abbreviation lost_sys :: "DispatchEnvelope Sys" where
  "lost_sys \<equiv> acknowledged_sys\<lparr> sys_db := offered_db, sys_held := [], sys_stream := [] \<rparr>"

lemma reach_lost: "(sys_step sample_sys_env)\<^sup>*\<^sup>* (sys_init sample_pending) lost_sys"
proof -
  let ?no = "\<lparr> claimed = False, lease_seconds = 60, execution = None \<rparr>"
  let ?taken = "acknowledged_sys\<lparr> sys_stream := [] \<rparr>"
  have "claim_attempt 1 (sample_claim ''w'') held_pending = (held_pending, Inr ?no)"
    by (simp add: claim_attempt_def sample_claim_def text_storable_def sample_state_def sample_attempt_def)
  then have "sys_step sample_sys_env acknowledged_sys ?taken"
    using sys_step.refused [of sample_envelope acknowledged_sys sample_sys_env sample_args 2 sample_envelope "sample_claim ''w''" 1
        held_pending "Inr ?no" "Some ?no" AckDouble "[]"] sample_receive
    by (simp add: answered_def after_claim_def settles_def)
  moreover have "sys_step sample_sys_env ?taken lost_sys" using sample_published [of ?taken] by simp
  ultimately show ?thesis using reach_acknowledged by (meson rtranclp.rtrancl_into_rtrancl)
qed

text \<open>The dispatcher is faster: the claim succeeds and the execution begins.\<close>

abbreviation offered_sys :: "DispatchEnvelope Sys" where
  "offered_sys \<equiv> acknowledged_sys\<lparr> sys_db := offered_db, sys_held := [] \<rparr>"

abbreviation started_sys :: "DispatchEnvelope Sys" where
  "started_sys \<equiv> offered_sys\<lparr> sys_db := fst (claim_attempt 2 (sample_claim ''w'') offered_db),
     sys_running := [(sample_args, sample_envelope, sample_snapshot, sample_envelope)], sys_started := [11] \<rparr>"

lemma sample_offered_claim:
  "snd (claim_attempt 2 (sample_claim ''w'') offered_db) = Inr \<lparr> claimed = True, lease_seconds = 60, execution = Some sample_snapshot \<rparr>"
  by (simp add: claim_attempt_def sample_claim_def text_storable_def sample_state_def sample_db_def sample_attempt_def sample_run_def)

lemma reach_offered: "(sys_step sample_sys_env)\<^sup>*\<^sup>* (sys_init sample_pending) offered_sys"
  using reach_acknowledged by (rule rtranclp.rtrancl_into_rtrancl) (use sample_published [of acknowledged_sys] in simp)

lemma step_started: "sys_step sample_sys_env offered_sys started_sys"
proof -
  let ?yes = "\<lparr> claimed = True, lease_seconds = 60, execution = Some sample_snapshot \<rparr>"
  have "claim_attempt 2 (sample_claim ''w'') offered_db = (fst (claim_attempt 2 (sample_claim ''w'') offered_db), Inr ?yes)"
    using sample_offered_claim by (metis prod.collapse)
  then show ?thesis
    using sys_step.started [of sample_envelope offered_sys sample_sys_env sample_args 2 sample_envelope "sample_claim ''w''" 2
        "fst (claim_attempt 2 (sample_claim ''w'') offered_db)" "Inr ?yes" "Some ?yes" sample_snapshot] sample_receive
    by (simp add: answered_def after_claim_def)
qed

lemma sample_sys_inv: "(sys_step sample_sys_env)\<^sup>*\<^sup>* (sys_init sample_pending) s \<Longrightarrow> sys_inv s"
  by (erule dispatch.reachable_inv) (simp add: sys_init_inv)

theorem attempt_life_refines_witness:
  "sys_step sample_sys_env offered_sys started_sys \<and> phases (sys_db offered_sys) 11 = Some Offered \<and>
   (\<exists>w. phases (sys_db started_sys) = (phases (sys_db offered_sys))(11 \<mapsto> Executing w)) \<and> sys_started started_sys = [11]"
  using attempt_life_refines [OF step_started sample_sys_inv [OF reach_offered]] step_started by auto

theorem executions_bounded_witness:
  "(sys_step sample_sys_env)\<^sup>*\<^sup>* (sys_init sample_pending) started_sys \<and> distinct (sys_started started_sys) \<and>
   (\<exists>r. r \<in> set (db_runs (sys_db started_sys)) \<and> run_max_attempts r = 2 \<and>
     int (length (filter (\<lambda>i. list_ex (\<lambda>a. att_id a = i \<and> att_run_id a = run_id r) (db_attempts (sys_db started_sys)))
       (sys_started started_sys))) \<le> 2)"
proof -
  have reach: "(sys_step sample_sys_env)\<^sup>*\<^sup>* (sys_init sample_pending) started_sys"
    using reach_offered step_started by (rule rtranclp.rtrancl_into_rtrancl)
  have "advances offered_db (sys_db started_sys)"
    using claim_attempt_advances [OF prod.collapse [symmetric]] by simp
  then obtain r where r: "r \<in> set (db_runs (sys_db started_sys))"
      "run_advances ((sample_run PendingDispatch)\<lparr> run_status := Queued, run_queued_at := Some 1 \<rparr>) r"
    by (auto simp: related_def)
  have two: "run_max_attempts r = 2" using r(2) by (simp add: run_advances_def sample_run_def)
  from executions_bounded [OF reach _ _ r(1)] show ?thesis using reach r(1) two by (auto simp: list_ex_iff)
qed

theorem lost_dispatch_forever_witness:
  "(sys_step sample_sys_env)\<^sup>*\<^sup>* (sys_init sample_pending) lost_sys \<and> lost_dispatch sample_sys_env 11 lost_sys \<and>
   (\<exists>s'. sys_step sample_sys_env lost_sys s' \<and> phases (sys_db s') 11 = Some Offered)"
proof -
  note inv = sample_sys_inv [OF reach_lost]
  have lost: "lost_dispatch sample_sys_env 11 lost_sys"
    by (simp add: lost_dispatch_def phases_def insert_run_event_def sample_attempt_def phase_def)
  have step: "sys_step sample_sys_env lost_sys lost_sys"
    using sys_step.stopped [of sample_sys_env lost_sys "(7, outbox_record (sample_message None), True)"] by simp
  have wire: "se_decode sample_sys_env (se_encode sample_sys_env e) = Some e" for e by (simp add: sample_sys_env_def)
  from lost_dispatch_forever [OF wire inv lost r_into_rtranclp [where r = "sys_step sample_sys_env", OF step]]
  show ?thesis using reach_lost lost step by blast
qed

end
