(* ===== verification/WorkflowProgress.thy ===== *)
theory WorkflowProgress
  imports System
begin

text \<open>
  Progress of Workflow invocations.  The dependency edges of all invocations stay acyclic, so among
  the unfinished nodes of an invocation there is always one that waits for no other.
\<close>

section \<open>The edges of invocations are acyclic\<close>

definition edge_pairs :: "Db \<Rightarrow> (uuid \<times> uuid) set" where
  "edge_pairs db = (\<lambda>e. (re_from e, re_to e)) ` set (db_run_edges db)"

lemma finite_edge_pairs [simp]: "finite (edge_pairs db)"
  by (simp add: edge_pairs_def)

lemma activate_edges: "activate now nid db = Inr db' \<Longrightarrow> db_run_edges db' = db_run_edges db"
  by (erule activate_cases) simp_all

lemma activate_roots_edges: "activate_roots now ids edges nodes db = Inr db' \<Longrightarrow> db_run_edges db' = db_run_edges db"
proof (induction nodes arbitrary: db)
  case (Cons node nodes)
  show ?case
  proof (cases "\<exists>e \<in> set edges. we_to e = sn_name node")
    case False
    then obtain nid d where "activate now nid db = Inr d" "activate_roots now ids edges nodes d = Inr db'"
      using Cons.prems by (auto simp del: and_then_Ok elim!: and_thenE)
    then show ?thesis using Cons.IH activate_edges by metis
  qed (use Cons in simp)
qed simp

lemma propagate_edges: "propagate now queue db = Inr db' \<Longrightarrow> db_run_edges db' = db_run_edges db"
proof (induction now queue db rule: propagate.induct)
  case (2 now nid queue db)
  from 2(5) obtain act where act: "node_active db nid = Inr act" by (cases "node_active db nid") auto
  show ?case
  proof (cases act)
    case True
    show ?thesis
    proof (cases "dependency_decision (incoming db nid)")
      case DepReady
      then obtain d where "activate now nid db = Inr d" "propagate now queue d = Inr db'"
        using 2(5) act True by (auto split: sum.splits)
      then show ?thesis using 2(3) [OF act] True DepReady activate_edges by metis
    next
      case DepSkipped
      then show ?thesis using 2(4) [OF act] 2(5) act True by (simp add: skip_node_def)
    qed (use 2(2) [OF act] 2(5) act True in simp)
  qed (use 2(1) [OF act] 2(5) act in simp)
qed simp

lemma complete_nodes_edges: "complete_nodes now nids downstream db = (db', out) \<Longrightarrow> db_run_edges db' = db_run_edges db"
proof (induction nids arbitrary: downstream db)
  case (Cons nid nids)
  obtain d changed where d: "complete_node now nid db = (d, changed)" by (cases "complete_node now nid db")
  then have "db_run_edges d = db_run_edges db" by (cases rule: complete_node_cases; simp)
  then show ?case using Cons d by auto
qed simp

lemma reconcile_invocation_edges:
  assumes "reconcile_invocation now i db = Inr db'"
  shows "db_run_edges db' = db_run_edges db"
proof -
  obtain d nids out e where "complete_nodes now nids [] db = (d, out)" "propagate now out d = Inr e" "db_run_edges db' = db_run_edges e"
    using assms unfolding reconcile_invocation_def Let_def by (auto simp: finish_def Let_def split: prod.splits)
  then show ?thesis using complete_nodes_edges propagate_edges by metis
qed

lemma cancel_workflow_edges: "cancel_workflow now i db = Inr (db', record) \<Longrightarrow> db_run_edges db' = db_run_edges db"
  by (auto simp: cancel_workflow_def Let_def finish_def split: option.splits if_splits elim: and_thenE)

text \<open>The edges of a new invocation are the edges of its definition between fresh nodes.\<close>

lemma start_new_edges:
  assumes step: "start_new encode sb now launch db = Inr (db', i)" and d: "catalog db (la_workflow_id launch) = Inr d"
    and names: "distinct (map (\<lambda>n. resource_str (sn_name n)) (sw_nodes d))"
  obtains E name where "db_run_edges db' = db_run_edges db @ E"
    "\<And>e. e \<in> set E \<Longrightarrow> db_next_id db \<le> re_from e \<and> (name (re_from e), name (re_to e)) \<in> set (endpoints (sw_edges d))"
proof -
  obtain db1 db2 ids E where db1: "insert_invocation now launch d db = Inr (db1, i)"
    and db2: "prepare_nodes encode sb i (sw_namespace_id d) launch (sw_nodes d) 0 0 [] db1 = Inr (db2, ids)"
    and E: "run_edges i ids (sw_edges d) = Inr E"
    and roots: "activate_roots now ids (sw_edges d) (sw_nodes d) (db2\<lparr> db_run_edges := db_run_edges db2 @ E \<rparr>) = Inr db'"
    using step d by (auto simp: start_new_def simp del: and_then_Ok elim!: and_thenE)
  from prepare_nodes_spec [OF db2] obtain nids where nids: "length nids = length (sw_nodes d)" "distinct nids"
      "\<forall>x \<in> set nids. db_next_id db1 \<le> x" and ids: "ids = name_ids (zip nids (sw_nodes d)) []"
      and edges: "db_run_edges db2 = db_run_edges db1" by blast
  define name where "name = (\<lambda>x. case map_of (zip nids (sw_nodes d)) x of Some node \<Rightarrow> resource_str (sn_name node) | None \<Rightarrow> [])"
  have keys: "distinct (map (\<lambda>(nid, node). resource_str (sn_name node)) (zip nids (sw_nodes d)))"
  proof -
    have "map (\<lambda>(nid, node). resource_str (sn_name node)) (zip nids (sw_nodes d)) = map (\<lambda>n. resource_str (sn_name n)) (map snd (zip nids (sw_nodes d)))"
      by auto
    then show ?thesis using names nids(1) by simp
  qed
  have get: "name x = k \<and> db_next_id db1 \<le> x" if x: "bt_get ids k = Some x" for k x
  proof -
    obtain node where node: "(x, node) \<in> set (zip nids (sw_nodes d))" "k = resource_str (sn_name node)"
      using name_ids_Some [OF keys x [unfolded ids]] by blast
    then have "map_of (zip nids (sw_nodes d)) x = Some node" using nids by (intro map_of_is_SomeI) simp_all
    then show ?thesis using node nids(3) by (auto simp: name_def dest: set_zip_leftD)
  qed
  show thesis
  proof (rule that [of E name])
    show "db_run_edges db' = db_run_edges db @ E"
      using activate_roots_edges [OF roots] edges db1 by (auto simp: insert_invocation_def Let_def split: if_splits)
    show "db_next_id db \<le> re_from e \<and> (name (re_from e), name (re_to e)) \<in> set (endpoints (sw_edges d))" if e: "e \<in> set E" for e
    proof -
      obtain x where x: "x \<in> set (sw_edges d)" "bt_get ids (resource_str (we_from x)) = Some (re_from e)"
          "bt_get ids (resource_str (we_to x)) = Some (re_to e)"
        using traverse_Ok_set [OF E [unfolded run_edges_def] e] by (auto simp: node_id_def)
      moreover have "db_next_id db \<le> db_next_id db1" using db1 by (auto simp: insert_invocation_def Let_def split: if_splits)
      ultimately show ?thesis using get [OF x(2)] get [OF x(3)] by auto
    qed
  qed
qed

lemma acyclic_append:
  assumes "acyclic A" "finite A" "finite B" "acyclic C" "finite C" "\<And>x y. (x, y) \<in> B \<Longrightarrow> (f x, f y) \<in> C" "Domain B \<inter> Range A = {}"
  shows "acyclic (A \<union> B)"
proof -
  have "wf B"
    by (rule wf_subset [OF wf_inv_image [OF finite_acyclic_wf [OF assms(5,4)]]]) (use assms(6) in \<open>auto simp: inv_image_def\<close>)
  moreover have "wf A" using assms(1,2) by (simp add: finite_acyclic_wf)
  ultimately have "wf (B \<union> A)" using assms(7) by (intro wf_Un) auto
  then show ?thesis by (simp add: Un_commute wf_acyclic)
qed

lemma start_new_acyclic:
  assumes step: "start_new encode sb now launch db = Inr (db', i)" and d: "catalog db (la_workflow_id launch) = Inr d"
    and valid: "validate_workflow (stored_definition d) = Some (Inr ())" and wf: "wf_inv db" and old: "acyclic (edge_pairs db)"
  shows "acyclic (edge_pairs db')"
proof -
  have graph: "graph_ok (stored_definition d)" "acyclic (set (endpoints (sw_edges d)))"
    using validate_workflow_accepts [of "stored_definition d"] valid by (simp_all add: stored_definition_def)
  have names: "distinct (map (\<lambda>n. resource_str (sn_name n)) (sw_nodes d))"
    using graph(1) by (simp add: graph_ok_def stored_definition_def comp_def)
  obtain E :: "RunEdgeRow list" and name :: "uuid \<Rightarrow> bytes" where E: "db_run_edges db' = db_run_edges db @ E"
      "\<forall>e \<in> set E. db_next_id db \<le> re_from e \<and> (name (re_from e), name (re_to e)) \<in> set (endpoints (sw_edges d))"
    by (rule start_new_edges [OF step d names]) blast
  have "re_to e < db_next_id db" if "e \<in> set (db_run_edges db)" for e
    using wf that unfolding wf_inv_def wf_core_def wf_keys_def edges_ok_def by metis
  then have "Domain ((\<lambda>e. (re_from e, re_to e)) ` set E) \<inter> Range (edge_pairs db) = {}"
    using E(2) by (fastforce simp: edge_pairs_def)
  then have "acyclic (edge_pairs db \<union> (\<lambda>e. (re_from e, re_to e)) ` set E)"
    using E(2) by (intro acyclic_append [OF old _ _ graph(2)]) auto
  then show ?thesis by (simp add: edge_pairs_def E(1) image_Un)
qed

lemma start_workflow_acyclic:
  assumes step: "start_workflow encode sb jeq now launch db = Inr (db', record, created)" and wf: "wf_inv db" and old: "acyclic (edge_pairs db)"
  shows "acyclic (edge_pairs db')"
proof (cases "find (\<lambda>w. wr_request_id w = la_request_id launch) (db_workflow_runs db)")
  case (Some w)
  then have "db' = db" using step by (auto simp: start_workflow_def split: if_splits)
  then show ?thesis using old by simp
next
  case None
  then obtain i where new: "start_new encode sb now launch db = Inr (db', i)" and read: "invocation db' VisibleAll i = Inr record"
    using step by (auto simp: start_workflow_def)
  from start_new_runs [OF new] obtain d where i: "i = db_next_id db" and d: "catalog db (la_workflow_id launch) = Inr d"
    and runs: "db_workflow_runs db' = db_workflow_runs db @ [invocation_row now launch d i]" by blast
  have "find (\<lambda>w. wr_id w = i) (db_workflow_runs db) = None"
    using wf by (auto simp: find_None_iff i wf_inv_def wf_core_def wf_keys_def)
  then have "find (\<lambda>w. wr_id w = i) (db_workflow_runs db') = Some (invocation_row now launch d i)"
    by (simp add: runs find_append invocation_row_def)
  then have "validate_workflow (stored_definition d) = Some (Inr ())"
    using read by (auto simp: invocation_def workflow_record_def definition_valid_def ensure_def invocation_row_def Let_def split: if_splits)
  then show ?thesis using start_new_acyclic [OF new d _ wf old] by blast
qed

lemma db_step_acyclic:
  assumes "db_step E db db'" "wf_inv db" "acyclic (edge_pairs db)"
  shows "acyclic (edge_pairs db')"
  using assms
proof (induction rule: db_step.induct)
  case start_workflow
  then show ?case using start_workflow_acyclic by blast
next
  case reconcile_invocation
  then show ?case using reconcile_invocation_edges by (simp add: edge_pairs_def)
next
  case cancel_workflow
  then show ?case using cancel_workflow_edges by (simp add: edge_pairs_def)
qed (auto simp: edge_pairs_def wf_frame_def dest: create_runs_wf insert_rerun_wf claim_due_schedules_wf commit_schedule_plan_wf renew_lease_wf
    record_attempt_output_wf complete_attempt_wf reconcile_runs_wf)

section \<open>Steps of the system\<close>

lemma sys_step_tables:
  assumes "sys_step E s s'"
  shows "db_step (se_store E) (sys_db s) (sys_db s') \<or> wf_frame (sys_db s) (sys_db s')"
  using assms
proof cases
  case (published owner rec acked verdict now utc config db')
  then have "wf_frame (sys_db s) db'"
    by (auto simp: publish_one_def split: sum.splits bind_splits dest: mark_published_wf record_publish_failure_wf)
  then show ?thesis using published by simp
next
  case (finished args envelope x p wenv ticks emitted elapsed report events completion ack now utc res db' stream')
  then have "wf_frame (sys_db s) db'" by (auto split: sum.splits dest: complete_attempt_wf)
  then show ?thesis using finished by simp
qed (auto dest: handle_worker_wf claim_outbox_wf claim_attempt_wf)

definition wf_dag :: "'p Sys \<Rightarrow> bool" where
  "wf_dag s \<longleftrightarrow> acyclic (edge_pairs (sys_db s))"

lemma sys_step_acyclic:
  assumes "sys_step E s s'" "sys_inv s" "wf_dag s"
  shows "wf_dag s'"
  using sys_step_tables [OF assms(1)] assms(2,3) db_step_acyclic
  by (auto simp: sys_inv_def wf_dag_def edge_pairs_def wf_frame_def)

lemma reachable_workflows:
  assumes "(sys_step E)\<^sup>*\<^sup>* (sys_init db) s" "run_inv db" "wf_inv db" "acyclic (edge_pairs db)"
  shows "wf_inv (sys_db s)" "acyclic (edge_pairs (sys_db s))"
proof -
  from assms(1) have "sys_inv s \<and> wf_dag s"
  proof (induction rule: rtranclp_induct)
    case base
    then show ?case using assms(2-4) by (simp add: sys_init_inv) (simp add: wf_dag_def sys_init_def)
  next
    case (step t u)
    then show ?case using sys_step_inv sys_step_acyclic by blast
  qed
  then show "wf_inv (sys_db s)" "acyclic (edge_pairs (sys_db s))" by (simp_all add: sys_inv_def wf_dag_def)
qed

section \<open>Progress\<close>

lemma node_runs:
  assumes wf: "wf_inv db" and dag: "acyclic (edge_pairs db)" and w: "w \<in> set (db_workflow_runs db)" "\<not> wr_cancellation_requested w"
    and n: "n \<in> nodes_of db (wr_id w)" "\<not> node_is_terminal (nr_state n)"
  obtains m where "m \<in> nodes_of db (wr_id w)" "nr_state m = NodeRunning \<or> nr_state m = NodeReady"
proof -
  let ?open = "{nr_id m | m. m \<in> nodes_of db (wr_id w) \<and> \<not> node_is_terminal (nr_state m)}"
  have parts: "wf_keys db" "edges_ok db" "quiet db {}" using wf by (simp_all add: wf_inv_def wf_core_def)
  have "wf (edge_pairs db)" using dag by (simp add: finite_acyclic_wf)
  moreover have "nr_id n \<in> ?open" using n by blast
  ultimately obtain x where x: "x \<in> ?open" "\<And>y. (y, x) \<in> edge_pairs db \<Longrightarrow> y \<notin> ?open" by (rule wfE_min) blast
  then obtain m where m: "m \<in> nodes_of db (wr_id w)" "\<not> node_is_terminal (nr_state m)" "x = nr_id m" by blast
  have "nr_state m \<noteq> NodePending"
  proof
    assume "nr_state m = NodePending"
    moreover have "open_run db (nr_workflow_run_id m)" using w m(1) by (auto simp: open_run_def nodes_of_def)
    ultimately have "dependency_decision (incoming db (nr_id m)) = DepWaiting"
      using parts(3) m(1) by (auto simp: quiet_def nodes_of_def)
    then obtain e k where e: "e \<in> set (db_run_edges db)" "re_to e = nr_id m" and k: "k \<in> set (db_node_runs db)" "nr_id k = re_from e"
        "\<not> node_is_terminal (nr_state k)"
      unfolding decision_Waiting by blast
    have "nr_workflow_run_id k = re_workflow_run_id e" "nr_workflow_run_id m = re_workflow_run_id e"
      using parts(2) e k(1,2) m(1) node_by_key [OF parts(1)] unfolding edges_ok_def nodes_of_def mem_Collect_eq by metis+
    then have "nr_id k \<in> ?open" using k(1,3) m(1) by (auto simp: nodes_of_def)
    moreover have "(nr_id k, x) \<in> edge_pairs db" using e k(2) m(3) by (force simp: edge_pairs_def)
    ultimately show False using x(2) by blast
  qed
  then show thesis using that [OF m(1)] m(2) by (cases "nr_state m") (simp_all add: node_is_terminal_def)
qed

text \<open>
  C32. Workflows keep their order: in every state the system reaches, a node has started only if each of
  its dependencies has finished with a state that satisfies the dependency's condition, and an
  invocation is finished only if all its nodes are, with the outcome that they determine.
\<close>

theorem workflow_order_kept:
  assumes "(sys_step E)\<^sup>*\<^sup>* (sys_init db) s" "run_inv db" "wf_inv db"
  shows "(\<forall>n \<in> set (db_node_runs (sys_db s)). nr_started_at n \<noteq> None \<longrightarrow> satisfied (sys_db s) (nr_id n)) \<and>
    (\<forall>w \<in> set (db_workflow_runs (sys_db s)). wr_state w \<noteq> WorkflowRunning \<longrightarrow>
       (\<forall>n \<in> nodes_of (sys_db s) (wr_id w). node_is_terminal (nr_state n)) \<and> wr_state w = outcome (sys_db s) w)"
proof -
  have "sys_inv s" using assms(1) sys_init_inv [OF assms(2,3)] by (rule dispatch.reachable_inv)
  then show ?thesis by (simp add: sys_inv_def wf_inv_def wf_core_def deps_ok_def final_ok_def)
qed

text \<open>A chain of three nodes: the first has succeeded, the second runs and the third waits for it.\<close>

definition sample_node :: "uuid \<Rightarrow> WorkflowNodeState \<Rightarrow> NodeRunRow" where
  "sample_node i st = \<lparr> nr_id = i, nr_workflow_run_id = 20, nr_workflow_node_id = i, nr_name = ResourceName ''n'', nr_job_id = 3,
     nr_state = st, nr_started_at = (if st = NodePending then None else Some 0), nr_finished_at = None \<rparr>"

definition sample_edge :: "uuid \<Rightarrow> uuid \<Rightarrow> RunEdgeRow" where
  "sample_edge a b = \<lparr> re_workflow_run_id = 20, re_from = a, re_to = b, re_condition = OnSuccess \<rparr>"

definition sample_invocation :: WorkflowRunRow where
  "sample_invocation = \<lparr> wr_id = 20, wr_request_id = 19, wr_workflow_id = 18, wr_namespace_id = 1,
     wr_definition = \<lparr> sw_id = 18, sw_namespace_id = 1, sw_namespace = NamespaceName ''n'', sw_name = ResourceName ''w'', sw_description = None,
       sw_revision = 1, sw_created_at = 0, sw_updated_at = 0, sw_nodes = [], sw_edges = [] \<rparr>,
     wr_target_id = Some 4, wr_target_set_id = None, wr_inputs = JObject [], wr_state = WorkflowRunning, wr_cancellation_requested = False,
     wr_created_at = 0, wr_started_at = Some 0, wr_finished_at = None \<rparr>"

definition sample_flow :: Db where
  "sample_flow = sample_db\<lparr> db_next_id := 30, db_workflow_runs := [sample_invocation],
     db_node_runs := [sample_node 21 NodeSucceeded, sample_node 22 NodeRunning, sample_node 23 NodePending],
     db_run_edges := [sample_edge 21 22, sample_edge 22 23] \<rparr>"

lemma sample_flow_inv: "run_inv sample_flow" "wf_inv sample_flow"
  by (simp_all add: inv_defs sample_flow_def sample_db_def wf_inv_def wf_core_def wf_keys_def edges_ok_def deps_ok_def satisfied_def final_ok_def
      node_is_terminal_def quiet_def incoming_def dependency_decision_def condition_matches_def sample_node_def sample_edge_def sample_invocation_def)

lemma sample_flow_acyclic: "acyclic (edge_pairs sample_flow)"
proof (rule acyclic_subset)
  show "acyclic {(a, b). a < (b :: uuid)}" using wf_acyclic [OF wf_less] by simp
qed (auto simp: edge_pairs_def sample_flow_def sample_edge_def)

theorem workflow_order_kept_witness:
  "satisfied sample_flow 22 \<and> nr_started_at (sample_node 22 NodeRunning) = Some 0"
  using workflow_order_kept [OF rtranclp.rtrancl_refl [where r = "sys_step sample_sys_env"] sample_flow_inv]
  by (auto simp: sys_init_def sample_flow_def sample_node_def)

end
