(* ===== verification/Observed.thy ===== *)
theory Observed
  imports Api WorkflowProgress
begin

text \<open>
  What clients of the API observe of executions: the re-run flag of a Run tells what a re-run
  request will be answered, and the Attempts of a Run are listed completely and presentably in every
  state the system reaches.
\<close>

section \<open>Reading a Run\<close>

lemma shown_run:
  assumes "handle E now utc g (GetRun i) db = (db', Inr (status, Some (OneRun res)))"
  obtains rc where "app_get_run g i db = Inr rc" "run_resource (ae_rfc3339 E) rc = Inr res"
  using assms by (auto simp: h_get_run_def reads_def respond_def)

lemma find_unique:
  "distinct (map k xs) \<Longrightarrow> find (\<lambda>x. k x = i \<and> P x) xs = Some x \<Longrightarrow> find (\<lambda>x. k x = i) xs = Some x"
proof -
  assume d: "distinct (map k xs)" and f: "find (\<lambda>x. k x = i \<and> P x) xs = Some x"
  from find_Some_in [OF f] have "x \<in> set xs" "k x = i" by auto
  with find_key_unique [OF d] show ?thesis by force
qed

lemma run_record_fields: "run_record db r = Inr rc \<Longrightarrow> rrec_run rc = r \<and> rrec_has_snapshot rc = has_execution_snapshot r"
  by (auto simp: run_record_def)

lemma get_run_row:
  assumes "app_get_run g i db = Inr rc" "distinct (map run_id (db_runs db))"
  shows "find (\<lambda>r. run_id r = i) (db_runs db) = Some (rrec_run rc)" "run_record db (rrec_run rc) = Inr rc"
    "run_id (rrec_run rc) = i"
proof -
  from assms(1) obtain vis r where r: "find (\<lambda>r. run_id r = i \<and> run_visible vis db r) (db_runs db) = Some r" "run_record db r = Inr rc"
    by (auto simp: app_get_run_def get_run_def split: if_splits)
  then have "rrec_run rc = r" using run_record_fields by blast
  then show "find (\<lambda>r. run_id r = i) (db_runs db) = Some (rrec_run rc)" "run_record db (rrec_run rc) = Inr rc"
      "run_id (rrec_run rc) = i"
    using r find_unique [OF assms(2) r(1)] find_Some_in [OF r(1)] by auto
qed

lemma run_resource_fields:
  assumes "run_resource f rc = Inr x"
  shows "runr_rerunnable x \<longleftrightarrow> run_is_repeatable (run_status (rrec_run rc)) \<and> rrec_has_snapshot rc"
    "runr_job_id x = run_job_id (rrec_run rc)" "runr_target_id x = run_target_id (rrec_run rc)"
    "runr_job x = qualified_text (rrec_job_namespace rc) (rrec_job_name rc)"
    "runr_target x = qualified_text (rrec_target_namespace rc) (rrec_target_name rc)"
    "runr_queue x = queue_str (rrec_queue_name rc)" "runr_rerun_of_run_id x = run_rerun_of (rrec_run rc)"
    "runr_status x = api_run_status (run_status (rrec_run rc))"
    "run_rerun_of (rrec_run rc) \<noteq> None \<Longrightarrow> runr_trigger_source x = SourceRerun"
  using assms by (auto simp: run_resource_def Let_def)

lemma run_resource_pending:
  assumes "f (run_scheduled_at (rrec_run rc)) \<noteq> None" "f (run_created_at (rrec_run rc)) \<noteq> None"
    and "run_queued_at (rrec_run rc) = None" "run_started_at (rrec_run rc) = None" "run_completed_at (rrec_run rc) = None"
  shows "\<exists>x. run_resource f rc = Inr x"
  using assms by (auto simp: run_resource_def Let_def timestamp_text_def)

section \<open>The re-run flag\<close>

lemma insert_rerun_succeeds:
  assumes inv: "run_inv db" and source: "rerun_source db src = Inr (source, ns, s)"
    and fresh: "find_run_request db rid = None" "\<And>r. r \<in> set (db_runs db) \<Longrightarrow> run_request_id r \<noteq> Some rid"
  obtains db' where "insert_rerun now src rid db = Inr (db', normal_run now (Some src) (rerun_prepared (db_next_id db) rid source s), True)"
    "db_jobs db' = db_jobs db" "db_targets db' = db_targets db" "db_namespaces db' = db_namespaces db" "db_queues db' = db_queues db"
proof -
  let ?new = "normal_run now (Some src) (rerun_prepared (db_next_id db) rid source s)"
  let ?db1 = "db\<lparr> db_next_id := db_next_id db + 1, db_requests := db_requests db @ [rerun_request db rid ns source] \<rparr>"
  let ?db2 = "?db1\<lparr> db_runs := db_runs db @ [?new] \<rparr>"
  have mem: "source \<in> set (db_runs db)"
    using source unfolding rerun_source_def by (elim and_thenE) (auto dest!: find_Some_in split: StoredSnapshot.splits)
  have keys: "\<forall>r \<in> set (db_runs db). run_id r < db_next_id db" "\<forall>a \<in> set (db_attempts db). att_run_id a < db_next_id db"
    using inv by (fastforce simp: run_inv_except_def keys_ok_def fits_def)+
  have "bounds_ok source" using inv mem by (simp add: run_inv_except_def)
  then have ins: "insert_run ?new ?db1 = Inr ?db2"
    using keys(1) by (auto simp: insert_run_def normal_run_def rerun_prepared_def bounds_ok_def)
  have "run_id ?new = db_next_id db" by (simp add: normal_run_def rerun_prepared_def)
  moreover have "\<not> (\<exists>a \<in> set (db_attempts db). att_run_id a = db_next_id db)" using keys(2) by auto
  ultimately obtain db3 where made: "create_attempt_and_outbox now (db_next_id db) 1 (run_queue_id source) None ?db2 = Inr db3"
    unfolding create_attempt_and_outbox_def Let_def by force
  then have att: "db_requests db3 = db_requests ?db2" "db_runs db3 = db_runs ?db2" "db_jobs db3 = db_jobs db" "db_targets db3 = db_targets db"
      "db_namespaces db3 = db_namespaces db" "db_queues db3 = db_queues db"
    by (auto simp: create_attempt_and_outbox_def Let_def split: if_splits)
  let ?db4 = "insert_run_event now (db_next_id db) ''created'' db3"
  have tables: "db_requests ?db4 = db_requests ?db2" "db_runs ?db4 = db_runs ?db2" "db_jobs ?db4 = db_jobs db"
      "db_targets ?db4 = db_targets db" "db_namespaces ?db4 = db_namespaces db" "db_queues ?db4 = db_queues db"
    using att by (simp_all add: insert_run_event_def)
  have "filter (\<lambda>r. run_request_id r = Some rid) (db_runs db @ [?new]) = [?new]"
    using fresh(2) by (auto simp: normal_run_def rerun_prepared_def filter_empty_conv)
  then have "runs_for_request ?db4 rid = [?new]"
    unfolding runs_for_request_def tables att(2) select_convs by (simp del: filter_append)
  moreover have "find_run_request ?db4 rid \<noteq> None"
    using fresh(1) by (simp add: find_run_request_def att(1) find_append rerun_request_def)
  ultimately have found: "existing_rerun ?db4 rid src = Inr (Some ?new)"
    by (auto simp: existing_rerun_def normal_run_def rerun_prepared_def split: option.splits)
  have "insert_rerun now src rid db = Inr (?db4, ?new, True)"
    using source ins made found fresh(1) by (simp add: insert_rerun_def existing_rerun_def Let_def del: and_then_Ok)
  then show thesis using that tables by blast
qed

lemma run_record_like:
  assumes "run_record db r = Inr rc" "run_job_id r' = run_job_id r" "run_target_id r' = run_target_id r" "run_queue_id r' = run_queue_id r"
    and "db_jobs db' = db_jobs db" "db_targets db' = db_targets db" "db_namespaces db' = db_namespaces db" "db_queues db' = db_queues db"
  obtains rc' where "run_record db' r' = Inr rc'" "rrec_run rc' = r'"
    "rrec_job_namespace rc' = rrec_job_namespace rc" "rrec_job_name rc' = rrec_job_name rc"
    "rrec_target_namespace rc' = rrec_target_namespace rc" "rrec_target_name rc' = rrec_target_name rc"
    "rrec_queue_name rc' = rrec_queue_name rc"
  using assms by (auto simp: run_record_def find_namespace_def find_queue_def)

text \<open>
  C7. The re-run flag of a Run is exact: when it is off, a re-run is refused as an invalid request
  and changes nothing; when it is on, a caller with the required grants gets, for a new request
  identity and an enabled Queue, a new pending Run of the same Job, Target and Queue.
\<close>

theorem rerunnable_exact:
  assumes inv: "run_inv db" and shown: "handle E now utc g (GetRun i) db = (db0, Inr (status, Some (OneRun res)))"
    and run: "find (\<lambda>r. run_id r = i) (db_runs db) = Some r"
    and queue: "find_queue db (run_queue_id r) = Some q" "queue_enabled q"
    and job: "get_job db (runr_job_id res) = Inr j"
    and granted: "authorize (namespace_for db) g JobExecute (JobScope (runr_job_id res)) = Inr ()"
      "authorize (namespace_for db) g TargetUse (TargetScope (runr_target_id res)) = Inr ()"
      "authorize (namespace_for db) g RunCreate (NamespaceScope (job_namespace_id (jrec_job j))) = Inr ()"
    and fresh: "find_run_request db (rrr_request_id req) = None" "\<forall>x \<in> set (db_runs db). run_request_id x \<noteq> Some (rrr_request_id req)"
    and format: "ae_rfc3339 E now' \<noteq> None"
  shows "if runr_rerunnable res
    then \<exists>db' new. handle E now' utc' g (RerunRun i req) db = (db', Inr (201, Some (OneRun new))) \<and>
      runr_rerun_of_run_id new = Some i \<and> runr_status new = ApiPendingDispatch \<and> runr_trigger_source new = SourceRerun \<and>
      runr_job new = runr_job res \<and> runr_target new = runr_target res \<and> runr_queue new = runr_queue res
    else handle E now' utc' g (RerunRun i req) db = (db, Inl (ApiApplication app_invalid_request))"
proof -
  have keys: "distinct (map run_id (db_runs db))" using inv by (simp add: run_inv_except_def keys_ok_def)
  from shown obtain rc where rc: "app_get_run g i db = Inr rc" "run_resource (ae_rfc3339 E) rc = Inr res" by (rule shown_run)
  note row = get_run_row [OF rc(1) keys]
  have r: "rrec_run rc = r" using row(1) run by simp
  note res = run_resource_fields [OF rc(2), unfolded r]
  show ?thesis
  proof (cases "runr_rerunnable res")
    case False
    then show ?thesis using res(1) rc(1) r
      by (auto simp: h_rerun_run_def writes_def with_records_def app_rerun_run_def Let_def ensure_def)
  next
    case True
    then have flag: "run_is_repeatable (run_status r)" "rrec_has_snapshot rc" using res(1) by auto
    then obtain s where s: "run_snapshot r = Rendered s"
      using run_record_fields [OF row(2)] r by (auto simp: has_execution_snapshot_def split: StoredSnapshot.splits)
    obtain job where jb: "find (\<lambda>j. job_id j = run_job_id r) (db_jobs db) = Some job"
      using row(2) r by (auto simp: run_record_def)
    have source: "rerun_source db i = Inr (r, job_namespace_id job, s)"
      using run jb queue s by (simp add: rerun_source_def find_queue_def ensure_def)
    obtain db' where made: "insert_rerun now' i (rrr_request_id req) db =
        Inr (db', normal_run now' (Some i) (rerun_prepared (db_next_id db) (rrr_request_id req) r s), True)"
        and tables: "db_jobs db' = db_jobs db" "db_targets db' = db_targets db" "db_namespaces db' = db_namespaces db" "db_queues db' = db_queues db"
      by (rule insert_rerun_succeeds [OF inv source fresh(1), where now = now']) (use fresh(2) in blast)+
    let ?new = "normal_run now' (Some i) (rerun_prepared (db_next_id db) (rrr_request_id req) r s)"
    have app: "app_rerun_run now' g i (rrr_request_id req) db = Inr (db', ?new, True)"
      using rc(1) r flag granted job made res(2,3) row(3)
      by (simp add: app_rerun_run_def Let_def ensure_def allow_def del: and_then_Ok)
    have old: "run_record db r = Inr rc" using row(2) r by simp
    have like: "run_job_id ?new = run_job_id r" "run_target_id ?new = run_target_id r" "run_queue_id ?new = run_queue_id r"
      by (simp_all add: normal_run_def rerun_prepared_def)
    obtain rc' where new: "run_record db' ?new = Inr rc'" "rrec_run rc' = ?new" "rrec_job_namespace rc' = rrec_job_namespace rc"
        "rrec_job_name rc' = rrec_job_name rc" "rrec_target_namespace rc' = rrec_target_namespace rc"
        "rrec_target_name rc' = rrec_target_name rc" "rrec_queue_name rc' = rrec_queue_name rc"
      by (rule run_record_like [OF old like tables])
    have "\<exists>x. run_resource (ae_rfc3339 E) rc' = Inr x"
      by (rule run_resource_pending) (use format in \<open>simp_all add: new(2) normal_run_def\<close>)
    then obtain x where x: "run_resource (ae_rfc3339 E) rc' = Inr x" by blast
    note fields = run_resource_fields [OF x]
    have "handle E now' utc' g (RerunRun i req) db = (db', Inr (201, Some (OneRun x)))"
      using app new(1) x
      by (simp add: h_rerun_run_def writes_def with_records_def respond_def created_status_def del: and_then_Ok)
    moreover have "run_rerun_of ?new = Some i" "run_status ?new = PendingDispatch" by (simp_all add: normal_run_def)
    ultimately show ?thesis using True fields(4-9) res(4-6) new by (simp add: api_run_status_def)
  qed
qed

section \<open>The Attempts of a Run\<close>

abbreviation attempt_rows :: "Db \<Rightarrow> uuid \<Rightarrow> RunAttemptRow list" where
  "attempt_rows db i \<equiv> rev (sort_key att_attempt (filter (\<lambda>a. att_run_id a = i) (db_attempts db)))"

lemma attempt_rows_bounded:
  assumes inv: "run_inv db" and r: "r \<in> set (db_runs db)"
  shows "length (attempt_rows db (run_id r)) \<le> 100"
proof -
  have "distinct (filter (\<lambda>a. att_run_id a = run_id r) (db_attempts db))"
    using inv by (auto simp: run_inv_except_def keys_ok_def distinct_map)
  then have "int (length (attempt_rows db (run_id r))) = int (card {a \<in> set (db_attempts db). att_run_id a = run_id r})"
    by (simp add: distinct_card [symmetric])
  also have "\<dots> \<le> run_max_attempts r" by (rule attempts_bounded [OF inv r])
  also have "\<dots> \<le> 100" using inv r by (simp add: run_inv_except_def bounds_ok_def)
  finally show ?thesis by simp
qed

lemma attempt_status_presentable: "attempt_state s \<Longrightarrow> \<exists>x. attempt_status (run_status_name s) = Inr x"
  by (cases s) (simp_all add: attempt_status_def run_status_name_def attempt_state_def)

lemma opt_timestamp_total: "\<forall>t. f t \<noteq> None \<Longrightarrow> \<exists>v. opt_timestamp f x = Inr v"
  by (cases x) (auto simp: timestamp_text_def)

lemma attempt_presentable:
  assumes "attempt_state (att_status a)" "\<forall>t. f t \<noteq> None"
  shows "\<exists>x. run_attempt_resource f a = Inr x \<and> rar_id x = att_id a"
  using attempt_status_presentable [OF assms(1)] opt_timestamp_total [OF assms(2), of "att_started_at a"]
    opt_timestamp_total [OF assms(2), of "att_completed_at a"]
  by (auto simp: run_attempt_resource_def)

lemma traverse_ids:
  assumes "\<And>a. a \<in> set xs \<Longrightarrow> \<exists>x. f a = Inr x \<and> k x = h a"
  shows "\<exists>ys. traverse f xs = Inr ys \<and> map k ys = map h xs"
  using assms by (induction xs) fastforce+

text \<open>
  C6. A Run shows its whole execution: in every state the system reaches, a Run that a client can read
  has its Attempts listed, latest first, with none left out by the page limit and none in a state
  the API has no name for.
\<close>

theorem attempts_listed:
  assumes reach: "(sys_step Y)\<^sup>*\<^sup>* (sys_init db) s" and init: "run_inv db" "wf_inv db" "attempt_states db"
    and shown: "handle E now utc g (GetRun i) (sys_db s) = (db0, Inr (status, Some (OneRun res)))"
    and format: "\<forall>t. ae_rfc3339 E t \<noteq> None"
  shows "\<exists>as. handle E now utc g (ListRunAttempts i) (sys_db s) = (sys_db s, Inr (200, Some (RunAttempts as))) \<and>
    map rar_id as = map att_id (attempt_rows (sys_db s) i)"
proof -
  let ?d = "sys_db s"
  have "sys_inv s \<and> attempt_states ?d"
    using reachable_attempt_states [OF reach sys_init_inv [OF init(1,2)]] init(3) by (simp add: sys_init_def)
  then have inv: "run_inv ?d" and states: "attempt_states ?d" by (simp_all add: sys_inv_def)
  then have keys: "distinct (map run_id (db_runs ?d))" by (simp add: run_inv_except_def keys_ok_def)
  from shown obtain rc where rc: "app_get_run g i ?d = Inr rc" by (rule shown_run)
  note row = get_run_row [OF rc keys]
  have r: "rrec_run rc \<in> set (db_runs ?d)" using find_Some_in [OF row(1)] by simp
  have whole: "take 100 (attempt_rows ?d i) = attempt_rows ?d i"
    using attempt_rows_bounded [OF inv r] row(3) by simp
  have range: "0 \<le> att_attempt a \<and> att_attempt a \<le> u16_max" if "a \<in> set (db_attempts ?d)" for a
    using inv that by (fastforce simp: run_inv_except_def fits_def bounds_ok_def u16_max_def)
  have rows: "app_list_run_attempts g i ?d = Inr (attempt_rows ?d i)"
  proof -
    have "traverse (\<lambda>a. if 0 \<le> att_attempt a \<and> att_attempt a \<le> u16_max then Inr a else Inl StoreInternal) (attempt_rows ?d i)
        = Inr (map (\<lambda>a. a) (attempt_rows ?d i))"
      by (rule traverse_total) (use range in auto)
    then show ?thesis using rc by (auto simp: app_get_run_def app_list_run_attempts_def list_run_attempts_def whole)
  qed
  have "\<exists>as. traverse (run_attempt_resource (ae_rfc3339 E)) (attempt_rows ?d i) = Inr as \<and> map rar_id as = map att_id (attempt_rows ?d i)"
    by (rule traverse_ids, rule attempt_presentable [OF _ format]) (use states in \<open>auto simp: attempt_states_def\<close>)
  then show ?thesis using rows by (auto simp: h_list_run_attempts_def reads_def respond_def)
qed

section \<open>Instances\<close>

definition observed_db :: Db where
  "observed_db = (sample_state Succeeded None (Some 0))\<lparr> db_namespaces := [\<lparr> ns_id = 1, ns_name = NamespaceName ''default'', ns_created_at = 0 \<rparr>] \<rparr>"

definition observed_grants :: GrantSet where
  "observed_grants = [(GrantAllNamespaces, [JobExecute, TargetUse, RunRead, RunCreate])]"

lemma observed_invs: "run_inv observed_db" "wf_inv observed_db" "attempt_states observed_db"
  by (simp_all add: inv_defs observed_db_def sample_defs wf_inv_def wf_core_def wf_keys_def edges_ok_def deps_ok_def final_ok_def
      quiet_def attempt_states_def)

definition observed_record :: RunRecord where
  "observed_record = \<lparr> rrec_run = sample_run Succeeded, rrec_has_snapshot = True, rrec_job_namespace = NamespaceName ''default'',
     rrec_job_name = ResourceName ''nightly'', rrec_target_namespace = NamespaceName ''default'', rrec_target_name = ResourceName ''host'',
     rrec_target_set_name = None, rrec_queue_name = QueueName ''default'' \<rparr>"

lemma observed_get: "app_get_run observed_grants 10 observed_db = Inr observed_record"
  by code_simp

lemma observed_shown:
  obtains res where "handle sample_api_env 5 5 observed_grants (GetRun 10) observed_db = (observed_db, Inr (200, Some (OneRun res)))"
    "runr_rerunnable res" "runr_job_id res = 3" "runr_target_id res = 4"
proof -
  have "\<exists>x. run_resource (ae_rfc3339 sample_api_env) observed_record = Inr x"
    by (rule run_resource_pending) (simp_all add: sample_api_env_def observed_record_def sample_run_def)
  then obtain res where res: "run_resource (ae_rfc3339 sample_api_env) observed_record = Inr res" by blast
  show thesis
  proof (rule that)
    show "handle sample_api_env 5 5 observed_grants (GetRun 10) observed_db = (observed_db, Inr (200, Some (OneRun res)))"
      using res observed_get by (simp add: h_get_run_def reads_def respond_def)
  qed (simp_all add: run_resource_fields(1-3) [OF res] observed_record_def sample_run_def run_is_repeatable_def run_is_terminal_def)
qed

text \<open>A finished Run is repeated, and its only Attempt is listed.\<close>

theorem rerunnable_exact_witness:
  "\<exists>db' new. handle sample_api_env 5 5 observed_grants (RerunRun 10 \<lparr> rrr_request_id = 20 \<rparr>) observed_db = (db', Inr (201, Some (OneRun new))) \<and>
     runr_rerun_of_run_id new = Some 10 \<and> runr_status new = ApiPendingDispatch"
proof -
  obtain res where res: "handle sample_api_env 5 5 observed_grants (GetRun 10) observed_db = (observed_db, Inr (200, Some (OneRun res)))"
    "runr_rerunnable res" "runr_job_id res = 3" "runr_target_id res = 4" by (rule observed_shown)
  let ?j = "\<lparr> jrec_namespace = NamespaceName ''default'', jrec_queue_name = QueueName ''default'', jrec_job = sample_job \<rparr>"
  have rows: "find (\<lambda>r. run_id r = 10) (db_runs observed_db) = Some (sample_run Succeeded)"
      "find_queue observed_db (run_queue_id (sample_run Succeeded)) = Some sample_queue" "queue_enabled sample_queue"
      "find_run_request observed_db 20 = None" "\<forall>x \<in> set (db_runs observed_db). run_request_id x \<noteq> Some 20"
    by (simp_all add: observed_db_def sample_defs find_queue_def find_run_request_def)
  have job: "get_job observed_db (runr_job_id res) = Inr ?j" unfolding res(3) by code_simp
  have granted: "authorize (namespace_for observed_db) observed_grants JobExecute (JobScope (runr_job_id res)) = Inr ()"
      "authorize (namespace_for observed_db) observed_grants TargetUse (TargetScope (runr_target_id res)) = Inr ()"
      "authorize (namespace_for observed_db) observed_grants RunCreate (NamespaceScope (job_namespace_id (jrec_job ?j))) = Inr ()"
    unfolding res(3,4) by code_simp+
  have format: "ae_rfc3339 sample_api_env 5 \<noteq> None" by (simp add: sample_api_env_def)
  show ?thesis
    using rerunnable_exact [OF observed_invs(1) res(1) rows(1-3) job granted, of "\<lparr> rrr_request_id = 20 \<rparr>" 5 5] rows(4,5) format res(2)
    by auto
qed

theorem attempts_listed_witness:
  "\<exists>as. handle sample_api_env 5 5 observed_grants (ListRunAttempts 10) observed_db = (observed_db, Inr (200, Some (RunAttempts as))) \<and>
     map rar_id as = [11]"
proof -
  obtain res where res: "handle sample_api_env 5 5 observed_grants (GetRun 10) observed_db = (observed_db, Inr (200, Some (OneRun res)))"
    by (rule observed_shown)
  have format: "\<forall>t. ae_rfc3339 sample_api_env t \<noteq> None" by (simp add: sample_api_env_def)
  have db: "sys_db (sys_init observed_db) = observed_db" by (simp add: sys_init_def)
  from attempts_listed [OF rtranclp.rtrancl_refl [where r = "sys_step sample_sys_env"] observed_invs, unfolded db, OF res format]
  show ?thesis by (simp add: observed_db_def sample_defs)
qed

end
