(* ===== verification/Nats.thy ===== *)
theory Nats
  imports Dispatcher Authentication Redaction
begin

text \<open>
  The NATS transport: the client configuration that server and worker share (\<open>crates/nats\<close>), with the
  selection of one authentication mode, the TLS decision and the credential files, and the connection
  manager of the server (\<open>infrastructure/nats.rs\<close>).  The \<open>async-nats\<close> and \<open>nkeys\<close> crates and the file
  system are outside the repository: options are the values handed to the client, and reading a file,
  key parsing, signing, connecting and the stream are parameters.
\<close>

named_theorems nats_simps \<open>evaluation of the NATS configuration\<close>

section \<open>Configuration\<close>

definition TLS_CA_FILE_ENV :: bytes where [nats_simps]: "TLS_CA_FILE_ENV = ''CRONO_NATS_TLS_CA_FILE''"
definition NKEY_SEED_FILE_ENV :: bytes where [nats_simps]: "NKEY_SEED_FILE_ENV = ''CRONO_NATS_NKEY_SEED_FILE''"
definition CREDS_FILE_ENV :: bytes where [nats_simps]: "CREDS_FILE_ENV = ''CRONO_NATS_CREDS_FILE''"
definition USER_ENV :: bytes where [nats_simps]: "USER_ENV = ''CRONO_NATS_USER''"
definition PASSWORD_ENV :: bytes where [nats_simps]: "PASSWORD_ENV = ''CRONO_NATS_PASSWORD''"
definition REDACTED :: bytes where [nats_simps]: "REDACTED = ''<redacted>''"

datatype NatsAuth =
    Anonymous
  | NKeySeedFile bytes
  | CredentialsFile bytes
  | UserPassword (auth_user: bytes) (auth_password: bytes)

fun auth_source :: "NatsAuth \<Rightarrow> bytes" where
  "auth_source Anonymous = ''none''"
| "auth_source (NKeySeedFile _) = NKEY_SEED_FILE_ENV"
| "auth_source (CredentialsFile _) = CREDS_FILE_ENV"
| "auth_source (UserPassword _ _) = ''CRONO_NATS_USER/CRONO_NATS_PASSWORD''"

record NatsClientConfig =
  nats_url :: bytes
  nats_tls_ca_file :: "bytes option"
  nats_auth :: NatsAuth

definition NatsClientConfig_anonymous :: "bytes \<Rightarrow> NatsClientConfig" where
  "NatsClientConfig_anonymous url = \<lparr> nats_url = url, nats_tls_ca_file = None, nats_auth = Anonymous \<rparr>"

text \<open>\<open>slice::join\<close>.\<close>

fun join_with :: "bytes \<Rightarrow> bytes list \<Rightarrow> bytes" where
  "join_with sep [] = []"
| "join_with sep [x] = x"
| "join_with sep (x # xs) = x @ sep @ join_with sep xs"

text \<open>An unset and an empty variable are the same.\<close>

definition present :: "environment \<Rightarrow> bytes \<Rightarrow> bytes option" where
  "present env name = (case env name of None \<Rightarrow> None | Some v \<Rightarrow> if v = [] then None else Some v)"

text \<open>An \<open>anyhow\<close> error is the chain of its messages, the outermost context first.\<close>

type_synonym error_chain = "bytes list"

definition from_lookup :: "bytes \<Rightarrow> environment \<Rightarrow> (error_chain, NatsClientConfig) result" where
  "from_lookup url env =
     (let files =
            (case present env NKEY_SEED_FILE_ENV of None \<Rightarrow> [] | Some path \<Rightarrow> [NKeySeedFile path]) @
            (case present env CREDS_FILE_ENV of None \<Rightarrow> [] | Some path \<Rightarrow> [CredentialsFile path]) in
      and_then
        (case (present env USER_ENV, present env PASSWORD_ENV) of
           (Some user, Some password) \<Rightarrow> Ok (files @ [UserPassword user password])
         | (Some _, None) \<Rightarrow> Err [USER_ENV @ '' is set but '' @ PASSWORD_ENV @ '' is not; set both'']
         | (None, Some _) \<Rightarrow> Err [PASSWORD_ENV @ '' is set but '' @ USER_ENV @ '' is not; set both'']
         | (None, None) \<Rightarrow> Ok files) (\<lambda>modes.
      if length modes > 1
      then Err [''configure at most one NATS authentication mode; found '' @ join_with '', '' (map auth_source modes)]
      else Ok \<lparr> nats_url = url, nats_tls_ca_file = present env TLS_CA_FILE_ENV,
                nats_auth = (if modes = [] then Anonymous else last modes) \<rparr>))"

section \<open>Servers and TLS\<close>

definition server_urls :: "bytes \<Rightarrow> bytes list" where
  "server_urls url = filter (\<lambda>entry. entry \<noteq> []) (map trim (split_on (CHR '','') url))"

definition requires_tls :: "bytes list \<Rightarrow> bool" where
  "requires_tls urls =
     list_ex (\<lambda>url. case find_sub ''://'' url of
         None \<Rightarrow> False
       | Some i \<Rightarrow> eq_ignore_ascii_case (take i url) ''tls'' \<or> eq_ignore_ascii_case (take i url) ''wss'') urls"

section \<open>Credential files\<close>

definition is_marker :: "bytes \<Rightarrow> bool" where
  "is_marker line \<longleftrightarrow> prefix ''---'' line \<and> suffix ''---'' line"

definition begins_block :: "bytes \<Rightarrow> bool" where
  "begins_block line \<longleftrightarrow> is_marker line \<and> contains line ''BEGIN''"

text \<open>The lines that the shared iterator has not yet consumed are passed on.\<close>

definition next_block :: "bytes \<Rightarrow> bytes list \<Rightarrow> (error_chain, bytes \<times> bytes list) result" where
  "next_block label ls =
     (case dropWhile (\<lambda>l. \<not> begins_block l) ls of
        [] \<Rightarrow> Err [''missing the '' @ label @ '' block'']
      | _ # rest \<Rightarrow>
          (case dropWhile (\<lambda>l. l = []) rest of
             [] \<Rightarrow> Err [''the '' @ label @ '' block is empty'']
           | line # rest' \<Rightarrow>
               if is_marker line then Err [''the '' @ label @ '' block is empty''] else Ok (line, rest')))"

definition parse_credentials :: "bytes \<Rightarrow> (error_chain, bytes \<times> bytes) result" where
  "parse_credentials contents =
     and_then (next_block ''user JWT'' (map trim (lines contents))) (\<lambda>(jwt, rest).
     and_then (next_block ''NKey seed'' rest) (\<lambda>(seed, _). Ok (jwt, seed)))"

section \<open>Authentication callbacks\<close>

record NatsAuthReply =
  reply_signature :: "bytes option"
  reply_nkey :: "bytes option"
  reply_jwt :: "bytes option"

definition NatsAuthReply_new :: NatsAuthReply where
  "NatsAuthReply_new = \<lparr> reply_signature = None, reply_nkey = None, reply_jwt = None \<rparr>"

text \<open>The key pairs of the \<open>nkeys\<close> crate, and \<open>read_to_string\<close> with the text of its error.\<close>

record 'k nats_env =
  ne_read :: "bytes \<Rightarrow> (bytes, bytes) result"
  ne_from_seed :: "bytes \<Rightarrow> 'k option"
  ne_sign :: "'k \<Rightarrow> bytes \<Rightarrow> bytes option"
  ne_public_key :: "'k \<Rightarrow> bytes"

definition read_secret_file :: "'k nats_env \<Rightarrow> bytes \<Rightarrow> bytes \<Rightarrow> (error_chain, bytes) result" where
  "read_secret_file N path label =
     map_err (\<lambda>e. [''failed to read the NATS '' @ label @ '' file '' @ path, e]) (ne_read N path)"

definition key_pair_from_seed :: "'k nats_env \<Rightarrow> bytes \<Rightarrow> bytes \<Rightarrow> (error_chain, 'k) result" where
  "key_pair_from_seed N seed path = ok_or [path @ '' does not contain a valid NATS NKey seed''] (ne_from_seed N seed)"

definition sign_nonce :: "'k nats_env \<Rightarrow> 'k \<Rightarrow> bytes \<Rightarrow> (error_chain, bytes) result" where
  "sign_nonce N k nonce = ok_or [''failed to sign the NATS server nonce''] (ne_sign N k nonce)"

definition nkey_auth :: "'k nats_env \<Rightarrow> bytes \<Rightarrow> bytes \<Rightarrow> (error_chain, NatsAuthReply) result" where
  "nkey_auth N path nonce =
     and_then (read_secret_file N path ''NKey seed'') (\<lambda>seed.
     and_then (key_pair_from_seed N (trim seed) path) (\<lambda>k.
     and_then (sign_nonce N k nonce) (\<lambda>signature.
     Ok (NatsAuthReply_new\<lparr> reply_signature := Some signature, reply_nkey := Some (ne_public_key N k) \<rparr>))))"

definition credentials_auth :: "'k nats_env \<Rightarrow> bytes \<Rightarrow> bytes \<Rightarrow> (error_chain, NatsAuthReply) result" where
  "credentials_auth N path nonce =
     and_then (read_secret_file N path ''credentials'') (\<lambda>contents.
     and_then (map_err (\<lambda>e. (''invalid NATS credentials file '' @ path) # e) (parse_credentials contents)) (\<lambda>(jwt, seed).
     and_then (key_pair_from_seed N seed path) (\<lambda>k.
     and_then (sign_nonce N k nonce) (\<lambda>signature.
     Ok (NatsAuthReply_new\<lparr> reply_signature := Some signature, reply_jwt := Some jwt \<rparr>)))))"

text \<open>\<open>format!("{error:#}")\<close>: the chain on one line.\<close>

definition callback_error :: "error_chain \<Rightarrow> bytes" where
  "callback_error e = join_with '': '' e"

section \<open>Connection options\<close>

datatype OptionsAuth =
    NoAuth
  | StaticAuth bytes bytes
  | CallbackAuth "bytes \<Rightarrow> (bytes, NatsAuthReply) result"

record ConnectOptions =
  opt_auth :: OptionsAuth
  opt_max_reconnects :: "nat option"
  opt_require_tls :: bool
  opt_root_certificates :: "bytes list"
  opt_servers :: "bytes list"

text \<open>The options and server list with which \<open>connect\<close> calls the client.\<close>

definition connect_options :: "'k nats_env \<Rightarrow> NatsClientConfig \<Rightarrow> ConnectOptions" where
  "connect_options N config =
     (let urls = server_urls (nats_url config) in
      \<lparr> opt_auth = (case nats_auth config of
            Anonymous \<Rightarrow> NoAuth
          | UserPassword user password \<Rightarrow> StaticAuth user password
          | NKeySeedFile path \<Rightarrow> CallbackAuth (\<lambda>nonce. map_err callback_error (nkey_auth N path nonce))
          | CredentialsFile path \<Rightarrow> CallbackAuth (\<lambda>nonce. map_err callback_error (credentials_auth N path nonce))),
        opt_max_reconnects = None,
        opt_require_tls = (nats_tls_ca_file config \<noteq> None \<or> requires_tls urls),
        opt_root_certificates = (case nats_tls_ca_file config of None \<Rightarrow> [] | Some ca \<Rightarrow> [ca]),
        opt_servers = urls \<rparr>)"

section \<open>Debug output\<close>

text \<open>\<open>quote\<close> is the \<open>Debug\<close> form of a text or path, with quotes and escapes.\<close>

fun auth_debug :: "(bytes \<Rightarrow> bytes) \<Rightarrow> NatsAuth \<Rightarrow> bytes" where
  "auth_debug quote Anonymous = ''Anonymous''"
| "auth_debug quote (NKeySeedFile path) = ''NKeySeedFile('' @ quote path @ '')''"
| "auth_debug quote (CredentialsFile path) = ''CredentialsFile('' @ quote path @ '')''"
| "auth_debug quote (UserPassword user password) =
     ''UserPassword { user: '' @ quote user @ '', password: '' @ quote REDACTED @ '' }''"

definition config_debug :: "(bytes \<Rightarrow> bytes) \<Rightarrow> NatsClientConfig \<Rightarrow> bytes" where
  "config_debug quote config =
     ''NatsClientConfig { tls_ca_file: '' @
     (case nats_tls_ca_file config of None \<Rightarrow> ''None'' | Some ca \<Rightarrow> ''Some('' @ quote ca @ '')'') @
     '', auth: '' @ auth_debug quote (nats_auth config) @ '', .. }''"

section \<open>The connection of the server\<close>

definition nats_replicas :: "environment \<Rightarrow> int" where
  "nats_replicas env =
     (case Option.bind (env ''CRONO_NATS_REPLICAS'') (parse_unsigned u64_max) of
        Some n \<Rightarrow> if n = 1 \<or> n = 3 \<or> n = 5 then n else 1
      | None \<Rightarrow> 1)"

text \<open>The settings of the execution stream that differ from the defaults of the client; sizes in bytes, times in seconds.\<close>

record StreamConfig =
  stream_name :: bytes
  stream_description :: "bytes option"
  stream_subjects :: "bytes list"
  stream_work_queue :: bool
  stream_file_storage :: bool
  stream_discard_new :: bool
  stream_max_bytes :: int
  stream_max_message_size :: int
  stream_duplicate_window :: int
  stream_num_replicas :: int

definition STREAM_NAME :: bytes where "STREAM_NAME = ''CRONO_DISPATCH''"
definition DISPATCH_SUBJECTS :: bytes where "DISPATCH_SUBJECTS = ''crono.dispatch.*''"

definition stream_config :: "environment \<Rightarrow> StreamConfig" where
  "stream_config env =
     \<lparr> stream_name = STREAM_NAME, stream_description = Some ''Crono durable execution dispatches'',
       stream_subjects = [DISPATCH_SUBJECTS], stream_work_queue = True,
       stream_file_storage = True, stream_discard_new = True, stream_max_bytes = 8 * 1024 * 1024 * 1024,
       stream_max_message_size = 64 * 1024, stream_duplicate_window = 120, stream_num_replicas = nats_replicas env \<rparr>"

text \<open>
  The publisher shares one slot for the connected context \<open>'c\<close> behind a lock, which a panicking
  holder poisons, and exports whether it is filled as a gauge.
\<close>

record 'c NatsPublisher =
  pub_context :: "'c option"
  pub_poisoned :: bool
  pub_gauge :: int

definition NatsPublisher_new :: "'c NatsPublisher" where
  "NatsPublisher_new = \<lparr> pub_context = None, pub_poisoned = False, pub_gauge = 0 \<rparr>"

definition current :: "'c NatsPublisher \<Rightarrow> (error_chain, 'c) result" where
  "current p =
     (if pub_poisoned p then Err [''NATS connection state lock is poisoned'']
      else ok_or [''NATS is not connected''] (pub_context p))"

definition replace_context :: "'c \<Rightarrow> 'c NatsPublisher \<Rightarrow> 'c NatsPublisher" where
  "replace_context c p = (if pub_poisoned p then p else p\<lparr> pub_context := Some c, pub_gauge := 1 \<rparr>)"

definition clear_context :: "'c NatsPublisher \<Rightarrow> 'c NatsPublisher" where
  "clear_context p =
     (let p' = p\<lparr> pub_gauge := 0 \<rparr> in if pub_poisoned p then p' else p'\<lparr> pub_context := None \<rparr>)"

text \<open>
  What the client answers: \<open>bk_connect\<close> the initial connection, \<open>bk_ensure\<close> the creation of the
  stream, \<open>bk_stream\<close> whether it can be read, \<open>bk_publish\<close> the message sent and then the acknowledged sequence.
\<close>

record 'c broker =
  bk_connect :: "ConnectOptions \<Rightarrow> (bytes, 'c) result"
  bk_ensure :: "'c \<Rightarrow> StreamConfig \<Rightarrow> (bytes, unit) result"
  bk_stream :: "'c \<Rightarrow> bytes \<Rightarrow> bool"
  bk_publish :: "'c \<Rightarrow> uuid \<Rightarrow> bytes \<Rightarrow> DispatchEnvelope \<Rightarrow> (bytes, (bytes, int) result) result"

definition nats_connect :: "'k nats_env \<Rightarrow> 'c broker \<Rightarrow> NatsClientConfig \<Rightarrow> (error_chain, 'c) result" where
  "nats_connect N B config =
     map_err (\<lambda>e. [''failed to connect to NATS: '' @ e]) (bk_connect B (connect_options N config))"

definition connect_once ::
  "'k nats_env \<Rightarrow> 'c broker \<Rightarrow> environment \<Rightarrow> NatsClientConfig \<Rightarrow> (error_chain, 'c) result" where
  "connect_once N B env config =
     and_then (nats_connect N B config) (\<lambda>c.
     and_then (map_err (\<lambda>e. [''failed to ensure the Crono execution stream'', e]) (bk_ensure B c (stream_config env))) (\<lambda>_.
     Ok c))"

definition publisher_ready :: "'c broker \<Rightarrow> 'c NatsPublisher \<Rightarrow> bool" where
  "publisher_ready B p = (case current p of Inl _ \<Rightarrow> False | Inr c \<Rightarrow> bk_stream B c STREAM_NAME)"

text \<open>One round of the manager after its sleep; the broker may answer differently in every round.\<close>

definition manager_tick ::
  "'k nats_env \<Rightarrow> environment \<Rightarrow> NatsClientConfig \<Rightarrow> 'c broker \<Rightarrow> 'c NatsPublisher \<Rightarrow> 'c NatsPublisher" where
  "manager_tick N env config B p =
     (if publisher_ready B p then p
      else case connect_once N B env config of
        Inr c \<Rightarrow> replace_context c (clear_context p)
      | Inl _ \<Rightarrow> clear_context p)"

text \<open>The rounds until shutdown, which clears the slot.\<close>

definition run_connection_manager ::
  "'k nats_env \<Rightarrow> environment \<Rightarrow> NatsClientConfig \<Rightarrow> 'c broker list \<Rightarrow> 'c NatsPublisher \<Rightarrow> 'c NatsPublisher" where
  "run_connection_manager N env config rounds p = clear_context (fold (manager_tick N env config) rounds p)"

definition nats_publish ::
  "(uuid \<Rightarrow> bytes) \<Rightarrow> 'c broker \<Rightarrow> 'c NatsPublisher \<Rightarrow> OutboxRecord \<Rightarrow> (error_chain, int) result" where
  "nats_publish uuid_str B p record =
     and_then (current p) (\<lambda>c.
     and_then (map_err (\<lambda>e. [''failed to publish an execution dispatch'', e])
       (bk_publish B c (rec_subject record) (uuid_str (rec_attempt_id record)) (rec_payload record))) (\<lambda>acknowledgement.
     map_err (\<lambda>e. [''JetStream did not acknowledge an execution dispatch'', e]) acknowledgement))"

text \<open>The transport as the dispatcher sees it: \<open>to_string\<close> of an error is its outermost message.\<close>

definition transport ::
  "(uuid \<Rightarrow> bytes) \<Rightarrow> 'c broker \<Rightarrow> 'c NatsPublisher \<Rightarrow> OutboxRecord \<Rightarrow> (bytes, int) result" where
  "transport uuid_str B p record = map_err hd (nats_publish uuid_str B p record)"

text \<open>
  The dispatch loop until shutdown: every tick brings the clocks of database and process, the rows other
  instances have locked, and the transport as it is then.
\<close>

record dispatch_round =
  round_now :: timestamp
  round_utc :: timestamp
  round_locked :: "uuid \<Rightarrow> bool"
  round_publish :: "OutboxRecord \<Rightarrow> (bytes, int) result"

fun run_dispatcher :: "uuid \<Rightarrow> DispatcherConfig \<Rightarrow> dispatch_round list \<Rightarrow> Db \<Rightarrow> Db option" where
  "run_dispatcher owner config [] db = Some db"
| "run_dispatcher owner config (r # rounds) db =
     Option.bind (dispatch_batch (round_now r) (round_utc r) (round_locked r) (round_publish r) owner config db)
       (run_dispatcher owner config rounds)"

section \<open>Credential files have two blocks\<close>

text \<open>A block: lines that begin none, a marker, blank lines, and its value.\<close>

definition block :: "bytes list \<Rightarrow> bytes \<Rightarrow> bool" where
  "block ls v \<longleftrightarrow>
     (\<exists>skipped m blank. ls = skipped @ m # blank @ [v] \<and> list_all (\<lambda>l. \<not> begins_block l) skipped \<and> begins_block m \<and>
        list_all (\<lambda>l. l = []) blank \<and> v \<noteq> [] \<and> \<not> is_marker v)"

lemma dropWhile_eq_Cons:
  "dropWhile P xs = y # ys \<longleftrightarrow> (\<exists>zs. xs = zs @ y # ys \<and> list_all P zs \<and> \<not> P y)"
proof
  assume d: "dropWhile P xs = y # ys"
  then have "xs = takeWhile P xs @ y # ys" "\<not> P y"
    by (metis takeWhile_dropWhile_id, metis d hd_dropWhile list.distinct(1) list.sel(1))
  then show "\<exists>zs. xs = zs @ y # ys \<and> list_all P zs \<and> \<not> P y" by (metis list_all_iff set_takeWhileD)
next
  assume "\<exists>zs. xs = zs @ y # ys \<and> list_all P zs \<and> \<not> P y"
  then show "dropWhile P xs = y # ys" by (auto simp: list_all_iff dropWhile_append2)
qed

lemma next_block_Ok: "next_block label ls = Inr (v, rest) \<longleftrightarrow> (\<exists>b. ls = b @ rest \<and> block b v)"
proof
  assume "next_block label ls = Inr (v, rest)"
  then obtain m r where "dropWhile (\<lambda>l. \<not> begins_block l) ls = m # r" "dropWhile (\<lambda>l. l = []) r = v # rest" "\<not> is_marker v"
    by (auto simp: next_block_def split: list.splits if_splits)
  then obtain skipped blank where "ls = skipped @ m # r" "list_all (\<lambda>l. \<not> begins_block l) skipped" "begins_block m"
      "r = blank @ v # rest" "list_all (\<lambda>l. l = []) blank" "v \<noteq> []" "\<not> is_marker v"
    by (auto simp: dropWhile_eq_Cons)
  then have "ls = (skipped @ m # blank @ [v]) @ rest" "block (skipped @ m # blank @ [v]) v"
    unfolding block_def by simp_all blast
  then show "\<exists>b. ls = b @ rest \<and> block b v" by blast
next
  assume "\<exists>b. ls = b @ rest \<and> block b v"
  then obtain skipped m blank where p: "ls = skipped @ m # blank @ v # rest" "list_all (\<lambda>l. \<not> begins_block l) skipped"
      "begins_block m" "list_all (\<lambda>l. l = []) blank" "v \<noteq> []" "\<not> is_marker v"
    by (auto simp: block_def)
  then have "dropWhile (\<lambda>l. \<not> begins_block l) ls = m # blank @ v # rest"
    by (auto simp: dropWhile_eq_Cons)
  moreover have "dropWhile (\<lambda>l. l = []) (blank @ v # rest) = v # rest"
    using p by (auto simp: dropWhile_eq_Cons)
  ultimately show "next_block label ls = Inr (v, rest)" using p by (simp add: next_block_def)
qed

text \<open>
  Credential files are read exactly: a file yields a token and a seed exactly when its trimmed lines
  start with two blocks, each a dashed BEGIN marker, blank lines and a value that is no marker; text before
  a marker and after the second value is ignored.
\<close>

theorem credentials_file_exact:
  "parse_credentials contents = Inr (jwt, seed) \<longleftrightarrow>
     (\<exists>b1 b2 rest. map trim (lines contents) = b1 @ b2 @ rest \<and> block b1 jwt \<and> block b2 seed)"
  by (auto simp: parse_credentials_def next_block_Ok)

section \<open>One mode, no secrets in messages\<close>

definition configured :: "environment \<Rightarrow> bytes \<Rightarrow> bool" where
  "configured env name \<longleftrightarrow> present env name \<noteq> None"

text \<open>
  The identity of a NATS client is never guessed: a configuration is accepted exactly when user and
  password come as a pair and at most one of seed file, credentials file and password is set, and it
  then uses that one mode, anonymous when none is set; an empty variable counts as unset.
\<close>

theorem nats_identity_exact:
  "from_lookup url env = Inr config \<longleftrightarrow>
     (configured env USER_ENV \<longleftrightarrow> configured env PASSWORD_ENV) \<and>
     config = \<lparr> nats_url = url, nats_tls_ca_file = present env TLS_CA_FILE_ENV, nats_auth = nats_auth config \<rparr> \<and>
     (case nats_auth config of
        Anonymous \<Rightarrow> \<not> configured env NKEY_SEED_FILE_ENV \<and> \<not> configured env CREDS_FILE_ENV \<and> \<not> configured env USER_ENV
      | NKeySeedFile path \<Rightarrow> present env NKEY_SEED_FILE_ENV = Some path \<and> \<not> configured env CREDS_FILE_ENV \<and> \<not> configured env USER_ENV
      | CredentialsFile path \<Rightarrow> present env CREDS_FILE_ENV = Some path \<and> \<not> configured env NKEY_SEED_FILE_ENV \<and> \<not> configured env USER_ENV
      | UserPassword user password \<Rightarrow> present env USER_ENV = Some user \<and> present env PASSWORD_ENV = Some password \<and>
          \<not> configured env NKEY_SEED_FILE_ENV \<and> \<not> configured env CREDS_FILE_ENV)"
  by (cases "present env NKEY_SEED_FILE_ENV"; cases "present env CREDS_FILE_ENV"; cases "present env USER_ENV";
      cases "present env PASSWORD_ENV"; cases config)
    (auto simp del: and_then_Ok simp: from_lookup_def configured_def split: NatsAuth.splits)

lemma from_lookup_Err_configured:
  assumes "configured env = configured env'" "from_lookup url env = Inl e"
  shows "from_lookup url' env' = Inl e"
proof -
  have same: "present env n = None \<longleftrightarrow> present env' n = None" for n
    using fun_cong [OF assms(1), of n] unfolding configured_def by blast
  show ?thesis
    using assms(2) same [of NKEY_SEED_FILE_ENV] same [of CREDS_FILE_ENV] same [of USER_ENV] same [of PASSWORD_ENV]
    by (cases "present env NKEY_SEED_FILE_ENV"; cases "present env CREDS_FILE_ENV"; cases "present env USER_ENV";
        cases "present env PASSWORD_ENV")
      (auto simp: from_lookup_def)
qed

text \<open>
  Secrets stay out of messages: the error of a refused configuration depends only on which
  variables are set, not on their values or the URL, and the debug output of a configuration is the same
  for every URL and every password.
\<close>

theorem nats_secrets_unmentioned:
  assumes "configured env = configured env'" "from_lookup url env = Inl e"
  shows "from_lookup url' env' = Inl e \<and>
    config_debug quote (config\<lparr> nats_url := url, nats_auth := UserPassword user password \<rparr>) =
    config_debug quote (config\<lparr> nats_url := url', nats_auth := UserPassword user password' \<rparr>)"
  using from_lookup_Err_configured [OF assms] by (simp add: config_debug_def)

section \<open>An outage keeps every execution\<close>

text \<open>Two outbox rows that carry the same dispatch: they differ at most in the claim and in the bookkeeping of failures.\<close>

definition same_dispatch :: "OutboxRow \<Rightarrow> OutboxRow \<Rightarrow> bool" where
  "same_dispatch x y \<longleftrightarrow>
     y = x\<lparr> ob_attempt_count := ob_attempt_count y, ob_last_error := ob_last_error y, ob_next_attempt_at := ob_next_attempt_at y,
            ob_claimed_by := ob_claimed_by y, ob_claim_expires_at := ob_claim_expires_at y \<rparr>"

definition outbox_kept :: "Db \<Rightarrow> Db \<Rightarrow> bool" where
  "outbox_kept db db' \<longleftrightarrow> db' = db\<lparr> db_outbox := db_outbox db' \<rparr> \<and> list_all2 same_dispatch (db_outbox db) (db_outbox db')"

lemma same_dispatch_refl [simp]: "same_dispatch x x"
  by (simp add: same_dispatch_def)

lemma same_dispatch_trans: "same_dispatch x y \<Longrightarrow> same_dispatch y z \<Longrightarrow> same_dispatch x z"
  by (cases x; cases y; cases z) (simp add: same_dispatch_def)

lemma outbox_kept_refl [simp]: "outbox_kept db db"
  by (simp add: outbox_kept_def list.rel_refl)

lemma outbox_kept_trans: "outbox_kept a b \<Longrightarrow> outbox_kept b c \<Longrightarrow> outbox_kept a c"
  by (cases a; cases b; cases c) (auto simp: outbox_kept_def intro: list_all2_trans [OF same_dispatch_trans])

lemma outbox_kept_update: "(\<And>x. p x \<Longrightarrow> same_dispatch x (f x)) \<Longrightarrow> outbox_kept db (update_outbox p f db)"
  by (auto simp: outbox_kept_def update_outbox_def update_where_def list_all2_map2 intro!: list.rel_refl_strong)

lemma publish_all_outage:
  assumes "\<And>r. r \<in> set rs \<Longrightarrow> 0 \<le> rec_attempt_count r \<and> (\<exists>e. publish r = Inl e)" "from_env env = Inr config"
  shows "\<exists>db'. publish_all now utc publish owner config rs db = Some db' \<and> outbox_kept db db'"
  using assms(1)
proof (induction rs arbitrary: db)
  case (Cons r rs)
  obtain e where e: "publish r = Inl e" and pos: "0 \<le> rec_attempt_count r" using Cons.prems by auto
  have "\<exists>d. publish_one now utc publish owner config r db = Some d \<and> outbox_kept db d"
    using e
    by (simp add: publish_one_def retry_delay_checked [OF assms(2) pos] record_publish_failure_def outbox_kept_update
        same_dispatch_def)
  then obtain d where d: "publish_one now utc publish owner config r db = Some d" "outbox_kept db d" by blast
  obtain db' where "publish_all now utc publish owner config rs d = Some db'" "outbox_kept d db'"
    using Cons by auto
  then show ?case using d outbox_kept_trans by auto
qed simp

lemma claim_outbox_kept:
  assumes "claim_outbox now locked owner limit lease db = Inr (db', rs)"
  shows "outbox_kept db db' \<and> (\<forall>r \<in> set rs. 0 \<le> rec_attempt_count r)"
proof -
  define chosen where "chosen = select_batch (\<lambda>o'. (ob_next_attempt_at o', ob_id o')) (\<lambda>o'. locked (ob_id o'))
    (outbox_claimable now) limit (db_outbox db)"
  from assms obtain secs where rs: "traverse (\<lambda>o'. if 0 \<le> ob_attempt_count o' then Ok (outbox_record o') else Err StoreInternal) chosen
      = Inr rs" and db': "db' = update_outbox (\<lambda>o'. ob_id o' \<in> set (map ob_id chosen))
        (\<lambda>o'. o'\<lparr> ob_claimed_by := Some owner, ob_claim_expires_at := Some (now + secs * second) \<rparr>) db"
    unfolding claim_outbox_def Let_def chosen_def by auto
  have "0 \<le> rec_attempt_count r" if "r \<in> set rs" for r
    using traverse_Ok_set [OF rs that] by (auto simp: outbox_record_def split: if_splits)
  then show ?thesis unfolding db' by (simp add: outbox_kept_update same_dispatch_def)
qed

lemma dispatch_batch_outage:
  assumes "\<And>r. \<exists>e. publish r = Inl e" "from_env env = Inr config"
  shows "\<exists>db'. dispatch_batch now utc locked publish owner config db = Some db' \<and> outbox_kept db db'"
proof (cases "claim_outbox now locked owner (nat (batch_size config)) (claim_lease config) db")
  case (Inr c)
  obtain db1 rs where c: "c = (db1, rs)" by fastforce
  have "outbox_kept db db1 \<and> (\<forall>r \<in> set rs. 0 \<le> rec_attempt_count r)"
    using claim_outbox_kept Inr c by blast
  then show ?thesis
    using publish_all_outage [OF _ assms(2), of rs publish now utc owner db1] assms(1) outbox_kept_trans Inr c
    unfolding dispatch_batch_def by fastforce
qed (simp add: dispatch_batch_def)

text \<open>
  C8. A broker outage loses no execution: as long as NATS is not connected, any number of rounds of the
  dispatcher end normally and change nothing but the claims and failure records of outbox rows; every
  message stays unpublished with its content and deadline, and Runs, Attempts and events are untouched.
\<close>

theorem outage_keeps_intent:
  assumes "\<forall>r \<in> set rounds. \<exists>uuid_str (B :: 'c broker) p e. round_publish r = transport uuid_str B p \<and> current p = Inl e"
    and "from_env env = Inr config"
  shows "\<exists>db'. run_dispatcher owner config rounds db = Some db' \<and> outbox_kept db db'"
  using assms(1)
proof (induction rounds arbitrary: db)
  case (Cons r rounds)
  have "\<exists>e. round_publish r x = Inl e" for x using Cons.prems by (auto simp: transport_def nats_publish_def)
  from dispatch_batch_outage [of "round_publish r", OF this assms(2)] obtain d where
    "dispatch_batch (round_now r) (round_utc r) (round_locked r) (round_publish r) owner config db = Some d" "outbox_kept db d" by blast
  moreover obtain db' where "run_dispatcher owner config rounds d = Some db'" "outbox_kept d db'" using Cons by auto
  ultimately show ?case using outbox_kept_trans by auto
qed simp

section \<open>The connection manager\<close>

text \<open>The exported gauge tells whether a context is stored.\<close>

definition gauge_exact :: "'c NatsPublisher \<Rightarrow> bool" where
  "gauge_exact p \<longleftrightarrow> \<not> pub_poisoned p \<and> pub_gauge p = (if pub_context p = None then 0 else 1)"

lemma gauge_exact_steps:
  "gauge_exact NatsPublisher_new" "gauge_exact p \<Longrightarrow> gauge_exact (manager_tick N env config B p)"
  "gauge_exact p \<Longrightarrow> gauge_exact (clear_context p)"
  by (auto simp: gauge_exact_def NatsPublisher_new_def manager_tick_def replace_context_def clear_context_def Let_def split: sum.splits)

lemma gauge_exact_rounds: "gauge_exact p \<Longrightarrow> gauge_exact (fold (manager_tick N env config) rounds p)"
  by (induction rounds arbitrary: p) (auto intro: gauge_exact_steps)

text \<open>
  The server reconnects by itself: whatever the broker did in earlier rounds, one round of the
  connection manager with a reachable broker whose stream can be ensured leaves the transport ready and its gauge set.
\<close>

theorem broker_return_reconnects:
  assumes "connect_once N B env config = Inr c" "bk_stream B c STREAM_NAME"
  shows "publisher_ready B (fold (manager_tick N env config) (rounds @ [B]) NatsPublisher_new) \<and>
    pub_gauge (fold (manager_tick N env config) (rounds @ [B]) NatsPublisher_new) = 1"
proof -
  define p where "p = fold (manager_tick N env config) rounds NatsPublisher_new"
  have g: "gauge_exact p" unfolding p_def by (intro gauge_exact_rounds gauge_exact_steps)
  have "publisher_ready B (manager_tick N env config B p) \<and> pub_gauge (manager_tick N env config B p) = 1"
  proof (cases "publisher_ready B p")
    case True
    then show ?thesis using g
      by (auto simp: manager_tick_def gauge_exact_def publisher_ready_def current_def split: sum.splits option.splits)
  next
    case False
    then show ?thesis using g assms
      by (simp add: manager_tick_def gauge_exact_def publisher_ready_def current_def replace_context_def clear_context_def)
  qed
  then show ?thesis by (simp add: p_def)
qed

section \<open>Instances\<close>

text \<open>A broker that accepts every connection and message, and one that is down.\<close>

definition sample_broker :: "bool \<Rightarrow> unit broker" where
  "sample_broker up =
     \<lparr> bk_connect = (\<lambda>_. if up then Ok () else Err ''connection refused''), bk_ensure = (\<lambda>_ _. Ok ()),
       bk_stream = (\<lambda>_ _. up), bk_publish = (\<lambda>_ _ _ _. if up then Ok (Ok 1) else Err ''timed out'') \<rparr>"

definition sample_nats_env :: "unit nats_env" where
  "sample_nats_env = \<lparr> ne_read = (\<lambda>_. Err ''not found''), ne_from_seed = (\<lambda>_. None), ne_sign = (\<lambda>_ _. None),
     ne_public_key = (\<lambda>_. []) \<rparr>"

theorem broker_return_reconnects_witness:
  "publisher_ready (sample_broker True)
     (fold (manager_tick sample_nats_env (\<lambda>_. None) (NatsClientConfig_anonymous ''nats://localhost:4222''))
       ([sample_broker True, sample_broker False] @ [sample_broker True]) NatsPublisher_new)"
  by (rule broker_return_reconnects [THEN conjunct1])
    (simp_all add: sample_broker_def connect_once_def nats_connect_def)

theorem nats_secrets_unmentioned_witness:
  "from_lookup ''nats://a:b@host'' (\<lambda>n. if n = USER_ENV then Some ''svc'' else None) =
     Inl [USER_ENV @ '' is set but '' @ PASSWORD_ENV @ '' is not; set both'']"
  by (rule nats_secrets_unmentioned [where env = "\<lambda>n. if n = USER_ENV then Some ''other'' else None" and url = "[]", THEN conjunct1])
    (simp_all add: fun_eq_iff configured_def present_def from_lookup_def nats_simps)

definition sample_round :: "timestamp \<Rightarrow> dispatch_round" where
  "sample_round t = \<lparr> round_now = t, round_utc = t, round_locked = (\<lambda>_. False),
     round_publish = transport (\<lambda>_. []) (sample_broker True) NatsPublisher_new \<rparr>"

theorem outage_keeps_intent_witness:
  "\<exists>db'. run_dispatcher 7 DispatcherConfig_default [sample_round 0, sample_round second] sample_pending = Some db' \<and>
     outbox_kept sample_pending db'"
proof (rule outage_keeps_intent [where 'c = unit, OF _ default_config], rule ballI)
  fix r assume "r \<in> set [sample_round 0, sample_round second]"
  then have "round_publish r = transport (\<lambda>_. []) (sample_broker True) NatsPublisher_new" by (auto simp: sample_round_def)
  moreover have "current (NatsPublisher_new :: unit NatsPublisher) = Inl [''NATS is not connected'']"
    by (simp add: current_def NatsPublisher_new_def)
  ultimately show "\<exists>uuid_str (B :: unit broker) p e. round_publish r = transport uuid_str B p \<and> current p = Inl e" by blast
qed

end
