(* ===== verification/Operations.thy ===== *)
theory Operations
  imports Observed Nats
begin

text \<open>
  The server in operation: the polling loop of the scheduler (\<open>run_scheduler\<close> of
  \<open>scheduler/planner.rs\<close>) over the store and the metrics registry, and what operators are shown of the
  pipeline.
\<close>

section \<open>The scheduler loop\<close>

definition BATCH_SIZE :: nat where "BATCH_SIZE = 100"
definition CLAIM_LEASE :: int where "CLAIM_LEASE = 30"

definition observe_occurrence :: "PlannedOccurrence \<Rightarrow> Metrics \<Rightarrow> Metrics" where
  "observe_occurrence x m =
     (let late = occ_lateness_seconds x;
          observed = (if 0 \<le> late \<and> late \<le> u32_max then late else u32_max) in
      m\<lparr> scheduler_due := scheduler_due m + 1,
         scheduler_misfire := scheduler_misfire m + (if late > 0 then 1 else 0),
         execution_lateness := execution_lateness m @ [observed],
         scheduler_skipped := scheduler_skipped m + (if \<not> occ_execute x then 1 else 0) \<rparr>)"

text \<open>
  The claimed Schedules in order, each planned and committed on its own; \<open>clock i\<close> gives the time of the
  process when the Schedule at position \<open>i\<close> is planned and that of the database when it is committed.
  Failures are logged.
\<close>

fun plan_claimed ::
  "'tz cron_library \<Rightarrow> (json \<Rightarrow> bytes option) \<Rightarrow> uuid \<Rightarrow> (nat \<Rightarrow> timestamp \<times> timestamp) \<Rightarrow> nat \<Rightarrow> Schedule list
     \<Rightarrow> Db \<times> Metrics \<Rightarrow> Db \<times> Metrics" where
  "plan_claimed lib encode owner clock i [] (db, m) = (db, m)"
| "plan_claimed lib encode owner clock i (s # ss) (db, m) =
     (case plan lib s owner (fst (clock i)) of
        Inl _ \<Rightarrow> plan_claimed lib encode owner clock (i + 1) ss (db, m)
      | Inr p \<Rightarrow> plan_claimed lib encode owner clock (i + 1) ss
          (case commit_schedule_plan encode (snd (clock i)) p db of Inl _ \<Rightarrow> db | Inr (db', _) \<Rightarrow> db',
           fold observe_occurrence (plan_occurrences p) m))"

text \<open>One tick: \<open>polled\<close> is the time of the process after a successful claim.\<close>

record scheduler_round =
  tick_now :: timestamp
  tick_locked :: "uuid \<Rightarrow> bool"
  tick_polled :: timestamp
  tick_clock :: "nat \<Rightarrow> timestamp \<times> timestamp"

definition scheduler_tick ::
  "'tz cron_library \<Rightarrow> (json \<Rightarrow> bytes option) \<Rightarrow> uuid \<Rightarrow> scheduler_round \<Rightarrow> Db \<times> Metrics \<Rightarrow> Db \<times> Metrics" where
  "scheduler_tick lib encode owner r = (\<lambda>(db, m).
     (case claim_due_schedules (tick_now r) (tick_locked r) owner BATCH_SIZE CLAIM_LEASE db of
        Inl _ \<Rightarrow> (db, m)
      | Inr (db', schedules) \<Rightarrow>
          plan_claimed lib encode owner (tick_clock r) 0 schedules
            (db', m\<lparr> scheduler_last_poll_unix_seconds := tick_polled r div second \<rparr>)))"

definition run_scheduler ::
  "'tz cron_library \<Rightarrow> (json \<Rightarrow> bytes option) \<Rightarrow> uuid \<Rightarrow> scheduler_round list \<Rightarrow> Db \<times> Metrics \<Rightarrow> Db \<times> Metrics" where
  "run_scheduler lib encode owner rounds = fold (scheduler_tick lib encode owner) rounds"

section \<open>The scheduler only takes store steps and moves cursors forward\<close>

lemma plan_claimed_steps:
  "plan_claimed lib (env_encode E) owner clock i ss (db, m) = (db', m') \<Longrightarrow> (db_step E)\<^sup>*\<^sup>* db db'"
proof (induction ss arbitrary: i db m)
  case (Cons s ss)
  show ?case
  proof (cases "plan lib s owner (fst (clock i))")
    case (Inl e)
    then show ?thesis using Cons by simp
  next
    case (Inr p)
    show ?thesis
    proof (cases "commit_schedule_plan (env_encode E) (snd (clock i)) p db")
      case (Inl e)
      then show ?thesis using Cons.prems Cons.IH Inr by simp
    next
      case committed: (Inr c)
      obtain d where d: "c = (d, ())" by (cases c) simp
      have "db_step E db d" using committed d by (auto intro: db_step.commit_plan)
      moreover have "(db_step E)\<^sup>*\<^sup>* d db'" using Cons.prems Cons.IH Inr committed d by simp
      ultimately show ?thesis by (rule converse_rtranclp_into_rtranclp)
    qed
  qed
qed simp

lemma scheduler_tick_steps: "scheduler_tick lib (env_encode E) owner r (db, m) = (db', m') \<Longrightarrow> (db_step E)\<^sup>*\<^sup>* db db'"
  by (auto simp: scheduler_tick_def dest!: plan_claimed_steps split: sum.splits
      intro: converse_rtranclp_into_rtranclp db_step.claim_schedules)

text \<open>
  The effect of a plan on a Schedule with a cursor: a one-shot Schedule is disabled, a cron Schedule gets
  a cursor after the time of planning.
\<close>

definition advanced :: "Schedule \<Rightarrow> timestamp \<Rightarrow> bool \<Rightarrow> timestamp option \<Rightarrow> bool" where
  "advanced s now disable next_run \<longleftrightarrow>
     (case sched_timing s of
        Once _ \<Rightarrow> disable \<and> next_run = None
      | Cron _ _ \<Rightarrow> \<not> disable \<and> (\<exists>n. next_run = Some n \<and> now < n))"

lemma plan_past:
  assumes "plan lib s owner now = Inr p" "library_advances lib" "sched_next_run_at s = Some first_due"
  shows "plan_schedule_id p = sched_id s \<and> plan_owner p = owner \<and> advanced s now (plan_disable p) (plan_next_run_at p)"
proof (cases "sched_timing s")
  case (Cron e z)
  then have "plan_cron lib s owner now first_due e z = Inr p" using assms(1,3) by (simp add: plan_def)
  then obtain occs n where occs: "plan_occurrences_cron (next_cron_occurrence lib e z) s now first_due = Inr (occs, n)"
      and p: "plan_schedule_id p = sched_id s" "plan_owner p = owner" "plan_next_run_at p = Some n" "\<not> plan_disable p"
    by (auto simp: plan_cron_split)
  note adv = next_cron_advances [OF assms(2)]
  have "now < n"
  proof (cases "sched_catchup_policy s")
    case CatchUp
    from CatchUp occs show ?thesis by (rule catch_up_cases) (use adv in blast)
  qed (use occs adv in \<open>auto simp: plan_occurrences_cron_def\<close>)
  then show ?thesis using p Cron by (simp add: advanced_def)
qed (use assms(1,3) in \<open>auto simp: plan_def advanced_def\<close>)

lemma insert_scheduled_occurrence_schedules:
  "insert_scheduled_occurrence encode now sid occ e si ii db = Inr db' \<Longrightarrow> db_schedules db' = db_schedules db"
  unfolding insert_scheduled_occurrence_def Let_def
  by (auto simp: insert_run_def create_attempt_and_outbox_def Let_def insert_run_event_def split: if_splits option.splits sum.splits)

lemma insert_occurrence_executions_schedules:
  "insert_occurrence_executions encode now sid occ es si ii db = Inr db' \<Longrightarrow> db_schedules db' = db_schedules db"
  by (induction es arbitrary: db) (auto dest: insert_scheduled_occurrence_schedules)

lemma insert_occurrences_schedules:
  "insert_occurrences encode now sid occs es si ii db = Inr db' \<Longrightarrow> db_schedules db' = db_schedules db"
  by (induction occs arbitrary: db) (auto dest: insert_occurrence_executions_schedules)

text \<open>
  How a tick that claimed the Schedules \<open>ss\<close> may move a row: its definition stays as it is, or it is
  the row of a claimed Schedule, its claim is released, and it advanced past the time at which that very
  Schedule was planned.
\<close>

definition moved :: "scheduler_round \<Rightarrow> Schedule list \<Rightarrow> ScheduleRow \<Rightarrow> ScheduleRow \<Rightarrow> bool" where
  "moved r ss x y \<longleftrightarrow> sched_id (srow_schedule y) = sched_id (srow_schedule x) \<and>
     (srow_schedule y = srow_schedule x \<or>
      srow_claim_owner y = None \<and> srow_claim_expires_at y = None \<and>
      (\<exists>i disable. i < length ss \<and> sched_id (ss ! i) = sched_id (srow_schedule x) \<and>
         advanced (ss ! i) (fst (tick_clock r i)) disable (sched_next_run_at (srow_schedule y)) \<and>
         sched_enabled (srow_schedule y) = (\<not> disable \<and> sched_enabled (srow_schedule x))))"

lemma commit_moves:
  assumes "commit_schedule_plan encode now p db = Inr (db', u)"
    and i: "i < length ss" "plan_schedule_id p = sched_id (ss ! i)"
      "advanced (ss ! i) (fst (tick_clock r i)) (plan_disable p) (plan_next_run_at p)"
    and "list_all2 (moved r ss) rows (db_schedules db)"
  shows "list_all2 (moved r ss) rows (db_schedules db')"
proof -
  let ?mine = "\<lambda>row. sched_id (srow_schedule row) = plan_schedule_id p \<and> srow_claim_owner row = Some (plan_owner p)"
  define last_at where "last_at = (case plan_occurrences p of [] \<Rightarrow> None | _ \<Rightarrow> Some (occ_scheduled_at (last (plan_occurrences p))))"
  define f where "f row = row\<lparr> srow_schedule := (srow_schedule row)\<lparr> sched_next_run_at := plan_next_run_at p,
        sched_last_run_at := (case last_at of Some t \<Rightarrow> Some t | None \<Rightarrow> sched_last_run_at (srow_schedule row)),
        sched_enabled := (if plan_disable p then False else sched_enabled (srow_schedule row)), sched_updated_at := now \<rparr>,
      srow_claim_owner := None, srow_claim_expires_at := None \<rparr>" for row :: ScheduleRow
  have f: "db_schedules db' = update_where ?mine f (db_schedules db)"
    using assms(1) unfolding commit_schedule_plan_def Let_def f_def last_at_def
    by (auto split: option.splits if_splits dest!: insert_occurrences_schedules)
  have "moved r ss x (if ?mine y then f y else y)" if m: "moved r ss x y" for x y
  proof (cases "?mine y")
    case True
    then have "srow_schedule y = srow_schedule x" using m by (auto simp: moved_def)
    then show ?thesis
      using True i unfolding moved_def f_def by (intro conjI disjI2 exI [of _ i] exI [of _ "plan_disable p"]) simp_all
  qed (use m in auto)
  then show ?thesis
    unfolding f update_where_def list_all2_map2 using assms(5) by (rule list_all2_mono [rotated])
qed

lemma plan_claimed_moves:
  assumes "plan_claimed lib encode owner (tick_clock r) i (drop i ss) (db, m) = (db', m')" "library_advances lib"
    and "\<forall>s \<in> set ss. sched_next_run_at s \<noteq> None" "list_all2 (moved r ss) rows (db_schedules db)"
  shows "list_all2 (moved r ss) rows (db_schedules db')"
  using assms(1,4)
proof (induction "length ss - i" arbitrary: i db m)
  case 0
  then show ?case by simp
next
  case (Suc k)
  then have i: "i < length ss" by simp
  have k: "k = length ss - Suc i" using Suc.hyps(2) by simp
  note step = Suc.prems(1) [unfolded Cons_nth_drop_Suc [OF i, symmetric]]
  obtain due where due: "sched_next_run_at (ss ! i) = Some due" using assms(3) i by (meson not_None_eq nth_mem)
  show ?case
  proof (cases "plan lib (ss ! i) owner (fst (tick_clock r i))")
    case (Inl e)
    then show ?thesis using Suc.hyps(1) [OF k] step Suc.prems(2) by simp
  next
    case (Inr p)
    note past = plan_past [OF Inr assms(2) due]
    show ?thesis
    proof (cases "commit_schedule_plan encode (snd (tick_clock r i)) p db")
      case (Inl e)
      then show ?thesis using Suc.hyps(1) [OF k] step Suc.prems(2) Inr by simp
    next
      case committed: (Inr c)
      obtain d where d: "c = (d, ())" by (cases c) simp
      have "list_all2 (moved r ss) rows (db_schedules d)"
        using commit_moves [OF committed [unfolded d] i] past Suc.prems(2) by blast
      then show ?thesis using Suc.hyps(1) [OF k] step Inr committed d by simp
    qed
  qed
qed

lemma claimed_schedules:
  assumes "claim_due_schedules now locked owner limit lease db = Inr (d, ss)"
  shows "\<forall>s \<in> set ss. sched_next_run_at s \<noteq> None" "list_all2 (moved r ss) (db_schedules db) (db_schedules d)"
  using assms
  by (auto simp: claim_due_schedules_def Let_def update_where_def list_all2_map2 moved_def intro!: list.rel_refl_strong
      dest!: subsetD [OF select_batch_set] split: option.splits)

text \<open>
  C9. A tick of the scheduler is sound: it keeps the invariants of Runs and Workflows, and it leaves
  every Schedule as it was defined or, for a Schedule it claimed, releases the claim after planning it.
  A planned one-shot Schedule is disabled; a planned cron Schedule stays enabled as it was and its
  cursor lies after the time at which this Schedule was planned, so that it is not due again at once
  however long the Schedules before it took.
\<close>

theorem scheduler_tick_sound:
  fixes E :: StoreEnv
  assumes "scheduler_tick lib (env_encode E) owner r (db, m) = (db', m')" "run_inv db" "wf_inv db" "library_advances lib"
  shows "run_inv db' \<and> wf_inv db' \<and>
    (\<exists>d ss. claim_due_schedules (tick_now r) (tick_locked r) owner BATCH_SIZE CLAIM_LEASE db = Inr (d, ss) \<and>
       list_all2 (moved r ss) (db_schedules db) (db_schedules db'))"
proof -
  have "run_inv db' \<and> wf_inv db'"
    using scheduler_tick_steps [OF assms(1)] assms(2,3) by (induction rule: rtranclp_induct) (use db_step_inv in blast)+
  moreover obtain d ss where claim: "claim_due_schedules (tick_now r) (tick_locked r) owner BATCH_SIZE CLAIM_LEASE db = Inr (d, ss)"
    by (simp add: claim_due_schedules_def Let_def duration_seconds_def CLAIM_LEASE_def int_bounds)
  moreover have "list_all2 (moved r ss) (db_schedules db) (db_schedules db')"
    using assms(1) claim plan_claimed_moves [where i = 0 and ss = ss, OF _ assms(4) claimed_schedules [OF claim]]
    by (auto simp: scheduler_tick_def)
  ultimately show ?thesis by blast
qed

section \<open>What operators are shown\<close>









section \<open>Instances\<close>




definition sample_tick :: scheduler_round where
  "sample_tick = \<lparr> tick_now = second, tick_locked = (\<lambda>_. False), tick_polled = second, tick_clock = (\<lambda>i. (second, second)) \<rparr>"

definition sample_due :: Db where
  "sample_due = sample_pending\<lparr> db_schedules := [sample_schedule_row\<lparr> srow_claim_owner := None, srow_claim_expires_at := None \<rparr>] \<rparr>"

theorem scheduler_tick_sound_witness:
  "run_inv (fst (scheduler_tick sample_lib (env_encode (se_store sample_sys_env)) 6 sample_tick (sample_due, Metrics_new))) \<and>
   (\<exists>d ss. claim_due_schedules second (\<lambda>_. False) 6 BATCH_SIZE CLAIM_LEASE sample_due = Inr (d, ss) \<and>
     list_all2 (moved sample_tick ss) (db_schedules sample_due)
       (db_schedules (fst (scheduler_tick sample_lib (env_encode (se_store sample_sys_env)) 6 sample_tick (sample_due, Metrics_new)))))"
proof -
  have "run_inv sample_due" by (rule inv_cong [OF sample_invs(1)]) (simp_all add: sample_due_def)
  moreover have "wf_inv sample_due"
    by (rule wf_frame_inv [OF sample_wf_inv]) (simp add: wf_frame_def sample_due_def)
  moreover have "tick_now sample_tick = second" "tick_locked sample_tick = (\<lambda>_. False)" by (simp_all add: sample_tick_def)
  ultimately show ?thesis using scheduler_tick_sound [OF prod.collapse [symmetric] _ _ sample_lib_advances] by metis
qed

end
