(* ===== verification/Listings.thy ===== *)
theory Listings
  imports Observed
begin

text \<open>
  The listing of Runs against the reading of single Runs: what a client sees that follows the cursors
  of \<open>GET /runs\<close> from page to page.
\<close>

section \<open>Following the cursors\<close>

text \<open>
  The client of a listing: it asks for a page and, while the page has a cursor, for the page before
  it.  \<open>parse\<close> reads the cursor text as the identifier it names, as the query extractor does.  \<open>None\<close>
  stands for an unreadable cursor, for a refused request and for more pages than \<open>k\<close>.
\<close>

fun follow_runs ::
  "nat \<Rightarrow> (uuid \<Rightarrow> bytes) \<Rightarrow> (bytes \<Rightarrow> uuid option) \<Rightarrow> GrantSet \<Rightarrow> RunListFilter \<Rightarrow> nat option \<Rightarrow> uuid option \<Rightarrow> Db \<Rightarrow> RunRecord list option" where
  "follow_runs 0 uuid_str parse g f limit before db = None"
| "follow_runs (Suc k) uuid_str parse g f limit before db =
     (case app_list_runs uuid_str g f limit before db of
        Inl _ \<Rightarrow> None
      | Inr p \<Rightarrow> (case next_cursor p of
            None \<Rightarrow> Some (items p)
          | Some c \<Rightarrow> Option.bind (parse c) (\<lambda>b.
              map_option ((@) (items p)) (follow_runs k uuid_str parse g f limit (Some b) db))))"

section \<open>The rows of a listing\<close>

abbreviation newest_first :: "RunRow list \<Rightarrow> bool" where
  "newest_first \<equiv> sorted_wrt (\<lambda>a b. run_id b < run_id a)"

lemma set_listed_runs:
  "r \<in> set (listed_runs vis f before db) \<longleftrightarrow>
     r \<in> set (db_runs db) \<and> (case before of None \<Rightarrow> True | Some i \<Rightarrow> run_id r < i) \<and> run_visible vis db r \<and> run_matches f db r"
  by (auto simp: listed_runs_def)

lemma listed_before: "listed_runs vis f (Some b) db = filter (\<lambda>r. run_id r < b) (listed_runs vis f None db)"
  by (auto simp: listed_runs_def rev_filter [symmetric] filter_sort intro!: arg_cong [where f = "sort_key run_id"] filter_cong)

lemma listed_newest_first:
  assumes "distinct (map run_id (db_runs db))"
  shows "newest_first (listed_runs vis f before db)"
proof -
  define xs where "xs = filter (\<lambda>r. (case before of None \<Rightarrow> True | Some i \<Rightarrow> run_id r < i) \<and> run_visible vis db r \<and> run_matches f db r) (db_runs db)"
  have "distinct (map run_id xs)" using assms unfolding xs_def by (rule distinct_map_filter)
  then have "distinct (map run_id (sort_key run_id xs))" by (simp add: distinct_map)
  then have "sorted_wrt (<) (map run_id (sort_key run_id xs))" by (simp add: strict_sorted_iff)
  then show ?thesis by (simp add: listed_runs_def xs_def [symmetric] sorted_wrt_map sorted_wrt_rev)
qed

lemma older_rows:
  assumes "newest_first rs" "0 < n" "n \<le> length rs"
  shows "filter (\<lambda>r. run_id r < run_id (rs ! (n - 1))) rs = drop n rs"
proof -
  have split: "rs = take n rs @ drop n rs" by simp
  have new: "\<not> run_id r < run_id (rs ! (n - 1))" if "r \<in> set (take n rs)" for r
  proof -
    from that obtain i where i: "i < n" "r = rs ! i" using assms(3) by (auto simp: in_set_conv_nth)
    show ?thesis
    proof (cases "i = n - 1")
      case False
      then have "run_id (rs ! (n - 1)) < run_id (rs ! i)" using i assms sorted_wrt_nth_less [OF assms(1), of i "n - 1"] by linarith
      then show ?thesis using i by simp
    qed (use i in simp)
  qed
  have old: "run_id r < run_id (rs ! (n - 1))" if "r \<in> set (drop n rs)" for r
  proof -
    from that obtain i where "i < length rs - n" "r = rs ! (n + i)" using assms(3) by (auto simp: in_set_conv_nth)
    then show ?thesis using assms sorted_wrt_nth_less [OF assms(1), of "n - 1" "n + i"] by simp
  qed
  have "filter (\<lambda>r. run_id r < run_id (rs ! (n - 1))) (take n rs) = []" using new by (simp add: filter_empty_conv)
  moreover have "filter (\<lambda>r. run_id r < run_id (rs ! (n - 1))) (drop n rs) = drop n rs" using old by (simp add: filter_id_conv)
  ultimately show ?thesis using split by (metis append_Nil filter_append)
qed

section \<open>One page, then all of them\<close>

text \<open>The record of a row that has one.\<close>

definition record_of :: "Db \<Rightarrow> RunRow \<Rightarrow> RunRecord" where
  "record_of db r = (case run_record db r of Inr rc \<Rightarrow> rc | Inl _ \<Rightarrow> undefined)"

lemma record_of_visible: "run_visible vis db r \<Longrightarrow> run_record db r = Inr (record_of db r) \<and> rrec_run (record_of db r) = r"
  using run_record_fields by (auto simp: run_visible_def record_of_def is_ok_iff)

lemma listed_page:
  fixes vis f before db
  defines "rs \<equiv> listed_runs vis f before db"
  assumes "0 < n"
  shows "list_runs us vis f n before db = Inr \<lparr> items = map (record_of db) (take n rs),
    next_cursor = (if n < length rs then Some (us (run_id (rs ! (n - 1)))) else None) \<rparr>"
proof -
  have rec: "r \<in> set rs \<Longrightarrow> run_record db r = Inr (record_of db r) \<and> rrec_run (record_of db r) = r" for r
    unfolding rs_def set_listed_runs using record_of_visible by blast
  have rows: "traverse (run_record db) (take n rs) = Inr (map (record_of db) (take n rs))"
    by (rule traverse_total) (use rec in \<open>auto dest: in_set_takeD\<close>)
  have "rs = []" if "vis = VisibleNone"
    using that by (auto simp: rs_def listed_runs_def run_visible_def visible_def filter_empty_conv split: option.splits)
  moreover have "last (take n rs) = rs ! (n - 1)" "rs ! (n - 1) \<in> set rs" if "n < length rs"
  proof -
    have "take n rs \<noteq> []" using that assms(2) by auto
    from last_conv_nth [OF this] show "last (take n rs) = rs ! (n - 1)" using that assms(2) by simp
  qed (use that in simp)
  moreover have "butlast (take (Suc n) rs) = take n rs" if "n < length rs" using that by (simp add: butlast_take)
  ultimately show ?thesis
    using rows rec assms(2)
    by (auto simp: list_runs_def page_def rs_def [symmetric] empty_page_def Let_def last_map min_def)
qed

lemma follow_all:
  assumes "distinct (map run_id (db_runs db))" "page_limit limit = Inr n"
    and "\<And>r. r \<in> set (db_runs db) \<Longrightarrow> parse (us (run_id r)) = Some (run_id r)"
    and "length (listed_runs (grants_visibility g RunRead) f before db) \<le> k"
  shows "follow_runs (Suc k) us parse g f limit before db =
    Some (map (record_of db) (listed_runs (grants_visibility g RunRead) f before db))"
  using assms(4)
proof (induction k arbitrary: before)
  case (0 before)
  have n: "0 < n" using assms(2) by (auto simp: page_limit_def Let_def split: if_splits)
  show ?case using 0 assms(2) listed_page [OF n] by (simp add: app_list_runs_def see_read)
next
  case (Suc k before)
  let ?rs = "listed_runs (grants_visibility g RunRead) f before db"
  have n: "0 < n" using assms(2) by (auto simp: page_limit_def Let_def split: if_splits)
  note one = listed_page [OF n, of us "grants_visibility g RunRead" f before db]
  show ?case
  proof (cases "n < length ?rs")
    case False
    then show ?thesis using one assms(2) by (simp add: app_list_runs_def see_read)
  next
    case True
    let ?b = "run_id (?rs ! (n - 1))"
    have row: "?rs ! (n - 1) \<in> set ?rs" using True by simp
    have older: "listed_runs (grants_visibility g RunRead) f (Some ?b) db = drop n ?rs"
    proof -
      have "filter (\<lambda>r. run_id r < ?b) (listed_runs (grants_visibility g RunRead) f None db) = filter (\<lambda>r. run_id r < ?b) ?rs"
      proof (cases before)
        case (Some i)
        then have "?b < i" using row set_listed_runs by auto
        then show ?thesis by (auto simp: Some listed_before intro!: filter_cong)
      qed simp
      then show ?thesis
        using older_rows [OF listed_newest_first [OF assms(1)] n] True by (simp add: listed_before less_imp_le)
    qed
    have "length (drop n ?rs) \<le> k" using Suc.prems n True by simp
    then have "follow_runs (Suc k) us parse g f limit (Some ?b) db = Some (map (record_of db) (drop n ?rs))"
      using Suc.IH [of "Some ?b"] older by simp
    moreover have "parse (us ?b) = Some ?b" using row assms(3) set_listed_runs by blast
    moreover have "map (record_of db) (take n ?rs) @ map (record_of db) (drop n ?rs) = map (record_of db) ?rs"
      by (simp add: map_append [symmetric] del: map_append)
    ultimately show ?thesis using one True assms(2) by (simp add: app_list_runs_def see_read del: follow_runs.simps(2)) (simp add: app_list_runs_def see_read)
  qed
qed

section \<open>Reading one Run\<close>

lemma get_run_iff:
  assumes "distinct (map run_id (db_runs db))" "grants_ok g"
  shows "app_get_run g i db = Inr rc \<longleftrightarrow>
    (\<exists>r \<in> set (db_runs db). run_id r = i \<and> run_visible (grants_visibility g RunRead) db r \<and> run_record db r = Inr rc)"
proof
  assume "app_get_run g i db = Inr rc"
  then obtain r where "find (\<lambda>r. run_id r = i \<and> run_visible (grants_visibility g RunRead) db r) (db_runs db) = Some r" "run_record db r = Inr rc"
    by (auto simp: app_get_run_def get_run_def see_read split: if_splits)
  then show "\<exists>r \<in> set (db_runs db). run_id r = i \<and> run_visible (grants_visibility g RunRead) db r \<and> run_record db r = Inr rc"
    using find_Some_in by fastforce
next
  assume "\<exists>r \<in> set (db_runs db). run_id r = i \<and> run_visible (grants_visibility g RunRead) db r \<and> run_record db r = Inr rc"
  then obtain r where r: "r \<in> set (db_runs db)" "run_id r = i" "run_visible (grants_visibility g RunRead) db r" "run_record db r = Inr rc"
    by blast
  then obtain j where j: "find (\<lambda>j. job_id j = run_job_id r) (db_jobs db) = Some j" "visible (grants_visibility g RunRead) (job_namespace_id j)"
    by (auto simp: run_visible_def run_job_namespace_def split: option.splits)
  have row: "find (\<lambda>x. run_id x = i) (db_runs db) = Some r" using find_key_unique [OF assms(1) r(1)] r(2) by simp
  have sorted: "bt_sorted g" using assms(2) by (simp add: grants_ok_def)
  have "allows_namespace g RunRead (job_namespace_id j)" using j(2) visible_iff [OF sorted] by blast
  then have "authorize (namespace_for db) g RunRead (RunScope i) = Inr ()"
    using j(1) row by (auto simp: store.authorize_iff [OF sorted] allows_namespace_def namespace_for_def accepts_resource_def permission_def)
  moreover have "grants_visibility g RunRead \<noteq> VisibleNone" using j(2) by (auto simp: visible_def)
  moreover have "find (\<lambda>r. run_id r = i \<and> run_visible (grants_visibility g RunRead) db r) (db_runs db) = Some r"
  proof -
    have "find (\<lambda>r. run_id r = i \<and> run_visible (grants_visibility g RunRead) db r) (db_runs db) \<noteq> None"
      using r by (auto simp: find_None_iff)
    then obtain x where x: "find (\<lambda>r. run_id r = i \<and> run_visible (grants_visibility g RunRead) db r) (db_runs db) = Some x" by blast
    from find_unique [OF assms(1) this] row have "x = r" by simp
    then show ?thesis using x by simp
  qed
  ultimately show "app_get_run g i db = Inr rc" using r(4) by (simp add: app_get_run_def get_run_def see_read)
qed

text \<open>
  C37. A Run is listed exactly when it can be read: a client that follows the cursors of the Run
  listing to the end, with any accepted page size and any filter, is answered every time and sees,
  newest first and each once, exactly the Runs matching the filter that the same caller can read one
  by one.  Cursors are texts of Run identifiers, which the query extractor is assumed to read back.
\<close>

theorem runs_listed_exactly:
  assumes "distinct (map run_id (db_runs db))" "grants_ok g" "page_limit limit = Inr n"
    and cursors: "\<And>r. r \<in> set (db_runs db) \<Longrightarrow> parse (uuid_str (run_id r)) = Some (run_id r)"
  shows "\<exists>rcs. follow_runs (Suc (length (db_runs db))) uuid_str parse g f limit None db = Some rcs \<and>
    sorted_wrt (\<lambda>a b. run_id (rrec_run b) < run_id (rrec_run a)) rcs \<and>
    (\<forall>rc. rc \<in> set rcs \<longleftrightarrow> (\<exists>i. app_get_run g i db = Inr rc) \<and> run_matches f db (rrec_run rc))"
proof (intro exI conjI allI)
  let ?rs = "listed_runs (grants_visibility g RunRead) f None db"
  have "length ?rs \<le> length (db_runs db)" by (simp add: listed_runs_def)
  then show "follow_runs (Suc (length (db_runs db))) uuid_str parse g f limit None db = Some (map (record_of db) ?rs)"
    using follow_all [OF assms(1,3) cursors] by blast
  have rec: "r \<in> set ?rs \<Longrightarrow> run_record db r = Inr (record_of db r) \<and> rrec_run (record_of db r) = r" for r
    using record_of_visible set_listed_runs by blast
  show "sorted_wrt (\<lambda>a b. run_id (rrec_run b) < run_id (rrec_run a)) (map (record_of db) ?rs)"
    unfolding sorted_wrt_map
    by (rule sorted_wrt_mono_rel [OF _ listed_newest_first [OF assms(1), of "grants_visibility g RunRead" f None]]) (simp add: rec)
  fix rc
  show "rc \<in> set (map (record_of db) ?rs) \<longleftrightarrow> (\<exists>i. app_get_run g i db = Inr rc) \<and> run_matches f db (rrec_run rc)"
    unfolding get_run_iff [OF assms(1,2)] using rec set_listed_runs [of _ "grants_visibility g RunRead" f None db] run_record_fields
    by (auto simp: image_iff)
qed

definition two_runs :: Db where
  "two_runs = observed_db\<lparr> db_runs := [(sample_run Succeeded)\<lparr> run_id := 9 \<rparr>, sample_run Succeeded] \<rparr>"

text \<open>Two Runs on two pages.\<close>

theorem runs_listed_exactly_witness:
  "\<exists>rcs. follow_runs 3 (\<lambda>i. if i = 10 then ''a'' else ''9'') (\<lambda>t. if t = ''a'' then Some 10 else Some 9) [(GrantAllNamespaces, [RunRead])]
       \<lparr> rf_namespace_id = None, rf_status = None, rf_job_id = None, rf_target_id = None, rf_target_set_id = None \<rparr>
       (Some 1) None two_runs = Some rcs \<and> observed_record \<in> set rcs"
proof -
  let ?f = "\<lparr> rf_namespace_id = None, rf_status = None, rf_job_id = None, rf_target_id = None, rf_target_set_id = None \<rparr>"
  have keys: "distinct (map run_id (db_runs two_runs))" and n: "Suc (length (db_runs two_runs)) = 3"
    by (simp_all add: two_runs_def sample_run_def)
  have g: "grants_ok [(GrantAllNamespaces, [RunRead])]" by (simp add: grants_ok_def compatible_def permission_def)
  have l: "page_limit (Some 1) = Inr 1" by (simp add: page_limit_def MAX_LIMIT_def)
  have "app_get_run [(GrantAllNamespaces, [RunRead])] 10 two_runs = Inr observed_record" by code_simp
  moreover have "run_matches ?f two_runs (rrec_run observed_record)" by (simp add: run_matches_def)
  moreover have cursors: "r \<in> set (db_runs two_runs) \<Longrightarrow>
      (if (if run_id r = 10 then ''a'' else ''9'') = ''a'' then Some 10 else Some 9) = Some (run_id r)" for r
    by (auto simp: two_runs_def sample_run_def)
  ultimately show ?thesis
    using runs_listed_exactly [OF keys g l, of "\<lambda>t. if t = ''a'' then Some 10 else Some 9" "\<lambda>i. if i = 10 then ''a'' else ''9''" ?f, OF cursors]
    unfolding n by blast
qed

end
