(* ===== verification/WorkflowSignals.thy ===== *)
theory WorkflowSignals
  imports WorkflowProgress
begin

text \<open>
  What the trigger \<open>runs_workflow_completion\<close> gives the Workflow engine: whatever a Run transaction does,
  no completion event is lost, no Run disappears, and a Run that becomes terminal and belongs to a
  Workflow node has a completion event afterwards.
\<close>

section \<open>Events of Runs\<close>

text \<open>An event that names the node of the execution that owns the Run.\<close>

definition event_of :: "Db \<Rightarrow> CompletionEventRow \<Rightarrow> bool" where
  "event_of db c \<longleftrightarrow>
     (\<exists>e \<in> set (db_node_executions db). \<exists>n \<in> set (db_node_runs db). ne_run_id e = Some (ce_run_id c) \<and>
        nr_id n = ne_node_run_id e \<and> ce_node_run_id c = nr_id n \<and> ce_workflow_run_id c = nr_workflow_run_id n)"

definition owned :: "Db \<Rightarrow> uuid \<Rightarrow> bool" where
  "owned db rid \<longleftrightarrow> (\<exists>e \<in> set (db_node_executions db). ne_run_id e = Some rid) \<and>
     (\<forall>e \<in> set (db_node_executions db). ne_run_id e = Some rid \<longrightarrow> (\<exists>n \<in> set (db_node_runs db). nr_id n = ne_node_run_id e))"

definition notified :: "Db \<Rightarrow> uuid \<Rightarrow> bool" where
  "notified db rid \<longleftrightarrow> (owned db rid \<longrightarrow> (\<exists>c \<in> set (db_completion_events db). ce_run_id c = rid))"

definition signals :: "Db \<Rightarrow> Db \<Rightarrow> bool" where
  "signals db db' \<longleftrightarrow>
     db_node_runs db' = db_node_runs db \<and> db_node_executions db' = db_node_executions db \<and>
     set (db_completion_events db) \<subseteq> set (db_completion_events db') \<and>
     (\<forall>c \<in> set (db_completion_events db'). c \<in> set (db_completion_events db) \<or> event_of db c) \<and>
     (\<forall>r \<in> set (db_runs db). \<exists>r' \<in> set (db_runs db'). run_id r' = run_id r \<and>
        (run_is_terminal (run_status r') \<longrightarrow> run_is_terminal (run_status r) \<or> notified db' (run_id r)))"

lemma owned_cong:
  "db_node_runs db' = db_node_runs db \<Longrightarrow> db_node_executions db' = db_node_executions db \<Longrightarrow> owned db' rid = owned db rid"
  by (simp add: owned_def)

lemma notified_mono:
  "notified db rid \<Longrightarrow> db_node_runs db' = db_node_runs db \<Longrightarrow> db_node_executions db' = db_node_executions db \<Longrightarrow>
     set (db_completion_events db) \<subseteq> set (db_completion_events db') \<Longrightarrow> notified db' rid"
  by (auto simp: notified_def owned_def)

lemma signals_refl [simp]: "signals db db"
  by (auto simp: signals_def)

lemma signals_trans [trans]:
  assumes ab: "signals a b" and bc: "signals b c"
  shows "signals a c"
proof -
  have tables: "db_node_runs b = db_node_runs a" "db_node_executions b = db_node_executions a"
      "db_node_runs c = db_node_runs b" "db_node_executions c = db_node_executions b"
    using ab bc by (simp_all add: signals_def)
  have "\<exists>r2 \<in> set (db_runs c). run_id r2 = run_id r \<and>
      (run_is_terminal (run_status r2) \<longrightarrow> run_is_terminal (run_status r) \<or> notified c (run_id r))" if r: "r \<in> set (db_runs a)" for r
  proof -
    obtain r1 where r1: "r1 \<in> set (db_runs b)" "run_id r1 = run_id r"
        "run_is_terminal (run_status r1) \<longrightarrow> run_is_terminal (run_status r) \<or> notified b (run_id r)"
      using ab r by (auto simp: signals_def)
    obtain r2 where r2: "r2 \<in> set (db_runs c)" "run_id r2 = run_id r1"
        "run_is_terminal (run_status r2) \<longrightarrow> run_is_terminal (run_status r1) \<or> notified c (run_id r1)"
      using bc r1(1) by (auto simp: signals_def)
    have "notified b (run_id r) \<Longrightarrow> notified c (run_id r)"
      by (rule notified_mono [OF _ tables(3,4)]) (use bc in \<open>simp_all add: signals_def\<close>)
    then show ?thesis using r1 r2 by auto
  qed
  moreover have "event_of b x = event_of a x" for x by (simp add: event_of_def tables)
  ultimately show ?thesis using ab bc by (auto simp: signals_def)
qed

text \<open>Transactions that leave Runs, events and nodes alone.\<close>

lemma signals_tables:
  "db_node_runs db' = db_node_runs db \<Longrightarrow> db_node_executions db' = db_node_executions db \<Longrightarrow>
   db_completion_events db' = db_completion_events db \<Longrightarrow> set (db_runs db) \<subseteq> set (db_runs db') \<Longrightarrow> signals db db'"
  by (auto simp: signals_def)

lemma event_of_mono:
  "db_node_runs db' = db_node_runs db \<Longrightarrow> db_node_executions db' = db_node_executions db \<Longrightarrow> event_of db' c = event_of db c"
  by (simp add: event_of_def)

lemma enqueue_signals: "signals db (enqueue_completion rid db)"
proof (cases "find (\<lambda>e. ne_run_id e = Some rid) (db_node_executions db)")
  case e: (Some e)
  show ?thesis
  proof (cases "find (\<lambda>n. nr_id n = ne_node_run_id e) (db_node_runs db)")
    case n: (Some n)
    let ?c = "\<lparr> ce_run_id = rid, ce_workflow_run_id = nr_workflow_run_id n, ce_node_run_id = nr_id n \<rparr>"
    have "event_of db ?c"
      unfolding event_of_def using find_Some_in [OF e] find_Some_in [OF n] by (intro bexI [of _ e] bexI [of _ n]) auto
    then show ?thesis using e n by (auto simp: enqueue_completion_def signals_def)
  qed (use e in \<open>simp add: enqueue_completion_def\<close>)
qed (simp add: enqueue_completion_def)

lemma enqueue_notifies: "notified (enqueue_completion rid db) rid"
proof (cases "owned db rid")
  case True
  then have "find (\<lambda>e. ne_run_id e = Some rid) (db_node_executions db) \<noteq> None" by (auto simp: owned_def find_None_iff)
  then obtain e where e: "find (\<lambda>e. ne_run_id e = Some rid) (db_node_executions db) = Some e" by blast
  then have "find (\<lambda>n. nr_id n = ne_node_run_id e) (db_node_runs db) \<noteq> None"
    using True find_Some_in [OF e] by (auto simp: owned_def find_None_iff)
  then obtain n where n: "find (\<lambda>n. nr_id n = ne_node_run_id e) (db_node_runs db) = Some n" by blast
  show ?thesis using e n by (auto simp: enqueue_completion_def notified_def)
qed (auto simp: notified_def owned_def)

text \<open>The update of Runs with its trigger.\<close>

lemma enqueue_fold:
  fixes rs :: "RunRow list" and q :: "RunRow \<Rightarrow> bool"
  defines "step \<equiv> \<lambda>r d. if q r then enqueue_completion (run_id r) d else d"
  shows "signals db (fold step rs db) \<and> (\<forall>r \<in> set rs. q r \<longrightarrow> notified (fold step rs db) (run_id r))"
proof (induction rs arbitrary: db)
  case (Cons r rs)
  have first: "signals db (step r db)" by (simp add: step_def enqueue_signals)
  note rest = Cons.IH [of "step r db"]
  have "notified (fold step rs (step r db)) (run_id r)" if "q r"
    by (rule notified_mono [of "step r db"]) (use that rest in \<open>simp_all add: step_def enqueue_notifies signals_def\<close>)
  then show ?case using signals_trans [OF first] rest by auto
qed simp

lemma update_runs_signals:
  assumes "\<And>r. run_id (f r) = run_id r"
  shows "signals db (update_runs p f db)"
proof -
  let ?d = "db\<lparr> db_runs := update_where p f (db_runs db) \<rparr>" and ?rs = "filter p (db_runs db)"
  note fold = enqueue_fold [where q = "becomes_terminal f" and rs = ?rs and db = ?d, folded update_runs_def]
  have runs: "db_runs (update_runs p f db) = update_where p f (db_runs db)" by simp
  have "\<exists>r' \<in> set (db_runs (update_runs p f db)). run_id r' = run_id r \<and>
      (run_is_terminal (run_status r') \<longrightarrow> run_is_terminal (run_status r) \<or> notified (update_runs p f db) (run_id r))"
    if r: "r \<in> set (db_runs db)" for r
  proof (cases "p r")
    case True
    have "f r \<in> set (db_runs (update_runs p f db))" unfolding runs set_update_where using r True by force
    moreover have "run_is_terminal (run_status (f r)) \<longrightarrow> run_is_terminal (run_status r) \<or> notified (update_runs p f db) (run_id r)"
      using fold r True by (auto simp: becomes_terminal_def)
    ultimately show ?thesis using assms by blast
  next
    case False
    then have "r \<in> set (db_runs (update_runs p f db))" unfolding runs set_update_where using r by force
    then show ?thesis by blast
  qed
  then show ?thesis using fold unfolding signals_def event_of_def by simp
qed

lemma signals_update_runs [simp]: "(\<And>r. run_id (f r) = run_id r) \<Longrightarrow> signals db d \<Longrightarrow> signals db (update_runs p f d)"
  using signals_trans update_runs_signals by blast

lemma signals_simps [simp]:
  "signals db (update_attempts p' f' d) = signals db d"
  "signals db (update_outbox p'' f'' d) = signals db d"
  "signals db (insert_run_event now rid t d) = signals db d"
  by (simp_all add: signals_def notified_def owned_def update_attempts_def update_outbox_def insert_run_event_def)

section \<open>The Run transactions\<close>

lemma insert_run_signals: "insert_run r db = Inr db' \<Longrightarrow> signals db db'"
  by (rule signals_tables) (auto simp: insert_run_def split: if_splits)

lemma create_attempt_signals: "create_attempt_and_outbox now rid n q d db = Inr db' \<Longrightarrow> signals db db'"
  by (rule signals_tables) (auto simp: create_attempt_and_outbox_def Let_def split: if_splits)

lemma create_normal_run_signals: "create_normal_run now p db = Inr db' \<Longrightarrow> signals db db'"
  unfolding create_normal_run_def
  by (elim and_thenE) (auto intro: signals_trans [OF insert_run_signals create_attempt_signals])

lemma create_normal_runs_signals: "create_normal_runs now ps db = Inr db' \<Longrightarrow> signals db db'"
  by (induction now ps db rule: create_normal_runs.induct) (auto intro: signals_trans create_normal_run_signals)

lemma create_runs_signals:
  assumes "create_runs encode jeq now rid jid target inputs db = Inr (db', res)"
  shows "signals db db'"
proof (cases "find_run_request db rid")
  case (Some e)
  then show ?thesis using assms by (auto simp: create_runs_def)
next
  case None
  then obtain ps n req where "create_normal_runs now ps (db\<lparr> db_next_id := db_next_id db + n, db_requests := db_requests db @ [req] \<rparr>) = Inr db'"
    using assms by (auto simp: create_runs_def Let_def)
  then show ?thesis by (intro signals_trans [OF signals_tables create_normal_runs_signals]) simp_all
qed

lemma insert_rerun_signals:
  assumes "insert_rerun now src rid db = Inr (db', res)"
  shows "signals db db'"
  using assms unfolding insert_rerun_def
proof (elim and_thenE, goal_cases)
  case (1 existing)
  show ?case
  proof (cases existing)
    case (Some run)
    then show ?thesis using 1 by simp
  next
    case None
    then obtain req r db2 q db3 where steps: "insert_run r (db\<lparr> db_next_id := db_next_id db + 1, db_requests := db_requests db @ [req] \<rparr>) = Inr db2"
        "create_attempt_and_outbox now (db_next_id db) 1 q None db2 = Inr db3"
        "db' = insert_run_event now (db_next_id db) ''created'' db3"
      using 1 by (auto simp: Let_def case_prod_unfold simp del: and_then_Ok elim!: and_thenE)
    have "signals db (db\<lparr> db_next_id := db_next_id db + 1, db_requests := db_requests db @ [req] \<rparr>)" by (rule signals_tables) simp_all
    also have "signals \<dots> db2" using steps(1) by (rule insert_run_signals)
    also have "signals \<dots> db3" using steps(2) by (rule create_attempt_signals)
    finally show ?thesis by (simp add: steps(3))
  qed
qed

lemma claim_due_schedules_signals: "claim_due_schedules now locked owner n l db = Inr (db', res) \<Longrightarrow> signals db db'"
  by (rule signals_tables) (auto simp: claim_due_schedules_def Let_def)

lemma insert_scheduled_occurrence_signals:
  assumes "insert_scheduled_occurrence encode now sid occ e si ii db = Inr db'"
  shows "signals db db'"
  by (rule signals_tables)
    (use assms in \<open>auto simp: insert_scheduled_occurrence_def insert_run_def create_attempt_and_outbox_def Let_def insert_run_event_def
      simp del: and_then_Ok elim!: and_thenE split: if_splits option.splits sum.splits\<close>)

lemma insert_occurrences_signals:
  "insert_occurrences encode now sid occs es si ii db = Inr db' \<Longrightarrow> signals db db'"
proof (induction occs arbitrary: db)
  case (Cons occ occs)
  have "insert_occurrence_executions encode now sid occ es si ii db = Inr db' \<Longrightarrow> signals db db'" for db db'
    by (induction es arbitrary: db)
      (auto elim!: and_thenE simp del: and_then_Ok intro: signals_trans insert_scheduled_occurrence_signals)
  then show ?case using Cons by (auto elim!: and_thenE simp del: and_then_Ok intro: signals_trans)
qed simp

lemma signals_schedules [simp]: "signals db (d\<lparr> db_schedules := ss, db_schedule_events := es \<rparr>) = signals db d"
  "signals db (d\<lparr> db_schedules := ss \<rparr>) = signals db d" "signals db (d\<lparr> db_schedule_events := es \<rparr>) = signals db d"
  "signals (d\<lparr> db_next_id := k \<rparr>) db' = signals d db'"
  by (simp_all add: signals_def notified_def owned_def event_of_def)

lemma commit_schedule_plan_signals: "commit_schedule_plan encode now p db = Inr (db', u) \<Longrightarrow> signals db db'"
  unfolding commit_schedule_plan_def
  by (auto dest!: insert_occurrences_signals simp: Let_def case_prod_unfold simp del: and_then_Ok elim!: and_thenE split: if_splits option.splits)

lemma claim_outbox_signals: "claim_outbox now locked owner n l db = Inr (db', res) \<Longrightarrow> signals db db'"
  by (auto simp: claim_outbox_def Let_def)

lemma mark_published_signals: "mark_published now owner rec seq db = Inr (db', u) \<Longrightarrow> signals db db'"
  by (auto simp: mark_published_def Let_def split: if_splits)

lemma record_publish_failure_signals: "record_publish_failure owner i m t db = Inr (db', u) \<Longrightarrow> signals db db'"
  by (auto simp: record_publish_failure_def)

lemma claim_attempt_signals: "claim_attempt now req db = (db', res) \<Longrightarrow> signals db db'"
  by (auto simp: claim_attempt_def Let_def split: if_splits option.splits StoredSnapshot.splits)

lemma renew_lease_signals: "renew_lease now aid wid db = Inr (db', res) \<Longrightarrow> signals db db'"
  by (auto simp: renew_lease_def split: if_splits)

lemma record_attempt_output_signals: "record_attempt_output now req db = Inr (db', res) \<Longrightarrow> signals db db'"
  by (auto simp: record_attempt_output_def Let_def split: if_splits)

lemma complete_attempt_signals: "complete_attempt delay now utc req db = Inr (db', res) \<Longrightarrow> signals db db'"
  by (erule complete_attempt_cases) (simp_all add: Let_def)

lemma fold_result_signals:
  assumes "\<And>r d d'. f r d = Inr d' \<Longrightarrow> signals d d'" "fold_result f rs db = Inr db'"
  shows "signals db db'"
  using assms(2)
proof (induction rs arbitrary: db)
  case (Cons r rs)
  then show ?case using assms(1) signals_trans by fastforce
qed simp

lemma fold_signals: "(\<And>x d. signals d (f x d)) \<Longrightarrow> signals db (fold f xs db)"
  by (induction xs arbitrary: db) (auto intro: signals_trans)

lemma next_attempt_signals: "next_attempt_run S rid k db = Inr db' \<Longrightarrow> signals db db'"
  by (auto simp: next_attempt_run_def Let_def split: if_splits)

lemma dispatch_retry_signals: "dispatch_retry now r db = Inr db' \<Longrightarrow> signals db db'"
  by (auto simp: dispatch_retry_def simp del: and_then_Ok elim!: and_thenE
      intro: signals_trans [OF next_attempt_signals create_attempt_signals])

lemma expire_lease_signals: "expire_lease now (a, r) db = Inr db' \<Longrightarrow> signals db db'"
proof (erule expire_lease_cases)
  fix q db2
  assume "next_attempt_run Running (run_id r) (run_attempt_count r + 1) (abandon_attempt now (att_id a) True db) = Inr db2"
    and new: "create_attempt_and_outbox now (run_id r) (run_attempt_count r + 1) q None db2 = Inr db'"
  have "signals db (abandon_attempt now (att_id a) True db)" by (simp add: abandon_attempt_def)
  also have "signals \<dots> db2" by (rule next_attempt_signals) fact
  also have "signals \<dots> db'" using new by (rule create_attempt_signals)
  finally show ?thesis .
qed (simp add: lose_run_def abandon_attempt_def)

lemma reconcile_runs_signals:
  assumes step: "reconcile_runs now locked wlocked limit db = Inr (db', n)"
  shows "signals db db'"
  using step
proof (cases rule: reconcile_runs_parts)
  case (1 db1 n1 db2 n2 db3 n3)
  have "db1 = fst (reconcile_expired_dispatches now locked limit db)" by (simp add: 1(1))
  then have "signals db db1"
    by (simp add: reconcile_expired_dispatches_def Let_def fold_signals expire_dispatch_def)
  also have "signals db1 db2"
    using 1(2) by (auto simp: reconcile_due_retries_def Let_def intro: fold_result_signals [OF dispatch_retry_signals])
  also have "signals db2 db3"
    using 1(3) by (auto simp: reconcile_expired_leases_def Let_def intro: fold_result_signals [where f = "expire_lease now"] expire_lease_signals)
  also have "signals db3 db'"
    unfolding 1(4) release_expired_claims_def
    by (simp add: remove_expired_worker_presence_def Let_def) (rule signals_tables, simp_all)
  finally show ?thesis .
qed

lemma handle_worker_signals: "handle_worker codec delay now utc req db = (db', out) \<Longrightarrow> signals db db'"
proof (erule handle_worker_cases)
  fix request
  assume "record_worker_heartbeat (enc_diagnostics codec) now request db = Inr (db', ())"
  then obtain ws where "db' = db\<lparr> db_workers := ws \<rparr>" using heartbeat_frame by blast
  then show "signals db db'" by (simp add: signals_tables)
qed (auto dest: claim_attempt_signals renew_lease_signals complete_attempt_signals record_attempt_output_signals)

end
