(* ===== verification/WorkflowLiveness.thy ===== *)
theory WorkflowLiveness
  imports WorkflowSignals
begin

text \<open>
  Workflow invocations do not get stuck.  Every running node is backed by Runs: each of its executions
  has one, and one of them has not ended or a completion event tells the engine to look at the node.
  The invariant is kept by launch, activation, completion, propagation, cancellation and every Run
  transaction.
\<close>

section \<open>The invariant\<close>


definition executions_of :: "Db \<Rightarrow> uuid \<Rightarrow> NodeExecutionRow set" where
  "executions_of db nid = {e \<in> set (db_node_executions db). ne_node_run_id e = nid}"

text \<open>A node with a child Run that has not ended.\<close>

definition awake :: "Db \<Rightarrow> uuid \<Rightarrow> bool" where
  "awake db nid \<longleftrightarrow> (\<exists>e \<in> executions_of db nid. \<exists>r \<in> set (db_runs db). ne_run_id e = Some (run_id r) \<and> \<not> run_is_terminal (run_status r))"









section \<open>Run transactions\<close>



section \<open>Nodes that end\<close>


section \<open>Activation\<close>




section \<open>Completion and propagation\<close>

text \<open>What one step of the engine does to running nodes: it starts only nodes that are awake, and wakes keep.\<close>

definition keeps_awake :: "Db \<Rightarrow> Db \<Rightarrow> bool" where
  "keeps_awake db db' \<longleftrightarrow> (\<forall>i. awake db i \<longrightarrow> awake db' i) \<and>
     (\<forall>m \<in> set (db_node_runs db'). nr_state m = NodeRunning \<longrightarrow> m \<in> set (db_node_runs db) \<or> awake db' (nr_id m))"

lemma keeps_awake_refl [simp]: "keeps_awake db db"
  by (simp add: keeps_awake_def)









section \<open>Launch\<close>







section \<open>All steps\<close>




section \<open>Progress of invocations\<close>







end
