(* ===== verification/GrantCodec.thy ===== *)
theory GrantCodec
  imports Authentication
begin

text \<open>
  The interchange document of a grant set (\<open>auth/grants.rs\<close>): the hand-written serialisation of
  scopes and Namespace identifiers, the document and its assignments, and the two conversions
  \<open>GrantSet::to_json\<close> and \<open>GrantSet::from_verified_json\<close>.  A JSON text is read into and written from
  its syntax tree, with the members of an object in the order of the text, so that repeated
  members are visible.
\<close>

section \<open>The document\<close>

definition MAX_GRANT_DOCUMENT_BYTES :: nat where "MAX_GRANT_DOCUMENT_BYTES = 65536"

record Assignment =
  as_scope :: GrantScope
  as_permissions :: "bytes list"

record GrantDocument =
  doc_version :: nat
  doc_grants :: "Assignment list"

text \<open>
  Code of other crates: \<open>gc_parse\<close> and \<open>gc_print\<close> between texts and syntax trees (\<open>serde_json\<close>),
  \<open>gc_hyphenated\<close> and \<open>gc_parse_str\<close> for identifiers (\<open>uuid\<close>), and \<open>gc_scope_seq\<close>, the reading that
  the code \<open>serde\<close> generates gives to a scope written as an array.
\<close>

record GrantCodec =
  gc_parse :: "bytes \<Rightarrow> json option"
  gc_print :: "json \<Rightarrow> bytes option"
  gc_hyphenated :: "uuid \<Rightarrow> bytes"
  gc_parse_str :: "bytes \<Rightarrow> uuid option"
  gc_scope_seq :: "json list \<Rightarrow> GrantScope option"

section \<open>Writing\<close>

definition serialize_namespace :: "GrantCodec \<Rightarrow> uuid \<Rightarrow> json" where
  "serialize_namespace C n = JString (gc_hyphenated C n)"

fun serialize_scope :: "GrantCodec \<Rightarrow> GrantScope \<Rightarrow> json" where
  "serialize_scope C GrantGlobal = JObject [(''kind'', JString ''global'')]"
| "serialize_scope C GrantAllNamespaces = JObject [(''kind'', JString ''all_namespaces'')]"
| "serialize_scope C (GrantNamespace n) =
     JObject [(''kind'', JString ''namespace''), (''namespace_id'', serialize_namespace C n)]"

definition serialize_assignment :: "GrantCodec \<Rightarrow> Assignment \<Rightarrow> json" where
  "serialize_assignment C a =
     JObject [(''scope'', serialize_scope C (as_scope a)), (''permissions'', JArray (map JString (as_permissions a)))]"

definition serialize_document :: "GrantCodec \<Rightarrow> GrantDocument \<Rightarrow> json" where
  "serialize_document C d =
     JObject [(''version'', JNumber (decimal (doc_version d))), (''grants'', JArray (map (serialize_assignment C) (doc_grants d)))]"

definition to_document :: "GrantSet \<Rightarrow> GrantDocument" where
  "to_document g = \<lparr> doc_version = 1, doc_grants =
     map (\<lambda>(s, cs). \<lparr> as_scope = s, as_permissions = map (\<lambda>c. perm_identifier (cap_definition c)) cs \<rparr>) g \<rparr>"

definition to_json :: "GrantCodec \<Rightarrow> GrantSet \<Rightarrow> (GrantError, bytes) result" where
  "to_json C g =
     and_then (ok_or InvalidDocument (gc_print C (serialize_document C (to_document g)))) (\<lambda>b.
     if length b > MAX_GRANT_DOCUMENT_BYTES then Err TooLarge else Ok b)"

section \<open>Reading\<close>

text \<open>A member that a structure asks for is present once; the structures deny unknown members.\<close>

definition member :: "bytes \<Rightarrow> (bytes \<times> json) list \<Rightarrow> json option" where
  "member k m = (case filter (\<lambda>e. fst e = k) m of [e] \<Rightarrow> Some (snd e) | _ \<Rightarrow> None)"

definition only_members :: "bytes list \<Rightarrow> (bytes \<times> json) list \<Rightarrow> bool" where
  "only_members ks m \<longleftrightarrow> (\<forall>e \<in> set m. fst e \<in> set ks)"

text \<open>A structure of two fields: an object with exactly these members, or an array of two elements.\<close>

fun read_struct :: "bytes \<Rightarrow> bytes \<Rightarrow> json \<Rightarrow> (json \<times> json) option" where
  "read_struct a b (JObject m) =
     (if only_members [a, b] m then Option.bind (member a m) (\<lambda>v. map_option (Pair v) (member b m)) else None)"
| "read_struct a b (JArray [v, w]) = Some (v, w)"
| "read_struct a b _ = None"

fun read_string :: "json \<Rightarrow> bytes option" where
  "read_string (JString t) = Some t"
| "read_string _ = None"

fun read_u16 :: "json \<Rightarrow> nat option" where
  "read_u16 (JNumber t) =
     (if t \<noteq> [] \<and> (\<forall>c \<in> set t. is_ascii_digit c) \<and> digits_value t \<le> 65535 then Some (digits_value t) else None)"
| "read_u16 _ = None"

fun read_all :: "('a \<Rightarrow> 'b option) \<Rightarrow> 'a list \<Rightarrow> 'b list option" where
  "read_all f [] = Some []"
| "read_all f (v # vs) = Option.bind (f v) (\<lambda>x. map_option ((#) x) (read_all f vs))"

fun read_vec :: "(json \<Rightarrow> 'b option) \<Rightarrow> json \<Rightarrow> 'b list option" where
  "read_vec f (JArray vs) = read_all f vs"
| "read_vec f _ = None"

definition deserialize_namespace :: "GrantCodec \<Rightarrow> json \<Rightarrow> uuid option" where
  "deserialize_namespace C v =
     Option.bind (read_string v) (\<lambda>text.
     Option.bind (gc_parse_str C text) (\<lambda>i.
     if \<not> eq_ignore_ascii_case text (gc_hyphenated C i) then None else Some i))"

fun deserialize_scope :: "GrantCodec \<Rightarrow> json \<Rightarrow> GrantScope option" where
  "deserialize_scope C (JObject m) =
     Option.bind (Option.bind (member ''kind'' m) read_string) (\<lambda>kind.
     let rest = filter (\<lambda>e. fst e \<noteq> ''kind'') m in
     if kind = ''global'' then (if only_members [] rest then Some GrantGlobal else None)
     else if kind = ''all_namespaces'' then (if only_members [] rest then Some GrantAllNamespaces else None)
     else if kind = ''namespace'' then
       (if only_members [''namespace_id''] rest
        then map_option GrantNamespace (Option.bind (member ''namespace_id'' rest) (deserialize_namespace C)) else None)
     else None)"
| "deserialize_scope C (JArray vs) = gc_scope_seq C vs"
| "deserialize_scope C _ = None"

definition deserialize_assignment :: "GrantCodec \<Rightarrow> json \<Rightarrow> Assignment option" where
  "deserialize_assignment C v =
     Option.bind (read_struct ''scope'' ''permissions'' v) (\<lambda>(s, p).
     Option.bind (deserialize_scope C s) (\<lambda>sc.
     map_option (\<lambda>ps. \<lparr> as_scope = sc, as_permissions = ps \<rparr>) (read_vec read_string p)))"

definition deserialize_document :: "GrantCodec \<Rightarrow> json \<Rightarrow> GrantDocument option" where
  "deserialize_document C v =
     Option.bind (read_struct ''version'' ''grants'' v) (\<lambda>(n, g).
     Option.bind (read_u16 n) (\<lambda>ver.
     map_option (\<lambda>gs. \<lparr> doc_version = ver, doc_grants = gs \<rparr>) (read_vec (deserialize_assignment C) g)))"

definition from_verified_json :: "GrantCodec \<Rightarrow> bytes option \<Rightarrow> (GrantError, GrantSet) result" where
  "from_verified_json C document =
     (case document of
        None \<Rightarrow> Ok []
      | Some b \<Rightarrow>
          if length b > MAX_GRANT_DOCUMENT_BYTES then Err TooLarge
          else and_then (ok_or InvalidDocument (Option.bind (gc_parse C b) (deserialize_document C))) (\<lambda>d.
            if doc_version d \<noteq> 1 then Err UnsupportedVersion
            else if length (doc_grants d) > MAX_GRANT_ENTRIES then Err TooLarge
            else and_then (traverse (\<lambda>a.
                   and_then (traverse (\<lambda>i. ok_or UnknownPermission (from_permission_id i)) (as_permissions a))
                     (\<lambda>cs. Ok (as_scope a, cs))) (doc_grants d)) GrantSet_new))"

section \<open>The reader inverts the writer, layer by layer\<close>

lemma read_all_map: "(\<And>x. x \<in> set xs \<Longrightarrow> f (h x) = Some x) \<Longrightarrow> read_all f (map h xs) = Some xs"
  by (induction xs) auto

lemma namespace_roundtrip:
  "gc_parse_str C (gc_hyphenated C n) = Some n \<Longrightarrow> deserialize_namespace C (serialize_namespace C n) = Some n"
  by (simp add: deserialize_namespace_def serialize_namespace_def eq_ignore_ascii_case_def)

lemma scope_roundtrip:
  "(\<And>n. s = GrantNamespace n \<Longrightarrow> gc_parse_str C (gc_hyphenated C n) = Some n) \<Longrightarrow>
     deserialize_scope C (serialize_scope C s) = Some s"
  by (cases s) (simp_all add: member_def only_members_def namespace_roundtrip)

lemma assignment_roundtrip:
  "deserialize_scope C (serialize_scope C (as_scope a)) = Some (as_scope a) \<Longrightarrow>
     deserialize_assignment C (serialize_assignment C a) = Some a"
  by (simp add: deserialize_assignment_def serialize_assignment_def member_def only_members_def read_all_map)

lemma version_roundtrip: "n \<le> 65535 \<Longrightarrow> read_u16 (JNumber (decimal n)) = Some n"
  using decimal_digits [of n] by (simp add: digits_value_decimal)

lemma document_roundtrip:
  assumes "doc_version d \<le> 65535"
    and "\<And>a. a \<in> set (doc_grants d) \<Longrightarrow> deserialize_scope C (serialize_scope C (as_scope a)) = Some (as_scope a)"
  shows "deserialize_document C (serialize_document C d) = Some d"
proof -
  have "read_all (deserialize_assignment C) (map (serialize_assignment C) (doc_grants d)) = Some (doc_grants d)"
    using assms(2) by (intro read_all_map assignment_roundtrip)
  then show ?thesis
    using version_roundtrip [OF assms(1)]
    by (simp add: deserialize_document_def serialize_document_def member_def only_members_def del: read_u16.simps)
qed

lemma traverse_identifiers:
  "traverse (\<lambda>i. ok_or UnknownPermission (from_permission_id i)) (map (\<lambda>c. perm_identifier (cap_definition c)) cs) = Inr cs"
  by (induction cs) (simp_all add: from_permission_id_identifier del: ok_or_Ok)

lemma traverse_assignments:
  "traverse (\<lambda>a. and_then (traverse (\<lambda>i. ok_or UnknownPermission (from_permission_id i)) (as_permissions a))
       (\<lambda>cs. Ok (as_scope a, cs)))
     (map (\<lambda>(s, cs). \<lparr> as_scope = s, as_permissions = map (\<lambda>c. perm_identifier (cap_definition c)) cs \<rparr>) g) = Inr g"
  by (induction g) (simp_all add: traverse_identifiers case_prod_unfold)

lemma to_document_read:
  assumes "\<And>n. n \<in> (\<Union>(s, cs) \<in> set g. case s of GrantNamespace n \<Rightarrow> {n} | _ \<Rightarrow> {}) \<Longrightarrow> gc_parse_str C (gc_hyphenated C n) = Some n"
  shows "deserialize_document C (serialize_document C (to_document g)) = Some (to_document g)"
proof (rule document_roundtrip)
  fix a
  assume "a \<in> set (doc_grants (to_document g))"
  then obtain s cs where "(s, cs) \<in> set g" "as_scope a = s" by (auto simp: to_document_def)
  then show "deserialize_scope C (serialize_scope C (as_scope a)) = Some (as_scope a)"
    using assms by (intro scope_roundtrip) force
qed (simp add: to_document_def)

text \<open>A scope object with a member that its kind does not have is never authority.\<close>

lemma scope_members:
  assumes "deserialize_scope C (JObject m) = Some s" "(k, v) \<in> set m"
  shows "k = ''kind'' \<or> k = ''namespace_id'' \<and> (\<exists>n. s = GrantNamespace n \<and> deserialize_namespace C v = Some n)"
proof (cases "k = ''kind''")
  case False
  then have i: "(k, v) \<in> set (filter (\<lambda>e. fst e \<noteq> ''kind'') m)" using assms(2) by simp
  then have no: "\<not> only_members [] (filter (\<lambda>e. fst e \<noteq> ''kind'') m)" by (auto simp: only_members_def)
  have ns: "only_members [''namespace_id''] (filter (\<lambda>e. fst e \<noteq> ''kind'') m)"
    and s: "map_option GrantNamespace (Option.bind (member ''namespace_id'' (filter (\<lambda>e. fst e \<noteq> ''kind'') m)) (deserialize_namespace C)) = Some s"
    using assms(1) no by (auto simp: Let_def bind_eq_Some_conv split: if_splits)
  have k: "k = ''namespace_id''" using ns i by (auto simp: only_members_def)
  obtain w n where w: "member ''namespace_id'' (filter (\<lambda>e. fst e \<noteq> ''kind'') m) = Some w"
      "deserialize_namespace C w = Some n" "s = GrantNamespace n"
    using s by (auto simp: bind_eq_Some_conv)
  obtain e where "filter (\<lambda>e. fst e = ''namespace_id'') (filter (\<lambda>e. fst e \<noteq> ''kind'') m) = [e]" "w = snd e"
    using w(1) by (auto simp: member_def split: list.splits)
  moreover have "(k, v) \<in> set (filter (\<lambda>e. fst e = ''namespace_id'') (filter (\<lambda>e. fst e \<noteq> ''kind'') m))" using i k by simp
  ultimately have "v = w" by (metis empty_iff insert_iff list.set snd_conv)
  then show ?thesis using k w by blast
qed simp

text \<open>
  C38. Authority survives its interchange: the document a normalised grant set is written to, with its
  scopes tagged by kind and its Namespaces as hyphenated identifiers, is read back as the same grant
  set by the verifying reader, which refuses unknown and repeated members and identifiers in any other
  spelling.  The identifiers of the set and the document itself are assumed to be read back by the
  crates that print them.
\<close>

theorem grants_roundtrip:
  assumes "grants_ok g" "length g \<le> MAX_GRANT_ENTRIES" "to_json C g = Inr b"
    and uuid: "\<And>n. n \<in> (\<Union>(s, cs) \<in> set g. case s of GrantNamespace n \<Rightarrow> {n} | _ \<Rightarrow> {}) \<Longrightarrow>
      gc_parse_str C (gc_hyphenated C n) = Some n"
    and json: "\<And>t. gc_print C (serialize_document C (to_document g)) = Some t \<Longrightarrow>
      gc_parse C t = Some (serialize_document C (to_document g))"
  shows "from_verified_json C (Some b) = Inr g"
proof -
  from assms(3) have b: "gc_print C (serialize_document C (to_document g)) = Some b" "length b \<le> MAX_GRANT_DOCUMENT_BYTES"
    by (auto simp: to_json_def split: if_splits)
  have "Option.bind (gc_parse C b) (deserialize_document C) = Some (to_document g)"
    using json [OF b(1)] to_document_read [OF uuid] by simp
  then show ?thesis
    using b(2) assms(2) traverse_assignments [of g] GrantSet_new_self [OF assms(1,2)]
    by (simp add: from_verified_json_def to_document_def del: and_then_Ok)
qed

lemma decimal_1: "decimal 1 = ''1''"
  by code_simp

definition sample_codec :: GrantCodec where
  "sample_codec = \<lparr>
     gc_parse = (\<lambda>t. if t = ''x'' then Some (JObject [(''version'', JNumber ''1''), (''grants'', JArray [JObject [
         (''scope'', JObject [(''kind'', JString ''namespace''), (''namespace_id'', JString ''00000000-0000-0000-0000-00000000000a'')]),
         (''permissions'', JArray [JString ''crono.run.read''])]])]) else None),
     gc_print = (\<lambda>v. Some ''x''),
     gc_hyphenated = (\<lambda>n. ''00000000-0000-0000-0000-00000000000'' @ (if n = 10 then ''a'' else ''0'')),
     gc_parse_str = (\<lambda>t. if eq_ignore_ascii_case t ''00000000-0000-0000-0000-00000000000a'' then Some 10 else None),
     gc_scope_seq = (\<lambda>_. None) \<rparr>"

theorem grants_roundtrip_witness:
  "to_json sample_codec [(GrantNamespace 10, [RunRead])] = Inr ''x'' \<and>
   from_verified_json sample_codec (Some ''x'') = Inr [(GrantNamespace 10, [RunRead])]"
proof -
  have w: "to_json sample_codec [(GrantNamespace 10, [RunRead])] = Inr ''x''"
    by (simp add: to_json_def sample_codec_def MAX_GRANT_DOCUMENT_BYTES_def)
  have "from_verified_json sample_codec (Some ''x'') = Inr [(GrantNamespace 10, [RunRead])]"
  proof (rule grants_roundtrip [OF _ _ w])
    show "grants_ok [(GrantNamespace 10, [RunRead])]" by (simp add: grants_ok_def compatible_def permission_def)
  qed (simp_all add: MAX_GRANT_ENTRIES_def sample_codec_def eq_ignore_ascii_case_def serialize_document_def to_document_def
      serialize_assignment_def serialize_namespace_def decimal_1 permission_def del: One_nat_def)
  then show ?thesis using w by simp
qed

end
