(* ===== verification/Layout.thy ===== *)
theory Layout
  imports WorkflowGraph
begin

text \<open>
  The preview of a Workflow in the web console (\<open>apps/web/src/workflow_layout.rs\<close>): layers by Kahn
  traversal over the definition's node indices, and the coordinates of the cards.  Drafts may have
  missing endpoints, repeated edges and cycles.
\<close>

section \<open>Model\<close>

definition NODE_WIDTH :: nat where "NODE_WIDTH = 224"
definition NODE_HEIGHT :: nat where "NODE_HEIGHT = 128"
definition COLUMN_GAP :: nat where "COLUMN_GAP = 88"
definition ROW_GAP :: nat where "ROW_GAP = 96"
definition PADDING :: nat where "PADDING = 72"

lemmas layout_constants = NODE_WIDTH_def NODE_HEIGHT_def COLUMN_GAP_def ROW_GAP_def PADDING_def

text \<open>The largest \<open>usize\<close> of the browser's 32-bit target.\<close>

definition usize_max :: nat where "usize_max = 4294967295"

record NodePosition =
  node_index :: nat
  node_depth :: nat
  node_x :: nat
  node_y :: nat

record GraphLayout =
  layout_nodes :: "NodePosition list"
  layout_width :: nat
  layout_height :: nat
  unresolved :: bool

text \<open>Counting and listing the edges; an access out of range is skipped, as \<open>get_mut\<close> does.\<close>

fun layout_edges :: "nat \<Rightarrow> nat list \<times> nat list list \<Rightarrow> (nat \<times> nat) list \<Rightarrow> nat list \<times> nat list list" where
  "layout_edges count (incoming, outgoing) [] = (incoming, outgoing)"
| "layout_edges count (incoming, outgoing) ((from, to) # edges) =
     (if from \<ge> count \<or> to \<ge> count then layout_edges count (incoming, outgoing) edges
      else layout_edges count (incoming[to := incoming ! to + 1], outgoing[from := outgoing ! from @ [to]]) edges)"

text \<open>The loop over the successors of one node: \<open>*value == 0\<close> is tested after the saturating decrement.\<close>

fun layout_relax :: "nat \<Rightarrow> nat list \<times> nat list \<times> nat list \<Rightarrow> nat list \<Rightarrow> nat list \<times> nat list \<times> nat list" where
  "layout_relax next_depth (incoming, depths, ready) [] = (incoming, depths, ready)"
| "layout_relax next_depth (incoming, depths, ready) (downstream # rest) =
     (let depths' = (if downstream < length depths then depths[downstream := max (depths ! downstream) next_depth] else depths);
          v = incoming ! downstream - 1 in
      if downstream < length incoming
      then layout_relax next_depth
        (incoming[downstream := v], depths', if v = 0 then ready @ [downstream] else ready) rest
      else layout_relax next_depth (incoming, depths', ready) rest)"

text \<open>
  The traversal.  A node is enqueued whenever its counter is found to be zero, so the loop ends only
  because every counter reaches zero once; \<open>None\<close> is a traversal that does not end.
\<close>

definition nth_or :: "'a \<Rightarrow> 'a list \<Rightarrow> nat \<Rightarrow> 'a" where
  "nth_or d xs i = (if i < length xs then xs ! i else d)"

partial_function (option) layout_loop ::
  "nat list list \<Rightarrow> nat list \<Rightarrow> nat list \<Rightarrow> bool list \<Rightarrow> nat list \<Rightarrow> (nat list \<times> bool list) option" where
  "layout_loop outgoing incoming depths visited ready =
     (case ready of
        [] \<Rightarrow> Some (depths, visited)
      | index # rest \<Rightarrow>
          (let next_depth = nth_or 0 depths index + 1;
               (incoming', depths', ready') = layout_relax next_depth (incoming, depths, rest) (nth_or [] outgoing index) in
           layout_loop outgoing incoming' depths' (visited[index := True]) ready'))"

declare layout_loop.simps [code del]

lemma layout_loop_Nil [simp, code]: "layout_loop outgoing incoming depths visited [] = Some (depths, visited)"
  by (subst layout_loop.simps) simp

lemma layout_loop_Cons [simp, code]:
  "layout_loop outgoing incoming depths visited (index # rest) =
     (case layout_relax (nth_or 0 depths index + 1) (incoming, depths, rest) (nth_or [] outgoing index) of
        (incoming', depths', ready') \<Rightarrow> layout_loop outgoing incoming' depths' (visited[index := True]) ready')"
  by (subst layout_loop.simps) (simp add: Let_def)

definition row_width :: "nat \<Rightarrow> nat" where
  "row_width n = min usize_max (n * (NODE_WIDTH + COLUMN_GAP)) - COLUMN_GAP"

text \<open>The cards of the remaining nodes; \<open>slots\<close> counts the cards already placed in each layer.\<close>

fun place_nodes :: "nat list \<Rightarrow> nat \<Rightarrow> nat list \<Rightarrow> nat \<Rightarrow> nat list \<Rightarrow> NodePosition list" where
  "place_nodes sizes widest slots index [] = []"
| "place_nodes sizes widest slots index (depth # depths) =
     (let offset = nth_or 0 slots depth;
          width = row_width (nth_or 0 sizes depth) in
      \<lparr> node_index = index, node_depth = depth,
        node_x = PADDING + (widest - width) div 2 + offset * (NODE_WIDTH + COLUMN_GAP),
        node_y = PADDING + depth * (NODE_HEIGHT + ROW_GAP) \<rparr>
      # place_nodes sizes widest (slots[depth := offset + 1]) (index + 1) depths)"

fun max_or :: "nat \<Rightarrow> nat list \<Rightarrow> nat" where
  "max_or d [] = d"
| "max_or d (x # xs) = foldl max x xs"

definition finish_layout :: "nat list \<Rightarrow> bool list \<Rightarrow> GraphLayout" where
  "finish_layout depths visited =
     (let open_draft = list_ex Not visited;
          seen = map fst (filter snd (zip depths visited));
          draft_depth = (if seen = [] then 0 else max_or 0 seen + 1);
          depths = map (\<lambda>(depth, seen). if seen then depth else draft_depth) (zip depths visited);
          layers = (if depths = [] then 1 else max_or 0 depths + 1);
          sizes = foldl (\<lambda>sizes depth. if depth < length sizes then sizes[depth := sizes ! depth + 1] else sizes)
            (replicate layers 0) depths;
          widest = row_width (max_or 1 sizes) in
      \<lparr> layout_nodes = place_nodes sizes widest (replicate layers 0) 0 depths,
        layout_width = widest + 2 * PADDING,
        layout_height = layers * (NODE_HEIGHT + ROW_GAP) - ROW_GAP + 2 * PADDING,
        unresolved = open_draft \<rparr>)"

definition layered_layout :: "nat \<Rightarrow> (nat \<times> nat) list \<Rightarrow> GraphLayout option" where
  "layered_layout count edges =
     (let (incoming, outgoing) = layout_edges count (replicate count 0, replicate count []) edges;
          ready = filter (\<lambda>i. incoming ! i = 0) [0..<count] in
      map_option (\<lambda>(depths, visited). finish_layout depths visited)
        (layout_loop outgoing incoming (replicate count 0) (replicate count False) ready))"

section \<open>The traversal\<close>

text \<open>The edges of a draft whose endpoints exist.\<close>

definition inside :: "nat \<Rightarrow> (nat \<times> nat) list \<Rightarrow> (nat \<times> nat) list" where
  "inside n edges = filter (\<lambda>(a, b). a < n \<and> b < n) edges"

lemma layout_edges_spec:
  assumes "layout_edges n (inc, out) es = (inc', out')" "length inc = n" "length out = n"
  shows "length inc' = n \<and> length out' = n \<and>
    (\<forall>k < n. inc' ! k = inc ! k + length (filter (\<lambda>(a, b). b = k) (inside n es))) \<and>
    (\<forall>k < n. out' ! k = out ! k @ map snd (filter (\<lambda>(a, b). a = k) (inside n es)))"
  using assms
proof (induction es arbitrary: inc out)
  case (Cons e es)
  obtain a b where e: "e = (a, b)" by fastforce
  show ?case
  proof (cases "a \<ge> n \<or> b \<ge> n")
    case True
    then show ?thesis using Cons.IH [of inc out] Cons.prems by (auto simp: e inside_def)
  next
    case False
    then show ?thesis using Cons.IH [of "inc[b := inc ! b + 1]" "out[a := out ! a @ [b]]"] Cons.prems
      by (auto simp: e inside_def nth_list_update)
  qed
qed (simp add: inside_def)

lemma layout_relax_spec:
  assumes "layout_relax d (inc, dep, ready) ds = (inc', dep', ready')" "length inc = n" "length dep = n"
    and "\<forall>x \<in> set ds. x < n" "\<forall>k < n. count_list ds k \<le> inc ! k"
  shows "length inc' = n \<and> length dep' = n \<and> (\<forall>k < n. inc' ! k = inc ! k - count_list ds k) \<and>
    (\<forall>k < n. dep' ! k = (if k \<in> set ds then max (dep ! k) d else dep ! k)) \<and>
    (\<exists>new. ready' = ready @ new \<and> distinct new \<and> set new = {k \<in> set ds. inc ! k = count_list ds k})"
  using assms
proof (induction ds arbitrary: inc dep ready)
  case (Cons x ds)
  have x: "x < n" and cx: "Suc (count_list ds x) \<le> inc ! x" using Cons.prems(4,5) by auto
  let ?inc = "inc[x := inc ! x - 1]" and ?dep = "dep[x := max (dep ! x) d]"
    and ?ready = "if inc ! x - 1 = 0 then ready @ [x] else ready"
  have run: "layout_relax d (?inc, ?dep, ?ready) ds = (inc', dep', ready')"
    using Cons.prems(1-3) x by (simp add: Let_def)
  have le: "\<forall>k < n. count_list ds k \<le> ?inc ! k"
  proof (intro allI impI)
    fix k assume "k < n"
    then show "count_list ds k \<le> ?inc ! k"
      using Cons.prems(2,5) cx by (cases "x = k") (force simp: nth_list_update)+
  qed
  have ih: "length inc' = n" "length dep' = n" "\<And>k. k < n \<Longrightarrow> inc' ! k = ?inc ! k - count_list ds k"
      "\<And>k. k < n \<Longrightarrow> dep' ! k = (if k \<in> set ds then max (?dep ! k) d else ?dep ! k)"
      "\<exists>new. ready' = ?ready @ new \<and> distinct new \<and> set new = {k \<in> set ds. ?inc ! k = count_list ds k}"
    using Cons.IH [OF run _ _ _ le] Cons.prems(2-4) by auto
  then obtain new where new: "ready' = ?ready @ new" "distinct new" "set new = {k \<in> set ds. ?inc ! k = count_list ds k}" by blast
  have iff: "?inc ! k = count_list ds k \<longleftrightarrow> inc ! k = count_list (x # ds) k" if "k < n" for k
    using Cons.prems(2) cx that by (auto simp: nth_list_update)
  have in_n: "k < n" if "k \<in> set ds" for k using Cons.prems(4) that by simp
  have "\<exists>new. ready' = ready @ new \<and> distinct new \<and> set new = {k \<in> set (x # ds). inc ! k = count_list (x # ds) k}"
  proof (cases "inc ! x - 1 = 0")
    case True
    then have "count_list ds x = 0" "inc ! x = count_list (x # ds) x" using cx by simp_all
    then have "x \<notin> set ds" "inc ! x = count_list (x # ds) x" by (simp_all add: count_list_0_iff)
    then show ?thesis using new True iff in_n by (intro exI [of _ "x # new"]) auto
  next
    case False
    have "x \<in> set ds" if "inc ! x = count_list (x # ds) x"
      using that False by (auto simp: count_list_0_iff intro!: ccontr)
    then show ?thesis using new False iff in_n x by (intro exI [of _ new]) auto
  qed
  then show ?case using ih(1-4) Cons.prems(2,3) x by (auto simp: nth_list_update max_def)
qed auto

text \<open>
  The invariant: \<open>V\<close> lists the visited nodes in order; counters hold the unvisited incoming edges,
  the queue the unvisited nodes without any, and depths are final for the visited nodes.
\<close>

definition depth_below :: "(nat \<times> nat) list \<Rightarrow> nat set \<Rightarrow> nat list \<Rightarrow> nat \<Rightarrow> nat" where
  "depth_below es V dep k = Max (insert 0 {Suc (dep ! a) | a. (a, k) \<in> set es \<and> a \<in> V})"

definition layout_inv ::
  "(nat \<times> nat) list \<Rightarrow> nat \<Rightarrow> nat list \<Rightarrow> nat list \<Rightarrow> nat list \<Rightarrow> bool list \<Rightarrow> nat list \<Rightarrow> bool" where
  "layout_inv es n V inc dep vis ready \<longleftrightarrow>
     length inc = n \<and> length dep = n \<and> length vis = n \<and> distinct (V @ ready) \<and> set (V @ ready) \<subseteq> {..<n} \<and>
     (\<forall>k < n. inc ! k = length (filter (\<lambda>(a, b). b = k \<and> a \<notin> set V) es)) \<and>
     (\<forall>k < n. vis ! k \<longleftrightarrow> k \<in> set V) \<and>
     (\<forall>k < n. inc ! k = 0 \<longleftrightarrow> k \<in> set V \<union> set ready) \<and>
     (\<forall>i < length V. \<forall>a. (a, V ! i) \<in> set es \<longrightarrow> a \<in> set (take i V)) \<and>
     (\<forall>k < n. dep ! k = depth_below es (set V) dep k \<and> dep ! k \<le> length V)"

lemma count_successors: "count_list (map snd (filter (\<lambda>(a, b). a = m) es)) k = length (filter (\<lambda>(a, b). a = m \<and> b = k) es)"
  by (induction es) auto

lemma filter_source_split:
  "m \<notin> V \<Longrightarrow> length (filter (\<lambda>(a, b). b = k \<and> a \<notin> V) es) =
     length (filter (\<lambda>(a, b). b = k \<and> a \<notin> insert m V) es) + length (filter (\<lambda>(a, b). a = m \<and> b = k) es)"
  by (induction es) auto

lemma depth_below_insert:
  assumes "\<And>a. a \<in> insert m V \<Longrightarrow> dep' ! a = dep ! a"
  shows "depth_below es (insert m V) dep' k =
    (if (m, k) \<in> set es then max (depth_below es V dep k) (Suc (dep ! m)) else depth_below es V dep k)"
proof -
  let ?S = "\<lambda>V dep. {Suc (dep ! a) | a. (a, k) \<in> set es \<and> a \<in> V}"
  have fin: "finite (?S V dep)"
    by (rule finite_subset [of _ "(\<lambda>e. Suc (dep ! fst e)) ` set es"]) (auto simp: image_iff, force)
  have "?S (insert m V) dep' = (if (m, k) \<in> set es then insert (Suc (dep ! m)) (?S V dep) else ?S V dep)"
    using assms by auto metis+
  moreover have "Max (insert (Suc (dep ! m)) (insert 0 (?S V dep))) = max (Suc (dep ! m)) (Max (insert 0 (?S V dep)))"
    using fin by (intro Max_insert) simp_all
  ultimately show ?thesis unfolding depth_below_def
    by (cases "(m, k) \<in> set es") (simp_all only: if_True if_False insert_commute [of 0] max.commute)
qed

lemma layout_inv_step:
  assumes inv: "layout_inv es n V inc dep vis (m # rest)"
    and out: "ds = map snd (filter (\<lambda>(a, b). a = m) es)" and es: "\<forall>(a, b) \<in> set es. a < n \<and> b < n"
    and run: "layout_relax (Suc (dep ! m)) (inc, dep, rest) ds = (inc', dep', ready')"
  shows "layout_inv es n (V @ [m]) inc' dep' (vis[m := True]) ready'"
proof -
  have m: "m < n" "m \<notin> set V" "m \<notin> set rest" and len: "length inc = n" "length dep = n" "length vis = n"
    and inc: "\<And>k. k < n \<Longrightarrow> inc ! k = length (filter (\<lambda>(a, b). b = k \<and> a \<notin> set V) es)"
    and zero: "\<And>k. k < n \<Longrightarrow> inc ! k = 0 \<longleftrightarrow> k \<in> set V \<union> set (m # rest)"
    and topo: "\<And>i a. i < length V \<Longrightarrow> (a, V ! i) \<in> set es \<Longrightarrow> a \<in> set (take i V)"
    and dep: "\<And>k. k < n \<Longrightarrow> dep ! k = depth_below es (set V) dep k \<and> dep ! k \<le> length V"
    using inv by (auto simp: layout_inv_def)
  have succ: "k \<in> set ds \<longleftrightarrow> (m, k) \<in> set es" for k unfolding out by force
  have split: "inc ! k = length (filter (\<lambda>(a, b). b = k \<and> a \<notin> set (V @ [m])) es) + count_list ds k" if "k < n" for k
    using inc [OF that] filter_source_split [OF m(2), of k es] by (simp add: out count_successors)
  from layout_relax_spec [OF run len(1,2)] split succ es
  obtain new where r: "length inc' = n" "length dep' = n" "\<And>k. k < n \<Longrightarrow> inc' ! k = inc ! k - count_list ds k"
      "\<And>k. k < n \<Longrightarrow> dep' ! k = (if (m, k) \<in> set es then max (dep ! k) (Suc (dep ! m)) else dep ! k)"
    and new: "ready' = rest @ new" "distinct new" "set new = {k \<in> set ds. inc ! k = count_list ds k}"
    by fastforce
  have sources: "a \<in> set V" if "(a, m) \<in> set es" for a
    using inc [OF m(1)] zero [OF m(1)] that by (auto simp: filter_empty_conv)
  have fresh: "k < n" "k \<notin> set V \<union> set (m # rest)" if "(m, k) \<in> set es" for k
  proof -
    show "k < n" using es that by auto
    moreover have "count_list ds k \<noteq> 0" using that succ by (simp add: count_list_0_iff)
    ultimately show "k \<notin> set V \<union> set (m # rest)" using split zero by (metis add_is_0)
  qed
  have stable: "dep' ! a = dep ! a" if "a \<in> insert m (set V)" for a
  proof -
    have "(m, a) \<notin> set es" using that fresh(2) [of a] by auto
    moreover have "a < n" using that m(1) inv by (auto simp: layout_inv_def)
    ultimately show ?thesis using r(4) by simp
  qed
  have deps: "dep' ! k = depth_below es (set (V @ [m])) dep' k \<and> dep' ! k \<le> length (V @ [m])" if "k < n" for k
    using depth_below_insert [of m "set V" dep' dep es k] stable dep [OF that] dep [OF m(1)] r(4) [OF that] by auto
  have topo': "a \<in> set (take i (V @ [m]))" if "i < length (V @ [m])" "(a, (V @ [m]) ! i) \<in> set es" for i a
    using topo sources that by (auto simp: nth_append less_Suc_eq split: if_splits)
  have zero': "inc' ! k = 0 \<longleftrightarrow> k \<in> set (V @ [m]) \<union> set ready'" if k: "k < n" for k
  proof (cases "k \<in> set ds")
    case True
    then have "k \<notin> set V \<union> set (m # rest)" using fresh succ by blast
    then show ?thesis using r(3) [OF k] split [OF k] new True by auto
  next
    case False
    then show ?thesis using r(3) [OF k] zero [OF k] new by (auto simp: count_list_0_iff)
  qed
  have "distinct ((V @ [m]) @ ready')" "set ((V @ [m]) @ ready') \<subseteq> {..<n}"
    using inv fresh new succ m by (auto simp: layout_inv_def)
  moreover have "(vis[m := True]) ! k \<longleftrightarrow> k \<in> set (V @ [m])" if "k < n" for k
    using inv len(3) m that by (auto simp: layout_inv_def nth_list_update)
  moreover have "inc' ! k = length (filter (\<lambda>(a, b). b = k \<and> a \<notin> set (V @ [m])) es)" if "k < n" for k
    using r(3) split that by simp
  moreover have "length (vis[m := True]) = n" using len(3) by simp
  ultimately show ?thesis
    unfolding layout_inv_def using r(1,2) deps topo' zero' by blast
qed

lemma layout_loop_ends:
  assumes "layout_inv es n V inc dep vis ready" "\<forall>(a, b) \<in> set es. a < n \<and> b < n" "length out = n"
    and "\<And>k. k < n \<Longrightarrow> out ! k = map snd (filter (\<lambda>(a, b). a = k) es)"
  shows "\<exists>V' inc' dep' vis'. layout_loop out inc dep vis ready = Some (dep', vis') \<and> layout_inv es n V' inc' dep' vis' []"
  using assms(1)
proof (induction "n - length V" arbitrary: V inc dep vis ready rule: less_induct)
  case less
  show ?case
  proof (cases ready)
    case Nil
    then show ?thesis using less.prems by (simp, blast)
  next
    case (Cons m rest)
    have m: "m < n" "length dep = n" and "distinct (V @ ready)" "set (V @ ready) \<subseteq> {..<n}"
      using less.prems Cons by (auto simp: layout_inv_def)
    then have "length (V @ ready) \<le> n" by (metis card_lessThan card_mono distinct_card finite_lessThan)
    then have small: "n - length (V @ [m]) < n - length V" using Cons by simp
    obtain inc' dep' ready' where run: "layout_relax (Suc (dep ! m)) (inc, dep, rest) (out ! m) = (inc', dep', ready')"
      by (metis prod_cases3)
    from less.hyps [OF small layout_inv_step [OF less.prems [unfolded Cons] assms(4) [OF m(1)] assms(2) run]]
    show ?thesis using run m assms(3) Cons by (simp add: nth_or_def)
  qed
qed

lemma inside_bounds: "\<forall>(a, b) \<in> set (inside n edges). a < n \<and> b < n"
  by (auto simp: inside_def)

lemma layered_layout_run:
  "\<exists>V inc dep vis. layered_layout n edges = Some (finish_layout dep vis) \<and> layout_inv (inside n edges) n V inc dep vis []"
proof -
  obtain inc out where e: "layout_edges n (replicate n 0, replicate n []) edges = (inc, out)" by fastforce
  have inc: "length inc = n" "length out = n"
      "\<And>k. k < n \<Longrightarrow> inc ! k = length (filter (\<lambda>(a, b). b = k) (inside n edges))"
      "\<And>k. k < n \<Longrightarrow> out ! k = map snd (filter (\<lambda>(a, b). a = k) (inside n edges))"
    using layout_edges_spec [OF e] by simp_all
  have "layout_inv (inside n edges) n [] inc (replicate n 0) (replicate n False) (filter (\<lambda>i. inc ! i = 0) [0..<n])"
    using inc(1,3) by (auto simp: layout_inv_def depth_below_def)
  from layout_loop_ends [OF this inside_bounds inc(2,4)] obtain V' inc' dep' vis' where
    "layout_loop out inc (replicate n 0) (replicate n False) (filter (\<lambda>i. inc ! i = 0) [0..<n]) = Some (dep', vis')"
    "layout_inv (inside n edges) n V' inc' dep' vis' []" by auto
  moreover from this(1) have "layered_layout n edges = Some (finish_layout dep' vis')"
    unfolding layered_layout_def e by simp
  ultimately show ?thesis by blast
qed

lemma unvisited_iff_cyclic:
  assumes "layout_inv es n V inc dep vis []" "\<forall>(a, b) \<in> set es. a < n \<and> b < n"
  shows "list_ex Not vis \<longleftrightarrow> \<not> acyclic (set es)"
proof -
  have i: "length vis = n" "distinct V" "set V \<subseteq> {..<n}" "\<And>k. k < n \<Longrightarrow> vis ! k \<longleftrightarrow> k \<in> set V"
      "\<And>k. k < n \<Longrightarrow> inc ! k = length (filter (\<lambda>(a, b). b = k \<and> a \<notin> set V) es)" "\<And>k. k < n \<Longrightarrow> inc ! k = 0 \<longleftrightarrow> k \<in> set V"
    and topo: "\<And>i a. i < length V \<Longrightarrow> (a, V ! i) \<in> set es \<Longrightarrow> a \<in> set (take i V)"
    using assms(1) by (auto simp: layout_inv_def)
  have stuck: "\<exists>a. (a, k) \<in> set es \<and> a \<notin> set V" if "k \<in> {..<n}" "k \<notin> set V" for k
    using that i(5,6) [of k] by (auto simp: filter_empty_conv)
  have "set es \<subseteq> {..<n} \<times> {..<n}" using assms(2) by auto
  then have "set V = {..<n} \<longleftrightarrow> acyclic (set es)"
    using topological_iff_acyclic [OF i(2,3) topo stuck finite_lessThan] by blast
  moreover have "list_ex Not vis \<longleftrightarrow> (\<exists>k < n. k \<notin> set V)"
    unfolding list_ex_length i(1) using i(4) by blast
  moreover have "(\<exists>k < n. k \<notin> set V) \<longleftrightarrow> set V \<noteq> {..<n}" using i(3) by blast
  ultimately show ?thesis by simp
qed

section \<open>The cards\<close>

lemma foldl_max: "foldl max x xs = Max (insert (x::nat) (set xs))"
proof (induction xs arbitrary: x)
  case (Cons y xs)
  then show ?case by (cases "xs = []") (simp_all add: max.assoc)
qed simp

lemma max_or_Max: "xs \<noteq> [] \<Longrightarrow> max_or d xs = Max (set xs)"
  by (cases xs) (simp_all add: foldl_max)

lemma place_nodes_length [simp]: "length (place_nodes sizes w slots i ds) = length ds"
  by (induction ds arbitrary: slots i) (auto simp: Let_def)

lemma place_nodes_nth:
  "j < length ds \<Longrightarrow> \<forall>d \<in> set ds. d < length slots \<Longrightarrow>
   place_nodes sizes w slots i ds ! j =
     \<lparr> node_index = i + j, node_depth = ds ! j,
       node_x = PADDING + (w - row_width (nth_or 0 sizes (ds ! j))) div 2
         + (slots ! (ds ! j) + count_list (take j ds) (ds ! j)) * (NODE_WIDTH + COLUMN_GAP),
       node_y = PADDING + ds ! j * (NODE_HEIGHT + ROW_GAP) \<rparr>"
proof (induction ds arbitrary: slots i j)
  case (Cons d ds)
  then show ?case
    by (cases j) (auto simp: Let_def nth_or_def nth_list_update)
qed simp

lemma layer_sizes:
  "\<forall>d \<in> set ds. d < length sizes \<Longrightarrow>
   foldl (\<lambda>sizes depth. if depth < length sizes then sizes[depth := sizes ! depth + 1] else sizes) sizes ds =
     map (\<lambda>d. sizes ! d + count_list ds d) [0..<length sizes]"
proof (induction ds arbitrary: sizes)
  case Nil
  show ?case by (simp add: map_nth)
next
  case (Cons d ds)
  then show ?case by (auto simp: nth_list_update intro!: map_cong)
qed

text \<open>The depths that are shown, and the card of every node in terms of them.\<close>

definition shown_depths :: "nat list \<Rightarrow> bool list \<Rightarrow> nat list" where
  "shown_depths dep vis =
     (let seen = map fst (filter snd (zip dep vis)); draft = (if seen = [] then 0 else max_or 0 seen + 1) in
      map (\<lambda>(d, s). if s then d else draft) (zip dep vis))"

definition layer_count :: "nat list \<Rightarrow> nat" where
  "layer_count ds = (if ds = [] then 1 else Max (set ds) + 1)"

definition layer_size :: "nat list \<Rightarrow> nat" where
  "layer_size ds = Max (set (map (count_list ds) [0..<layer_count ds]))"

lemma finish_layout_eq:
  assumes "ds = shown_depths dep vis"
  shows "length (layout_nodes (finish_layout dep vis)) = length ds"
    "layout_width (finish_layout dep vis) = row_width (layer_size ds) + 2 * PADDING"
    "layout_height (finish_layout dep vis) = layer_count ds * (NODE_HEIGHT + ROW_GAP) - ROW_GAP + 2 * PADDING"
    "unresolved (finish_layout dep vis) = list_ex Not vis"
    "j < length ds \<Longrightarrow> layout_nodes (finish_layout dep vis) ! j =
     \<lparr> node_index = j, node_depth = ds ! j,
       node_x = PADDING + (row_width (layer_size ds) - row_width (count_list ds (ds ! j))) div 2
         + count_list (take j ds) (ds ! j) * (NODE_WIDTH + COLUMN_GAP),
       node_y = PADDING + ds ! j * (NODE_HEIGHT + ROW_GAP) \<rparr>"
proof -
  have layers: "(if ds = [] then 1 else max_or 0 ds + 1) = layer_count ds" by (simp add: layer_count_def max_or_Max)
  have below: "\<forall>d \<in> set ds. d < layer_count ds" by (auto simp: layer_count_def less_Suc_eq_le)
  have sizes: "foldl (\<lambda>sizes depth. if depth < length sizes then sizes[depth := sizes ! depth + 1] else sizes)
      (replicate (layer_count ds) 0) ds = map (count_list ds) [0..<layer_count ds]"
    using below by (subst layer_sizes) (auto intro!: map_cong)
  have "layer_count ds \<noteq> 0" by (simp add: layer_count_def)
  then have widest: "max_or 1 (map (count_list ds) [0..<layer_count ds]) = layer_size ds"
    by (subst max_or_Max) (simp_all add: layer_size_def)
  have finish: "finish_layout dep vis =
      \<lparr> layout_nodes = place_nodes (map (count_list ds) [0..<layer_count ds]) (row_width (layer_size ds))
          (replicate (layer_count ds) 0) 0 ds,
        layout_width = row_width (layer_size ds) + 2 * PADDING,
        layout_height = layer_count ds * (NODE_HEIGHT + ROW_GAP) - ROW_GAP + 2 * PADDING,
        unresolved = list_ex Not vis \<rparr>"
    unfolding finish_layout_def Let_def shown_depths_def [unfolded Let_def, symmetric] assms [symmetric] layers sizes widest ..
  show "length (layout_nodes (finish_layout dep vis)) = length ds"
    "layout_width (finish_layout dep vis) = row_width (layer_size ds) + 2 * PADDING"
    "layout_height (finish_layout dep vis) = layer_count ds * (NODE_HEIGHT + ROW_GAP) - ROW_GAP + 2 * PADDING"
    "unresolved (finish_layout dep vis) = list_ex Not vis"
    unfolding finish by simp_all
  assume j: "j < length ds"
  then have "ds ! j < layer_count ds" using below by simp
  then show "layout_nodes (finish_layout dep vis) ! j =
     \<lparr> node_index = j, node_depth = ds ! j,
       node_x = PADDING + (row_width (layer_size ds) - row_width (count_list ds (ds ! j))) div 2
         + count_list (take j ds) (ds ! j) * (NODE_WIDTH + COLUMN_GAP),
       node_y = PADDING + ds ! j * (NODE_HEIGHT + ROW_GAP) \<rparr>"
    unfolding finish using place_nodes_nth [OF j] below by (simp add: nth_or_def)
qed

lemma layer_size_ge: "j < length ds \<Longrightarrow> count_list ds (ds ! j) \<le> layer_size ds"
  unfolding layer_size_def by (rule Max_ge) (auto simp: layer_count_def less_Suc_eq_le)

lemma layer_size_le: "layer_size ds \<le> length ds"
  unfolding layer_size_def by (subst Max_le_iff) (auto simp: layer_count_def count_le_length)

lemma earlier_in_layer:
  assumes "i < j" "j \<le> length ds"
  shows "count_list (take i ds) (ds ! i) < count_list (take j ds) (ds ! i)"
proof -
  have "take j ds = take i ds @ ds ! i # drop (Suc i) (take j ds)"
    using id_take_nth_drop [of i "take j ds"] assms by (simp add: min_def)
  then have "count_list (take j ds) (ds ! i) = count_list (take i ds @ ds ! i # drop (Suc i) (take j ds)) (ds ! i)" by simp
  then show ?thesis by simp
qed

lemma shown_depth_bound:
  assumes "layout_inv es n V inc dep vis []" "d \<in> set (shown_depths dep vis)"
  shows "d \<le> n + 1"
proof -
  have V: "length V \<le> n" and dep: "\<forall>d \<in> set dep. d \<le> length V"
    using assms(1) card_mono [of "{..<n}" "set V"] distinct_card [of V]
    by (auto simp: layout_inv_def in_set_conv_nth)
  let ?seen = "map fst (filter snd (zip dep vis))"
  have seen: "\<forall>d \<in> set ?seen. d \<le> length V" using dep by (auto dest: set_zip_leftD)
  have "max_or 0 ?seen \<le> length V" if "?seen \<noteq> []"
    unfolding max_or_Max [OF that] using seen Max_in [OF finite_set, of ?seen] that by (simp only: set_empty) blast
  then show ?thesis using assms(2) V dep
    by (fastforce simp: shown_depths_def Let_def split: if_splits dest: set_zip_leftD)
qed

lemma shown_depths_length: "layout_inv es n V inc dep vis ready \<Longrightarrow> length (shown_depths dep vis) = n"
  by (simp add: layout_inv_def shown_depths_def Let_def)

lemma shown_depths_resolved:
  assumes "\<not> list_ex Not vis" "length dep = length vis"
  shows "shown_depths dep vis = dep"
proof -
  have "vis ! i" if "i < length vis" for i using assms(1) that by (auto simp: list_ex_length)
  then show ?thesis using assms(2) by (intro nth_equalityI) (simp_all add: shown_depths_def Let_def)
qed

text \<open>
  C13. The preview always ends: for every draft, also with missing endpoints, repeated edges, self edges and
  cycles, there is a card for each node, and the draft is marked as unresolved exactly when its
  edges between existing nodes contain a cycle.
\<close>

theorem layout_total:
  "\<exists>g. layered_layout n edges = Some g \<and> length (layout_nodes g) = n \<and>
     (unresolved g \<longleftrightarrow> \<not> acyclic (set (inside n edges)))"
proof -
  obtain V inc dep vis where r: "layered_layout n edges = Some (finish_layout dep vis)" "layout_inv (inside n edges) n V inc dep vis []"
    using layered_layout_run by blast
  then show ?thesis
    using unvisited_iff_cyclic [OF r(2) inside_bounds] shown_depths_length [OF r(2)] finish_layout_eq(1,4) [OF refl]
    by auto
qed

text \<open>
  C39. Layers follow the edges: in the preview of a draft without cycles a node lies one layer below its
  lowest predecessor, and in the first layer when it has none, so its layer is the length of the longest path to it.
\<close>

theorem layout_layers:
  assumes "layered_layout n edges = Some g" "acyclic (set (inside n edges))" "k < n"
  shows "node_depth (layout_nodes g ! k) =
    Max (insert 0 {Suc (node_depth (layout_nodes g ! a)) | a. (a, k) \<in> set (inside n edges)})"
proof -
  obtain V inc dep vis where r: "layered_layout n edges = Some (finish_layout dep vis)" "layout_inv (inside n edges) n V inc dep vis []"
    using layered_layout_run by blast
  have g: "g = finish_layout dep vis" using assms(1) r(1) by simp
  have len: "length dep = n" "length vis = n" using r(2) by (simp_all add: layout_inv_def)
  have all: "\<not> list_ex Not vis" using unvisited_iff_cyclic [OF r(2) inside_bounds] assms(2) by blast
  then have shown: "dep = shown_depths dep vis" using shown_depths_resolved len by simp
  have depth: "node_depth (layout_nodes g ! j) = dep ! j" if "j < n" for j
    unfolding g using finish_layout_eq(5) [OF shown] that len by simp
  have V: "a \<in> set V" if "a < n" for a
    using all that r(2) len by (auto simp: list_ex_length layout_inv_def)
  have in_n: "a < n" if "(a, k) \<in> set (inside n edges)" for a using that by (auto simp: inside_def)
  have "{Suc (node_depth (layout_nodes g ! a)) | a. (a, k) \<in> set (inside n edges)} =
      {Suc (dep ! a) | a. (a, k) \<in> set (inside n edges) \<and> a \<in> set V}"
    using depth in_n V by (intro Collect_cong) metis
  moreover have "dep ! k = depth_below (inside n edges) (set V) dep k"
    using r(2) assms(3) unfolding layout_inv_def by blast
  ultimately show ?thesis unfolding depth [OF assms(3)] depth_below_def by simp
qed

lemma row_width_small: "m \<le> 64 \<Longrightarrow> row_width m = m * 312 - 88"
  by (simp add: row_width_def usize_max_def layout_constants)

lemma card_in_row:
  assumes "c < s" "s \<le> L" "L \<le> 64"
  shows "(row_width L - row_width s) div 2 + c * 312 + 224 \<le> row_width L"
  using assms by (simp add: row_width_small)

text \<open>
  Cards never collide: for every draft within the bounds of a Workflow all cards lie inside the canvas
  with its padding, two cards are a column gap or a row gap apart, and the canvas fits the integers of the browser.
\<close>

theorem layout_cards_apart:
  assumes "layered_layout n edges = Some g" "n \<le> 64" "i < j" "j < n"
  defines "p \<equiv> layout_nodes g ! i" and "q \<equiv> layout_nodes g ! j"
  shows "PADDING \<le> node_x p \<and> node_x p + NODE_WIDTH + PADDING \<le> layout_width g \<and> layout_width g \<le> usize_max \<and>
    PADDING \<le> node_y p \<and> node_y p + NODE_HEIGHT + PADDING \<le> layout_height g \<and> layout_height g \<le> usize_max \<and>
    (node_y p = node_y q \<and> node_x p + NODE_WIDTH + COLUMN_GAP \<le> node_x q \<or>
     node_y p + NODE_HEIGHT + ROW_GAP \<le> node_y q \<or> node_y q + NODE_HEIGHT + ROW_GAP \<le> node_y p)"
proof -
  obtain V inc dep vis where r: "layered_layout n edges = Some (finish_layout dep vis)" "layout_inv (inside n edges) n V inc dep vis []"
    using layered_layout_run by blast
  have g: "g = finish_layout dep vis" using assms(1) r(1) by simp
  define ds where "ds = shown_depths dep vis"
  have len: "length ds = n" using shown_depths_length [OF r(2)] by (simp add: ds_def)
  note card = finish_layout_eq [OF ds_def, unfolded len, folded g]
  have L: "layer_size ds \<le> 64" using layer_size_le [of ds] len assms(2) by simp
  have layers: "ds ! i < layer_count ds" "layer_count ds \<le> 66"
  proof -
    have "\<forall>d \<in> set ds. d \<le> n + 1" using shown_depth_bound [OF r(2)] by (simp add: ds_def)
    moreover have "ds \<noteq> []" using len assms(4) by auto
    ultimately have "Max (set ds) \<le> n + 1" by (subst Max_le_iff) simp_all
    then have "Max (set ds) \<le> 65" using assms(2) by linarith
    moreover have "layer_count ds = Max (set ds) + 1" using len assms(4) by (auto simp: layer_count_def)
    ultimately show "layer_count ds \<le> 66" by linarith
    show "ds ! i < layer_count ds" using len assms(3,4) by (auto simp: layer_count_def less_Suc_eq_le)
  qed
  have i: "count_list (take i ds) (ds ! i) < count_list ds (ds ! i)"
    using earlier_in_layer [of i n ds] len assms(3,4) by simp
  have s: "count_list ds (ds ! i) \<le> layer_size ds" using layer_size_ge len assms(3,4) by simp
  have x: "node_x p + NODE_WIDTH + PADDING \<le> layout_width g"
    using card_in_row [OF i s L] card(2,5) assms(3,4) by (simp add: p_def layout_constants)
  have "layer_count ds * 224 - 96 + 144 \<ge> ds ! i * 224 + 272" using layers(1) by linarith
  then have y: "node_y p + NODE_HEIGHT + PADDING \<le> layout_height g"
    using card(3,5) assms(3,4) by (simp add: p_def layout_constants)
  have "node_x p + NODE_WIDTH + COLUMN_GAP \<le> node_x q \<and> node_y p = node_y q" if same: "ds ! i = ds ! j"
    using earlier_in_layer [of i j ds] same len card(5) assms(3,4) by (simp add: p_def q_def layout_constants)
  moreover have "node_y p + NODE_HEIGHT + ROW_GAP \<le> node_y q \<or> node_y q + NODE_HEIGHT + ROW_GAP \<le> node_y p" if "ds ! i \<noteq> ds ! j"
    using that card(5) assms(3,4) by (auto simp: p_def q_def layout_constants)
  moreover have "PADDING \<le> node_x p" "PADDING \<le> node_y p" using card(5) assms(3,4) by (simp_all add: p_def)
  moreover have "layout_width g \<le> usize_max" "layout_height g \<le> usize_max"
    using card(2,3) L layers(2) by (simp_all add: row_width_small usize_max_def layout_constants)
  ultimately show ?thesis using x y by blast
qed

section \<open>Instances\<close>

definition sample_diamond :: "(nat \<times> nat) list" where
  "sample_diamond = [(0, 1), (0, 2), (1, 3), (2, 3), (0, 3), (9, 1)]"

lemma sample_diamond_inside: "set (inside 4 sample_diamond) = {(0, 1), (0, 2), (1, 3), (2, 3), (0, 3)}"
  by (auto simp: inside_def sample_diamond_def)

lemma sample_diamond_acyclic: "acyclic (set (inside 4 sample_diamond))"
  unfolding sample_diamond_inside by (rule acyclicI_order [where f = "\<lambda>a. - int a"]) auto

theorem layout_layers_witness:
  "\<exists>g. layered_layout 4 sample_diamond = Some g \<and> node_depth (layout_nodes g ! 0) = 0 \<and> node_depth (layout_nodes g ! 1) = 1 \<and>
     node_depth (layout_nodes g ! 2) = 1 \<and> node_depth (layout_nodes g ! 3) = 2"
proof -
  obtain V inc dep vis where g: "layered_layout 4 sample_diamond = Some (finish_layout dep vis)"
    using layered_layout_run by blast
  let ?d = "\<lambda>k. node_depth (layout_nodes (finish_layout dep vis) ! k)"
  have rec: "?d k = Max (insert 0 {Suc (?d a) | a. (a, k) \<in> {(0, 1), (0, 2), (1, 3), (2, 3), (0, 3)}})" if "k < 4" for k
    using layout_layers [OF g sample_diamond_acyclic that] unfolding sample_diamond_inside .
  have d0: "?d 0 = 0" using rec [of 0] by simp
  have d1: "?d 1 = 1" "?d 2 = 1" using rec [of 1] rec [of 2] d0 by (simp_all add: conj_disj_distribR ex_disj_distrib Collect_disj_eq)
  have "{Suc (?d a) | a. (a, 3) \<in> {(0, 1), (0, 2), (1, 3), (2, 3), (0, 3::nat)}} = {1, 2}"
    using d0 d1 by (auto simp del: One_nat_def)
  then have "?d 3 = 2" using rec [of 3] by simp
  then show ?thesis using g d0 d1 by blast
qed

theorem layout_cards_apart_witness:
  "\<exists>g. layered_layout 4 sample_diamond = Some g \<and> node_x (layout_nodes g ! 1) + NODE_WIDTH + PADDING \<le> layout_width g"
proof -
  obtain V inc dep vis where g: "layered_layout 4 sample_diamond = Some (finish_layout dep vis)"
    using layered_layout_run by blast
  from layout_cards_apart [OF g, of 1 2] show ?thesis using g by simp
qed

end
