(* ===== verification/Console.thy ===== *)
theory Console
  imports Layout Handlers
begin

text \<open>
  The logic of the web console (\<open>apps/web/src\<close>): the API client's collection of pages (\<open>api.rs\<close>),
  name feedback (\<open>components/forms.rs\<close>) and the Workflow editor with its preview
  (\<open>pages/workflows/editor.rs\<close>, \<open>graph.rs\<close>, \<open>form.rs\<close>, \<open>run.rs\<close>).  A signal is the value it holds; views
  and dialogs belong to the \<open>leptos\<close> framework.
\<close>

section \<open>The API client\<close>

record ClientError =
  ce_code :: bytes
  ce_message :: bytes
  ce_field :: "bytes option"

definition client_error :: "bytes \<Rightarrow> ClientError" where
  "client_error message = \<lparr> ce_code = ''client_error'', ce_message = message, ce_field = None \<rparr>"

definition MAX_COLLECTION_PAGES :: nat where "MAX_COLLECTION_PAGES = 100"

definition page_url :: "bytes \<Rightarrow> bytes option \<Rightarrow> bytes" where
  "page_url base_url after =
     (let separator = (if CHR ''?'' \<in> set base_url then CHR ''&'' else CHR ''?'') in
      case after of
        None \<Rightarrow> base_url @ separator # ''limit=100''
      | Some cursor \<Rightarrow> base_url @ separator # ''limit=100&after='' @ cursor)"

text \<open>\<open>get\<close> is an authenticated GET with the decoding of its answer.\<close>

fun get_pages ::
  "(bytes \<Rightarrow> (ClientError, 't Page) result) \<Rightarrow> bytes \<Rightarrow> nat \<Rightarrow> bytes option \<Rightarrow> 't list \<Rightarrow> (ClientError, 't list) result" where
  "get_pages get base_url 0 after collected =
     Err (client_error ''Crono API returned more collection pages than the browser will load'')"
| "get_pages get base_url (Suc n) after collected =
     and_then (get (page_url base_url after)) (\<lambda>p.
     case next_cursor p of
       None \<Rightarrow> Ok (collected @ items p)
     | Some cursor \<Rightarrow> get_pages get base_url n (Some cursor) (collected @ items p))"

definition get_all_pages :: "(bytes \<Rightarrow> (ClientError, 't Page) result) \<Rightarrow> bytes \<Rightarrow> (ClientError, 't list) result" where
  "get_all_pages get base_url = get_pages get base_url MAX_COLLECTION_PAGES None []"

definition ACCESS_TOKEN_KEY :: bytes where "ACCESS_TOKEN_KEY = ''crono.access_token''"

text \<open>
  \<open>with_bearer\<close>: the token of the session becomes the only header.  \<open>prepared\<close> tells whether the browser
  creates headers, \<open>settable\<close> which values it accepts.
\<close>

definition with_bearer :: "bool \<Rightarrow> (bytes \<Rightarrow> bool) \<Rightarrow> bytes option \<Rightarrow> (ClientError, headers) result" where
  "with_bearer prepared settable token =
     (if \<not> prepared then Err (client_error ''Could not prepare API headers'')
      else case token of
        None \<Rightarrow> Ok []
      | Some t \<Rightarrow>
          if settable (''Bearer '' @ t) then Ok [(''authorization'', ''Bearer '' @ t)]
          else Err (client_error ''The API credential cannot be used as a header''))"

text \<open>The window of the page, its session storage and the reading of an item may each be missing or fail.\<close>

definition authenticated ::
  "(unit, (bytes \<Rightarrow> (unit, bytes option) result) option) result option \<Rightarrow> bool \<Rightarrow> (bytes \<Rightarrow> bool) \<Rightarrow> (ClientError, headers) result" where
  "authenticated window prepared settable =
     and_then (ok_or (client_error ''Browser session storage is unavailable'') window) (\<lambda>session.
     and_then (map_err (\<lambda>_. client_error ''Browser session storage is unavailable'') session) (\<lambda>storage.
     and_then (case storage of None \<Rightarrow> Ok None
       | Some get_item \<Rightarrow> map_err (\<lambda>_. client_error ''Could not read the API credential'') (get_item ACCESS_TOKEN_KEY)) (\<lambda>token.
     with_bearer prepared settable token)))"

section \<open>Name feedback\<close>

definition name_validation_message :: "bytes \<Rightarrow> bool \<Rightarrow> ResourceNameError option" where
  "name_validation_message v needed =
     (let v = trim v in
      if v = [] \<and> \<not> needed then None
      else case validate_resource_name v of Inl e \<Rightarrow> Some e | Inr _ \<Rightarrow> None)"

definition visible_name_validation :: "bytes \<Rightarrow> bool \<Rightarrow> ResourceNameError option" where
  "visible_name_validation v attempted =
     (if trim v = [] \<and> \<not> attempted then None else name_validation_message v True)"

section \<open>The Workflow editor\<close>

record JobRow =
  jrow_key :: uuid
  jrow_name :: bytes
  jrow_job :: "uuid option"

record EdgeRow =
  erow_key :: uuid
  erow_from :: "uuid option"
  erow_to :: "uuid option"
  erow_condition :: ApiDependencyCondition

definition JobRow_empty :: "uuid \<Rightarrow> JobRow" where
  "JobRow_empty key = \<lparr> jrow_key = key, jrow_name = [], jrow_job = None \<rparr>"

definition EdgeRow_empty :: "uuid \<Rightarrow> EdgeRow" where
  "EdgeRow_empty key = \<lparr> erow_key = key, erow_from = None, erow_to = None, erow_condition = ApiSuccess \<rparr>"

text \<open>The state of the page; its feedback dialog is left out.\<close>

record Editor =
  ed_edit_id :: "uuid option"
  ed_namespace :: "uuid option"
  ed_namespace_label :: bytes
  ed_name :: bytes
  ed_description :: bytes
  ed_nodes :: "JobRow list"
  ed_edges :: "EdgeRow list"
  ed_revision :: int
  ed_attempted :: bool
  ed_busy :: bool
  ed_error :: "bytes option"
  ed_saved_id :: "uuid option"
  ed_saved :: "CreateWorkflowRequest option"

definition row_named :: "JobRow list \<Rightarrow> bytes \<Rightarrow> uuid option" where
  "row_named rows name = map_option jrow_key (find (\<lambda>row. jrow_name row = name) rows)"

definition saved_request :: "WorkflowResource \<Rightarrow> CreateWorkflowRequest" where
  "saved_request workflow =
     \<lparr> cwr_name = wfr_name workflow, cwr_description = wfr_description workflow,
       cwr_nodes = map (\<lambda>n. \<lparr> wnq_name = wnr_name n, wnq_job_id = wnr_job_id n \<rparr>) (wfr_nodes workflow),
       cwr_edges = map (\<lambda>e. \<lparr> weq_from = wer_from e, weq_to = wer_to e, weq_condition = wer_condition e \<rparr>) (wfr_edges workflow) \<rparr>"

text \<open>\<open>fresh\<close> supplies the identities of new rows.\<close>

definition Editor_new :: "(nat \<Rightarrow> uuid) \<Rightarrow> WorkflowResource option \<Rightarrow> Editor" where
  "Editor_new fresh initial =
     (case initial of
        None \<Rightarrow> \<lparr> ed_edit_id = None, ed_namespace = None, ed_namespace_label = [], ed_name = [], ed_description = [],
          ed_nodes = [JobRow_empty (fresh 0)], ed_edges = [], ed_revision = 0, ed_attempted = False, ed_busy = False, ed_error = None,
          ed_saved_id = None, ed_saved = None \<rparr>
      | Some workflow \<Rightarrow>
          (let rows = map (\<lambda>n. \<lparr> jrow_key = wnr_id n, jrow_name = wnr_name n, jrow_job = Some (wnr_job_id n) \<rparr>) (wfr_nodes workflow);
               edges = map (\<lambda>(i, e). \<lparr> erow_key = fresh i, erow_from = row_named rows (wer_from e),
                 erow_to = row_named rows (wer_to e), erow_condition = wer_condition e \<rparr>) (enumerate 0 (wfr_edges workflow)) in
           \<lparr> ed_edit_id = Some (wfr_id workflow), ed_namespace = Some (wfr_namespace_id workflow),
             ed_namespace_label = wfr_namespace workflow, ed_name = wfr_name workflow,
             ed_description = (case wfr_description workflow of None \<Rightarrow> [] | Some d \<Rightarrow> d),
             ed_nodes = rows, ed_edges = edges, ed_revision = wfr_revision workflow, ed_attempted = False, ed_busy = False, ed_error = None,
             ed_saved_id = Some (wfr_id workflow), ed_saved = Some (saved_request workflow) \<rparr>))"

text \<open>\<open>replace\<close>: a row keeps its signals under its identity, so with values it is the loaded row.\<close>

definition Editor_replace :: "(nat \<Rightarrow> uuid) \<Rightarrow> WorkflowResource \<Rightarrow> Editor \<Rightarrow> Editor" where
  "Editor_replace fresh workflow ed =
     (let loaded = Editor_new fresh (Some workflow) in
      ed\<lparr> ed_namespace := ed_namespace loaded, ed_name := ed_name loaded, ed_description := ed_description loaded,
          ed_nodes := ed_nodes loaded, ed_edges := ed_edges loaded, ed_revision := wfr_revision workflow,
          ed_saved := ed_saved loaded, ed_saved_id := Some (wfr_id workflow), ed_attempted := False, ed_error := None \<rparr>)"

datatype EditorError =
    WorkflowName ResourceNameError | SelectNamespace | ChooseJobs | NodeName ResourceNameError | NodeNamesUnique | ChooseJob
  | TooManyDependencies | ChooseFrom | ChooseTo | SelfDependency | DuplicateDependency | DescriptionTooLong

definition check_name :: "(ResourceNameError \<Rightarrow> EditorError) \<Rightarrow> bytes \<Rightarrow> (EditorError, unit) result" where
  "check_name f name = (case name_validation_message name True of Some e \<Rightarrow> Err (f e) | None \<Rightarrow> Ok ())"

fun request_nodes ::
  "(uuid, bytes) btree \<Rightarrow> bytes list \<Rightarrow> WorkflowNodeRequest list \<Rightarrow> JobRow list
     \<Rightarrow> (EditorError, (uuid, bytes) btree \<times> WorkflowNodeRequest list) result" where
  "request_nodes names unique nodes [] = Ok (names, nodes)"
| "request_nodes names unique nodes (row # rows) =
     (let node_name = trim (jrow_name row) in
      and_then (check_name NodeName node_name) (\<lambda>_.
      if node_name \<in> set unique then Err NodeNamesUnique
      else and_then (ok_or ChooseJob (jrow_job row)) (\<lambda>job.
      request_nodes (bt_insert (jrow_key row) node_name names) (node_name # unique)
        (nodes @ [\<lparr> wnq_name = node_name, wnq_job_id = job \<rparr>]) rows)))"

fun request_edge_rows ::
  "(uuid, bytes) btree \<Rightarrow> (bytes \<times> bytes) list \<Rightarrow> EdgeRow list \<Rightarrow> (EditorError, WorkflowEdgeRequest list) result" where
  "request_edge_rows names pairs [] = Ok []"
| "request_edge_rows names pairs (row # rows) =
     and_then (ok_or ChooseFrom (Option.bind (erow_from row) (bt_get names))) (\<lambda>source.
     and_then (ok_or ChooseTo (Option.bind (erow_to row) (bt_get names))) (\<lambda>dest.
     if source = dest then Err SelfDependency
     else if (source, dest) \<in> set pairs then Err DuplicateDependency
     else and_then (request_edge_rows names ((source, dest) # pairs) rows) (\<lambda>es.
       Ok (\<lparr> weq_from = source, weq_to = dest, weq_condition = erow_condition row \<rparr> # es))))"

definition request_edges :: "EdgeRow list \<Rightarrow> (uuid, bytes) btree \<Rightarrow> (EditorError, WorkflowEdgeRequest list) result" where
  "request_edges rows names = (if length rows > 256 then Err TooManyDependencies else request_edge_rows names [] rows)"

definition editor_request :: "Editor \<Rightarrow> (EditorError, CreateWorkflowRequest) result" where
  "editor_request ed =
     (let name = trim (ed_name ed) in
      and_then (check_name WorkflowName name) (\<lambda>_.
      if ed_namespace ed = None then Err SelectNamespace
      else if ed_nodes ed = [] \<or> length (ed_nodes ed) > 64 then Err ChooseJobs
      else and_then (request_nodes [] [] [] (ed_nodes ed)) (\<lambda>(names, nodes).
      and_then (request_edges (ed_edges ed) names) (\<lambda>edges.
      if char_count (ed_description ed) > 500 then Err DescriptionTooLong
      else Ok \<lparr> cwr_name = name, cwr_description = (if ed_description ed = [] then None else Some (ed_description ed)),
                cwr_nodes = nodes, cwr_edges = edges \<rparr>))))"

definition remove_node :: "uuid \<Rightarrow> Editor \<Rightarrow> Editor" where
  "remove_node key ed = ed\<lparr> ed_nodes := filter (\<lambda>row. jrow_key row \<noteq> key) (ed_nodes ed),
     ed_edges := filter (\<lambda>e. erow_from e \<noteq> Some key \<and> erow_to e \<noteq> Some key) (ed_edges ed) \<rparr>"

definition clear_jobs :: "Editor \<Rightarrow> Editor" where
  "clear_jobs ed = ed\<lparr> ed_nodes := map (\<lambda>row. row\<lparr> jrow_job := None \<rparr>) (ed_nodes ed) \<rparr>"

section \<open>The preview of a draft\<close>

text \<open>Identities stand for their texts.  \<open>graph_edges\<close> and the links of \<open>WorkflowGraph\<close>.\<close>

definition graph_edges :: "Editor \<Rightarrow> (uuid \<times> uuid \<times> ApiDependencyCondition) list" where
  "graph_edges ed = List.map_filter (\<lambda>e. Option.bind (erow_from e) (\<lambda>a.
     Option.bind (erow_to e) (\<lambda>b. Some (a, b, erow_condition e)))) (ed_edges ed)"

definition key_position :: "uuid list \<Rightarrow> uuid \<Rightarrow> nat option" where
  "key_position keys k = find (\<lambda>i. keys ! i = k) [0..<length keys]"

definition graph_links :: "uuid list \<Rightarrow> (uuid \<times> uuid \<times> ApiDependencyCondition) list \<Rightarrow> (nat \<times> nat) list" where
  "graph_links keys edges = List.map_filter (\<lambda>(a, b, _). Option.bind (key_position keys a) (\<lambda>i.
     Option.bind (key_position keys b) (\<lambda>j. Some (i, j)))) edges"

definition preview :: "Editor \<Rightarrow> GraphLayout option" where
  "preview ed = layered_layout (length (ed_nodes ed)) (graph_links (map jrow_key (ed_nodes ed)) (graph_edges ed))"

text \<open>\<open>retry_request\<close> of the launch form: \<open>fresh\<close> is a new identity.\<close>

definition retry_request :: "uuid \<Rightarrow> StartWorkflowRequest option \<Rightarrow> ExecutionTarget \<Rightarrow> json \<Rightarrow> StartWorkflowRequest" where
  "retry_request fresh prior target inputs =
     \<lparr> swr_request_id = (case prior of
         Some p \<Rightarrow> if swr_target p = target \<and> swr_inputs p = inputs then swr_request_id p else fresh
       | None \<Rightarrow> fresh),
       swr_target = target, swr_inputs = inputs \<rparr>"

section \<open>Trimmed names\<close>

lemma strip_front_stops: "e \<in> set es \<Longrightarrow> e \<noteq> [] \<Longrightarrow> \<not> prefix e (strip_front es s)"
proof (induction es s rule: strip_front.induct)
  case (1 es s)
  show ?case
  proof (cases "find (\<lambda>e. e \<noteq> [] \<and> prefix e s) es")
    case None
    then have "strip_front es s = s" by (subst strip_front.simps) simp
    then show ?thesis using None 1(2,3) by (auto simp: find_None_iff)
  next
    case (Some x)
    then show ?thesis using 1(1) [OF Some] 1(2,3) by (subst strip_front.simps) simp
  qed
qed

lemma trim_trim [simp]: "trim (trim s) = trim s"
proof -
  define a where "a = strip_front white_space s"
  define b where "b = strip_front (map rev white_space) (rev a)"
  have t: "trim s = rev b" by (simp add: trim_def a_def b_def)
  obtain q where q: "rev a = q @ b" using strip_front_suffix b_def by blast
  then have a: "a = rev b @ rev q" by (metis rev_append rev_rev_ident)
  have "strip_front white_space (rev b) = rev b"
  proof (rule strip_front_id)
    fix e assume e: "e \<in> set white_space"
    have "\<not> prefix e a \<or> e = []" using strip_front_stops [OF e] by (auto simp: a_def)
    then show "e = [] \<or> \<not> prefix e (rev b)" unfolding a by (auto dest: prefix_prefix)
  qed
  moreover have "strip_front (map rev white_space) b = b"
    by (rule strip_front_id) (use strip_front_stops b_def in blast)
  ultimately show ?thesis unfolding t by (simp add: trim_def [of "rev b"])
qed

lemma check_name_trimmed [simp]: "check_name f (trim v) = Inr u \<longleftrightarrow> (\<exists>x. resource_name (trim v) = Inr x)"
  by (auto simp: check_name_def name_validation_message_def resource_name_def ResourceName_parse_def split: sum.splits option.splits)

lemma resource_name_str: "resource_name v = Inr x \<Longrightarrow> resource_str x = trim v"
  by (auto simp: resource_name_def ResourceName_parse_def)

section \<open>The preview and the server agree\<close>

lemma acyclic_of_image:
  assumes "acyclic (map_prod f f ` R)"
  shows "acyclic R"
proof -
  have "(f a, f b) \<in> (map_prod f f ` R)\<^sup>+" if "(a, b) \<in> R\<^sup>+" for a b
    using that
  proof (induction rule: trancl_induct)
    case (base y)
    then show ?case by (intro r_into_trancl image_eqI [where x = "(a, y)"]) simp_all
  next
    case (step y z)
    have "(f y, f z) \<in> map_prod f f ` R" using step.hyps(2) by (intro image_eqI [where x = "(y, z)"]) simp_all
    with step.IH show ?case by (rule trancl_into_trancl)
  qed
  then show ?thesis using assms by (auto simp: acyclic_def)
qed

lemma acyclic_image_iff:
  assumes "inj_on f A" "R \<subseteq> A \<times> A"
  shows "acyclic (map_prod f f ` R) \<longleftrightarrow> acyclic R"
proof
  let ?g = "inv_into A f"
  have "map_prod ?g ?g ` map_prod f f ` R = R"
  proof -
    have "map_prod ?g ?g (map_prod f f p) = p" if "p \<in> R" for p
      using that assms by (cases p) (auto simp: inv_into_f_f)
    then show ?thesis by (force simp: image_image)
  qed
  then show "acyclic R \<Longrightarrow> acyclic (map_prod f f ` R)" using acyclic_of_image [of ?g "map_prod f f ` R"] by simp
qed (rule acyclic_of_image)

lemma request_nodes_Ok:
  assumes "request_nodes names unique nodes rows = Inr (names', nodes')" "bt_sorted names"
  shows "bt_sorted names'" "map wnq_name nodes' = map wnq_name nodes @ map (\<lambda>r. trim (jrow_name r)) rows"
    "distinct (map (\<lambda>r. trim (jrow_name r)) rows)" "\<forall>r \<in> set rows. trim (jrow_name r) \<notin> set unique"
    "\<forall>r \<in> set rows. \<exists>x. resource_name (trim (jrow_name r)) = Inr x"
    "distinct (map jrow_key rows) \<Longrightarrow> bt_get names' k =
       (case find (\<lambda>r. jrow_key r = k) rows of Some r \<Rightarrow> Some (trim (jrow_name r)) | None \<Rightarrow> bt_get names k)"
  using assms
proof (induction rows arbitrary: names unique nodes)
  case (Cons r rows)
  {
    case 1
    then show ?case using Cons.IH(1) by (auto simp: Let_def bt_sorted_insert split: if_splits)
  next
    case 2
    then show ?case using Cons.IH(2) by (fastforce simp: Let_def bt_sorted_insert split: if_splits)
  next
    case 3
    then show ?case using Cons.IH(3,4) by (fastforce simp: Let_def bt_sorted_insert split: if_splits)
  next
    case 4
    then show ?case using Cons.IH(4) by (fastforce simp: Let_def bt_sorted_insert split: if_splits)
  next
    case 5
    then show ?case using Cons.IH(5) by (fastforce simp: Let_def bt_sorted_insert split: if_splits)
  next
    case 6
    then have "bt_get names' k = (case find (\<lambda>r. jrow_key r = k) rows of Some r \<Rightarrow> Some (trim (jrow_name r))
        | None \<Rightarrow> bt_get (bt_insert (jrow_key r) (trim (jrow_name r)) names) k)"
      using Cons.IH(6) by (fastforce simp: Let_def bt_sorted_insert split: if_splits)
    moreover have "find (\<lambda>r. jrow_key r = k) rows = None" if "jrow_key r = k"
      using 6(1) that by (auto simp: find_None_iff) (metis image_eqI)
    ultimately show ?case by (auto simp: bt_get_insert split: option.splits)
  }
qed auto

lemma request_edge_rows_Ok:
  assumes "request_edge_rows names pairs rows = Inr es"
  shows "length es = length rows" "distinct (map (\<lambda>e. (weq_from e, weq_to e)) es)"
    "\<forall>e \<in> set es. (weq_from e, weq_to e) \<notin> set pairs \<and> weq_from e \<noteq> weq_to e \<and>
       (\<exists>a b. bt_get names a = Some (weq_from e) \<and> bt_get names b = Some (weq_to e))"
  using assms
proof (induction rows arbitrary: pairs es)
  case (Cons r rows)
  {
    case 1
    then show ?case using Cons.IH(1) by (auto split: if_splits)
  next
    case 2
    then show ?case using Cons.IH(2,3) by (fastforce split: if_splits)
  next
    case 3
    then show ?case using Cons.IH(3) by (fastforce split: if_splits bind_splits)
  }
qed auto

lemma key_position_Some: "distinct keys \<Longrightarrow> key_position keys k = Some i \<longleftrightarrow> i < length keys \<and> keys ! i = k"
  by (auto simp: key_position_def find_Some_iff nth_eq_iff_index_eq)

lemma key_position_None: "key_position keys k = None \<longleftrightarrow> k \<notin> set keys"
  by (auto simp: key_position_def find_None_iff in_set_conv_nth)

lemma links_named:
  assumes "request_edge_rows names pairs rows = Inr es" "\<And>k. bt_get names k = map_option nm (key_position keys k)"
  shows "map (map_prod nm nm) (graph_links keys (List.map_filter (\<lambda>e. Option.bind (erow_from e) (\<lambda>a.
     Option.bind (erow_to e) (\<lambda>b. Some (a, b, erow_condition e)))) rows)) = map (\<lambda>e. (weq_from e, weq_to e)) es"
  using assms(1)
proof (induction rows arbitrary: pairs es)
  case (Cons r rows)
  then show ?case
    by (auto simp: graph_links_def assms(2) List.map_filter_simps split: if_splits bind_splits option.splits)
qed (simp add: graph_links_def List.map_filter_simps)

lemma names_by_key:
  assumes "distinct (map jrow_key rows)"
  shows "(case find (\<lambda>r. jrow_key r = k) rows of Some r \<Rightarrow> Some (f r) | None \<Rightarrow> None) =
    map_option (\<lambda>i. f (rows ! i)) (key_position (map jrow_key rows) k)"
proof (cases "key_position (map jrow_key rows) k")
  case None
  then show ?thesis by (auto simp: key_position_None find_None_iff split: option.splits dest!: find_Some_in)
next
  case (Some i)
  then have i: "i < length rows" "jrow_key (rows ! i) = k" using assms by (auto simp: key_position_Some)
  then have "find (\<lambda>r. jrow_key r = k) rows = Some (rows ! i)"
    using assms find_key_unique [of jrow_key rows "rows ! i"] by simp
  then show ?thesis using Some by simp
qed

lemma traverse_input_nodes:
  assumes "\<forall>n \<in> set ns. \<exists>x. resource_name (wnq_name n) = Inr x"
  shows "\<exists>nodes. traverse input_node (map (\<lambda>n. (wnq_name n, wnq_job_id n)) ns) = Inr nodes \<and>
    node_names nodes = map (\<lambda>n. trim (wnq_name n)) ns"
  using assms by (induction ns) (auto simp: input_node_def dest: resource_name_str)

lemma traverse_input_edges:
  assumes "\<forall>e \<in> set es. (\<exists>x. resource_name (weq_from e) = Inr x) \<and> (\<exists>x. resource_name (weq_to e) = Inr x)"
  shows "\<exists>edges. traverse input_edge (map (\<lambda>e. (weq_from e, weq_to e, domain_condition (weq_condition e))) es) = Inr edges \<and>
    endpoints edges = map (\<lambda>e. (trim (weq_from e), trim (weq_to e))) es"
  using assms by (induction es) (auto simp: input_edge_def resource_name_str)

lemma editor_request_parts:
  assumes "editor_request ed = Inr req"
  obtains names where "request_nodes [] [] [] (ed_nodes ed) = Inr (names, cwr_nodes req)"
    "request_edge_rows names [] (ed_edges ed) = Inr (cwr_edges req)" "length (ed_edges ed) \<le> 256"
    "ed_nodes ed \<noteq> []" "length (ed_nodes ed) \<le> 64" "\<exists>x. resource_name (cwr_name req) = Inr x" "cwr_name req = trim (ed_name ed)"
    "char_count (ed_description ed) \<le> 500"
    "cwr_description req = (if ed_description ed = [] then None else Some (ed_description ed))"
  using assms by (auto simp: editor_request_def request_edges_def Let_def split: if_splits)

lemma request_definition:
  assumes "editor_request ed = Inr req" "distinct (map jrow_key (ed_nodes ed))" "NUL \<notin> set (ed_description ed)"
  defines "links \<equiv> graph_links (map jrow_key (ed_nodes ed)) (graph_edges ed)"
  shows "is_ok (input_definition (definition_input req)) \<longleftrightarrow> acyclic (set links)"
    "set links \<subseteq> {..<length (ed_nodes ed)} \<times> {..<length (ed_nodes ed)}"
proof -
  let ?rows = "ed_nodes ed" and ?nm = "\<lambda>i. trim (jrow_name (ed_nodes ed ! i))"
  from assms(1) obtain names where r: "request_nodes [] [] [] ?rows = Inr (names, cwr_nodes req)"
      "request_edge_rows names [] (ed_edges ed) = Inr (cwr_edges req)" "length (ed_edges ed) \<le> 256"
      "?rows \<noteq> []" "length ?rows \<le> 64" "\<exists>x. resource_name (cwr_name req) = Inr x" "cwr_name req = trim (ed_name ed)"
      "char_count (ed_description ed) \<le> 500"
      "cwr_description req = (if ed_description ed = [] then None else Some (ed_description ed))"
    by (rule editor_request_parts)
  note n = request_nodes_Ok [OF r(1) bt_sorted_Nil] and e = request_edge_rows_Ok [OF r(2)]
  have get: "bt_get names k = map_option ?nm (key_position (map jrow_key ?rows) k)" for k
    using n(6) [OF assms(2), of k] names_by_key [OF assms(2), where k = k and f = "\<lambda>r. trim (jrow_name r)"]
    unfolding bt_get.simps by simp
  have named: "map wnq_name (cwr_nodes req) = map (\<lambda>r. trim (jrow_name r)) ?rows" using n(2) by simp
  have valid: "\<exists>x. resource_name v = Inr x" "trim v = v" if "v \<in> set (map wnq_name (cwr_nodes req))" for v
    using that n(5) unfolding named by auto
  have known: "weq_from x \<in> set (map wnq_name (cwr_nodes req))" "weq_to x \<in> set (map wnq_name (cwr_nodes req))"
    if "x \<in> set (cwr_edges req)" for x
  proof -
    have row: "v \<in> set (map wnq_name (cwr_nodes req))" if "bt_get names k = Some v" for k v
      using that unfolding named get by (auto simp: key_position_Some [OF assms(2)])
    show "weq_from x \<in> set (map wnq_name (cwr_nodes req))" "weq_to x \<in> set (map wnq_name (cwr_nodes req))"
      using e(3) \<open>x \<in> set (cwr_edges req)\<close> row by blast+
  qed
  obtain nodes where nodes: "traverse input_node (map (\<lambda>n. (wnq_name n, wnq_job_id n)) (cwr_nodes req)) = Inr nodes"
      "node_names nodes = map (\<lambda>n. trim (wnq_name n)) (cwr_nodes req)"
    using traverse_input_nodes [of "cwr_nodes req"] valid by auto
  obtain edges where edges: "traverse input_edge (map (\<lambda>e. (weq_from e, weq_to e, domain_condition (weq_condition e))) (cwr_edges req)) = Inr edges"
      "endpoints edges = map (\<lambda>e. (trim (weq_from e), trim (weq_to e))) (cwr_edges req)"
  proof -
    have "\<forall>e \<in> set (cwr_edges req). (\<exists>x. resource_name (weq_from e) = Inr x) \<and> (\<exists>x. resource_name (weq_to e) = Inr x)"
      using valid(1) [OF known(1)] valid(1) [OF known(2)] by simp
    from traverse_input_edges [OF this] show ?thesis by (elim exE conjE) (rule that)
  qed
  have nn: "node_names nodes = map (\<lambda>r. trim (jrow_name r)) ?rows"
  proof -
    have "map (\<lambda>n. trim (wnq_name n)) (cwr_nodes req) = map wnq_name (cwr_nodes req)"
      using valid(2) by (intro map_cong refl) simp
    then show ?thesis unfolding nodes(2) named .
  qed
  have ee: "endpoints edges = map (\<lambda>e. (weq_from e, weq_to e)) (cwr_edges req)"
    unfolding edges(2) using valid(2) [OF known(1)] valid(2) [OF known(2)] by (intro map_cong refl) simp
  have image: "map (map_prod ?nm ?nm) links = map (\<lambda>e. (weq_from e, weq_to e)) (cwr_edges req)"
    unfolding links_def graph_edges_def by (rule links_named [OF r(2) get])
  show range: "set links \<subseteq> {..<length ?rows} \<times> {..<length ?rows}"
    unfolding links_def graph_links_def
    by (auto simp: List.map_filter_def key_position_Some [OF assms(2), simplified] split: bind_splits)
  obtain name where name: "resource_name (cwr_name req) = Inr name" using r(6) by blast
  define d where "d = \<lparr> wd_name = name, wd_description = cwr_description req, wd_nodes = nodes, wd_edges = edges \<rparr>"
  have "is_ok (input_definition (definition_input req)) \<longleftrightarrow> validate_workflow d = Some (Inr ())"
    using name nodes(1) edges(1)
    by (simp add: input_definition_def definition_input_def d_def Let_def is_ok_iff comp_def)
  also have "\<dots> \<longleftrightarrow> acyclic (set (endpoints edges))"
  proof -
    have "length nodes = length ?rows" using nn by (metis length_map)
    moreover have "length edges = length (ed_edges ed)" using ee e(1) by (metis length_map)
    moreover have "description_ok (cwr_description req)" using r(8,9) assms(3) by (simp add: description_ok_def)
    moreover have "graph_ok d"
      unfolding graph_ok_def d_def using n(3) nn ee e(2,3) known named by (auto simp: Ball_def)
    ultimately show ?thesis using validate_workflow_accepts [of d] r(3-5) by (auto simp: d_def)
  qed
  also have "set (endpoints edges) = map_prod ?nm ?nm ` set links"
    unfolding ee image [symmetric] by simp
  also have "acyclic (map_prod ?nm ?nm ` set links) \<longleftrightarrow> acyclic (set links)"
  proof (rule acyclic_image_iff [OF _ range])
    show "inj_on ?nm {..<length ?rows}" using n(3) by (auto simp: distinct_conv_nth inj_on_def)
  qed
  finally show "is_ok (input_definition (definition_input req)) \<longleftrightarrow> acyclic (set links)" .
qed

text \<open>
  C11. The preview of the console and the validation of the server agree: for a draft that the editor
  can submit, the preview is marked as unresolved exactly when the server rejects its definition;
  the only reason left to reject it is a cycle.
\<close>

theorem editor_agrees_with_server:
  assumes "editor_request ed = Inr req" "distinct (map jrow_key (ed_nodes ed))" "NUL \<notin> set (ed_description ed)"
  shows "\<exists>g. preview ed = Some g \<and> (unresolved g \<longleftrightarrow> \<not> is_ok (input_definition (definition_input req)))"
proof -
  let ?links = "graph_links (map jrow_key (ed_nodes ed)) (graph_edges ed)"
  note d = request_definition [OF assms]
  obtain V inc dep vis where r: "preview ed = Some (finish_layout dep vis)"
      "layout_inv (inside (length (ed_nodes ed)) ?links) (length (ed_nodes ed)) V inc dep vis []"
    unfolding preview_def using layered_layout_run by blast
  have "inside (length (ed_nodes ed)) ?links = ?links"
    using d(2) unfolding inside_def by (intro filter_True) auto
  then show ?thesis
    using r unvisited_iff_cyclic [OF r(2) inside_bounds] d(1) finish_layout_eq(4) [OF refl] by auto
qed

section \<open>Editing without changes\<close>

lemma request_nodes_total:
  assumes "distinct (map jrow_name rows)" "\<forall>r \<in> set rows. jrow_name r \<notin> set unique \<and> trim (jrow_name r) = jrow_name r \<and>
      (\<exists>x. resource_name (jrow_name r) = Inr x) \<and> jrow_job r \<noteq> None"
  shows "\<exists>names'. request_nodes names unique nodes rows =
    Inr (names', nodes @ map (\<lambda>r. \<lparr> wnq_name = jrow_name r, wnq_job_id = the (jrow_job r) \<rparr>) rows)"
  using assms
proof (induction rows arbitrary: names unique nodes)
  case (Cons r rows)
  then have r: "trim (jrow_name r) = jrow_name r" "jrow_name r \<notin> set unique" "jrow_job r \<noteq> None"
      "\<exists>x. resource_name (jrow_name r) = Inr x" by simp_all
  have "check_name NodeName (jrow_name r) = Inr ()"
    using check_name_trimmed [of NodeName "jrow_name r" "()"] r by simp
  moreover obtain job where "jrow_job r = Some job" using r(3) by blast
  moreover have "\<exists>names'. request_nodes (bt_insert (jrow_key r) (jrow_name r) names) (jrow_name r # unique)
      (nodes @ [\<lparr> wnq_name = jrow_name r, wnq_job_id = job \<rparr>]) rows = Inr (names', (nodes @ [\<lparr> wnq_name = jrow_name r, wnq_job_id = job \<rparr>]) @
      map (\<lambda>r. \<lparr> wnq_name = jrow_name r, wnq_job_id = the (jrow_job r) \<rparr>) rows)"
    using Cons.prems by (intro Cons.IH) (auto simp: image_iff)
  ultimately show ?case using r by (simp add: Let_def)
qed simp

lemma request_edge_rows_total:
  assumes "list_all2 (\<lambda>r e. Option.bind (erow_from r) (bt_get names) = Some (weq_from e) \<and>
      Option.bind (erow_to r) (bt_get names) = Some (weq_to e) \<and> erow_condition r = weq_condition e) rows es"
    "distinct (map (\<lambda>e. (weq_from e, weq_to e)) es)" "\<forall>e \<in> set es. weq_from e \<noteq> weq_to e \<and> (weq_from e, weq_to e) \<notin> set pairs"
  shows "request_edge_rows names pairs rows = Inr es"
  using assms
proof (induction rows es arbitrary: pairs rule: list_all2_induct)
  case (Cons r rows e es)
  moreover have "request_edge_rows names ((weq_from e, weq_to e) # pairs) rows = Inr es"
    using Cons.prems by (intro Cons.IH) (auto simp: image_iff)
  ultimately show ?case by simp
qed simp

lemma input_definition_canonical:
  assumes "input_definition input = Inr d"
  shows "resource_name (resource_str (wd_name d)) = Inr (wd_name d)"
    "n \<in> set (wd_nodes d) \<Longrightarrow> resource_name (resource_str (wn_name n)) = Inr (wn_name n)"
    "e \<in> set (wd_edges d) \<Longrightarrow> resource_name (resource_str (we_from e)) = Inr (we_from e)"
    "e \<in> set (wd_edges d) \<Longrightarrow> resource_name (resource_str (we_to e)) = Inr (we_to e)"
    "validate_workflow d = Some (Inr ())"
proof -
  have canonical: "resource_name (resource_str x) = Inr x" if "resource_name v = Inr x" for v x
    using that by (auto simp: resource_name_def ResourceName_parse_def)
  from assms obtain name nodes edges where d: "resource_name (wi_name input) = Inr name"
      "traverse input_node (wi_nodes input) = Inr nodes" "traverse input_edge (wi_edges input) = Inr edges"
      "d = \<lparr> wd_name = name, wd_description = wi_description input, wd_nodes = nodes, wd_edges = edges \<rparr>"
      "validate_workflow d = Some (Inr ())"
    by (auto simp: input_definition_def Let_def)
  then show "validate_workflow d = Some (Inr ())" "resource_name (resource_str (wd_name d)) = Inr (wd_name d)"
    by (auto intro: canonical)
  show "resource_name (resource_str (wn_name n)) = Inr (wn_name n)" if "n \<in> set (wd_nodes d)"
    using traverse_Ok_set [OF d(2), of n] that d(4) by (auto simp: input_node_def intro: canonical)
  show "resource_name (resource_str (we_from e)) = Inr (we_from e)" "resource_name (resource_str (we_to e)) = Inr (we_to e)"
    if "e \<in> set (wd_edges d)"
    using traverse_Ok_set [OF d(3), of e] that d(4) by (auto simp: input_edge_def intro: canonical)
qed

lemma resource_name_trimmed: "resource_name (resource_str x) = Inr x \<Longrightarrow> trim (resource_str x) = resource_str x"
  by (metis resource_name_str)

lemma workflow_resource_parts:
  assumes "workflow_resource fmt r = Inr res" "wrec_definition r = d"
  shows "wfr_name res = resource_str (wd_name d)" "wfr_description res = wd_description d"
    "map (\<lambda>n. (wnr_name n, wnr_job_id n)) (wfr_nodes res) = map (\<lambda>n. (resource_str (wn_name n), wn_job_id n)) (wd_nodes d)"
    "wfr_edges res = map (\<lambda>e. \<lparr> wer_from = resource_str (we_from e), wer_to = resource_str (we_to e),
       wer_condition = api_condition (we_condition e) \<rparr>) (wd_edges d)"
proof -
  from assms obtain nodes where n: "traverse (\<lambda>n. and_then (ok_or (ApiApplication AppInternal) (bt_get (wrec_node_ids r) (resource_str (wn_name n))))
        (\<lambda>i. Inr \<lparr> wnr_id = i, wnr_name = resource_str (wn_name n), wnr_job_id = wn_job_id n \<rparr>)) (wd_nodes d) = Inr nodes"
      and res: "wfr_nodes res = nodes" "wfr_name res = resource_str (wd_name d)" "wfr_description res = wd_description d"
      "wfr_edges res = map (\<lambda>e. \<lparr> wer_from = resource_str (we_from e), wer_to = resource_str (we_to e),
         wer_condition = api_condition (we_condition e) \<rparr>) (wd_edges d)"
    by (auto simp: workflow_resource_def Let_def)
  show "map (\<lambda>n. (wnr_name n, wnr_job_id n)) (wfr_nodes res) = map (\<lambda>n. (resource_str (wn_name n), wn_job_id n)) (wd_nodes d)"
  proof -
    have "wnr_name (nodes ! i) = resource_str (wn_name (wd_nodes d ! i)) \<and> wnr_job_id (nodes ! i) = wn_job_id (wd_nodes d ! i)"
      if "i < length nodes" for i
      using n that unfolding traverse_Ok_iff by (elim conjE allE [where x = i]) (auto dest!: sym [where t = "nodes ! i"])
    then show ?thesis unfolding res(1) using traverse_length [OF n] by (intro nth_equalityI) auto
  qed
  show "wfr_name res = resource_str (wd_name d)" "wfr_description res = wd_description d"
    "wfr_edges res = map (\<lambda>e. \<lparr> wer_from = resource_str (we_from e), wer_to = resource_str (we_to e),
       wer_condition = api_condition (we_condition e) \<rparr>) (wd_edges d)"
    by (fact res)+
qed

lemma saved_request_definition:
  assumes "input_definition input = Inr d" "workflow_resource fmt r = Inr res" "wrec_definition r = d"
  shows "input_definition (definition_input (saved_request res)) = Inr d"
proof -
  note c = input_definition_canonical [OF assms(1)] and w = workflow_resource_parts [OF assms(2,3)]
  have "traverse input_node (map (\<lambda>n. (resource_str (wn_name n), wn_job_id n)) (wd_nodes d)) = Inr (wd_nodes d)"
    using c(2) by (simp add: traverse_Ok_iff input_node_def)
  moreover have "traverse input_edge (map (\<lambda>e. (resource_str (we_from e), resource_str (we_to e), we_condition e)) (wd_edges d)) = Inr (wd_edges d)"
    using c(3,4) by (simp add: traverse_Ok_iff input_edge_def)
  moreover have "validate_workflow \<lparr> wd_name = wd_name d, wd_description = wd_description d, wd_nodes = wd_nodes d, wd_edges = wd_edges d \<rparr> = Some (Inr ())"
    using c(5) by (cases d) simp
  ultimately show ?thesis
    using c(1,5) w(1,2,4) w(3) by (simp add: input_definition_def definition_input_def saved_request_def Let_def comp_def)
qed

lemma row_named_unique:
  assumes "distinct (map jrow_name rows)" "distinct (map jrow_key rows)" "nm \<in> set (map jrow_name rows)"
    "\<forall>r \<in> set rows. trim (jrow_name r) = jrow_name r" "request_nodes [] [] [] rows = Inr (names, nodes)"
  shows "Option.bind (row_named rows nm) (bt_get names) = Some nm"
proof -
  obtain r where r: "r \<in> set rows" "jrow_name r = nm" using assms(3) by auto
  have "find (\<lambda>row. jrow_name row = nm) rows = Some r" "find (\<lambda>row. jrow_key row = jrow_key r) rows = Some r"
    using find_key_unique [OF assms(1) r(1)] find_key_unique [OF assms(2) r(1)] r(2) by simp_all
  then show ?thesis
    using request_nodes_Ok(6) [OF assms(5) bt_sorted_Nil assms(2), of "jrow_key r"] r bspec [OF assms(4) r(1)] by (simp add: row_named_def)
qed

text \<open>
  C12. Editing loses nothing: when a stored definition that the server accepted is loaded into the editor and
  submitted without changes, the editor accepts it, sends exactly the definition it loaded, and the
  server reads the stored definition back.  An empty description is stored as no description.
\<close>

theorem unchanged_edit_roundtrip:
  assumes "input_definition input = Inr d" "wrec_definition r = d" "workflow_resource fmt r = Inr res"
    "distinct (map wnr_id (wfr_nodes res))" "wd_description d \<noteq> Some []"
  shows "editor_request (Editor_new fresh (Some res)) = Inr (saved_request res) \<and>
    input_definition (definition_input (saved_request res)) = Inr d"
proof -
  note c = input_definition_canonical [OF assms(1)] and w = workflow_resource_parts [OF assms(3,2)]
  note valid = validate_workflow_accepts [of d, THEN conjunct2, THEN iffD1, OF c(5)]
  let ?ed = "Editor_new fresh (Some res)" and ?nodes = "map (\<lambda>n. (wnr_name n, wnr_job_id n)) (wfr_nodes res)"
  let ?rows = "map (\<lambda>n. \<lparr> jrow_key = wnr_id n, jrow_name = wnr_name n, jrow_job = Some (wnr_job_id n) \<rparr>) (wfr_nodes res)"
  let ?es = "cwr_edges (saved_request res)"
  have names: "map jrow_name ?rows = node_names (wd_nodes d)"
    using arg_cong [OF w(3), of "map fst"] by (simp add: comp_def)
  have canonical: "trim nm = nm \<and> (\<exists>x. resource_name nm = Inr x)" if "nm \<in> set (map jrow_name ?rows)" for nm
    using that c(2) resource_name_trimmed unfolding names by fastforce
  have "\<exists>names'. request_nodes [] [] [] ?rows = Inr (names', [] @ map (\<lambda>r. \<lparr> wnq_name = jrow_name r, wnq_job_id = the (jrow_job r) \<rparr>) ?rows)"
    by (rule request_nodes_total) (use valid canonical names in \<open>auto simp: graph_ok_def\<close>)
  then obtain names' where n: "request_nodes [] [] [] ?rows = Inr (names', cwr_nodes (saved_request res))"
    by (auto simp: saved_request_def comp_def)
  have known: "{resource_str (we_from e), resource_str (we_to e)} \<subseteq> set (map jrow_name ?rows)" if "e \<in> set (wd_edges d)" for e
    using valid that unfolding names graph_ok_def by fastforce
  have found: "Option.bind (row_named ?rows nm) (bt_get names') = Some nm" if "nm \<in> set (map jrow_name ?rows)" for nm
  proof (rule row_named_unique [OF _ _ that _ n])
    show "distinct (map jrow_name ?rows)" using valid by (simp only: names graph_ok_def)
    show "distinct (map jrow_key ?rows)" using assms(4) by (simp add: comp_def)
    show "\<forall>r \<in> set ?rows. trim (jrow_name r) = jrow_name r" using canonical by simp
  qed
  have "request_edge_rows names' [] (ed_edges ?ed) = Inr ?es"
  proof (rule request_edge_rows_total)
    show "distinct (map (\<lambda>e. (weq_from e, weq_to e)) ?es)" "\<forall>e \<in> set ?es. weq_from e \<noteq> weq_to e \<and> (weq_from e, weq_to e) \<notin> set []"
      using valid w(4) by (auto simp: saved_request_def graph_ok_def comp_def)
    show "list_all2 (\<lambda>r e. Option.bind (erow_from r) (bt_get names') = Some (weq_from e) \<and>
        Option.bind (erow_to r) (bt_get names') = Some (weq_to e) \<and> erow_condition r = weq_condition e) (ed_edges ?ed) ?es"
      using w(4) found known [OF nth_mem]
      by (simp add: list_all2_conv_all_nth Editor_new_def saved_request_def nth_enumerate_eq Let_def)
  qed
  moreover have "length ?rows = length (wd_nodes d)" "length (ed_edges ?ed) = length (wd_edges d)" "ed_nodes ?ed = ?rows"
    using arg_cong [OF names, of length] w(4) by (simp_all add: Editor_new_def Let_def)
  moreover have "check_name WorkflowName (trim (ed_name ?ed)) = Inr ()" "trim (ed_name ?ed) = cwr_name (saved_request res)"
    using check_name_trimmed [of WorkflowName "ed_name ?ed" "()"] c(1) resource_name_trimmed [OF c(1)] w(1)
    by (simp_all add: Editor_new_def saved_request_def Let_def)
  moreover have "char_count (ed_description ?ed) \<le> 500"
    "(if ed_description ?ed = [] then None else Some (ed_description ?ed)) = cwr_description (saved_request res)"
    using valid assms(5) w(2) by (auto simp: Editor_new_def saved_request_def description_ok_def char_count_def Let_def split: option.splits)
  moreover have "ed_namespace ?ed \<noteq> None" by (simp add: Editor_new_def Let_def)
  ultimately have "editor_request ?ed = Inr (saved_request res)"
    using n valid by (simp add: editor_request_def request_edges_def Let_def del: check_name_trimmed) auto
  then show ?thesis using saved_request_definition [OF assms(1,3,2)] by simp
qed

section \<open>A draft in the editor\<close>

definition draft_input :: WorkflowInput where
  "draft_input = \<lparr> wi_name = ''nightly'', wi_description = Some ''load'', wi_nodes = [(''extract'', 1), ('' load'', 2)],
     wi_edges = [(''extract'', ''load'', OnFailure)] \<rparr>"

definition draft_definition :: WorkflowDefinition where
  "draft_definition = \<lparr> wd_name = ResourceName ''nightly'', wd_description = Some ''load'',
     wd_nodes = [\<lparr> wn_name = ResourceName ''extract'', wn_job_id = 1 \<rparr>, \<lparr> wn_name = ResourceName ''load'', wn_job_id = 2 \<rparr>],
     wd_edges = [\<lparr> we_from = ResourceName ''extract'', we_to = ResourceName ''load'', we_condition = OnFailure \<rparr>] \<rparr>"

definition draft_record :: WorkflowRecord where
  "draft_record = \<lparr> wrec_id = 7, wrec_namespace_id = 3, wrec_namespace = NamespaceName ''team'', wrec_revision = 1,
     wrec_definition = draft_definition, wrec_node_ids = [(''extract'', 8), (''load'', 9)], wrec_created_at = 0, wrec_updated_at = 0 \<rparr>"

definition draft_resource :: WorkflowResource where
  "draft_resource = \<lparr> wfr_id = 7, wfr_namespace_id = 3, wfr_namespace = ''team'', wfr_name = ''nightly'',
     wfr_description = Some ''load'', wfr_revision = 1,
     wfr_nodes = [\<lparr> wnr_id = 8, wnr_name = ''extract'', wnr_job_id = 1 \<rparr>, \<lparr> wnr_id = 9, wnr_name = ''load'', wnr_job_id = 2 \<rparr>],
     wfr_edges = [\<lparr> wer_from = ''extract'', wer_to = ''load'', wer_condition = ApiFailure \<rparr>], wfr_created_at = ''t'', wfr_updated_at = ''t'' \<rparr>"

lemma draft_stored:
  "input_definition draft_input = Inr draft_definition" "workflow_resource (\<lambda>_. Some ''t'') draft_record = Inr draft_resource"
  "wrec_definition draft_record = draft_definition" "distinct (map wnr_id (wfr_nodes draft_resource))"
  "wd_description draft_definition \<noteq> Some []"
  by code_simp+

theorem unchanged_edit_roundtrip_witness:
  "editor_request (Editor_new (\<lambda>i. i) (Some draft_resource)) = Inr (saved_request draft_resource) \<and>
   input_definition (definition_input (saved_request draft_resource)) = Inr draft_definition"
  by (rule unchanged_edit_roundtrip [OF draft_stored(1,3,2,4,5)])

text \<open>A dependency back from \<open>load\<close> to \<open>extract\<close> makes the draft cyclic.\<close>

definition cyclic_draft :: Editor where
  "cyclic_draft = (let ed = Editor_new (\<lambda>i. i) (Some draft_resource) in
     ed\<lparr> ed_edges := ed_edges ed @ [\<lparr> erow_key = 10, erow_from = Some 9, erow_to = Some 8, erow_condition = ApiAlways \<rparr>] \<rparr>)"

theorem editor_agrees_with_server_witness:
  "\<exists>req g. editor_request cyclic_draft = Inr req \<and> preview cyclic_draft = Some g \<and> unresolved g \<and>
     \<not> is_ok (input_definition (definition_input req))"
proof -
  obtain req where r: "editor_request cyclic_draft = Inr req" "\<not> is_ok (input_definition (definition_input req))"
  proof -
    have "case editor_request cyclic_draft of Inl _ \<Rightarrow> False | Inr req \<Rightarrow> \<not> is_ok (input_definition (definition_input req))"
      by code_simp
    then show ?thesis using that by (auto split: sum.splits)
  qed
  have "distinct (map jrow_key (ed_nodes cyclic_draft))" "NUL \<notin> set (ed_description cyclic_draft)" by code_simp+
  from editor_agrees_with_server [OF r(1) this] r show ?thesis by blast
qed

end
