(* ===== verification/ConsoleForms.thy ===== *)
theory ConsoleForms
  imports Console Dispatcher
begin

text \<open>
  Further logic of the web console: proposed node names and the saving of a Workflow
  (\<open>pages/workflows/form.rs\<close>), the explanation of a skipped node (\<open>node_list.rs\<close>), and the Job form
  (\<open>pages/jobs/form.rs\<close>, \<open>components/forms.rs\<close>).  A signal is the value it holds.
\<close>

section \<open>Proposed node names\<close>

definition trim_end_dashes :: "bytes \<Rightarrow> bytes" where
  "trim_end_dashes v = rev (dropWhile (\<lambda>c. c = CHR ''-'') (rev v))"

text \<open>\<open>get(..n)\<close> is absent when the text is shorter; names are ASCII.\<close>

definition name_candidate :: "bytes \<Rightarrow> nat \<Rightarrow> bytes" where
  "name_candidate base n =
     (let suff = CHR ''-'' # decimal n; k = 63 - length suff in
      trim_end_dashes (if k \<le> length base then take k base else base) @ suff)"

definition name_suffixes :: "nat list" where "name_suffixes = [2..<66]"

definition unique_node_name :: "Editor \<Rightarrow> bytes \<Rightarrow> bytes" where
  "unique_node_name ed base =
     (let existing = map jrow_name (ed_nodes ed) in
      if base \<notin> set existing then base
      else case find (\<lambda>c. c \<notin> set existing) (map (name_candidate base) name_suffixes) of
        Some candidate \<Rightarrow> candidate
      | None \<Rightarrow> [])"

lemma decimal_two: "10 \<le> n \<Longrightarrow> n < 100 \<Longrightarrow> decimal n = [char_of (48 + n div 10), char_of (48 + n mod 10)]"
  by (subst decimal.simps) (simp add: decimal_one)

lemma decimal_length: "n < 100 \<Longrightarrow> length (decimal n) = (if n < 10 then 1 else 2)"
  by (simp add: decimal_one decimal_two)

text \<open>The number can be read off a candidate, so the candidates of one base are different names.\<close>

lemma dash_digits_inj:
  assumes "a @ CHR ''-'' # decimal n = b @ CHR ''-'' # decimal m"
  shows "decimal n = decimal m"
proof -
  have none: "CHR ''-'' \<notin> set (decimal k)" for k using decimal_digits [of k] by (auto simp: is_ascii_digit_def byte_def)
  have "takeWhile (\<lambda>c. c \<noteq> CHR ''-'') (rev (decimal k) @ CHR ''-'' # y) = rev (decimal k)" for y k
    using none [of k] by (subst takeWhile_append2) auto
  then have "takeWhile (\<lambda>c. c \<noteq> CHR ''-'') (rev (x @ CHR ''-'' # decimal k)) = rev (decimal k)" for x k by simp
  then show ?thesis using assms by (metis rev_rev_ident)
qed

lemma decimal_inj: "n < 100 \<Longrightarrow> m < 100 \<Longrightarrow> decimal n = decimal m \<Longrightarrow> n = m"
proof -
  assume n: "n < 100" and m: "m < 100" and eq: "decimal n = decimal m"
  have code: "of_char (char_of (48 + i) :: char) = 48 + i" if "i < 10" for i :: nat
    unfolding of_char_of using that by simp
  have digit: "i = j" if "char_of (48 + i) = (char_of (48 + j) :: char)" "i < 10" "j < 10" for i j :: nat
    using code [OF that(2)] code [OF that(3)] unfolding that(1) by linarith
  have "(if n < 10 then 1 else 2 :: nat) = (if m < 10 then 1 else 2)"
    using decimal_length [OF n] decimal_length [OF m] unfolding eq by (rule trans [OF sym])
  then have "n < 10 \<longleftrightarrow> m < 10" by (simp split: if_splits)
  show "n = m"
  proof (cases "n < 10")
    case True
    with \<open>n < 10 \<longleftrightarrow> m < 10\<close> have "char_of (48 + n) = (char_of (48 + m) :: char)" using eq by (simp only: decimal_one list.inject)
    then show ?thesis using digit True \<open>n < 10 \<longleftrightarrow> m < 10\<close> by blast
  next
    case False
    then have ten: "10 \<le> n" "10 \<le> m" using \<open>n < 10 \<longleftrightarrow> m < 10\<close> by simp_all
    have c: "char_of (48 + n div 10) = (char_of (48 + m div 10) :: char)" "char_of (48 + n mod 10) = (char_of (48 + m mod 10) :: char)"
      using eq unfolding decimal_two [OF ten(1) n] decimal_two [OF ten(2) m] list.inject by simp_all
    have "n div 10 = m div 10" by (rule digit [OF c(1)]) (use n m in auto)
    moreover have "n mod 10 = m mod 10" by (rule digit [OF c(2)]) simp_all
    ultimately show ?thesis by (metis div_mult_mod_eq)
  qed
qed

lemma name_candidate_inj: "inj_on (name_candidate base) {2..<66}"
proof (rule inj_onI)
  fix n m assume "n \<in> {2..<66}" "m \<in> {2..<66}" "name_candidate base n = name_candidate base m"
  then show "n = m" using dash_digits_inj decimal_inj by (auto simp: name_candidate_def Let_def)
qed

lemma trim_end_dashes_prefix: "\<exists>z. v = trim_end_dashes v @ z"
  unfolding trim_end_dashes_def by (metis rev_append rev_rev_ident takeWhile_dropWhile_id)

lemma trim_end_dashes_not_Nil:
  assumes "v \<noteq> []" "hd v \<noteq> CHR ''-''"
  shows "trim_end_dashes v \<noteq> []"
  using assms by (auto simp: trim_end_dashes_def dropWhile_eq_Nil_conv dest: hd_in_set)

lemma name_candidate_canonical:
  assumes "validate_resource_name base = Inr ()" "n < 100"
  shows "validate_resource_name (name_candidate base n) = Inr ()"
proof -
  define k where "k = 63 - length (CHR ''-'' # decimal n)"
  define v where "v = (if k \<le> length base then take k base else base)"
  have b: "base \<noteq> []" "\<forall>c \<in> set base. is_name_character c" "is_name_boundary (hd base)" "length base \<le> 63"
    using assms(1) by (simp_all add: validate_resource_name_Ok)
  have k: "1 \<le> k" "k + length (CHR ''-'' # decimal n) = 63" using decimal_length [OF assms(2)] by (auto simp: k_def split: if_splits)
  have v: "v \<noteq> []" "hd v = hd base" "length v \<le> k" "\<forall>c \<in> set v. is_name_character c"
    using b k(1) by (auto simp: v_def hd_take dest: in_set_takeD)
  obtain z where z: "v = trim_end_dashes v @ z" using trim_end_dashes_prefix by blast
  have hd: "hd v \<noteq> CHR ''-''" using v(2) b(3) by (auto simp: is_name_boundary_def is_ascii_lowercase_def is_ascii_digit_def byte_def)
  note t = trim_end_dashes_not_Nil [OF v(1) hd]
  have "hd (trim_end_dashes v) = hd base" using z t v(2) by (metis hd_append2)
  moreover have "set (trim_end_dashes v) \<subseteq> set v" "length (trim_end_dashes v) \<le> length v"
    using z by (metis set_append Un_upper1, metis length_append le_add1)
  moreover have "\<forall>c \<in> set (decimal n). is_name_boundary c" using decimal_digits by (simp add: is_name_boundary_def)
  ultimately show ?thesis
    using t v b k(2) unfolding name_candidate_def Let_def k_def [symmetric] v_def [symmetric]
    by (auto simp: validate_resource_name_Ok is_name_character_def subset_iff)
qed

text \<open>
  A derived node name is usable: when an unnamed row of a draft of at most 64 rows gets its Job, the proposal for
  the canonical name of the Job is a canonical name that no row has; the search does not run out.  Without the
  unnamed row it could: a base of 63 bytes that ends in a number of its own is one of its candidates.
\<close>

theorem unique_node_name_fresh:
  assumes "validate_resource_name base = Inr ()" "length (ed_nodes ed) \<le> 64" "[] \<in> jrow_name ` set (ed_nodes ed)"
  shows "validate_resource_name (unique_node_name ed base) = Inr () \<and> unique_node_name ed base \<notin> jrow_name ` set (ed_nodes ed)"
proof (cases "base \<in> jrow_name ` set (ed_nodes ed)")
  case True
  let ?names = "jrow_name ` set (ed_nodes ed)" and ?candidates = "name_candidate base ` {2..<66}"
  have suffixes: "set name_suffixes = {2..<66}" by (simp only: name_suffixes_def set_upt)
  have "card ?names \<le> 64" using assms(2) card_length [of "map jrow_name (ed_nodes ed)"] by simp
  then have "card (?names - {[]}) \<le> 63" using assms(3) by (simp add: card_Diff_singleton)
  moreover have "card ?candidates = 64" using card_image [OF name_candidate_inj] by simp
  moreover have "[] \<notin> ?candidates" by (auto simp: name_candidate_def Let_def)
  ultimately have "\<not> ?candidates \<subseteq> ?names"
    using card_mono [of "?names - {[]}" ?candidates] by auto
  then obtain c where c: "find (\<lambda>c. c \<notin> ?names) (map (name_candidate base) name_suffixes) = Some c"
    by (cases "find (\<lambda>c. c \<notin> ?names) (map (name_candidate base) name_suffixes)") (use suffixes in \<open>auto simp: find_None_iff\<close>)
  then have "c \<notin> ?names" "c \<in> ?candidates" using suffixes by (auto dest!: find_Some_in)
  then show ?thesis using True c name_candidate_canonical [OF assms(1)] by (auto simp: unique_node_name_def Let_def)
qed (use assms in \<open>auto simp: unique_node_name_def Let_def\<close>)

text \<open>Choosing a Job for a row: an unnamed row is named after it; the options carry the names of Jobs.\<close>

definition choose_job :: "(uuid \<times> bytes) list \<Rightarrow> uuid \<Rightarrow> uuid option \<Rightarrow> Editor \<Rightarrow> Editor" where
  "choose_job options key job ed =
     ed\<lparr> ed_nodes := update_where (\<lambda>row. jrow_key row = key) (\<lambda>row.
       if jrow_job row = job then row
       else let named = row\<lparr> jrow_job := job \<rparr> in
         if jrow_name row = [] then
           (case find (\<lambda>option. Some (fst option) = job) options of
              Some option \<Rightarrow> named\<lparr> jrow_name := unique_node_name ed (snd option) \<rparr>
            | None \<Rightarrow> named)
         else named) (ed_nodes ed) \<rparr>"

section \<open>Saving\<close>

text \<open>
  The request that \<open>save\<close> sends, and the state after the reply; \<open>key\<close> is the identity of the empty row of a
  new draft.  The feedback dialog is left out.
\<close>

datatype SaveCall = SaveUpdate uuid int CreateWorkflowRequest | SaveCreate uuid CreateWorkflowRequest

definition save_call :: "Editor \<Rightarrow> uuid \<Rightarrow> CreateWorkflowRequest \<Rightarrow> SaveCall" where
  "save_call ed namespace request =
     (case ed_edit_id ed of Some i \<Rightarrow> SaveUpdate i (ed_revision ed) request | None \<Rightarrow> SaveCreate namespace request)"

definition save_reply :: "uuid \<Rightarrow> CreateWorkflowRequest \<Rightarrow> (ClientError, WorkflowResource) result \<Rightarrow> Editor \<Rightarrow> Editor" where
  "save_reply key request r ed =
     (case r of
        Inr workflow \<Rightarrow>
          (let ed1 = ed\<lparr> ed_saved_id := Some (wfr_id workflow), ed_revision := wfr_revision workflow, ed_saved := Some request \<rparr>;
               ed2 = (if ed_edit_id ed = None
                      then ed1\<lparr> ed_name := [], ed_description := [], ed_nodes := [JobRow_empty key], ed_edges := [], ed_attempted := False \<rparr>
                      else ed1) in
           ed2\<lparr> ed_busy := False \<rparr>)
      | Inl e \<Rightarrow>
          (let message = (if ed_edit_id ed \<noteq> None \<and> ce_code e = ''already_exists''
             then ce_message e @ '' The name may be in use or the Workflow may have changed. Choose another name, or use Reload latest to review the current revision.''
             else ce_message e) in
           ed\<lparr> ed_error := Some message, ed_busy := False \<rparr>))"

text \<open>
  A rejected save keeps the draft: rows, name and description stay, and so do the revision and the saved
  definition, so that a conflict cannot be overwritten by saving again.
\<close>

lemma rejected_save_keeps_draft:
  "save_call (save_reply key request (Inl e) ed) namespace request' = save_call ed namespace request'"
  "editor_request (save_reply key request (Inl e) ed) = editor_request ed"
  "ed_saved (save_reply key request (Inl e) ed) = ed_saved ed"
proof -
  obtain m where r: "save_reply key request (Inl e) ed = ed\<lparr> ed_error := m, ed_busy := False \<rparr>"
    by (auto simp: save_reply_def Let_def)
  show "save_call (save_reply key request (Inl e) ed) namespace request' = save_call ed namespace request'"
    "ed_saved (save_reply key request (Inl e) ed) = ed_saved ed"
    by (simp_all add: r save_call_def split: option.split)
  show "editor_request (save_reply key request (Inl e) ed) = editor_request ed"
    unfolding r editor_request_def by (simp cong: if_cong)
qed

section \<open>The explanation of a skipped node\<close>

fun condition_label :: "ApiDependencyCondition \<Rightarrow> bytes" where
  "condition_label ApiSuccess = ''On success''"
| "condition_label ApiFailure = ''On failure''"
| "condition_label ApiAlways = ''Always''"

fun node_state_label :: "WorkflowNodeRunState \<Rightarrow> bytes" where
  "node_state_label ApiNodePending = ''Pending''"
| "node_state_label ApiNodeReady = ''Ready''"
| "node_state_label ApiNodeRunning = ''Running''"
| "node_state_label ApiNodeSucceeded = ''Succeeded''"
| "node_state_label ApiNodeFailed = ''Failed''"
| "node_state_label ApiNodeSkipped = ''Skipped''"
| "node_state_label ApiNodeCancelled = ''Cancelled''"
| "node_state_label ApiNodeUnknown = ''Unknown''"

definition shown_terminal :: "WorkflowNodeRunState \<Rightarrow> bool" where
  "shown_terminal s \<longleftrightarrow> \<not> (s = ApiNodePending \<or> s = ApiNodeReady \<or> s = ApiNodeRunning)"

definition shown_matches :: "ApiDependencyCondition \<Rightarrow> WorkflowNodeRunState \<Rightarrow> bool" where
  "shown_matches c s =
     (case c of ApiSuccess \<Rightarrow> s = ApiNodeSucceeded
      | ApiFailure \<Rightarrow> s = ApiNodeFailed \<or> s = ApiNodeUnknown
      | ApiAlways \<Rightarrow> shown_terminal s)"

fun skip_mismatch :: "WorkflowNodeRunResource list \<Rightarrow> bytes \<Rightarrow> WorkflowEdgeResource list
     \<Rightarrow> (WorkflowNodeRunResource \<times> ApiDependencyCondition) option" where
  "skip_mismatch nodes name [] = None"
| "skip_mismatch nodes name (edge # edges) =
     (if wer_to edge \<noteq> name then skip_mismatch nodes name edges
      else case find (\<lambda>previous. wnrr_name previous = wer_from edge) nodes of
        None \<Rightarrow> skip_mismatch nodes name edges
      | Some predecessor \<Rightarrow>
          if shown_terminal (wnrr_state predecessor) \<and> \<not> shown_matches (wer_condition edge) (wnrr_state predecessor)
          then Some (predecessor, wer_condition edge)
          else skip_mismatch nodes name edges)"

definition skip_explanation :: "WorkflowRunResource \<Rightarrow> WorkflowNodeRunResource \<Rightarrow> bytes" where
  "skip_explanation r node =
     (case skip_mismatch (wrrs_nodes r) (wnrr_name node) (wfr_edges (wrrs_workflow r)) of
        Some (predecessor, missed) \<Rightarrow>
          ''Expected branch skip: '' @ wnrr_name predecessor @ '' ended '' @ map to_ascii_lowercase (node_state_label (wnrr_state predecessor)) @
          '' and did not match '' @ condition_label missed @ ''.''
      | None \<Rightarrow> ''This node was skipped by normal execution. Follow any associated Run for its outcome.'')"

text \<open>The dependencies of a node as the console sees them.\<close>

definition shown_dependencies :: "WorkflowNodeRunResource list \<Rightarrow> bytes \<Rightarrow> WorkflowEdgeResource list
     \<Rightarrow> (ApiDependencyCondition \<times> WorkflowNodeRunState) list" where
  "shown_dependencies nodes name edges = List.map_filter (\<lambda>e. if wer_to e \<noteq> name then None
     else map_option (\<lambda>n. (wer_condition e, wnrr_state n)) (find (\<lambda>n. wnrr_name n = wer_from e) nodes)) edges"

lemma skip_mismatch_iff:
  "skip_mismatch nodes name edges \<noteq> None \<longleftrightarrow> (\<exists>(c, s) \<in> set (shown_dependencies nodes name edges). shown_terminal s \<and> \<not> shown_matches c s)"
  by (induction nodes name edges rule: skip_mismatch.induct) (auto simp: shown_dependencies_def List.map_filter_simps split: option.splits)

lemma shown_states:
  "shown_terminal (node_run_state s) = node_is_terminal s"
  "node_is_terminal s \<Longrightarrow> shown_matches (api_condition c) (node_run_state s) = condition_matches c s"
  by (cases s; cases c; simp add: shown_terminal_def node_run_state_def node_is_terminal_def shown_matches_def api_condition_def condition_matches_def)+

text \<open>
  The console explains a skip exactly when the server's join skips: over the same dependencies, a
  branch mismatch is shown if and only if the dependency decision is to skip the node.
\<close>

theorem skip_explained_exactly:
  assumes "shown_dependencies nodes name edges = map (\<lambda>(c, s). (api_condition c, node_run_state s)) deps"
  shows "skip_mismatch nodes name edges \<noteq> None \<longleftrightarrow> dependency_decision deps = DepSkipped"
  unfolding skip_mismatch_iff assms dependency_decision_def decide_from_Skipped
  using shown_states by fastforce

section \<open>The Job form\<close>

text \<open>\<open>fe_json\<close> parses JSON, \<open>fe_encode\<close> is the compact encoder and \<open>fe_f64\<close> parses decimal numbers.\<close>

record FormEnv =
  fe_json :: "bytes \<Rightarrow> json option"
  fe_encode :: "json \<Rightarrow> bytes option"
  fe_f64 :: "bytes \<Rightarrow> f64 option"

datatype InputFeedback = InvalidJson | InvalidInputs InputError

definition parse_input_object :: "FormEnv \<Rightarrow> bytes \<Rightarrow> (InputFeedback, json) result" where
  "parse_input_object F v =
     and_then (ok_or InvalidJson (fe_json F v)) (\<lambda>parsed.
     and_then (map_err InvalidInputs (validate_inputs (fe_encode F) parsed)) (\<lambda>_. Ok parsed))"

text \<open>The fields of the form with the flags of its page; choices, preview and feedback dialog are left out.\<close>

record JobForm =
  jf_namespace_id :: "uuid option"
  jf_name :: bytes
  jf_queue_id :: "uuid option"
  jf_executor :: ApiExecutorKind
  jf_executable :: bytes
  jf_shell_command :: bytes
  jf_arguments :: "bytes list"
  jf_inputs :: bytes
  jf_idempotent :: bool
  jf_dry_run :: bool
  jf_max_attempts :: bytes
  jf_retry_initial :: bytes
  jf_retry_max :: bytes
  jf_retry_multiplier :: bytes
  jf_retry_jitter :: bytes
  jf_attempted :: bool
  jf_submitting :: bool
  jf_server_field :: "(bytes \<times> bytes) option"

definition job_request :: "FormEnv \<Rightarrow> JobForm \<Rightarrow> (unit, CreateJobRequest) result" where
  "job_request F f =
     and_then (ok_or () (jf_queue_id f)) (\<lambda>queue.
     and_then (map_err (\<lambda>_. ()) (parse_input_object F (jf_inputs f))) (\<lambda>inputs.
     and_then (ok_or () (parse_unsigned u16_max (trim (jf_max_attempts f)))) (\<lambda>max_attempts.
     and_then (ok_or () (parse_unsigned u32_max (trim (jf_retry_initial f)))) (\<lambda>initial.
     and_then (ok_or () (parse_unsigned u32_max (trim (jf_retry_max f)))) (\<lambda>maximum.
     and_then (ok_or () (fe_f64 F (trim (jf_retry_multiplier f)))) (\<lambda>multiplier.
     and_then (ok_or () (fe_f64 F (trim (jf_retry_jitter f)))) (\<lambda>jitter.
     Ok \<lparr> cjr_name = trim (jf_name f), cjr_queue_id = queue, cjr_executor = jf_executor f,
          cjr_executable = (if jf_executor f \<noteq> ApiNoop then Some (trim (jf_executable f)) else None),
          cjr_shell_command = (if jf_executor f = ApiShell then Some (jf_shell_command f) else None),
          cjr_arguments = jf_arguments f, cjr_inputs = inputs, cjr_idempotent = jf_idempotent f, cjr_dry_run = jf_dry_run f,
          cjr_max_attempts = max_attempts, cjr_retry_initial_seconds = initial, cjr_retry_max_seconds = maximum,
          cjr_retry_multiplier = multiplier, cjr_retry_jitter = jitter \<rparr>)))))))"

definition server_error :: "JobForm \<Rightarrow> bytes \<Rightarrow> bytes option" where
  "server_error f field = (case jf_server_field f of Some (name, message) \<Rightarrow> if name = field then Some message else None | None \<Rightarrow> None)"

text \<open>Which fields show an error; \<open>or_else\<close> gives the server's message precedence.\<close>

record JobErrors =
  je_name :: bool
  je_inputs :: bool
  je_arguments :: bool
  je_namespace :: bool
  je_queue :: bool
  je_executable :: bool
  je_shell_command :: bool

definition job_errors :: "FormEnv \<Rightarrow> JobForm \<Rightarrow> JobErrors" where
  "job_errors F f =
     \<lparr> je_name = (server_error f ''name'' \<noteq> None \<or> visible_name_validation (jf_name f) (jf_attempted f) \<noteq> None),
       je_inputs = (server_error f ''inputs'' \<noteq> None \<or> \<not> is_ok (parse_input_object F (jf_inputs f))),
       je_arguments = (server_error f ''arguments'' \<noteq> None \<or> \<not> is_ok (validate_argument_templates (jf_arguments f))),
       je_namespace = (server_error f ''namespace_id'' \<noteq> None \<or> jf_attempted f \<and> jf_namespace_id f = None),
       je_queue = (server_error f ''queue_id'' \<noteq> None \<or> jf_attempted f \<and> jf_queue_id f = None),
       je_executable = (server_error f ''executable'' \<noteq> None \<or> jf_executor f \<noteq> ApiNoop \<and> trim (jf_executable f) = []),
       je_shell_command = (server_error f ''shell_command'' \<noteq> None \<or>
         jf_executor f = ApiShell \<and> (trim (jf_shell_command f) = [] \<or> find_sub ''{{'' (jf_shell_command f) \<noteq> None)) \<rparr>"

definition job_form_disabled :: "FormEnv \<Rightarrow> JobForm \<Rightarrow> bool" where
  "job_form_disabled F f \<longleftrightarrow>
     (let errors = job_errors F f in
      jf_submitting f \<or> jf_namespace_id f = None \<or> name_validation_message (jf_name f) True \<noteq> None \<or>
      je_inputs errors \<or> je_arguments errors \<or> je_executable errors \<or> je_shell_command errors \<or> \<not> is_ok (job_request F f))"

definition job_reset :: "JobForm \<Rightarrow> JobForm" where
  "job_reset f = f\<lparr> jf_name := [], jf_executor := ApiNoop, jf_executable := [], jf_shell_command := [], jf_arguments := [],
     jf_inputs := ''{}'', jf_idempotent := False, jf_dry_run := False, jf_max_attempts := ''1'', jf_retry_initial := ''1'',
     jf_retry_max := ''60'', jf_retry_multiplier := ''2.0'', jf_retry_jitter := ''0.2'', jf_attempted := False,
     jf_server_field := None \<rparr>"

text \<open>Submission: the state after the click with the request that is sent, if any, and the state after the answer.\<close>

definition job_submit :: "FormEnv \<Rightarrow> JobForm \<Rightarrow> JobForm \<times> (uuid \<times> CreateJobRequest) option" where
  "job_submit F f =
     (if jf_submitting f then (f, None)
      else let f' = f\<lparr> jf_attempted := True, jf_server_field := None \<rparr> in
        case (jf_namespace_id f, job_request F f) of
          (Some namespace, Inr request) \<Rightarrow> (f'\<lparr> jf_submitting := True \<rparr>, Some (namespace, request))
        | _ \<Rightarrow> (f', None))"

definition job_answer :: "uuid option \<Rightarrow> (ClientError, JobResource) result \<Rightarrow> JobForm \<Rightarrow> JobForm" where
  "job_answer edit_id r f =
     (case r of
        Inr _ \<Rightarrow> (if edit_id = None then job_reset f else f)
      | Inl e \<Rightarrow>
          (case ce_field e of
             Some field \<Rightarrow> f\<lparr> jf_server_field := Some (field, ce_message e) \<rparr>
           | None \<Rightarrow>
               if ce_code e = ''already_exists''
               then f\<lparr> jf_server_field := Some (''name'', ''This name is already used in the selected Namespace.'') \<rparr>
               else f))\<lparr> jf_submitting := False \<rparr>"

text \<open>
  What the form accepts locally the server accepts too: an enabled form sends its request, whose name,
  input object and templates pass the server's validation, and whose executor has the parts the server demands;
  what is left to the server are the bounds on arguments, attempts, retry policy and the form of the path.
\<close>

theorem enabled_job_form_submits:
  assumes "\<not> job_form_disabled F f"
  shows "\<exists>f' namespace request name. job_submit F f = (f', Some (namespace, request)) \<and> jf_submitting f' \<and>
    resource_name (cjr_name request) = Inr name \<and>
    validate_input_object (fe_encode F) (cjr_inputs request) = Inr () \<and>
    validate_argument_templates (cjr_arguments request) = Inr () \<and>
    (cjr_executable request = None \<longleftrightarrow> cjr_executor request = ApiNoop) \<and>
    (case cjr_shell_command request of None \<Rightarrow> cjr_executor request \<noteq> ApiShell
     | Some script \<Rightarrow> cjr_executor request = ApiShell \<and> trim script \<noteq> [] \<and> find_sub ''{{'' script = None)"
proof -
  from assms have ok: "\<not> jf_submitting f" "name_validation_message (jf_name f) True = None" "is_ok (parse_input_object F (jf_inputs f))"
      "is_ok (validate_argument_templates (jf_arguments f))" "is_ok (job_request F f)" "jf_namespace_id f \<noteq> None"
      "jf_executor f = ApiShell \<Longrightarrow> trim (jf_shell_command f) \<noteq> [] \<and> find_sub ''{{'' (jf_shell_command f) = None"
    by (auto simp: job_form_disabled_def job_errors_def Let_def)
  obtain namespace request where r: "jf_namespace_id f = Some namespace" "job_request F f = Inr request"
    using ok(5,6) by (auto simp: is_ok_iff)
  have "\<exists>name. resource_name (trim (jf_name f)) = Inr name"
    using ok(2) by (auto simp: name_validation_message_def resource_name_def ResourceName_parse_def Let_def split: sum.splits)
  moreover have "cjr_name request = trim (jf_name f)" "cjr_arguments request = jf_arguments f" "cjr_executor request = jf_executor f"
      "cjr_executable request = (if jf_executor f \<noteq> ApiNoop then Some (trim (jf_executable f)) else None)"
      "cjr_shell_command request = (if jf_executor f = ApiShell then Some (jf_shell_command f) else None)"
      "validate_inputs (fe_encode F) (cjr_inputs request) = Inr ()"
    using r(2) by (auto simp: job_request_def parse_input_object_def)
  moreover have "job_submit F f = (f\<lparr> jf_attempted := True, jf_server_field := None, jf_submitting := True \<rparr>, Some (namespace, request))"
    using ok(1) r by (simp add: job_submit_def Let_def)
  ultimately show ?thesis using ok(4,7) by (auto simp: validate_input_object_def is_ok_iff)
qed

end
