(* ===== verification/WorkerProcess.thy ===== *)
theory WorkerProcess
  imports Worker Nats
begin

text \<open>
  The worker as a process: its command line (\<open>cli/dispatch/mod.rs\<close>), the setup of its consumer, the fetch loop
  and the presence heartbeat (\<open>cli/actions/run.rs\<close>).  The parser of the command line, the NATS client and the
  host's answers about itself are parameters.
\<close>

section \<open>The command line\<close>

text \<open>What the parser found for the \<open>run\<close> subcommand; its range check admits concurrencies from 1 to 256.\<close>

record RunMatches =
  rm_nats_url :: "bytes option"
  rm_queue :: "bytes option"
  rm_worker_id :: "bytes option"
  rm_concurrency :: "int option"
  rm_dry_run :: bool
  rm_log_format :: "bytes option"

datatype CliError = MissingUrl | MissingQueue | MissingConcurrency | NoSubcommand

text \<open>
  \<open>to_ascii_lowercase\<close> and the replacement work on characters, so a character of several bytes becomes
  one dash; the result is ASCII, where truncation to a length is \<open>take\<close>.
\<close>

definition sanitized :: "bytes \<Rightarrow> bytes" where
  "sanitized host = map (\<lambda>c. if is_ascii_lowercase c \<or> is_ascii_uppercase c \<or> is_ascii_digit c then to_ascii_lowercase c else CHR ''-'')
     (filter (\<lambda>c. \<not> is_continuation c) host)"

definition trim_dashes :: "bytes \<Rightarrow> bytes" where
  "trim_dashes v = rev (dropWhile (\<lambda>c. c = CHR ''-'') (rev (dropWhile (\<lambda>c. c = CHR ''-'') v)))"

text \<open>\<open>host\<close> is the platform's host name, if it reports one; \<open>random\<close> the simple form of a new UUID.\<close>

definition default_worker_id :: "bytes option \<Rightarrow> bytes \<Rightarrow> bytes" where
  "default_worker_id host random =
     (let hostname = (case host of None \<Rightarrow> ''worker'' | Some h \<Rightarrow> h);
          stem = trim_dashes (take 46 (sanitized hostname));
          stem = (if stem = [] then ''worker'' else stem);
          suff = (if 16 \<le> length random then drop 16 random else random) in
      stem @ ''-'' @ suff)"

definition worker_handler :: "bytes option \<Rightarrow> bytes \<Rightarrow> RunMatches option \<Rightarrow> (CliError, Args) result" where
  "worker_handler host random matches =
     (case matches of
        None \<Rightarrow> Err NoSubcommand
      | Some v \<Rightarrow>
          and_then (ok_or MissingUrl (rm_nats_url v)) (\<lambda>url.
          and_then (ok_or MissingQueue (rm_queue v)) (\<lambda>queue.
          let worker_id = (case rm_worker_id v of Some i \<Rightarrow> i | None \<Rightarrow> default_worker_id host random) in
          and_then (ok_or MissingConcurrency (rm_concurrency v)) (\<lambda>concurrency.
          Ok \<lparr> args_nats_url = url, args_queue = queue, args_worker_id = worker_id, args_concurrency = concurrency,
               args_dry_run = rm_dry_run v,
               args_log_format = (if rm_log_format v = Some ''json'' then JsonLog else PrettyLog) \<rparr>))))"

section \<open>Setup\<close>

text \<open>The settings of the durable consumer that differ from the defaults of the client; the wait in seconds.\<close>

record ConsumerConfig =
  consumer_durable_name :: bytes
  consumer_description :: bytes
  consumer_ack_explicit :: bool
  consumer_ack_wait :: int
  consumer_max_ack_pending :: int
  consumer_filter_subject :: bytes

definition consumer_config :: "(uuid \<Rightarrow> bytes) \<Rightarrow> Args \<Rightarrow> QueueReference \<Rightarrow> ConsumerConfig" where
  "consumer_config uuid_str args queue =
     \<lparr> consumer_durable_name = ''crono-'' @ uuid_str (qref_id queue),
       consumer_description = ''Crono workers for Queue '' @ qref_name queue, consumer_ack_explicit = True,
       consumer_ack_wait = 90, consumer_max_ack_pending = args_concurrency args,
       consumer_filter_subject = ''crono.dispatch.'' @ uuid_str (qref_id queue) \<rparr>"

datatype StartError =
    BadQueueName | BadWorkerId | BadNatsConfig error_chain | NatsUnreachable error_chain | QueueUnresolved ResolutionError
  | StreamUnavailable | ConsumerFailed

text \<open>\<open>ask\<close> are the answers to the resolution requests, \<open>ensure_consumer\<close> tells whether the consumer could be ensured.\<close>

definition worker_start ::
  "'k nats_env \<Rightarrow> 'c broker \<Rightarrow> environment \<Rightarrow> (uuid \<Rightarrow> bytes) \<Rightarrow> ('c \<Rightarrow> nat \<Rightarrow> ResolutionReply) \<Rightarrow> ('c \<Rightarrow> ConsumerConfig \<Rightarrow> bool)
     \<Rightarrow> Args \<Rightarrow> (StartError, 'c \<times> QueueReference) result" where
  "worker_start N B env uuid_str ask ensure_consumer args =
     and_then (ensure (validate_token (args_queue args)) BadQueueName) (\<lambda>_.
     and_then (ensure (validate_token (args_worker_id args)) BadWorkerId) (\<lambda>_.
     and_then (map_err BadNatsConfig (from_lookup (args_nats_url args) env)) (\<lambda>config.
     and_then (map_err NatsUnreachable (nats_connect N B config)) (\<lambda>c.
     and_then (map_err QueueUnresolved (fst (resolve_queue (ask c)))) (\<lambda>queue.
     and_then (ensure (bk_stream B c STREAM_NAME) StreamUnavailable) (\<lambda>_.
     and_then (ensure (ensure_consumer c (consumer_config uuid_str args queue)) ConsumerFailed) (\<lambda>_.
     Ok (c, queue))))))))"

section \<open>The fetch loop\<close>

text \<open>
  A fetch fails or yields messages, some of which failed in delivery.  The batches that are handled, each
  concurrently: failed fetches and empty batches only wait.
\<close>

fun worker_batches :: "(bytes, (bytes, 'm) result list) result list \<Rightarrow> 'm list list" where
  "worker_batches [] = []"
| "worker_batches (Inl _ # fetches) = worker_batches fetches"
| "worker_batches (Inr messages # fetches) =
     (let batch = List.map_filter (\<lambda>m. case m of Inl _ \<Rightarrow> None | Inr v \<Rightarrow> Some v) messages in
      if batch = [] then worker_batches fetches else batch # worker_batches fetches)"

section \<open>Presence\<close>

record HostInfo =
  host_name :: "bytes option"
  host_os :: bytes
  host_architecture :: bytes
  host_shell_present :: bool

definition safe_variable :: "environment \<Rightarrow> bytes \<Rightarrow> bytes option" where
  "safe_variable env name =
     (case env name of None \<Rightarrow> None | Some v \<Rightarrow> if length v \<le> 128 \<and> \<not> has_control v then Some v else None)"

definition worker_diagnostics :: "HostInfo \<Rightarrow> environment \<Rightarrow> bool \<Rightarrow> WorkerDiagnostics" where
  "worker_diagnostics H env dry_run =
     \<lparr> wd_hostname = (case host_name H of None \<Rightarrow> ''unknown'' | Some h \<Rightarrow> h), wd_os = host_os H,
       wd_architecture = host_architecture H, wd_default_shell_path = ''/bin/sh'',
       wd_default_shell_present = host_shell_present H, wd_dry_run = dry_run, wd_lang = safe_variable env ''LANG'',
       wd_lc_all = safe_variable env ''LC_ALL'', wd_tz = safe_variable env ''TZ'' \<rparr>"

definition heartbeat_request :: "HostInfo \<Rightarrow> environment \<Rightarrow> bytes \<Rightarrow> Args \<Rightarrow> uuid \<Rightarrow> uuid \<Rightarrow> WorkerHeartbeatRequest" where
  "heartbeat_request H env version args queue session =
     \<lparr> hb_worker_id = args_worker_id args, hb_session_id = session, hb_queue_id = queue,
       hb_concurrency = args_concurrency args, hb_version = version,
       hb_diagnostics = Some (worker_diagnostics H env (args_dry_run args)) \<rparr>"

text \<open>
  The rounds of the heartbeat and the requests sent: shutdown may come before a tick or while a request
  waits; every answer, a refusal or a failure included, is only logged.
\<close>

datatype PresenceRound = StoppedBefore | StoppedWaiting | Answered "bool option"

fun run_presence_heartbeat :: "WorkerHeartbeatRequest \<Rightarrow> PresenceRound list \<Rightarrow> WorkerHeartbeatRequest list" where
  "run_presence_heartbeat request [] = []"
| "run_presence_heartbeat request (StoppedBefore # _) = []"
| "run_presence_heartbeat request (StoppedWaiting # _) = [request]"
| "run_presence_heartbeat request (Answered _ # rounds) = request # run_presence_heartbeat request rounds"

section \<open>Default identities are canonical\<close>

lemma sanitized_characters: "c \<in> set (sanitized host) \<Longrightarrow> is_name_character c"
  by (auto simp: sanitized_def is_name_character_def is_name_boundary_def to_ascii_lowercase_def is_ascii_lowercase_def
      is_ascii_uppercase_def is_ascii_digit_def byte_def of_char_of)

lemma trim_dashes_set: "set (trim_dashes v) \<subseteq> set v"
  unfolding trim_dashes_def by (auto dest!: set_dropWhileD)

lemma trim_dashes_length: "length (trim_dashes v) \<le> length v"
  unfolding trim_dashes_def by (metis length_dropWhile_le length_rev le_trans)

lemma trim_dashes_hd:
  assumes "trim_dashes v \<noteq> []"
  shows "hd (trim_dashes v) \<noteq> CHR ''-''"
proof -
  define w where "w = dropWhile (\<lambda>c. c = CHR ''-'') v"
  obtain z where z: "w = trim_dashes v @ z"
    unfolding trim_dashes_def w_def
    by (metis rev_append rev_rev_ident takeWhile_dropWhile_id)
  then have "w \<noteq> []" "hd w = hd (trim_dashes v)" using assms by simp_all
  then show ?thesis using hd_dropWhile [of "\<lambda>c. c = CHR ''-''" v] by (simp add: w_def)
qed

lemma worker_name: "validate_resource_name ''worker'' = Inr ()"
  by code_simp

definition hex_digit :: "char \<Rightarrow> bool" where
  "hex_digit c \<longleftrightarrow> is_ascii_digit c \<or> CHR ''a'' \<le> c \<and> c \<le> CHR ''f''"

text \<open>
  C27. A worker that is given no identity finds a valid one: whatever the platform calls the host, the
  default identity is a canonical name of at most 63 bytes, so the worker's own check and the subjects and
  requests that carry it accept it.
\<close>

theorem default_worker_id_canonical:
  assumes "length random = 32" "list_all hex_digit random"
  shows "validate_token (default_worker_id host random)"
proof -
  have hex: "is_name_boundary c" if "c \<in> set random" for c
    using assms(2) that by (auto simp: list_all_iff hex_digit_def is_name_boundary_def is_ascii_lowercase_def less_eq_char_def byte_def)
  define v where "v = trim_dashes (take 46 (sanitized (case host of None \<Rightarrow> ''worker'' | Some h \<Rightarrow> h)))"
  define stem where "stem = (if v = [] then ''worker'' else v)"
  have v: "\<forall>c \<in> set v. is_name_character c"
    unfolding v_def using trim_dashes_set sanitized_characters by (blast dest: in_set_takeD)
  have short: "length v \<le> 46"
    unfolding v_def by (rule order_trans [OF trim_dashes_length]) simp
  have first: "is_name_boundary (hd v)" if "v \<noteq> []"
  proof -
    have "hd v \<noteq> CHR ''-''" using trim_dashes_hd that unfolding v_def by blast
    then show ?thesis using v hd_in_set [OF that] by (auto simp: is_name_character_def)
  qed
  have stem: "\<forall>c \<in> set stem. is_name_character c" "length stem \<le> 46" "stem \<noteq> []" "is_name_boundary (hd stem)"
    using v short first worker_name [unfolded validate_resource_name_Ok] by (auto simp: stem_def)
  have suff: "drop 16 random \<noteq> []" "\<forall>c \<in> set (drop 16 random). is_name_boundary c"
    using assms(1) hex by (auto dest: in_set_dropD)
  have "default_worker_id host random = stem @ ''-'' @ drop 16 random"
    using assms(1) by (simp add: default_worker_id_def stem_def v_def Let_def)
  moreover have "is_name_boundary (last random)" by (intro hex last_in_set) (use assms(1) in auto)
  then have "validate_resource_name (stem @ ''-'' @ drop 16 random) = Inr ()"
    unfolding validate_resource_name_Ok using stem suff assms(1)
    by (auto simp: is_name_character_def)
  ultimately show ?thesis by (simp add: validate_token_def is_ok_iff)
qed

theorem default_worker_id_canonical_witness:
  "validate_token (default_worker_id (Some ''--Build.Host_7'') ''0123456789abcdef0123456789abcdef'')"
  by (rule default_worker_id_canonical) (simp, code_simp)

section \<open>Presence is recorded\<close>

text \<open>A text the server accepts as identity of the host.\<close>

definition plain_text :: "nat \<Rightarrow> bytes \<Rightarrow> bool" where
  "plain_text n v \<longleftrightarrow> v \<noteq> [] \<and> length v \<le> n \<and> \<not> has_control v"

lemma has_control_NUL: "\<not> has_control v \<Longrightarrow> CHR 0x00 \<notin> set v"
  by (induction v) (auto simp: less_char_def)

lemma worker_diagnostics_valid:
  assumes "case host_name H of None \<Rightarrow> True | Some h \<Rightarrow> plain_text 255 h" "plain_text 255 (host_os H)" "plain_text 255 (host_architecture H)"
  shows "diagnostics_valid (worker_diagnostics H env dry_run)"
proof -
  have "plain_text 255 ''unknown''" "plain_text 255 ''/bin/sh''" by code_simp+
  moreover have "case safe_variable env n of None \<Rightarrow> True | Some t \<Rightarrow> length t \<le> 128 \<and> \<not> has_control t" for n
    by (simp add: safe_variable_def split: option.splits)
  ultimately show ?thesis
    using assms by (auto simp: diagnostics_valid_def worker_diagnostics_def plain_text_def split: option.splits)
qed

lemma heartbeat_recorded:
  assumes "validate_heartbeat request worker" "find_queue db (hb_queue_id request) \<noteq> None" "hb_diagnostics request = Some d"
    "json_storable (encode d)" "is_object (encode d)" "list_all (\<lambda>c. \<not> is_continuation c) (hb_version request)"
  shows "\<exists>db'. record_worker_heartbeat encode now request db = Inr (db', ()) \<and>
    (\<exists>w \<in> set (db_workers db'). wk_worker_id w = worker \<and> wk_session_id w = hb_session_id request \<and> wk_last_seen_at w = now)"
proof -
  have "char_count (hb_version request) = length (hb_version request)"
    using assms(6) by (simp add: char_count_def list_all_iff)
  then have ok: "1 \<le> char_count (hb_version request)" "char_count (hb_version request) \<le> 128"
    using assms(1) by (auto simp: validate_heartbeat_def Suc_le_eq)
  have name: "text_storable (hb_worker_id request)" "canonical (hb_worker_id request)"
    using assms(1) by (auto simp: validate_heartbeat_def is_ok_iff canonical_def text_storable_def validate_resource_name_Ok
        is_name_character_def is_name_boundary_def is_ascii_lowercase_def is_ascii_digit_def byte_def)
  show ?thesis
  proof (cases "find (\<lambda>w. wk_worker_id w = hb_worker_id request) (db_workers db)")
    case None
    then show ?thesis using assms ok name
      by (auto simp: record_worker_heartbeat_def validate_heartbeat_def text_storable_def)
  next
    case (Some w)
    then have "w \<in> set (db_workers db)" "wk_worker_id w = hb_worker_id request" by (auto simp: find_Some_iff)
    moreover obtain f where f: "record_worker_heartbeat encode now request db =
        Inr (db\<lparr> db_workers := update_where (\<lambda>w. wk_worker_id w = hb_worker_id request) f (db_workers db) \<rparr>, ())"
        "\<And>w. wk_worker_id (f w) = wk_worker_id w \<and> wk_session_id (f w) = hb_session_id request \<and> wk_last_seen_at (f w) = now"
      using Some assms ok name by (auto simp: record_worker_heartbeat_def validate_heartbeat_def text_storable_def)
    ultimately have "f w \<in> set (db_workers (db\<lparr> db_workers := update_where (\<lambda>w. wk_worker_id w = hb_worker_id request) f (db_workers db) \<rparr>))"
      by (force simp: update_where_def)
    then show ?thesis using f \<open>wk_worker_id w = hb_worker_id request\<close> assms(1) by (auto simp: validate_heartbeat_def)
  qed
qed

text \<open>
  C26. A started worker is seen: when the command line was accepted and the setup succeeded, every
  heartbeat the worker sends is accepted by the server and records the worker with its session as seen now,
  provided that its Queue still exists and that the host describes itself in plain, bounded texts.  The
  environment cannot spoil it.
\<close>

theorem worker_presence_accepted:
  assumes "worker_handler host random (Some matches) = Inr args"
    and "\<forall>c. rm_concurrency matches = Some c \<longrightarrow> 1 \<le> c \<and> c \<le> 256"
    and "worker_start N B env uuid_str ask ensure_consumer args = Inr (c, queue)"
    and "case host_name H of None \<Rightarrow> True | Some h \<Rightarrow> plain_text 255 h" "plain_text 255 (host_os H)" "plain_text 255 (host_architecture H)"
    and "plain_text 128 version" "list_all (\<lambda>c. \<not> is_continuation c) version"
    and "dec_heartbeat codec payload = Some request" "request \<in> set (run_presence_heartbeat (heartbeat_request H env version args (qref_id queue) session) rounds)"
    and "\<forall>d. diagnostics_valid d \<longrightarrow> json_storable (enc_diagnostics codec d) \<and> is_object (enc_diagnostics codec d)"
    and "find_queue db (qref_id queue) \<noteq> None"
  shows "\<exists>db'. handle_presence codec now \<lparr> msg_subject = presence_subject (args_worker_id args), msg_reply = True, msg_payload = payload \<rparr> db =
      (db', Replied (BoolReply True)) \<and>
    (\<exists>w \<in> set (db_workers db'). wk_worker_id w = args_worker_id args \<and> wk_session_id w = session \<and> wk_last_seen_at w = now)"
proof -
  let ?d = "worker_diagnostics H env (args_dry_run args)"
  have request: "request = heartbeat_request H env version args (qref_id queue) session"
    using assms(10) by (induction rounds rule: run_presence_heartbeat.induct) auto
  have token: "validate_token (args_worker_id args)" using assms(3) by (auto simp: worker_start_def)
  have d: "diagnostics_valid ?d" using worker_diagnostics_valid assms(4-6) by blast
  have "1 \<le> args_concurrency args \<and> args_concurrency args \<le> 256"
    using assms(1,2) by (auto simp: worker_handler_def Let_def)
  then have valid: "validate_heartbeat request (args_worker_id args)"
    using token d assms(7) has_control_NUL
    by (auto simp: validate_heartbeat_def request heartbeat_request_def validate_token_def plain_text_def)
  moreover obtain db' where "record_worker_heartbeat (enc_diagnostics codec) now request db = Inr (db', ())"
      "\<exists>w \<in> set (db_workers db'). wk_worker_id w = args_worker_id args \<and> wk_session_id w = session \<and> wk_last_seen_at w = now"
    using heartbeat_recorded [OF valid, of db ?d "enc_diagnostics codec" now] assms(8,11,12) d
    by (auto simp: request heartbeat_request_def)
  moreover have "token 3 (presence_subject (args_worker_id args)) = args_worker_id args" by (rule subject_tokens(2) [OF token])
  ultimately show ?thesis
    using assms(9,12) by (auto simp: handle_presence_def get_queue_def answer_def request heartbeat_request_def)
qed

section \<open>A worker on one host\<close>

definition sample_matches :: RunMatches where
  "sample_matches = \<lparr> rm_nats_url = Some ''nats://127.0.0.1:4222'', rm_queue = Some ''default'', rm_worker_id = None,
     rm_concurrency = Some 8, rm_dry_run = False, rm_log_format = None \<rparr>"

definition sample_host :: HostInfo where
  "sample_host = \<lparr> host_name = Some ''build-7'', host_os = ''linux'', host_architecture = ''x86_64'', host_shell_present = True \<rparr>"

definition sample_random :: bytes where "sample_random = ''0123456789abcdef0123456789abcdef''"

definition sample_started :: Args where
  "sample_started = \<lparr> args_nats_url = ''nats://127.0.0.1:4222'', args_queue = ''default'',
     args_worker_id = default_worker_id (Some ''build-7'') sample_random, args_concurrency = 8, args_dry_run = False,
     args_log_format = PrettyLog \<rparr>"

definition sample_environment :: environment where
  "sample_environment = (\<lambda>n. if n = ''TZ'' then Some [CHR 0x0A] else None)"

definition sample_heartbeat :: WorkerHeartbeatRequest where
  "sample_heartbeat = heartbeat_request sample_host sample_environment ''0.1.0'' sample_started 2 40"

definition presence_codec :: ControlCodec where
  "presence_codec = sample_codec\<lparr> dec_heartbeat := (\<lambda>_. Some sample_heartbeat), enc_diagnostics := (\<lambda>_. JObject []) \<rparr>"

theorem worker_presence_accepted_witness:
  "\<exists>db'. handle_presence presence_codec 5 \<lparr> msg_subject = presence_subject (args_worker_id sample_started), msg_reply = True, msg_payload = [] \<rparr> sample_db =
      (db', Replied (BoolReply True)) \<and>
    (\<exists>w \<in> set (db_workers db'). wk_worker_id w = args_worker_id sample_started \<and> wk_session_id w = 40 \<and> wk_last_seen_at w = 5)"
proof (rule worker_presence_accepted [where N = sample_nats_env and B = "sample_broker True" and rounds = "[Answered None]" and
      queue = "\<lparr> qref_id = 2, qref_name = ''default'' \<rparr>" and ask = "\<lambda>_ _. ResolutionReply \<lparr> qres_status = ResolutionReady,
        qres_queue = Some \<lparr> qref_id = 2, qref_name = ''default'' \<rparr> \<rparr>" and ensure_consumer = "\<lambda>_ _. True"])
  show "worker_handler (Some ''build-7'') sample_random (Some sample_matches) = Inr sample_started"
    by (simp add: worker_handler_def sample_matches_def sample_started_def Let_def)
  show "\<forall>c. rm_concurrency sample_matches = Some c \<longrightarrow> 1 \<le> c \<and> c \<le> 256" by (simp add: sample_matches_def)
  show "case host_name sample_host of None \<Rightarrow> True | Some h \<Rightarrow> plain_text 255 h" "plain_text 255 (host_os sample_host)"
    "plain_text 255 (host_architecture sample_host)" "plain_text 128 ''0.1.0''" "list_all (\<lambda>c. \<not> is_continuation c) ''0.1.0''"
    by code_simp+
  show "dec_heartbeat presence_codec [] = Some sample_heartbeat" by (simp add: presence_codec_def)
  show "sample_heartbeat \<in> set (run_presence_heartbeat (heartbeat_request sample_host sample_environment ''0.1.0'' sample_started
      (qref_id \<lparr> qref_id = 2, qref_name = ''default'' \<rparr>) 40) [Answered None])" by (simp add: sample_heartbeat_def)
  show "\<forall>d. diagnostics_valid d \<longrightarrow> json_storable (enc_diagnostics presence_codec d) \<and> is_object (enc_diagnostics presence_codec d)"
    by (simp add: presence_codec_def)
  show "find_queue sample_db (qref_id \<lparr> qref_id = 2, qref_name = ''default'' \<rparr>) \<noteq> None" by code_simp
  show "worker_start sample_nats_env (sample_broker True) sample_environment (\<lambda>_. []) (\<lambda>_ _. ResolutionReply \<lparr> qres_status = ResolutionReady,
        qres_queue = Some \<lparr> qref_id = 2, qref_name = ''default'' \<rparr> \<rparr>) (\<lambda>_ _. True) sample_started = Inr ((), \<lparr> qref_id = 2, qref_name = ''default'' \<rparr>)"
    by code_simp
qed

end
