(* ===== verification/Database.thy ===== *)
theory Database
  imports Dispatcher
begin

text \<open>
  The configuration of the PostgreSQL pool (\<open>infrastructure/database.rs\<close>).  Durations are kept in the unit they
  are configured in: milliseconds for the acquire timeout, seconds for idle time and lifetime.
\<close>

section \<open>Model\<close>

definition MAX_CONNECTIONS_LIMIT :: int where "MAX_CONNECTIONS_LIMIT = 200"
definition ACQUIRE_TIMEOUT_MIN :: int where "ACQUIRE_TIMEOUT_MIN = 100"
definition ACQUIRE_TIMEOUT_MAX :: int where "ACQUIRE_TIMEOUT_MAX = 30 * 1000"
definition IDLE_TIMEOUT_MIN :: int where "IDLE_TIMEOUT_MIN = 10"
definition MAX_LIFETIME_MIN :: int where "MAX_LIFETIME_MIN = 60"
definition MAX_LIFETIME_MAX :: int where "MAX_LIFETIME_MAX = 24 * 60 * 60"

lemmas pool_bounds = MAX_CONNECTIONS_LIMIT_def ACQUIRE_TIMEOUT_MIN_def ACQUIRE_TIMEOUT_MAX_def IDLE_TIMEOUT_MIN_def
  MAX_LIFETIME_MIN_def MAX_LIFETIME_MAX_def

record DatabasePoolConfig =
  max_connections :: int
  min_connections :: int
  acquire_timeout :: int
  idle_timeout :: int
  max_lifetime :: int

definition DatabasePoolConfig_default :: DatabasePoolConfig where
  "DatabasePoolConfig_default =
     \<lparr> max_connections = 20, min_connections = 2, acquire_timeout = 3000, idle_timeout = 10 * 60, max_lifetime = 30 * 60 \<rparr>"

datatype PoolError =
    PoolVariable ConfigError | MaxConnections | MinConnections | AcquireTimeout | MaxLifetime | IdleTimeout

definition pool_validate :: "DatabasePoolConfig \<Rightarrow> (PoolError, unit) result" where
  "pool_validate c =
     (if \<not> (1 \<le> max_connections c \<and> max_connections c \<le> MAX_CONNECTIONS_LIMIT) then Err MaxConnections
      else if min_connections c > max_connections c then Err MinConnections
      else if \<not> (ACQUIRE_TIMEOUT_MIN \<le> acquire_timeout c \<and> acquire_timeout c \<le> ACQUIRE_TIMEOUT_MAX) then Err AcquireTimeout
      else if \<not> (MAX_LIFETIME_MIN \<le> max_lifetime c \<and> max_lifetime c \<le> MAX_LIFETIME_MAX) then Err MaxLifetime
      else if idle_timeout c < IDLE_TIMEOUT_MIN \<or> idle_timeout c \<ge> max_lifetime c then Err IdleTimeout
      else Ok ())"

definition pool_from_env :: "environment \<Rightarrow> (PoolError, DatabasePoolConfig) result" where
  "pool_from_env env =
     (let setting = (\<lambda>bound name fallback. map_err PoolVariable (env_value env bound name fallback)) in
      and_then (setting u32_max ''CRONO_DATABASE_MAX_CONNECTIONS'' 20) (\<lambda>maximum.
      and_then (setting u32_max ''CRONO_DATABASE_MIN_CONNECTIONS'' 2) (\<lambda>minimum.
      and_then (setting u64_max ''CRONO_DATABASE_ACQUIRE_TIMEOUT_MS'' 3000) (\<lambda>acquire.
      and_then (setting u64_max ''CRONO_DATABASE_IDLE_TIMEOUT_SECONDS'' (10 * 60)) (\<lambda>idle.
      and_then (setting u64_max ''CRONO_DATABASE_MAX_LIFETIME_SECONDS'' (30 * 60)) (\<lambda>lifetime.
      let config = \<lparr> max_connections = maximum, min_connections = minimum, acquire_timeout = acquire, idle_timeout = idle,
                     max_lifetime = lifetime \<rparr> in
      and_then (pool_validate config) (\<lambda>_. Ok config)))))))"

text \<open>The options handed to the pool.\<close>

record PgPoolOptions =
  opt_max_connections :: int
  opt_min_connections :: int
  opt_acquire_timeout :: int
  opt_idle_timeout :: "int option"
  opt_max_lifetime :: "int option"
  opt_test_before_acquire :: bool

definition pool_options :: "DatabasePoolConfig \<Rightarrow> PgPoolOptions" where
  "pool_options c =
     \<lparr> opt_max_connections = max_connections c, opt_min_connections = min_connections c,
       opt_acquire_timeout = acquire_timeout c, opt_idle_timeout = Some (idle_timeout c), opt_max_lifetime = Some (max_lifetime c),
       opt_test_before_acquire = True \<rparr>"

section \<open>Accepted configurations\<close>

lemma pool_validate_Ok:
  "pool_validate c = Inr () \<longleftrightarrow>
     1 \<le> max_connections c \<and> max_connections c \<le> 200 \<and> min_connections c \<le> max_connections c \<and>
     100 \<le> acquire_timeout c \<and> acquire_timeout c \<le> 30000 \<and>
     10 \<le> idle_timeout c \<and> idle_timeout c < max_lifetime c \<and> 60 \<le> max_lifetime c \<and> max_lifetime c \<le> 86400"
  by (auto simp: pool_validate_def pool_bounds)

text \<open>An empty environment selects the defaults, and a server never starts with a pool outside the bounds.\<close>

lemma pool_from_env_default: "pool_from_env (\<lambda>_. None) = Inr DatabasePoolConfig_default"
  by (simp add: pool_from_env_def env_value_def DatabasePoolConfig_default_def pool_validate_Ok Let_def)

lemma digits_nonneg: "list_all is_digit ds \<Longrightarrow> 0 \<le> n \<Longrightarrow> 0 \<le> foldl (\<lambda>n c. 10 * n + int (of_char c) - 48) n ds"
  by (induction ds arbitrary: n) (auto simp: is_digit_def less_eq_char_def)

lemma env_value_nonneg: "env_value env bound name fallback = Inr v \<Longrightarrow> 0 \<le> fallback \<Longrightarrow> 0 \<le> v"
  using digits_nonneg [of _ 0] by (auto simp: env_value_def parse_unsigned_def Let_def split: option.splits if_splits)

text \<open>
  A pool that is started can serve the loops: at least one and at most 200 connections, a warm floor that is not above
  the ceiling, a bounded wait, and idle connections that close before they are replaced.
\<close>

theorem pool_from_env_bounded:
  assumes "pool_from_env env = Inr c"
  defines "p \<equiv> pool_options c"
  shows "1 \<le> opt_max_connections p \<and> opt_max_connections p \<le> 200 \<and>
    0 \<le> opt_min_connections p \<and> opt_min_connections p \<le> opt_max_connections p \<and>
    100 \<le> opt_acquire_timeout p \<and> opt_acquire_timeout p \<le> 30000 \<and>
    (\<exists>i l. opt_idle_timeout p = Some i \<and> opt_max_lifetime p = Some l \<and> 10 \<le> i \<and> i < l \<and> 60 \<le> l \<and> l \<le> 86400)"
  using assms(1) by (auto simp: pool_from_env_def Let_def pool_validate_Ok p_def pool_options_def dest: env_value_nonneg)

end
