(* ===== verification/Spec2Isabelle.thy ===== *)
theory Spec2Isabelle
  imports Operations Listings WorkflowLiveness GrantCodec ConsoleForms WorkerProcess Database
begin

text \<open>
  Crono: a verified model of the control plane and the worker.

  Crono runs Jobs on Targets.  A server keeps all state in PostgreSQL and offers an application service
  to its HTTP interface; a scheduler turns Schedules into Runs; a dispatcher moves dispatch messages from
  an outbox table to a NATS stream; workers take messages from the stream, claim the Attempt a message
  names, execute it and report the result; a reconciler repairs expired work and drives Workflows, which
  are graphs of Jobs.  The parts meet only in the store and in messages, so the development models each
  part as functions on the store's state and composes them in step relations.

  \<^bold>\<open>Conventions.\<close>  A table of \<open>db/sql\<close> is a list of records of the state record \<open>Db\<close>; a store transaction is a
  function \<open>Db \<Rightarrow> (StoreError, Db \<times> 'a) result\<close> and a failed one changes nothing.  \<open>Result\<close> is a sum type with
  \<open>Ok\<close>, \<open>Err\<close> and \<open>and_then\<close>; every early return and error of the source is a branch.  Text is a list of
  bytes (\<open>char list\<close>), time is an integer number of nanoseconds, machine integers are integers with their
  bounds and saturation written out where the code relies on them.  New identifiers come from the counter
  \<open>db_next_id\<close>, which stands for the random UUIDs of the code: all that is used of them is that they are
  new.  The clock of a transaction (\<open>now\<close>), the clock of the process (\<open>utc\<close>) and the rows other transactions
  have locked (\<open>SKIP LOCKED\<close>) are arguments.

  \<^bold>\<open>Theories and sources\<close> (paths under \<open>src/\<close>; \<open>server\<close> is \<open>services/server/src\<close>, \<open>worker\<close> is \<open>services/worker/src\<close>).
  \<^item> \<open>Prelude\<close>: results, options, updates of rows, ordered maps (locale \<open>ordered_map\<close>, interpreted by the sorted
    association lists that stand for \<open>BTreeMap\<close>).
  \<^item> \<open>Names\<close>, \<open>Inputs\<close>, \<open>Domain\<close>: canonical names (\<open>crates/api\<close>, \<open>server/domain\<close>), input objects and argument
    templates (\<open>crates/execution/src/lib.rs\<close>), entities and their persisted forms.
  \<^item> \<open>Scheduling\<close>: misfires, cron recurrence and planning (\<open>server/scheduler\<close>); the interface of a recurrence is the
    locale \<open>recurrence\<close>, interpreted by the model of \<open>next_cron_occurrence\<close>.
  \<^item> \<open>WorkflowGraph\<close>: Workflow definitions, their validation by Kahn's algorithm and the join of dependencies
    (\<open>server/domain/workflow.rs\<close>).
  \<^item> \<open>Store\<close>, \<open>RunStore\<close>: the tables and the transactions on Schedules, Runs, Attempts and the outbox
    (\<open>server/infrastructure/postgres.rs\<close>).  \<open>RunInvariant\<close> and \<open>RunLifecycle\<close> prove their invariant \<open>run_inv\<close>;
    \<open>RunHistory\<close> what no transaction undoes, once for every relation that satisfies the locale \<open>history\<close>;
    \<open>RunProperties\<close> the promises to clients; \<open>Samples\<close> a small installation for the witnesses.
  \<^item> \<open>WorkflowStore\<close>, \<open>WorkflowEngine\<close>: stored Workflows, launch, propagation and cancellation
    (\<open>server/infrastructure/postgres/workflows.rs\<close>).  \<open>WorkflowInvariant\<close> and \<open>WorkflowLaunch\<close> prove \<open>wf_inv\<close>.
  \<^item> \<open>StoreSteps\<close>: the transactions as one relation \<open>db_step\<close>, which keeps both invariants.
  \<^item> \<open>Catalog\<close>, \<open>Reads\<close>: the other tables and the read models (\<open>postgres.rs\<close>).
  \<^item> \<open>Authorization\<close>: capabilities, grants and the policy (\<open>server/application/auth\<close>); what the policy needs of the
    store is the locale \<open>namespace_resolver\<close> and its extension \<open>membership\<close>, interpreted by the store.
  \<^item> \<open>Service\<close>, \<open>WorkflowService\<close>: the application service (\<open>server/application/service.rs\<close>, \<open>workflows.rs\<close>).  \<open>Requests\<close>
    lists every request that changes state with the decisions it requires.
  \<^item> \<open>Authentication\<close>: credentials and the development provider (\<open>server/authentication.rs\<close>, \<open>server/authentication/config.rs\<close>).
    \<open>GrantCodec\<close>: the documents of identity providers, with the hand-written serialisation of scopes
    (\<open>server/application/auth/grants.rs\<close>).
  \<^item> \<open>Http\<close>: error envelopes, request correlation and the authentication layer (\<open>server/api/error.rs\<close>, \<open>extract.rs\<close>,
    \<open>request_id.rs\<close>, \<open>authentication.rs\<close>, \<open>mod.rs\<close>).  \<open>Resources\<close>: the public records and their conversions (\<open>crates/api\<close>,
    \<open>server/api/handlers\<close>).  \<open>Handlers\<close>: one function per handler, the table of calls and the layered service.  \<open>Api\<close>: the
    properties of the API as a whole.
  \<^item> \<open>Monitor\<close>: metrics, the aggregates of the store, the monitor resource and the probes (\<open>server/metrics.rs\<close>,
    \<open>server/api/handlers/monitor.rs\<close>, \<open>health.rs\<close>, \<open>server/api/state.rs\<close>).
  \<^item> \<open>Dispatcher\<close>: configuration, backoff and one batch of publications (\<open>server/infrastructure/dispatcher.rs\<close>).
  \<^item> \<open>Nats\<close>: the client configuration (\<open>crates/nats/src/lib.rs\<close>), the connection manager and the transport of the server
    (\<open>server/infrastructure/nats.rs\<close>), and the dispatcher's loop over it.  \<open>Database\<close>: the configuration of the
    PostgreSQL pool (\<open>server/infrastructure/database.rs\<close>).
  \<^item> \<open>WorkerControl\<close>: the server's answers to workers (\<open>server/infrastructure/worker_control.rs\<close>).
  \<^item> \<open>Redaction\<close>, \<open>Runner\<close>, \<open>Worker\<close>: the worker (\<open>worker/execution\<close>, \<open>worker/cli/actions/run.rs\<close>).  \<open>WorkerProcess\<close>:
    its command line, setup, fetch loop and presence (\<open>worker/cli/dispatch/mod.rs\<close>, \<open>run.rs\<close>).
  \<^item> \<open>System\<close>: store, dispatchers, stream and workers interleaved (\<open>sys_step\<close>), and the simulation of an abstract
    machine for Attempts (locale \<open>simulation\<close>, interpreted by \<open>sys_step\<close>).
  \<^item> \<open>WorkflowProgress\<close>: the order of Workflows in the running system.  \<open>WorkflowSignals\<close>, \<open>WorkflowLiveness\<close>: every
    unfinished Workflow is backed by work that can still move it.  \<open>Observed\<close>: what clients of the API see.
    \<open>Listings\<close>: the Run history page by page.
    \<open>Operations\<close>: the scheduler's loop (\<open>server/scheduler/planner.rs\<close>) and what the monitor shows.
  \<^item> \<open>Layout\<close>, \<open>Console\<close>: the preview of a Workflow and its editor in the web console (\<open>apps/web/src/workflow_layout.rs\<close>,
    \<open>pages/workflows\<close>, \<open>api.rs\<close>, \<open>components/forms.rs\<close>).  \<open>ConsoleForms\<close>: derived node names, saving, the explanation of
    skipped nodes and the Job form (\<open>pages/workflows/form.rs\<close>, \<open>node_list.rs\<close>, \<open>pages/jobs/form.rs\<close>).

  \<^bold>\<open>What is shown.\<close>
  \<^item> Executions: however the processes interleave, with redelivery, duplicates, lost replies and crashes, no
    Attempt is begun twice and a Run is executed at most as often as it may be attempted; the life of an Attempt
    refines an abstract machine; a claim and a completion succeed once and only for the right worker.
  \<^item> Requests: manual requests and re-runs are idempotent, create one Run per Target with the rendered
    execution; an occurrence of a Schedule is recorded once; a completion decides the Run's next state.
  \<^item> Delivery: a batch publishes a due and unlocked message whenever fewer due and unlocked ones than the batch
    holds are ahead of it, whatever rows other dispatchers have locked; the backoff is bounded and does not overflow; an outage
    of NATS loses no execution and the server reconnects by itself; the NATS identity is never guessed.
  \<^item> Schedules: given that the cron library misses only minutes of a repeated hour, the recurrence is the
    first matching minute after the cursor; planning advances the cursor, catch-up is complete
    up to its limit, misfire decisions and deadlines agree, a tick of the scheduler moves
    every planned Schedule past the time of its own planning or, for one without a further occurrence, disables it.
  \<^item> Operation: the counts of the monitor agree with the store.
  \<^item> Editor: its preview ends for every draft and agrees with the validation of the server, layers follow the edges, cards
    do not collide, a Workflow edited without changes is sent as it was stored, derived node names are free, a skip is
    explained exactly when the server's join skips, and an enabled Job form sends what the server's local checks accept.
  \<^item> Workflows: validation is exact, nodes start only after their dependencies, a running invocation always has a running
    node that is backed by an unfinished Run or by a completion the reconciler has yet to consume, and after reconciling it
    every running node has an unfinished Run.
  \<^item> Authority: a decision allows exactly what a grant covers, every HTTP request that changes the store
    carried a verified credential whose grants allow it, authentication accepts exactly the configured secret, hidden
    and absent history get the same response, following the cursors of the Run listing shows exactly the Runs that can be
    read one by one, each once; grant documents round-trip through the serialisation of the code.
  \<^item> Worker: secrets do not appear in captured output, dry runs execute nothing, Queue resolution ends, live output
    passes the server's validation, a worker changes only its own Attempts, its default identity is canonical and the
    presence of a started worker is accepted and recorded.
  \<^item> Defects the model shows: a dispatch is lost when its message is delivered before its publication is recorded
    (\<open>lost_dispatch_forever\<close>), and a catch-up limit of one is used up by
    the summary of old occurrences (\<open>catchup_limit_one_old_cursor\<close>).

  \<^bold>\<open>Bounds and termination.\<close>  There is no fuel: loops are structural recursions or functions with a termination
  proof (the cron search by its end, Kahn's algorithm by the remaining in-degrees, propagation by the pending
  nodes, Queue resolution by the remaining attempts, decoding and replacement by the length of the text); the
  traversal of the preview is a partial function that is shown to return for every draft.  Endless loops of the
  processes run over a list of rounds, one per tick until shutdown.
  The limits of the code (64 KiB inputs, 64 KiB output, 16 KiB live tails, 64 nodes, 256 edges, 4096 executions
  per launch, 100 attempts) are constants of the model.

  \<^bold>\<open>Parameters.\<close>  Code outside the repository is an argument: the JSON encoder and decoder, the printing and parsing of
  UUIDs, the equality of \<open>jsonb\<close>,
  the cron and time zone libraries, the RFC 3339 formatter, routing and request decoding of axum and serde, the
  NATS client with its broker, key pairs and files, the child process, PostgreSQL's statistics and the browser's storage.
  The retry delay uses floating
  point arithmetic and is a parameter of the completion transaction.

  \<^bold>\<open>Not modelled.\<close>  The OpenAPI document, the encoding of metrics, telemetry, sockets, signals and timers around the
  modelled rounds, the command line client, the views and the other forms of the web console, and the worker's console
  output: input, output and presentation without state of their own.
\<close>

end
